(* ===== verification/Prelude.thy ===== *)
theory Prelude
  imports Main "HOL-Library.Multiset" "HOL-Library.Product_Lexorder" "HOL-Library.List_Lexorder" "HOL-Library.Char_ord"
begin

text \<open>
  Shared vocabulary of the development: the exceptions of the program as values, the two
  kinds of effect the Python code has (a query that only reads the database, and an effect
  that may also change it), the combinators that mirror \<open>try/except\<close>, \<open>with atomic\<close> and
  \<open>for\<close>, and the lemmas about them and about lists that the components share.
\<close>

section \<open>Exceptions and results\<close>

text \<open>
  \<open>DbError\<close> stands for Django's \<open>ProgrammingError\<close> and \<open>OperationalError\<close>, which the source
  always handles together. \<open>FieldDoesNotExist\<close> is what a queryset update raises for a column
  the model does not have.
\<close>

datatype exc =
    ValueError string
  | TypeError
  | KeyError
  | OverflowError
  | RecursionError
  | DbError
  | IntegrityError
  | FieldDoesNotExist string
  | ValidationError string
  | WrongArguments string
  | BadRequest string
  | PermissionDenied string
  | NotFound
  | AttributeError string
  | DoesNotExist
  | NotAuthenticated
  | Blocked string
  | RuntimeError string
  | AssertionError
  | IndexError
  | MultipleObjectsReturned
  | DataError
  | NotEnoughSlots string

type_synonym 'a res = "exc + 'a"
type_synonym ('s, 'a) qry = "'s \<Rightarrow> exc + 'a"
type_synonym ('s, 'a) eff = "'s \<Rightarrow> (exc + 'a) \<times> 's"

section \<open>Queries: code that only reads\<close>

definition retQ :: "'a \<Rightarrow> ('s, 'a) qry" where
  "retQ x = (\<lambda>s. Inr x)"

definition raiseQ :: "exc \<Rightarrow> ('s, 'a) qry" where
  "raiseQ e = (\<lambda>s. Inl e)"

definition bindQ :: "('s, 'a) qry \<Rightarrow> ('a \<Rightarrow> ('s, 'b) qry) \<Rightarrow> ('s, 'b) qry" where
  "bindQ q f = (\<lambda>s. case q s of Inl e \<Rightarrow> Inl e | Inr x \<Rightarrow> f x s)"

text \<open>\<open>try: return q except (ProgrammingError, OperationalError): return d\<close>\<close>

definition on_dbQ :: "('s, 'a) qry \<Rightarrow> 'a \<Rightarrow> ('s, 'a) qry" where
  "on_dbQ q d = (\<lambda>s. case q s of Inl e \<Rightarrow> (if e = DbError then Inr d else Inl e) | Inr x \<Rightarrow> Inr x)"

section \<open>Effects: code that may change the database\<close>

definition retE :: "'a \<Rightarrow> ('s, 'a) eff" where
  "retE x = (\<lambda>s. (Inr x, s))"

definition raiseE :: "exc \<Rightarrow> ('s, 'a) eff" where
  "raiseE e = (\<lambda>s. (Inl e, s))"

definition bindE :: "('s, 'a) eff \<Rightarrow> ('a \<Rightarrow> ('s, 'b) eff) \<Rightarrow> ('s, 'b) eff" where
  "bindE m f = (\<lambda>s. case m s of (Inl e, s') \<Rightarrow> (Inl e, s') | (Inr x, s') \<Rightarrow> f x s')"

definition liftE :: "('s, 'a) qry \<Rightarrow> ('s, 'a) eff" where
  "liftE q = (\<lambda>s. (q s, s))"

text \<open>\<open>handleE m h\<close> is \<open>try: m except ...\<close>; the handler says which exceptions it takes.\<close>

definition handleE :: "('s, 'a) eff \<Rightarrow> (exc \<Rightarrow> ('s, 'a) eff option) \<Rightarrow> ('s, 'a) eff" where
  "handleE m h = (\<lambda>s. case m s of
      (Inr x, s') \<Rightarrow> (Inr x, s')
    | (Inl e, s') \<Rightarrow> (case h e of None \<Rightarrow> (Inl e, s') | Some k \<Rightarrow> k s'))"

definition on_db :: "('s, 'a) eff \<Rightarrow> 'a \<Rightarrow> ('s, 'a) eff" where
  "on_db m d = handleE m (\<lambda>e. if e = DbError then Some (retE d) else None)"

text \<open>\<open>with transaction.atomic()\<close>: an exception restores the state before the block.\<close>

definition atomicE :: "('s, 'a) eff \<Rightarrow> ('s, 'a) eff" where
  "atomicE m = (\<lambda>s. case m s of (Inl e, s') \<Rightarrow> (Inl e, s) | (Inr x, s') \<Rightarrow> (Inr x, s'))"

fun forE :: "'a list \<Rightarrow> ('a \<Rightarrow> ('s, unit) eff) \<Rightarrow> ('s, unit) eff" where
  "forE [] f = retE ()"
| "forE (x # xs) f = bindE (f x) (\<lambda>_. forE xs f)"

fun mapE :: "'a list \<Rightarrow> ('a \<Rightarrow> ('s, 'b) eff) \<Rightarrow> ('s, 'b list) eff" where
  "mapE [] f = retE []"
| "mapE (x # xs) f = bindE (f x) (\<lambda>y. bindE (mapE xs f) (\<lambda>ys. retE (y # ys)))"

named_theorems effs "unfolding rules of the effect combinators"

lemma retQ_apply [effs, simp]: "retQ x s = Inr x"
  by (simp add: retQ_def)

lemma raiseQ_apply [effs, simp]: "raiseQ e s = Inl e"
  by (simp add: raiseQ_def)

lemma bindQ_apply [effs]: "bindQ q f s = (case q s of Inl e \<Rightarrow> Inl e | Inr x \<Rightarrow> f x s)"
  by (simp add: bindQ_def)

lemma on_dbQ_apply [effs]:
  "on_dbQ q d s = (case q s of Inl e \<Rightarrow> (if e = DbError then Inr d else Inl e) | Inr x \<Rightarrow> Inr x)"
  by (simp add: on_dbQ_def)

lemma retE_apply [effs]: "retE x s = (Inr x, s)"
  by (simp add: retE_def)

lemma raiseE_apply [effs]: "raiseE e s = (Inl e, s)"
  by (simp add: raiseE_def)

lemma bindE_apply [effs]:
  "bindE m f s = (case m s of (Inl e, s') \<Rightarrow> (Inl e, s') | (Inr x, s') \<Rightarrow> f x s')"
  by (simp add: bindE_def)

lemma liftE_apply [effs, simp]: "liftE q s = (q s, s)"
  by (simp add: liftE_def)

lemma handleE_apply [effs]:
  "handleE m h s = (case m s of
      (Inr x, s') \<Rightarrow> (Inr x, s')
    | (Inl e, s') \<Rightarrow> (case h e of None \<Rightarrow> (Inl e, s') | Some k \<Rightarrow> k s'))"
  by (simp add: handleE_def)

lemma on_db_apply [effs]:
  "on_db m d s = (case m s of
      (Inr x, s') \<Rightarrow> (Inr x, s')
    | (Inl e, s') \<Rightarrow> (if e = DbError then (Inr d, s') else (Inl e, s')))"
  by (simp add: on_db_def handleE_def retE_def split: sum.split prod.split)

lemma atomicE_apply [effs]:
  "atomicE m s = (case m s of (Inl e, s') \<Rightarrow> (Inl e, s) | (Inr x, s') \<Rightarrow> (Inr x, s'))"
  by (simp add: atomicE_def)

text \<open>Inversion of a bind, the step every functional proof takes.\<close>

lemma bindE_Inr:
  "bindE m f s = (Inr y, t) \<longleftrightarrow> (\<exists>x s'. m s = (Inr x, s') \<and> f x s' = (Inr y, t))"
  by (auto simp: bindE_apply split: prod.splits sum.splits)

lemma bindE_ok: "m s = (Inr x, s') \<Longrightarrow> bindE m f s = f x s'"
  by (simp add: bindE_apply)

lemma bindE_err: "m s = (Inl e, s') \<Longrightarrow> bindE m f s = (Inl e, s')"
  by (simp add: bindE_apply)

lemma bindE_lift: "bindE (liftE q) f s = (case q s of Inl e \<Rightarrow> (Inl e, s) | Inr x \<Rightarrow> f x s)"
  by (simp add: bindE_apply split: sum.split)

lemma bindE_ret [simp]: "bindE (retE x) f = f x"
  by (simp add: bindE_def retE_def)

lemma bindE_raise [simp]: "bindE (raiseE e) f = raiseE e"
  by (simp add: bindE_def raiseE_def)

lemma bindE_Pair [simp]: "bindE (Pair (Inr x)) f = f x" "bindE (Pair (Inl e)) f = Pair (Inl e)"
  by (simp_all add: bindE_def)

lemma bindQ_Inr: "bindQ q f s = Inr y \<longleftrightarrow> (\<exists>x. q s = Inr x \<and> f x s = Inr y)"
  by (auto simp: bindQ_apply split: sum.splits)

lemma bindQ_ret [simp]: "bindQ (retQ x) f = f x"
  by (simp add: bindQ_def retQ_def)

lemma bindE_assoc: "bindE (bindE m f) g = bindE m (\<lambda>x. bindE (f x) g)"
  by (rule ext) (simp add: bindE_apply split: prod.split sum.split)

lemma atomicE_Inl: "atomicE m s = (Inl e, s') \<Longrightarrow> s' = s"
  by (auto simp: atomicE_apply split: prod.splits sum.splits)

lemma atomicE_Inr: "atomicE m s = (Inr x, s') \<longleftrightarrow> m s = (Inr x, s')"
  by (auto simp: atomicE_apply split: prod.splits sum.splits)

lemma forE_append: "forE (xs @ ys) f = bindE (forE xs f) (\<lambda>_. forE ys f)"
  by (induction xs) (simp_all add: bindE_assoc)

section \<open>Relations that every run of an effect obeys\<close>

text \<open>
  \<open>obeys R m\<close>: whatever \<open>m\<close> returns or raises, the states before and after are related
  by \<open>R\<close>. For a preorder the property composes along every combinator; the locale states
  that once, and each component interprets it on its own relation.
\<close>

definition obeys :: "('s \<Rightarrow> 's \<Rightarrow> bool) \<Rightarrow> ('s, 'a) eff \<Rightarrow> bool" where
  "obeys R m \<longleftrightarrow> (\<forall>s. R s (snd (m s)))"

lemma obeysI: "(\<And>s. R s (snd (m s))) \<Longrightarrow> obeys R m"
  by (simp add: obeys_def)

lemma obeysD: "obeys R m \<Longrightarrow> R s (snd (m s))"
  by (simp add: obeys_def)

lemma obeysD2: "obeys R m \<Longrightarrow> m s = (r, s') \<Longrightarrow> R s s'"
  by (metis obeysD snd_conv)

locale effect_preorder =
  fixes R :: "'s \<Rightarrow> 's \<Rightarrow> bool"
  assumes refl: "R s s"
    and trans: "R s t \<Longrightarrow> R t u \<Longrightarrow> R s u"
begin

lemma obeys_ret: "obeys R (retE x)"
  by (simp add: obeys_def refl retE_apply)

lemma obeys_raise: "obeys R (raiseE e)"
  by (simp add: obeys_def refl raiseE_apply)

lemma obeys_lift: "obeys R (liftE q)"
  by (simp add: obeys_def refl)

lemma obeys_bind: "obeys R m \<Longrightarrow> (\<And>x. obeys R (f x)) \<Longrightarrow> obeys R (bindE m f)"
  by (rule obeysI) (force simp: bindE_apply refl obeys_def intro: trans
      split: prod.split sum.split)

lemma obeys_bind_lift:
  "(\<And>s x. q s = Inr x \<Longrightarrow> R s (snd (f x s))) \<Longrightarrow> obeys R (bindE (liftE q) f)"
  by (rule obeysI) (auto simp: bindE_lift refl split: sum.split)

lemma obeys_handle:
  "obeys R m \<Longrightarrow> (\<And>e k. h e = Some k \<Longrightarrow> obeys R k) \<Longrightarrow> obeys R (handleE m h)"
  by (rule obeysI) (force simp: handleE_apply refl obeys_def intro: trans
      split: prod.split sum.split option.split)

lemma obeys_on_db: "obeys R m \<Longrightarrow> obeys R (on_db m d)"
  unfolding on_db_def by (rule obeys_handle) (auto simp: obeys_ret split: if_splits)

lemma obeys_atomic: "obeys R m \<Longrightarrow> obeys R (atomicE m)"
  by (rule obeysI) (auto simp: atomicE_apply refl dest: obeysD2 split: prod.split sum.split)

lemma obeys_for: "(\<And>x. x \<in> set xs \<Longrightarrow> obeys R (f x)) \<Longrightarrow> obeys R (forE xs f)"
  by (induction xs) (auto intro: obeys_ret obeys_bind)

lemma obeys_map: "(\<And>x. x \<in> set xs \<Longrightarrow> obeys R (f x)) \<Longrightarrow> obeys R (mapE xs f)"
  by (induction xs) (auto intro!: obeys_ret obeys_bind)

lemma obeys_if: "(b \<Longrightarrow> obeys R m) \<Longrightarrow> (\<not> b \<Longrightarrow> obeys R k) \<Longrightarrow> obeys R (if b then m else k)"
  by simp

lemma obeys_option:
  "(x = None \<Longrightarrow> obeys R m) \<Longrightarrow> (\<And>y. x = Some y \<Longrightarrow> obeys R (k y)) \<Longrightarrow>
    obeys R (case x of None \<Rightarrow> m | Some y \<Rightarrow> k y)"
  by (cases x) auto

text \<open>The same rules at one state, for steps whose effect depends on what was read before.\<close>

lemma run_bind:
  "R s (snd (m s)) \<Longrightarrow> (\<And>x s'. m s = (Inr x, s') \<Longrightarrow> R s' (snd (f x s'))) \<Longrightarrow> R s (snd (bindE m f s))"
  by (auto simp: bindE_apply split: prod.split sum.split intro: trans)

lemma run_lift: "(\<And>x. q s = Inr x \<Longrightarrow> R s (snd (f x s))) \<Longrightarrow> R s (snd (bindE (liftE q) f s))"
  by (auto simp: bindE_lift refl split: sum.split)

lemma run_ret: "R s (snd (retE x s))"
  by (simp add: retE_apply refl)

lemma run_handle:
  "R s (snd (m s)) \<Longrightarrow> (\<And>e k s'. h e = Some k \<Longrightarrow> R s' (snd (k s'))) \<Longrightarrow> R s (snd (handleE m h s))"
  by (auto simp: handleE_apply split: prod.split sum.split option.split intro: trans)

lemma run_on_db: "R s (snd (m s)) \<Longrightarrow> R s (snd (on_db m d s))"
  unfolding on_db_def by (rule run_handle) (auto simp: run_ret split: if_splits)

lemmas obeys_rules = obeys_ret obeys_raise obeys_lift obeys_bind obeys_on_db obeys_atomic
  obeys_for obeys_map obeys_if obeys_option

end

text \<open>
  Every predicate gives the preorder "if it held before it holds after"; every projection
  gives the preorder "unchanged". Components take these instances for their own predicates.
\<close>

definition keeps :: "('s \<Rightarrow> bool) \<Rightarrow> 's \<Rightarrow> 's \<Rightarrow> bool" where
  "keeps P s t \<longleftrightarrow> (P s \<longrightarrow> P t)"

definition same :: "('s \<Rightarrow> 'v) \<Rightarrow> 's \<Rightarrow> 's \<Rightarrow> bool" where
  "same f s t \<longleftrightarrow> f t = f s"

interpretation keeps: effect_preorder "keeps P" for P
  by unfold_locales (auto simp: keeps_def)

interpretation same: effect_preorder "same f" for f
  by unfold_locales (auto simp: same_def)

lemma forE_map: "forE (map g xs) f = forE xs (\<lambda>x. f (g x))"
  by (induction xs) simp_all

section \<open>Untyped values\<close>

text \<open>
  A value whose Python type is only known at run time, as far as the program converts such
  values with \<open>int(...)\<close>: integers, strings, booleans, \<open>None\<close>, and containers (lists and
  dicts), which the conversion refuses and which are not hashable.
\<close>

datatype pyval = VNone | VBool bool | VInt int | VStr string | VContainer bool

text \<open>The truth value of such a value; a container carries whether it has elements.\<close>

definition py_truth :: "pyval \<Rightarrow> bool" where
  "py_truth v = (case v of
      VNone \<Rightarrow> False
    | VBool b \<Rightarrow> b
    | VInt i \<Rightarrow> i \<noteq> 0
    | VStr str \<Rightarrow> str \<noteq> []
    | VContainer nonempty \<Rightarrow> nonempty)"

definition is_space :: "char \<Rightarrow> bool" where
  "is_space c \<longleftrightarrow> c \<in> {CHR '' '', CHR 0x09, CHR 0x0A, CHR 0x0B, CHR 0x0C, CHR 0x0D}"

definition strip :: "string \<Rightarrow> string" where
  "strip s = rev (dropWhile is_space (rev (dropWhile is_space s)))"

definition digit_value :: "char \<Rightarrow> int option" where
  "digit_value c = (if 48 \<le> (of_char c :: int) \<and> (of_char c :: int) \<le> 57
                    then Some (of_char c - 48) else None)"

text \<open>Decimal digits, single underscores allowed between two of them.\<close>

fun parse_digits :: "int \<Rightarrow> string \<Rightarrow> int option" where
  "parse_digits acc [] = Some acc"
| "parse_digits acc (c # cs) =
     (if c = CHR ''_'' then
        (case cs of [] \<Rightarrow> None
         | d # ds \<Rightarrow> (case digit_value d of None \<Rightarrow> None | Some v \<Rightarrow> parse_digits (10 * acc + v) ds))
      else (case digit_value c of None \<Rightarrow> None | Some v \<Rightarrow> parse_digits (10 * acc + v) cs))"

definition parse_int :: "string \<Rightarrow> int option" where
  "parse_int str =
     (let body = strip str;
          (negative, digits) = (case body of
              [] \<Rightarrow> (False, [])
            | c # cs \<Rightarrow> if c = CHR ''-'' then (True, cs)
                         else if c = CHR ''+'' then (False, cs) else (False, body)) in
      case digits of
        [] \<Rightarrow> None
      | c # cs \<Rightarrow> (case digit_value c of
            None \<Rightarrow> None
          | Some v \<Rightarrow> map_option (\<lambda>n. if negative then - n else n) (parse_digits v cs)))"

text \<open>
  Python's \<open>int(x)\<close>: a string that is no number is a \<open>ValueError\<close>, a non-number a \<open>TypeError\<close>. The
  values of requests here have no floats, which \<open>int\<close> would truncate (and refuse when infinite).
\<close>

definition py_int :: "pyval \<Rightarrow> int res" where
  "py_int v = (case v of
      VInt i \<Rightarrow> Inr i
    | VBool b \<Rightarrow> Inr (if b then 1 else 0)
    | VStr str \<Rightarrow> (case parse_int str of Some i \<Rightarrow> Inr i | None \<Rightarrow> Inl (ValueError ''invalid literal for int()''))
    | VNone \<Rightarrow> Inl TypeError
    | VContainer _ \<Rightarrow> Inl TypeError)"

text \<open>\<open>try: int(x) except (TypeError, ValueError): raise e\<close>\<close>

definition int_or_raise :: "pyval \<Rightarrow> exc \<Rightarrow> ('s, int) qry" where
  "int_or_raise v e = (\<lambda>s. case py_int v of Inr i \<Rightarrow> Inr i | Inl _ \<Rightarrow> Inl e)"

lemma int_or_raise_int [simp]: "int_or_raise (VInt i) e s = Inr i"
  by (simp add: int_or_raise_def py_int_def)

section \<open>Lists\<close>

text \<open>Python's \<open>xs.insert(i, x)\<close> for a non-negative index.\<close>

definition list_insert :: "nat \<Rightarrow> 'a \<Rightarrow> 'a list \<Rightarrow> 'a list" where
  "list_insert i x xs = take i xs @ x # drop i xs"

lemma length_list_insert [simp]: "length (list_insert i x xs) = Suc (length xs)"
  by (simp add: list_insert_def)

lemma set_list_insert [simp]: "set (list_insert i x xs) = insert x (set xs)"
proof -
  have "set (take i xs) \<union> set (drop i xs) = set xs"
    by (metis append_take_drop_id set_append)
  then show ?thesis by (auto simp: list_insert_def)
qed

lemma distinct_list_insert [simp]:
  "distinct (list_insert i x xs) \<longleftrightarrow> x \<notin> set xs \<and> distinct xs"
proof -
  have "distinct (list_insert i x xs) \<longleftrightarrow> distinct (x # (take i xs @ drop i xs))"
    unfolding list_insert_def distinct_append distinct.simps set_append list.set by blast
  then show ?thesis by simp
qed

lemma map_list_insert: "map f (list_insert i x xs) = list_insert i (f x) (map f xs)"
  by (simp add: list_insert_def take_map drop_map)

lemma nth_list_insert: "i \<le> length xs \<Longrightarrow> list_insert i x xs ! i = x"
  by (simp add: list_insert_def nth_append)

text \<open>Numbering a list from 1, as \<open>enumerate(items, start=1)\<close> does.\<close>

definition enum1 :: "'a list \<Rightarrow> ('a \<times> int) list" where
  "enum1 xs = zip xs [1..int (length xs)]"

lemma length_upto_int [simp]: "length [1..int n] = n"
  by simp

lemma map_fst_enum1 [simp]: "map fst (enum1 xs) = xs"
  by (simp add: enum1_def)

lemma map_snd_enum1 [simp]: "map snd (enum1 xs) = [1..int (length xs)]"
  by (simp add: enum1_def)

lemma length_enum1 [simp]: "length (enum1 xs) = length xs"
  by (simp add: enum1_def)

lemma enum1_mem: "(x, i) \<in> set (enum1 xs) \<Longrightarrow> x \<in> set xs \<and> 1 \<le> i \<and> i \<le> int (length xs)"
  by (auto simp: enum1_def dest: set_zip_leftD set_zip_rightD)

lemma enum1_nth: "k < length xs \<Longrightarrow> enum1 xs ! k = (xs ! k, int k + 1)"
  by (simp add: enum1_def nth_upto)

lemma enum1_iff: "(x, i) \<in> set (enum1 xs) \<longleftrightarrow> (\<exists>k < length xs. xs ! k = x \<and> i = int k + 1)"
  by (auto simp: in_set_conv_nth enum1_nth)

lemma distinct_map_inj: "distinct (map f xs) \<Longrightarrow> x \<in> set xs \<Longrightarrow> y \<in> set xs \<Longrightarrow> f x = f y \<Longrightarrow> x = y"
  by (auto simp: distinct_map inj_on_def)

lemma find_Some_mem: "find P xs = Some x \<Longrightarrow> x \<in> set xs \<and> P x"
  by (induction xs) (auto split: if_splits)

lemma find_None_all: "find P xs = None \<longleftrightarrow> (\<forall>x \<in> set xs. \<not> P x)"
  by (induction xs) auto

lemma find_unique:
  "distinct (map f xs) \<Longrightarrow> x \<in> set xs \<Longrightarrow> find (\<lambda>y. f y = f x) xs = Some x"
  by (induction xs) (auto simp: image_iff)


lemma length_filter_neq:
  "distinct xs \<Longrightarrow> x \<in> set xs \<Longrightarrow> length (filter (\<lambda>i. i \<noteq> x) xs) + 1 = length xs"
proof (induction xs)
  case (Cons a xs)
  show ?case
  proof (cases "a = x")
    case True
    then have "filter (\<lambda>i. i \<noteq> x) xs = xs" using Cons.prems(1) by (auto simp: filter_id_conv)
    with True show ?thesis by simp
  qed (use Cons in simp)
qed simp

section \<open>Integers as text\<close>

text \<open>\<open>str(n)\<close>\<close>

fun nat_str :: "nat \<Rightarrow> string" where
  "nat_str n = (if n < 10 then [char_of (48 + n)] else nat_str (n div 10) @ [char_of (48 + n mod 10)])"

declare nat_str.simps [simp del]

definition int_str :: "int \<Rightarrow> string" where
  "int_str i = (if i < 0 then CHR ''-'' # nat_str (nat (- i)) else nat_str (nat i))"

lemma nat_str_inj: "nat_str m = nat_str n \<Longrightarrow> m = n"
proof (induction m arbitrary: n rule: nat_str.induct)
  case (1 m)
  have eq: "(if m < 10 then [] else nat_str (m div 10)) @ [char_of (48 + m mod 10) :: char]
      = (if n < 10 then [] else nat_str (n div 10)) @ [char_of (48 + n mod 10)]"
    using "1.prems" by (subst (asm) nat_str.simps, subst (asm) (2) nat_str.simps) (auto split: if_splits)
  have nonempty: "nat_str k \<noteq> []" for k by (subst nat_str.simps) simp
  have digit: "m mod 10 = n mod 10"
  proof -
    have "(char_of (48 + m mod 10) :: char) = char_of (48 + n mod 10)" using eq by (simp only: append1_eq_conv)
    then have "(of_char (char_of (48 + m mod 10) :: char) :: nat) = of_char (char_of (48 + n mod 10) :: char)" by simp
    then show ?thesis by (simp only: of_char_of) simp
  qed
  have "m div 10 = n div 10"
  proof (cases "m < 10")
    case True
    then have "n < 10" using eq nonempty[of "n div 10"] by (simp split: if_splits)
    then show ?thesis using True by simp
  next
    case False
    then have "\<not> n < 10" using eq nonempty[of "m div 10"] by (simp split: if_splits)
    then show ?thesis using eq False "1.IH" by simp
  qed
  then show ?case using digit by (metis div_mult_mod_eq)
qed

end
