(* ===== verification/Schedule_Db.thy ===== *)
theory Schedule_Db
  imports Prelude
begin

text \<open>
  The stored state the schedule application works on: one list of rows per table, in
  primary key order, with the sequences that give new rows their keys, the tables whose
  queries currently fail, and the realtime events emitted so far. Rows follow
  \<open>taiga/projects/schedule/models.py\<close> and the columns of epics, user stories, tasks and
  epic relations that the schedule code reads or writes. Dates are day ordinals as
  \<open>datetime.date.toordinal\<close> numbers them.
\<close>

section \<open>Rows\<close>

definition TYPE_EPIC :: string where "TYPE_EPIC = ''epic''"
definition TYPE_USERSTORY :: string where "TYPE_USERSTORY = ''userstory''"
definition TYPE_TASK :: string where "TYPE_TASK = ''task''"

definition ROOT_PARENT_ENTITY_TYPE :: string where "ROOT_PARENT_ENTITY_TYPE = ''''"
definition ROOT_PARENT_ENTITY_ID :: int where "ROOT_PARENT_ENTITY_ID = 0"

lemmas type_defs = TYPE_EPIC_def TYPE_USERSTORY_def TYPE_TASK_def
  ROOT_PARENT_ENTITY_TYPE_def ROOT_PARENT_ENTITY_ID_def

lemma type_distinct [simp]:
  "TYPE_EPIC \<noteq> TYPE_USERSTORY" "TYPE_EPIC \<noteq> TYPE_TASK" "TYPE_USERSTORY \<noteq> TYPE_TASK"
  "TYPE_USERSTORY \<noteq> TYPE_EPIC" "TYPE_TASK \<noteq> TYPE_EPIC" "TYPE_TASK \<noteq> TYPE_USERSTORY"
  "ROOT_PARENT_ENTITY_TYPE \<noteq> TYPE_EPIC" "ROOT_PARENT_ENTITY_TYPE \<noteq> TYPE_USERSTORY"
  "ROOT_PARENT_ENTITY_TYPE \<noteq> TYPE_TASK"
  "TYPE_EPIC \<noteq> ROOT_PARENT_ENTITY_TYPE" "TYPE_USERSTORY \<noteq> ROOT_PARENT_ENTITY_TYPE"
  "TYPE_TASK \<noteq> ROOT_PARENT_ENTITY_TYPE"
  by (simp_all add: type_defs)

type_synonym date = int

text \<open>\<open>datetime.date.max\<close>; a sum past it raises \<open>OverflowError\<close>.\<close>

definition DATE_MAX :: date where "DATE_MAX = 3652059"

text \<open>
  The rows of the tables. Identifiers, positions and dates are unbounded integers: the
  \<open>DataError\<close> of a value beyond the width of its column does not occur.
\<close>

record schedule =
  s_id :: int
  s_entity_type :: string
  s_entity_id :: int
  s_project_id :: int
  s_created_date :: "int option"
  s_due_date :: "date option"
  s_estimated_start :: "date option"
  s_actual_start :: "date option"
  s_color :: "string option"

record dependency =
  d_id :: int
  d_from_schedule_id :: int
  d_to_schedule_id :: int

record order_item =
  oi_id :: int
  oi_schedule_id :: int
  oi_project_id :: int
  oi_entity_type :: string
  oi_parent_entity_type :: string
  oi_parent_entity_id :: int
  oi_position :: int

record epic =
  e_id :: int
  e_project_id :: int
  e_color :: string

record userstory =
  us_id :: int
  us_project_id :: int
  us_due_date :: "date option"

record task =
  t_id :: int
  t_project_id :: int
  t_user_story_id :: "int option"
  t_due_date :: "date option"

record related =
  ru_id :: int
  ru_epic_id :: int
  ru_user_story_id :: int
  ru_order :: int

text \<open>A realtime event: routing key, kind of change, content type and the ids it names.\<close>

record event =
  ev_routing :: "string \<times> int \<times> string"
  ev_type :: string
  ev_matches :: string
  ev_pk :: "int list"

record db =
  schedules :: "schedule list"
  dependencies :: "dependency list"
  item_orders :: "order_item list"
  epics :: "epic list"
  userstories :: "userstory list"
  tasks :: "task list"
  relateds :: "related list"
  schedule_seq :: int
  order_seq :: int
  down :: "string list"
  outbox :: "event list"

section \<open>Reading tables\<close>

text \<open>A query on a table that is not available raises.\<close>

definition tbl :: "string \<Rightarrow> (db \<Rightarrow> 'a) \<Rightarrow> (db, 'a) qry" where
  "tbl t f = (\<lambda>s. if t \<in> set (down s) then Inl DbError else Inr (f s))"

definition available :: "db \<Rightarrow> bool" where
  "available s \<longleftrightarrow> down s = []"

lemma tbl_apply [effs]: "tbl t f s = (if t \<in> set (down s) then Inl DbError else Inr (f s))"
  by (simp add: tbl_def)

lemma tbl_available [simp]: "available s \<Longrightarrow> tbl t f s = Inr (f s)"
  by (simp add: tbl_def available_def)

section \<open>Writing tables\<close>

text \<open>
  \<open>Schedule.objects.filter(id=i).update(...)\<close> and its siblings on the other tables. The
  argument \<open>f\<close> sets the columns of the matching row.
\<close>

definition upd_where :: "('r \<Rightarrow> bool) \<Rightarrow> ('r \<Rightarrow> 'r) \<Rightarrow> 'r list \<Rightarrow> 'r list" where
  "upd_where P f rows = map (\<lambda>r. if P r then f r else r) rows"

definition update_schedule_row :: "int \<Rightarrow> (schedule \<Rightarrow> schedule) \<Rightarrow> (db, unit) eff" where
  "update_schedule_row i f = (\<lambda>s.
     if ''schedule'' \<in> set (down s) then (Inl DbError, s)
     else (Inr (), s\<lparr>schedules := upd_where (\<lambda>r. s_id r = i) f (schedules s)\<rparr>))"

text \<open>
  Constraints of \<open>ScheduleItemOrder\<close>: the unique group position, the one-to-one schedule
  and the non-negative position. The database checks them at every statement.
\<close>

type_synonym group_key = "int \<times> string \<times> string \<times> int"

definition oi_group :: "order_item \<Rightarrow> group_key" where
  "oi_group r = (oi_project_id r, oi_entity_type r, oi_parent_entity_type r, oi_parent_entity_id r)"

definition orders_ok :: "order_item list \<Rightarrow> bool" where
  "orders_ok rows \<longleftrightarrow>
     distinct (map (\<lambda>r. (oi_group r, oi_position r)) rows)
   \<and> distinct (map oi_schedule_id rows)
   \<and> (\<forall>r \<in> set rows. 0 \<le> oi_position r)"

definition store_orders :: "order_item list \<Rightarrow> (db, unit) eff" where
  "store_orders rows = (\<lambda>s. if orders_ok rows then (Inr (), s\<lparr>item_orders := rows\<rparr>)
                            else (Inl IntegrityError, s))"

definition update_order_row :: "int \<Rightarrow> (order_item \<Rightarrow> order_item) \<Rightarrow> (db, unit) eff" where
  "update_order_row i f = (\<lambda>s.
     if ''item_order'' \<in> set (down s) then (Inl DbError, s)
     else store_orders (upd_where (\<lambda>r. oi_id r = i) f (item_orders s)) s)"

definition delete_order_row :: "int \<Rightarrow> (db, unit) eff" where
  "delete_order_row i = (\<lambda>s.
     if ''item_order'' \<in> set (down s) then (Inl DbError, s)
     else (Inr (), s\<lparr>item_orders := filter (\<lambda>r. oi_id r \<noteq> i) (item_orders s)\<rparr>))"

text \<open>
  Deleting a schedule row also deletes the rows that refer to it with
  \<open>on_delete=models.CASCADE\<close>: its item order and the dependencies from it and to it.
\<close>

definition delete_schedule_row :: "int \<Rightarrow> (db, unit) eff" where
  "delete_schedule_row i = (\<lambda>s.
     if ''schedule'' \<in> set (down s) \<or> ''item_order'' \<in> set (down s) \<or> ''dependency'' \<in> set (down s)
     then (Inl DbError, s)
     else (Inr (), s\<lparr>schedules := filter (\<lambda>r. s_id r \<noteq> i) (schedules s),
                     item_orders := filter (\<lambda>r. oi_schedule_id r \<noteq> i) (item_orders s),
                     dependencies := filter (\<lambda>d. d_from_schedule_id d \<noteq> i \<and> d_to_schedule_id d \<noteq> i)
                                       (dependencies s)\<rparr>))"

definition update_userstory_row :: "(userstory \<Rightarrow> bool) \<Rightarrow> (userstory \<Rightarrow> userstory) \<Rightarrow> (db, unit) eff" where
  "update_userstory_row P f = (\<lambda>s.
     if ''userstory'' \<in> set (down s) then (Inl DbError, s)
     else (Inr (), s\<lparr>userstories := upd_where P f (userstories s)\<rparr>))"

definition update_task_row :: "(task \<Rightarrow> bool) \<Rightarrow> (task \<Rightarrow> task) \<Rightarrow> (db, unit) eff" where
  "update_task_row P f = (\<lambda>s.
     if ''task'' \<in> set (down s) then (Inl DbError, s)
     else (Inr (), s\<lparr>tasks := upd_where P f (tasks s)\<rparr>))"

definition update_epic_row :: "(epic \<Rightarrow> bool) \<Rightarrow> (epic \<Rightarrow> epic) \<Rightarrow> (db, unit) eff" where
  "update_epic_row P f = (\<lambda>s.
     if ''epic'' \<in> set (down s) then (Inl DbError, s)
     else (Inr (), s\<lparr>epics := upd_where P f (epics s)\<rparr>))"

text \<open>\<open>taiga/events/events.py: emit_event_for_ids\<close>, up to the message backend.\<close>

definition emit_event_for_ids :: "int list \<Rightarrow> string \<Rightarrow> int \<Rightarrow> (db, unit) eff" where
  "emit_event_for_ids ids content_type projectid = (\<lambda>s. (Inr (),
     s\<lparr>outbox := outbox s @
         [\<lparr>ev_routing = (''changes.project'', projectid, takeWhile (\<lambda>c. c \<noteq> CHR ''.'') content_type),
           ev_type = ''change'', ev_matches = content_type, ev_pk = ids\<rparr>]\<rparr>))"

section \<open>Well-formed stored state\<close>

text \<open>
  What the database itself guarantees: primary keys are unique and below their sequence,
  \<open>(entity_type, entity_id)\<close> is unique among schedules, and the item order constraints
  hold.
\<close>

definition schedules_ok :: "db \<Rightarrow> bool" where
  "schedules_ok s \<longleftrightarrow>
     distinct (map s_id (schedules s))
   \<and> distinct (map (\<lambda>r. (s_entity_type r, s_entity_id r)) (schedules s))
   \<and> (\<forall>r \<in> set (schedules s). 0 < s_id r \<and> s_id r < schedule_seq s)"

definition order_table_ok :: "db \<Rightarrow> bool" where
  "order_table_ok s \<longleftrightarrow>
     orders_ok (item_orders s)
   \<and> distinct (map oi_id (item_orders s))
   \<and> (\<forall>r \<in> set (item_orders s). oi_id r < order_seq s)"

lemma upd_where_none: "(\<And>r. r \<in> set rows \<Longrightarrow> \<not> P r) \<Longrightarrow> upd_where P f rows = rows"
  by (simp add: upd_where_def map_idI)

lemma map_upd_where: "(\<And>r. g (f r) = g r) \<Longrightarrow> map g (upd_where P f rows) = map g rows"
  by (simp add: upd_where_def)

lemma set_upd_where: "set (upd_where P f rows) = {if P r then f r else r | r. r \<in> set rows}"
  by (auto simp: upd_where_def)

lemma length_upd_where [simp]: "length (upd_where P f rows) = length rows"
  by (simp add: upd_where_def)

lemma upd_where_compose:
  "(\<And>r. P (f r) = P r) \<Longrightarrow> upd_where P g (upd_where P f rows) = upd_where P (g \<circ> f) rows"
  by (simp add: upd_where_def)

end
