(* ===== verification/Schedule_Demo.thy ===== *)
theory Schedule_Demo
  imports Schedule_Db
begin

text \<open>
  A small project used by the witnesses: one epic with two user stories, the first of them
  with two tasks; every item scheduled, every sibling group numbered from 1, and two
  dependencies that hold.
\<close>

definition mk_schedule :: "int \<Rightarrow> string \<Rightarrow> int \<Rightarrow> date option \<Rightarrow> date option \<Rightarrow> schedule" where
  "mk_schedule i et eid start due = \<lparr>s_id = i, s_entity_type = et, s_entity_id = eid, s_project_id = 1,
     s_created_date = None, s_due_date = due, s_estimated_start = start, s_actual_start = None,
     s_color = None\<rparr>"

definition mk_order :: "int \<Rightarrow> int \<Rightarrow> string \<Rightarrow> string \<Rightarrow> int \<Rightarrow> int \<Rightarrow> order_item" where
  "mk_order i sid et pt pid pos = \<lparr>oi_id = i, oi_schedule_id = sid, oi_project_id = 1,
     oi_entity_type = et, oi_parent_entity_type = pt, oi_parent_entity_id = pid, oi_position = pos\<rparr>"

definition demo_db :: db where
  "demo_db = \<lparr>
     schedules = [mk_schedule 1 TYPE_EPIC 10 (Some 10) (Some 20),
                  mk_schedule 2 TYPE_USERSTORY 20 (Some 10) (Some 15),
                  mk_schedule 3 TYPE_USERSTORY 21 (Some 16) (Some 20),
                  mk_schedule 4 TYPE_TASK 30 (Some 10) (Some 12),
                  mk_schedule 5 TYPE_TASK 31 (Some 13) (Some 15)],
     dependencies = [\<lparr>d_id = 1, d_from_schedule_id = 2, d_to_schedule_id = 3\<rparr>,
                     \<lparr>d_id = 2, d_from_schedule_id = 4, d_to_schedule_id = 5\<rparr>],
     item_orders = [mk_order 1 1 TYPE_EPIC ROOT_PARENT_ENTITY_TYPE 0 1,
                    mk_order 2 2 TYPE_USERSTORY TYPE_EPIC 10 1,
                    mk_order 3 3 TYPE_USERSTORY TYPE_EPIC 10 2,
                    mk_order 4 4 TYPE_TASK TYPE_USERSTORY 20 1,
                    mk_order 5 5 TYPE_TASK TYPE_USERSTORY 20 2],
     epics = [\<lparr>e_id = 10, e_project_id = 1, e_color = ''#d00''\<rparr>],
     userstories = [\<lparr>us_id = 20, us_project_id = 1, us_due_date = Some 15\<rparr>,
                    \<lparr>us_id = 21, us_project_id = 1, us_due_date = Some 20\<rparr>],
     tasks = [\<lparr>t_id = 30, t_project_id = 1, t_user_story_id = Some 20, t_due_date = Some 12\<rparr>,
              \<lparr>t_id = 31, t_project_id = 1, t_user_story_id = Some 20, t_due_date = Some 15\<rparr>],
     relateds = [\<lparr>ru_id = 1, ru_epic_id = 10, ru_user_story_id = 20, ru_order = 1\<rparr>,
                 \<lparr>ru_id = 2, ru_epic_id = 10, ru_user_story_id = 21, ru_order = 2\<rparr>],
     schedule_seq = 6, order_seq = 6, down = [], outbox = []\<rparr>"

lemmas demo_defs = demo_db_def mk_schedule_def mk_order_def

lemma demo_available [simp]: "available demo_db"
  by (simp add: available_def demo_db_def)

lemma demo_schedules_ok: "schedules_ok demo_db"
  by (simp add: schedules_ok_def demo_defs)

lemma demo_order_table_ok: "order_table_ok demo_db"
  by (simp add: order_table_ok_def orders_ok_def demo_defs oi_group_def)

end
