(* ===== verification/Schedule_Order.thy ===== *)
theory Schedule_Order
  imports Schedule_Db
begin

text \<open>
  Sibling order of schedule items, \<open>taiga/projects/schedule/services.py\<close>: the parent of an
  item, the lock-and-fetch of a sibling group, reindexing without transient collisions,
  moves inside and between groups, creation with \<open>ScheduleItemOrder.full_clean\<close>, the retry
  loop and the public operations. The functions keep the names of the source without the
  leading underscore.
\<close>

section \<open>Lookups\<close>

definition assert_entity_type :: "string \<Rightarrow> ('s, unit) qry" where
  "assert_entity_type entity_type =
     (if entity_type \<notin> {TYPE_EPIC, TYPE_USERSTORY, TYPE_TASK}
      then raiseQ (ValueError ''Unsupported entity_type'') else retQ ())"

definition find_schedule :: "string \<Rightarrow> int \<Rightarrow> db \<Rightarrow> schedule option" where
  "find_schedule entity_type entity_id s =
     find (\<lambda>r. s_entity_type r = entity_type \<and> s_entity_id r = entity_id) (schedules s)"

definition get_schedule :: "string \<Rightarrow> int \<Rightarrow> (db, schedule option) qry" where
  "get_schedule entity_type entity_id =
     bindQ (assert_entity_type entity_type) (\<lambda>_.
       on_dbQ (tbl ''schedule'' (find_schedule entity_type entity_id)) None)"

text \<open>
  The relation of a user story with the least \<open>(order, id)\<close>, joined with its epic
  (\<open>select_related\<close> over a non-null foreign key is an inner join).
\<close>

definition story_relations :: "int \<Rightarrow> db \<Rightarrow> (related \<times> epic) list" where
  "story_relations userstory_id s =
     sort_key (\<lambda>(r, e). (ru_order r, ru_id r))
       [(r, e). r \<leftarrow> relateds s, ru_user_story_id r = userstory_id,
                e \<leftarrow> epics s, e_id e = ru_epic_id r]"

definition get_primary_epic_relation :: "int \<Rightarrow> (db, (related \<times> epic) option) qry" where
  "get_primary_epic_relation userstory_id =
     (if userstory_id = 0 then retQ None
      else on_dbQ (bindQ (tbl ''related'' (\<lambda>_. ())) (\<lambda>_. tbl ''epic'' (\<lambda>s.
             case story_relations userstory_id s of [] \<Rightarrow> None | re # _ \<Rightarrow> Some re))) None)"

definition find_task :: "int \<Rightarrow> db \<Rightarrow> task option" where
  "find_task i s = find (\<lambda>t. t_id t = i) (tasks s)"

section \<open>Sibling groups\<close>

definition build_order_group_key :: "int \<Rightarrow> string \<Rightarrow> string \<Rightarrow> int \<Rightarrow> group_key" where
  "build_order_group_key project_id entity_type parent_entity_type parent_entity_id =
     (if project_id = 0 then 0 else project_id,
      if entity_type = [] then ROOT_PARENT_ENTITY_TYPE else entity_type,
      if parent_entity_type = [] then ROOT_PARENT_ENTITY_TYPE else parent_entity_type,
      if parent_entity_id = 0 then ROOT_PARENT_ENTITY_ID else parent_entity_id)"

lemma build_order_group_key_eq [simp]: "build_order_group_key p e pt pid = (p, e, pt, pid)"
  by (simp add: build_order_group_key_def type_defs)

definition build_order_group_filters :: "group_key \<Rightarrow> order_item \<Rightarrow> bool" where
  "build_order_group_filters key r = (case key of (project_id, entity_type, parent_type, parent_id) \<Rightarrow>
     oi_project_id r = project_id \<and> oi_entity_type r = entity_type
   \<and> oi_parent_entity_type r = parent_type \<and> oi_parent_entity_id r = parent_id)"

lemma build_order_group_filters_eq [simp]: "build_order_group_filters key = (\<lambda>r. oi_group r = key)"
  by (rule ext, cases key) (auto simp: build_order_group_filters_def oi_group_def)

definition resolve_order_parent :: "string \<Rightarrow> int \<Rightarrow> (db, string \<times> int) qry" where
  "resolve_order_parent entity_type entity_id =
     (if entity_type = TYPE_EPIC then retQ (ROOT_PARENT_ENTITY_TYPE, ROOT_PARENT_ENTITY_ID)
      else if entity_type = TYPE_USERSTORY then
        bindQ (get_primary_epic_relation entity_id) (\<lambda>relation.
          case relation of
            None \<Rightarrow> retQ (ROOT_PARENT_ENTITY_TYPE, ROOT_PARENT_ENTITY_ID)
          | Some (r, _) \<Rightarrow>
              if ru_epic_id r \<noteq> 0 then retQ (TYPE_EPIC, ru_epic_id r)
              else retQ (ROOT_PARENT_ENTITY_TYPE, ROOT_PARENT_ENTITY_ID))
      else if entity_type = TYPE_TASK then
        bindQ (on_dbQ (tbl ''task'' (\<lambda>s. Option.bind (find_task entity_id s) t_user_story_id)) None)
          (\<lambda>user_story_id.
            case user_story_id of
              None \<Rightarrow> retQ (ROOT_PARENT_ENTITY_TYPE, ROOT_PARENT_ENTITY_ID)
            | Some us \<Rightarrow>
                if us \<noteq> 0 then retQ (TYPE_USERSTORY, us)
                else retQ (ROOT_PARENT_ENTITY_TYPE, ROOT_PARENT_ENTITY_ID))
      else retQ (ROOT_PARENT_ENTITY_TYPE, ROOT_PARENT_ENTITY_ID))"

definition group_items :: "group_key \<Rightarrow> db \<Rightarrow> order_item list" where
  "group_items key s =
     sort_key (\<lambda>r. (oi_position r, oi_id r)) (filter (build_order_group_filters key) (item_orders s))"

definition fetch_group_items_for_update :: "group_key \<Rightarrow> (db, order_item list) qry" where
  "fetch_group_items_for_update key = tbl ''item_order'' (group_items key)"

section \<open>Reindexing a group\<close>

definition set_order_position :: "int \<Rightarrow> int \<Rightarrow> (db, unit) eff" where
  "set_order_position i p = update_order_row i (\<lambda>r. r\<lparr>oi_position := p\<rparr>)"

text \<open>
  The items are Python objects: their \<open>position\<close> attribute is what the code compares, the
  row in the table is what it writes. The result is the objects afterwards.
\<close>

definition pending_updates :: "order_item list \<Rightarrow> (order_item \<times> int) list" where
  "pending_updates items = filter (\<lambda>(item, index). oi_position item \<noteq> index) (enum1 items)"

definition current_max_position :: "order_item list \<Rightarrow> int" where
  "current_max_position items = fold max (map oi_position items) (int (length items))"

definition persist_group_positions :: "order_item list \<Rightarrow> (db, order_item list) eff" where
  "persist_group_positions items =
     (let pending = pending_updates items in
      if pending = [] then retE items
      else
        let temporary_base = current_max_position items + int (length pending) + 1 in
        bindE (forE (zip pending [0..<length pending])
                 (\<lambda>((item, _), offset). set_order_position (oi_id item) (temporary_base + int offset)))
          (\<lambda>_. bindE (forE pending
                 (\<lambda>(item, final_position). set_order_position (oi_id item) final_position))
          (\<lambda>_. retE (map (\<lambda>(item, index). item\<lparr>oi_position := index\<rparr>) (enum1 items)))))"

text \<open>The object with a given id after its list was persisted.\<close>

definition refreshed :: "order_item \<Rightarrow> order_item list \<Rightarrow> order_item" where
  "refreshed item items =
     (case find (\<lambda>x. oi_id x = oi_id item) items of Some x \<Rightarrow> x | None \<Rightarrow> item)"

definition move_order_item_between_groups ::
    "order_item \<Rightarrow> group_key \<Rightarrow> int option \<Rightarrow> (db, order_item) eff" where
  "move_order_item_between_groups item_order target_group_key target_position =
     (let current_group_key = build_order_group_key (oi_project_id item_order)
            (oi_entity_type item_order) (oi_parent_entity_type item_order)
            (oi_parent_entity_id item_order) in
      if current_group_key = target_group_key then
        bindE (liftE (fetch_group_items_for_update current_group_key)) (\<lambda>items.
          let ordered_items = filter (\<lambda>x. oi_id x \<noteq> oi_id item_order) items;
              max_position = int (length ordered_items) + 1;
              desired = (case target_position of None \<Rightarrow> oi_position item_order | Some p \<Rightarrow> p);
              desired_position = max 1 (min desired max_position) in
          bindE (persist_group_positions
                   (list_insert (nat (desired_position - 1)) item_order ordered_items))
            (\<lambda>persisted. retE (refreshed item_order persisted)))
      else
        bindE (liftE (fetch_group_items_for_update current_group_key)) (\<lambda>current_group_items.
        bindE (liftE (fetch_group_items_for_update target_group_key)) (\<lambda>target_group_items.
          let max_target_position = int (length target_group_items) + 1;
              desired = (case target_position of None \<Rightarrow> max_target_position | Some p \<Rightarrow> p);
              desired_position = max 1 (min desired max_target_position) in
          case target_group_key of (project_id, entity_type, parent_type, parent_id) \<Rightarrow>
          let relocate = (\<lambda>r. r\<lparr>oi_project_id := project_id, oi_entity_type := entity_type,
                 oi_parent_entity_type := parent_type, oi_parent_entity_id := parent_id,
                 oi_position := max_target_position\<rparr>);
              moved = relocate item_order in
          bindE (update_order_row (oi_id item_order) relocate) (\<lambda>_.
          bindE (persist_group_positions
                   (filter (\<lambda>x. oi_id x \<noteq> oi_id item_order) current_group_items)) (\<lambda>_.
          bindE (persist_group_positions
                   (list_insert (nat (desired_position - 1)) moved
                      (filter (\<lambda>x. oi_id x \<noteq> oi_id item_order) target_group_items)))
            (\<lambda>persisted. retE (refreshed moved persisted)))))))"

section \<open>Creating an order row\<close>

text \<open>\<open>ScheduleItemOrder.clean\<close>; the schedule is the object the row refers to.\<close>

definition order_clean :: "schedule \<Rightarrow> order_item \<Rightarrow> ('s, unit) qry" where
  "order_clean sched r =
     (let is_root_parent = (oi_parent_entity_type r = ROOT_PARENT_ENTITY_TYPE
                          \<and> oi_parent_entity_id r = ROOT_PARENT_ENTITY_ID) in
      if s_project_id sched \<noteq> oi_project_id r then
        raiseQ (ValidationError ''The schedule order project must match the schedule project.'')
      else if s_entity_type sched \<noteq> oi_entity_type r then
        raiseQ (ValidationError ''The schedule order entity type must match the schedule entity type.'')
      else if oi_position r < 1 then
        raiseQ (ValidationError ''The schedule order position must be greater than zero.'')
      else if oi_entity_type r = TYPE_EPIC then
        (if \<not> is_root_parent
         then raiseQ (ValidationError ''Epic schedule order items must have a root parent.'')
         else retQ ())
      else if oi_entity_type r = TYPE_USERSTORY then
        (if is_root_parent then retQ ()
         else if oi_parent_entity_type r \<noteq> TYPE_EPIC
         then raiseQ (ValidationError ''User story schedule order items can only be grouped by epic parent.'')
         else retQ ())
      else if oi_entity_type r = TYPE_TASK then
        (if is_root_parent then retQ ()
         else if oi_parent_entity_type r \<noteq> TYPE_USERSTORY
         then raiseQ (ValidationError ''Task schedule order items can only be grouped by user story parent.'')
         else retQ ())
      else retQ ())"

text \<open>
  \<open>full_clean\<close>: the field validation that can fail here (the entity type is a choice), then
  \<open>clean\<close>, then the unique constraints, which it reports as \<open>ValidationError\<close>.
\<close>

definition order_full_clean :: "schedule \<Rightarrow> order_item \<Rightarrow> (db, unit) qry" where
  "order_full_clean sched r =
     bindQ (if oi_entity_type r \<notin> {TYPE_EPIC, TYPE_USERSTORY, TYPE_TASK}
            then raiseQ (ValidationError ''Value is not a valid choice.'') else retQ ())
       (\<lambda>_. bindQ (order_clean sched r)
       (\<lambda>_. bindQ (tbl ''item_order'' item_orders) (\<lambda>rows.
          if (\<exists>x \<in> set rows. oi_schedule_id x = oi_schedule_id r
                \<or> (oi_group x = oi_group r \<and> oi_position x = oi_position r))
          then raiseQ (ValidationError ''Schedule item order already exists.'') else retQ ())))"

text \<open>\<open>ScheduleItemOrder.objects.create\<close>: \<open>save\<close> runs \<open>full_clean\<close> and inserts.\<close>

definition create_order_item :: "schedule \<Rightarrow> group_key \<Rightarrow> int \<Rightarrow> (db, order_item) eff" where
  "create_order_item sched key position = (\<lambda>s.
     case key of (project_id, entity_type, parent_type, parent_id) \<Rightarrow>
     let r = \<lparr>oi_id = order_seq s, oi_schedule_id = s_id sched, oi_project_id = project_id,
              oi_entity_type = entity_type, oi_parent_entity_type = parent_type,
              oi_parent_entity_id = parent_id, oi_position = position\<rparr> in
     bindE (liftE (order_full_clean sched r)) (\<lambda>_.
     bindE (store_orders (item_orders s @ [r])) (\<lambda>_.
       (\<lambda>t. (Inr r, t\<lparr>order_seq := order_seq t + 1\<rparr>)))) s)"

section \<open>Synchronising one schedule\<close>

definition find_order_item :: "int \<Rightarrow> db \<Rightarrow> order_item option" where
  "find_order_item schedule_id s = find (\<lambda>r. oi_schedule_id r = schedule_id) (item_orders s)"

definition sync_schedule_item_order_for_schedule :: "schedule \<Rightarrow> (db, order_item) eff" where
  "sync_schedule_item_order_for_schedule sched =
     bindE (liftE (resolve_order_parent (s_entity_type sched) (s_entity_id sched)))
       (\<lambda>(parent_entity_type, parent_entity_id).
        let target_group_key = build_order_group_key (s_project_id sched) (s_entity_type sched)
              parent_entity_type parent_entity_id in
        bindE (liftE (tbl ''item_order'' (find_order_item (s_id sched)))) (\<lambda>item_order.
          case item_order of
            None \<Rightarrow>
              bindE (liftE (fetch_group_items_for_update target_group_key)) (\<lambda>items.
                create_order_item sched target_group_key (int (length items) + 1))
          | Some item \<Rightarrow> move_order_item_between_groups item target_group_key None))"

section \<open>Retrying a transaction\<close>

definition RETRY_LIMIT :: nat where "RETRY_LIMIT = 3"

text \<open>
  \<open>for attempt in range(limit)\<close>: the operation may behave differently at each attempt,
  since other transactions commit in between. The loop body returns or raises; falling out
  of the loop is Python's implicit \<open>return None\<close>.
\<close>

fun retry_attempts :: "nat list \<Rightarrow> (nat \<Rightarrow> ('s, 'a) eff) \<Rightarrow> ('s, 'a option) eff" where
  "retry_attempts [] operation = retE None"
| "retry_attempts (attempt # rest) operation =
     handleE (bindE (atomicE (operation attempt)) (\<lambda>x. retE (Some x)))
       (\<lambda>e. if e = IntegrityError then
               Some (if attempt = RETRY_LIMIT - 1 then raiseE IntegrityError
                     else retry_attempts rest operation)
             else None)"

definition run_schedule_item_order_operation_with_retries ::
    "(nat \<Rightarrow> ('s, 'a) eff) \<Rightarrow> ('s, 'a option) eff" where
  "run_schedule_item_order_operation_with_retries operation =
     retry_attempts [0..<RETRY_LIMIT] operation"

text \<open>
  The handler both public operations share: after an exhausted retry the stored item order
  is read back; an unavailable table gives \<open>None\<close>. Two error paths of the code are outside the
  model, here and in every other block that catches a database error: PostgreSQL aborts the
  transaction of a caught \<open>ProgrammingError\<close>, so when the handler is inside an \<open>atomic\<close> block the
  next query raises an \<open>InternalError\<close> nothing catches, where the model lets the block go on;
  and an identifier beyond the width of its column raises a \<open>DataError\<close>, where the model's
  integers are unbounded. No property states what an operation does in these cases beyond the
  invariants that hold of whatever it does.
\<close>

definition or_stored_item_order :: "int \<Rightarrow> (db, order_item option) eff \<Rightarrow> (db, order_item option) eff" where
  "or_stored_item_order schedule_id m =
     handleE m (\<lambda>e.
       if e = IntegrityError then Some (on_db (liftE (tbl ''item_order'' (find_order_item schedule_id))) None)
       else if e = DbError then Some (retE None)
       else None)"

definition sync_schedule_item_order :: "string \<Rightarrow> int \<Rightarrow> (db, order_item option) eff" where
  "sync_schedule_item_order entity_type entity_id =
     bindE (liftE (assert_entity_type entity_type)) (\<lambda>_.
     bindE (liftE (get_schedule entity_type entity_id)) (\<lambda>found.
       case found of
         None \<Rightarrow> retE None
       | Some sched \<Rightarrow> or_stored_item_order (s_id sched)
           (run_schedule_item_order_operation_with_retries
              (\<lambda>_. sync_schedule_item_order_for_schedule sched))))"

definition get_schedule_item_order :: "string \<Rightarrow> int \<Rightarrow> (db, order_item option) qry" where
  "get_schedule_item_order entity_type entity_id =
     bindQ (assert_entity_type entity_type) (\<lambda>_.
     bindQ (get_schedule entity_type entity_id) (\<lambda>found.
       case found of
         None \<Rightarrow> retQ None
       | Some sched \<Rightarrow> on_dbQ (tbl ''item_order'' (find_order_item (s_id sched))) None))"

section \<open>Setting a position\<close>

definition set_schedule_item_order_position_for_schedule ::
    "schedule \<Rightarrow> int \<Rightarrow> (db, order_item) eff" where
  "set_schedule_item_order_position_for_schedule sched desired_position =
     bindE (sync_schedule_item_order_for_schedule sched) (\<lambda>item_order.
       move_order_item_between_groups item_order
         (build_order_group_key (oi_project_id item_order) (oi_entity_type item_order)
            (oi_parent_entity_type item_order) (oi_parent_entity_id item_order))
         (Some desired_position))"

definition set_schedule_item_order_position :: "string \<Rightarrow> int \<Rightarrow> pyval \<Rightarrow> (db, order_item option) eff" where
  "set_schedule_item_order_position entity_type entity_id position =
     bindE (liftE (assert_entity_type entity_type)) (\<lambda>_.
     bindE (liftE (int_or_raise position (ValueError ''position must be an integer value''))) (\<lambda>requested.
     let desired_position = max 1 requested in
     bindE (liftE (get_schedule entity_type entity_id)) (\<lambda>found.
       case found of
         None \<Rightarrow> retE None
       | Some sched \<Rightarrow> or_stored_item_order (s_id sched)
           (run_schedule_item_order_operation_with_retries
              (\<lambda>_. set_schedule_item_order_position_for_schedule sched desired_position)))))"

section \<open>Deleting a schedule\<close>

definition delete_schedule :: "string \<Rightarrow> int \<Rightarrow> (db, unit) eff" where
  "delete_schedule entity_type entity_id =
     bindE (liftE (assert_entity_type entity_type)) (\<lambda>_.
     on_db (atomicE (
       bindE (liftE (tbl ''schedule'' (find_schedule entity_type entity_id))) (\<lambda>found.
         case found of
           None \<Rightarrow> retE ()
         | Some sched \<Rightarrow>
             bindE (liftE (tbl ''item_order'' (find_order_item (s_id sched)))) (\<lambda>item_order.
             bindE (case item_order of
                 None \<Rightarrow> retE ()
               | Some item \<Rightarrow>
                   bindE (liftE (fetch_group_items_for_update
                       (build_order_group_key (oi_project_id item) (oi_entity_type item)
                          (oi_parent_entity_type item) (oi_parent_entity_id item)))) (\<lambda>items.
                   bindE (delete_order_row (oi_id item)) (\<lambda>_.
                   bindE (persist_group_positions (filter (\<lambda>x. oi_id x \<noteq> oi_id item) items))
                     (\<lambda>_. retE ()))))
               (\<lambda>_. delete_schedule_row (s_id sched)))))) ())"

end
