(* ===== verification/Schedule_Dates.thy ===== *)
theory Schedule_Dates
  imports Schedule_Order
begin

text \<open>
  The date rules of \<open>taiga/projects/schedule/services.py\<close>: the effective start of a
  schedule, the bounds of an item and of its children, and the checks that a proposed date
  respects the children of an item, its incoming dependencies and those of its ancestors.
  Every function here only reads.
\<close>

section \<open>Dates\<close>

text \<open>\<open>date + timedelta(days=n)\<close> for \<open>n \<ge> 0\<close>.\<close>

definition add_days :: "date \<Rightarrow> int \<Rightarrow> date res" where
  "add_days d n = (if d + n > DATE_MAX then Inl OverflowError else Inr (d + n))"

section \<open>Objects under validation\<close>

text \<open>
  A model instance or a \<open>SimpleNamespace\<close>. The outer option of an attribute says whether the
  object has it (\<open>hasattr\<close>), the inner one is the nullable value.
\<close>

record entity_obj =
  ob_id :: "int option"
  ob_actual_start :: "date option option"
  ob_estimated_start :: "date option option"
  ob_due_date :: "date option option"
  ob_user_story_id :: "int option option"
  ob_user_story :: "int option option"

text \<open>Python truthiness of a nullable number.\<close>

definition truthy :: "int option \<Rightarrow> bool" where
  "truthy x = (case x of None \<Rightarrow> False | Some i \<Rightarrow> i \<noteq> 0)"

definition getattr_or_none :: "'a option option \<Rightarrow> 'a option" where
  "getattr_or_none a = (case a of None \<Rightarrow> None | Some v \<Rightarrow> v)"

definition find_userstory :: "int \<Rightarrow> db \<Rightarrow> userstory option" where
  "find_userstory i s = find (\<lambda>u. us_id u = i) (userstories s)"

definition find_epic :: "int \<Rightarrow> db \<Rightarrow> epic option" where
  "find_epic i s = find (\<lambda>e. e_id e = i) (epics s)"

definition find_schedule_id :: "int \<Rightarrow> db \<Rightarrow> schedule option" where
  "find_schedule_id i s = find (\<lambda>r. s_id r = i) (schedules s)"

section \<open>Effective dates\<close>

definition get_due_date :: "string \<Rightarrow> int \<Rightarrow> (db, date option) qry" where
  "get_due_date entity_type entity_id =
     bindQ (assert_entity_type entity_type) (\<lambda>_.
       if entity_type = TYPE_EPIC then
         bindQ (get_schedule TYPE_EPIC entity_id) (\<lambda>found.
           retQ (case found of Some sched \<Rightarrow> s_due_date sched | None \<Rightarrow> None))
       else if entity_type = TYPE_USERSTORY then
         tbl ''userstory'' (\<lambda>s. Option.bind (find_userstory entity_id s) us_due_date)
       else tbl ''task'' (\<lambda>s. Option.bind (find_task entity_id s) t_due_date))"

definition get_effective_start :: "schedule option \<Rightarrow> date option" where
  "get_effective_start sched = (case sched of
      None \<Rightarrow> None
    | Some r \<Rightarrow> (case s_actual_start r of Some d \<Rightarrow> Some d | None \<Rightarrow> s_estimated_start r))"

definition get_due_from_schedule_or_fallback :: "schedule option \<Rightarrow> date option \<Rightarrow> date option" where
  "get_due_from_schedule_or_fallback sched fallback_due = (case sched of
      None \<Rightarrow> fallback_due
    | Some r \<Rightarrow> (case s_due_date r of Some d \<Rightarrow> Some d | None \<Rightarrow> fallback_due))"

text \<open>
  The queryset is lazy: its rows are fetched outside the \<open>try\<close> block, so an unavailable
  table is not caught here.
\<close>

definition get_schedule_map :: "string \<Rightarrow> int list \<Rightarrow> (db, int \<Rightarrow> schedule option) qry" where
  "get_schedule_map entity_type entity_ids =
     (if entity_ids = [] then retQ (\<lambda>_. None)
      else tbl ''schedule'' (\<lambda>s i. if i \<in> set entity_ids then find_schedule entity_type i s else None))"

definition resolve_effective_start :: "date option \<Rightarrow> date option \<Rightarrow> date option" where
  "resolve_effective_start actual_start estimated_start =
     (case actual_start of Some d \<Rightarrow> Some d | None \<Rightarrow> estimated_start)"

definition get_proposed_bounds_for_entity ::
    "entity_obj \<Rightarrow> string \<Rightarrow> (db, date option \<times> date option) qry" where
  "get_proposed_bounds_for_entity obj entity_type =
     bindQ (case ob_id obj of
              Some i \<Rightarrow> if i \<noteq> 0 then get_schedule entity_type i else retQ None
            | None \<Rightarrow> retQ None) (\<lambda>sched.
     let actual_start = (case ob_actual_start obj of
            Some v \<Rightarrow> v | None \<Rightarrow> Option.bind sched s_actual_start);
         estimated_start = (case ob_estimated_start obj of
            Some v \<Rightarrow> v | None \<Rightarrow> Option.bind sched s_estimated_start);
         due_date = (if entity_type = TYPE_EPIC then
              (case ob_due_date obj of Some v \<Rightarrow> v | None \<Rightarrow> Option.bind sched s_due_date)
            else getattr_or_none (ob_due_date obj)) in
     retQ (resolve_effective_start actual_start estimated_start, due_date))"

section \<open>Bounds of the children\<close>

text \<open>The body of both loops: the least start and the greatest due date so far.\<close>

definition widen_bounds ::
    "date option \<times> date option \<Rightarrow> date option \<times> date option \<Rightarrow> date option \<times> date option" where
  "widen_bounds bounds child = (case (bounds, child) of ((min_start, max_due), (start, due)) \<Rightarrow>
     ((case start of None \<Rightarrow> min_start
       | Some st \<Rightarrow> (case min_start of None \<Rightarrow> Some st | Some m \<Rightarrow> if st < m then Some st else Some m)),
      (case due of None \<Rightarrow> max_due
       | Some du \<Rightarrow> (case max_due of None \<Rightarrow> Some du | Some m \<Rightarrow> if du > m then Some du else Some m))))"

definition child_bounds :: "(int \<Rightarrow> schedule option) \<Rightarrow> int \<times> date option \<Rightarrow> date option \<times> date option" where
  "child_bounds schedule_map child = (case child of (i, due) \<Rightarrow>
     (get_effective_start (schedule_map i), get_due_from_schedule_or_fallback (schedule_map i) due))"

definition bounds_of_children ::
    "(int \<Rightarrow> schedule option) \<Rightarrow> (int \<times> date option) list \<Rightarrow> date option \<times> date option" where
  "bounds_of_children schedule_map children =
     foldl widen_bounds (None, None) (map (child_bounds schedule_map) children)"

definition story_tasks :: "int \<Rightarrow> db \<Rightarrow> task list" where
  "story_tasks us s = filter (\<lambda>t. t_user_story_id t = Some us) (tasks s)"

definition get_task_children_bounds :: "int \<Rightarrow> (db, date option \<times> date option) qry" where
  "get_task_children_bounds userstory_id =
     (if userstory_id = 0 then retQ (None, None)
      else bindQ (on_dbQ (tbl ''task'' (story_tasks userstory_id)) []) (\<lambda>ts.
        if ts = [] then retQ (None, None)
        else bindQ (get_schedule_map TYPE_TASK (map t_id ts)) (\<lambda>schedule_map.
          retQ (bounds_of_children schedule_map (map (\<lambda>t. (t_id t, t_due_date t)) ts)))))"

definition epic_story_ids :: "int \<Rightarrow> db \<Rightarrow> int list" where
  "epic_story_ids epic_id s =
     remdups (map ru_user_story_id (filter (\<lambda>r. ru_epic_id r = epic_id) (relateds s)))"

definition get_userstory_children_bounds :: "int \<Rightarrow> (db, date option \<times> date option) qry" where
  "get_userstory_children_bounds epic_id =
     (if epic_id = 0 then retQ (None, None)
      else bindQ (on_dbQ (tbl ''related'' (epic_story_ids epic_id)) []) (\<lambda>userstory_ids.
        if userstory_ids = [] then retQ (None, None)
        else bindQ (on_dbQ (bindQ (tbl ''userstory'' (\<lambda>s. filter (\<lambda>u. us_id u \<in> set userstory_ids) (userstories s)))
                      (\<lambda>us. retQ (Some us))) None) (\<lambda>fetched.
          case fetched of
            None \<Rightarrow> retQ (None, None)
          | Some us \<Rightarrow>
              bindQ (get_schedule_map TYPE_USERSTORY userstory_ids) (\<lambda>schedule_map.
                retQ (bounds_of_children schedule_map (map (\<lambda>u. (us_id u, us_due_date u)) us))))))"

definition MSG_BEFORE_ITEM :: string where
  "MSG_BEFORE_ITEM = ''It is not possible to set a date earlier than an internal item date.''"
definition MSG_STORY_START :: string where
  "MSG_STORY_START = ''Cannot set user story start date later than one of its task start dates.''"
definition MSG_EPIC_START :: string where
  "MSG_EPIC_START = ''Cannot set epic start date later than one of its user story start dates.''"
definition MSG_NO_TARGET_START :: string where
  "MSG_NO_TARGET_START = ''The target schedule must have a start date.''"
definition MSG_TARGET_BEFORE_SOURCE :: string where
  "MSG_TARGET_BEFORE_SOURCE = ''The target schedule must start after the source schedule due date.''"

text \<open>The two comparisons both bounds checks make, in the order of the source.\<close>

definition bounds_violation ::
    "string \<Rightarrow> date option \<times> date option \<Rightarrow> date option \<times> date option \<Rightarrow> string option" where
  "bounds_violation start_message parent children =
     (case (parent, children) of ((parent_start, parent_due), (min_child_start, max_child_due)) \<Rightarrow>
        if (case (parent_due, max_child_due) of (Some p, Some c) \<Rightarrow> c > p | _ \<Rightarrow> False)
        then Some MSG_BEFORE_ITEM
        else if (case (parent_start, min_child_start) of (Some p, Some c) \<Rightarrow> c < p | _ \<Rightarrow> False)
        then Some start_message
        else None)"

definition get_userstory_bounds_violation_error :: "entity_obj option \<Rightarrow> (db, string option) qry" where
  "get_userstory_bounds_violation_error userstory_obj =
     (case userstory_obj of
        None \<Rightarrow> retQ None
      | Some obj \<Rightarrow> if \<not> truthy (ob_id obj) then retQ None
          else bindQ (get_proposed_bounds_for_entity obj TYPE_USERSTORY) (\<lambda>parent.
               bindQ (get_task_children_bounds (the (ob_id obj))) (\<lambda>children.
               retQ (bounds_violation MSG_STORY_START parent children))))"

definition get_epic_bounds_violation_error :: "entity_obj option \<Rightarrow> (db, string option) qry" where
  "get_epic_bounds_violation_error epic_obj =
     (case epic_obj of
        None \<Rightarrow> retQ None
      | Some obj \<Rightarrow> if \<not> truthy (ob_id obj) then retQ None
          else bindQ (get_proposed_bounds_for_entity obj TYPE_EPIC) (\<lambda>parent.
               bindQ (get_userstory_children_bounds (the (ob_id obj))) (\<lambda>children.
               retQ (bounds_violation MSG_EPIC_START parent children))))"

section \<open>Dependencies\<close>

text \<open>The source schedules of the dependencies into a schedule.\<close>

definition incoming_sources :: "int \<Rightarrow> db \<Rightarrow> schedule list" where
  "incoming_sources schedule_id s =
     [r. d \<leftarrow> dependencies s, d_to_schedule_id d = schedule_id,
         r \<leftarrow> schedules s, s_id r = d_from_schedule_id d]"

definition incoming_sources_query :: "int \<Rightarrow> (db, schedule list) qry" where
  "incoming_sources_query schedule_id =
     bindQ (tbl ''dependency'' (\<lambda>_. ())) (\<lambda>_. tbl ''schedule'' (incoming_sources schedule_id))"

definition get_dependency_start_violation_error ::
    "entity_obj option \<Rightarrow> string \<Rightarrow> (db, string option) qry" where
  "get_dependency_start_violation_error entity entity_type =
     (case entity of
        None \<Rightarrow> retQ None
      | Some obj \<Rightarrow> if \<not> truthy (ob_id obj) then retQ None
          else bindQ (get_schedule entity_type (the (ob_id obj))) (\<lambda>found.
            case found of
              None \<Rightarrow> retQ None
            | Some sched \<Rightarrow>
                bindQ (get_proposed_bounds_for_entity obj entity_type) (\<lambda>(proposed_start, _).
                bindQ (incoming_sources_query (s_id sched)) (\<lambda>sources.
                  if sources = [] then retQ None
                  else case proposed_start of
                    None \<Rightarrow> retQ (Some MSG_NO_TARGET_START)
                  | Some start \<Rightarrow>
                      retQ (if \<exists>r \<in> set sources. (case s_due_date r of Some due \<Rightarrow> start \<le> due | None \<Rightarrow> False)
                            then Some MSG_TARGET_BEFORE_SOURCE else None)))))"

definition expand_parent_start :: "date option \<Rightarrow> date option \<Rightarrow> date option" where
  "expand_parent_start current_parent_start child_start =
     (case child_start of
        None \<Rightarrow> current_parent_start
      | Some c \<Rightarrow> (case current_parent_start of
            None \<Rightarrow> Some c
          | Some p \<Rightarrow> if c < p then Some c else Some p))"

text \<open>The loop of \<open>_get_required_start_from_incoming_dependencies\<close>.\<close>

fun latest_required :: "date option list \<Rightarrow> date option \<Rightarrow> date option res" where
  "latest_required [] required_start = Inr required_start"
| "latest_required (None # dues) required_start = latest_required dues required_start"
| "latest_required (Some source_due_date # dues) required_start =
     (case add_days source_due_date 1 of
        Inl e \<Rightarrow> Inl e
      | Inr candidate \<Rightarrow>
          latest_required dues
            (case required_start of
               None \<Rightarrow> Some candidate
             | Some r \<Rightarrow> if candidate > r then Some candidate else Some r))"

definition get_required_start_from_incoming_dependencies :: "int \<Rightarrow> (db, date option) qry" where
  "get_required_start_from_incoming_dependencies schedule_id =
     (if schedule_id = 0 then retQ None
      else bindQ (incoming_sources_query schedule_id) (\<lambda>sources s.
        latest_required (map s_due_date sources) None))"

definition get_dependency_violation_for_candidate_start ::
    "schedule option \<Rightarrow> date option \<Rightarrow> (db, string option) qry" where
  "get_dependency_violation_for_candidate_start sched candidate_start =
     (case (sched, candidate_start) of
        (Some r, Some candidate) \<Rightarrow>
          bindQ (get_required_start_from_incoming_dependencies (s_id r)) (\<lambda>required_start.
            case required_start of
              None \<Rightarrow> retQ None
            | Some required \<Rightarrow>
                retQ (if candidate < required then Some MSG_TARGET_BEFORE_SOURCE else None))
      | _ \<Rightarrow> retQ None)"

definition get_task_parent_userstory_id :: "entity_obj \<Rightarrow> int option" where
  "get_task_parent_userstory_id obj =
     (let userstory_id = getattr_or_none (ob_user_story_id obj) in
      if truthy userstory_id then userstory_id
      else getattr_or_none (ob_user_story obj))"

definition get_epic_dependency_violation_for_userstory_candidate_start ::
    "int \<Rightarrow> date option \<Rightarrow> (db, string option) qry" where
  "get_epic_dependency_violation_for_userstory_candidate_start userstory_id candidate =
     (if userstory_id = 0 \<or> candidate = None then retQ None
      else bindQ (get_primary_epic_relation userstory_id) (\<lambda>relation.
        case relation of
          None \<Rightarrow> retQ None
        | Some (r, _) \<Rightarrow>
            bindQ (get_schedule TYPE_EPIC (ru_epic_id r)) (\<lambda>epic_schedule.
              get_dependency_violation_for_candidate_start epic_schedule
                (expand_parent_start (get_effective_start epic_schedule) candidate))))"

definition get_ancestor_dependency_start_violation_error ::
    "entity_obj option \<Rightarrow> string \<Rightarrow> (db, string option) qry" where
  "get_ancestor_dependency_start_violation_error entity entity_type =
     (case entity of
        None \<Rightarrow> retQ None
      | Some obj \<Rightarrow> if \<not> truthy (ob_id obj) then retQ None
          else bindQ (get_proposed_bounds_for_entity obj entity_type) (\<lambda>(proposed_start, _).
            if proposed_start = None then retQ None
            else if entity_type = TYPE_TASK then
              (let userstory_id = get_task_parent_userstory_id obj in
               if \<not> truthy userstory_id then retQ None
               else bindQ (get_schedule TYPE_USERSTORY (the userstory_id)) (\<lambda>userstory_schedule.
                 let candidate = expand_parent_start (get_effective_start userstory_schedule) proposed_start in
                 bindQ (get_dependency_violation_for_candidate_start userstory_schedule candidate) (\<lambda>violation.
                   case violation of
                     Some message \<Rightarrow> retQ (Some message)
                   | None \<Rightarrow> get_epic_dependency_violation_for_userstory_candidate_start
                               (the userstory_id) candidate)))
            else if entity_type = TYPE_USERSTORY then
              get_epic_dependency_violation_for_userstory_candidate_start (the (ob_id obj)) proposed_start
            else retQ None))"

end
