(* ===== verification/Schedule_Upsert.thy ===== *)
theory Schedule_Upsert
  imports Schedule_Dates
begin

text \<open>
  Creating and updating schedule rows, \<open>taiga/projects/schedule/services.py\<close>:
  \<open>upsert_schedule\<close>, the ordering of all user stories of an epic, and the colors that user
  stories and tasks inherit from their primary epic.
\<close>

section \<open>Keyword arguments\<close>

text \<open>
  The keyword arguments of \<open>upsert_schedule\<close>: the outer option is \<open>None\<close> for \<open>_UNSET\<close>, the
  inner one is the nullable value.
\<close>

record schedule_values =
  v_created_date :: "int option option"
  v_due_date :: "date option option"
  v_estimated_start :: "date option option"
  v_actual_start :: "date option option"
  v_color :: "string option option"

definition no_values :: schedule_values where
  "no_values = \<lparr>v_created_date = None, v_due_date = None, v_estimated_start = None,
     v_actual_start = None, v_color = None\<rparr>"

definition given :: "'a option \<Rightarrow> 'a \<Rightarrow> 'a" where
  "given v old = (case v of None \<Rightarrow> old | Some x \<Rightarrow> x)"

lemma given_simps [simp]: "given None x = x" "given (Some v) x = v"
  by (simp_all add: given_def)

definition set_values :: "int \<Rightarrow> schedule_values \<Rightarrow> schedule \<Rightarrow> schedule" where
  "set_values project_id v r = r\<lparr>
     s_project_id := project_id,
     s_created_date := given (v_created_date v) (s_created_date r),
     s_due_date := given (v_due_date v) (s_due_date r),
     s_estimated_start := given (v_estimated_start v) (s_estimated_start r),
     s_actual_start := given (v_actual_start v) (s_actual_start r),
     s_color := given (v_color v) (s_color r)\<rparr>"

section \<open>Upserting\<close>

definition get_or_create_schedule :: "string \<Rightarrow> int \<Rightarrow> int \<Rightarrow> (db, schedule) eff" where
  "get_or_create_schedule entity_type entity_id project_id = (\<lambda>s.
     if ''schedule'' \<in> set (down s) then (Inl DbError, s)
     else case find_schedule entity_type entity_id s of
        Some r \<Rightarrow> (Inr r, s)
      | None \<Rightarrow>
          (let r = \<lparr>s_id = schedule_seq s, s_entity_type = entity_type, s_entity_id = entity_id,
                    s_project_id = project_id, s_created_date = None, s_due_date = None,
                    s_estimated_start = None, s_actual_start = None, s_color = None\<rparr>
           in (Inr r, s\<lparr>schedules := schedules s @ [r], schedule_seq := schedule_seq s + 1\<rparr>)))"

text \<open>\<open>try: m except (ProgrammingError, OperationalError)\<close>, as a flag for the code after it.\<close>

definition stored :: "(db, unit) eff \<Rightarrow> (db, bool) eff" where
  "stored m = on_db (bindE m (\<lambda>_. retE True)) False"

definition upsert_schedule :: "string \<Rightarrow> int \<Rightarrow> int \<Rightarrow> schedule_values \<Rightarrow> (db, schedule option) eff" where
  "upsert_schedule entity_type entity_id project_id v =
     bindE (liftE (assert_entity_type entity_type)) (\<lambda>_.
     bindE (on_db (bindE (get_or_create_schedule entity_type entity_id project_id)
                     (\<lambda>obj. retE (Some obj))) None) (\<lambda>found.
       case found of
         None \<Rightarrow> retE None
       | Some obj \<Rightarrow>
           let updates = s_project_id obj \<noteq> project_id \<or> v \<noteq> no_values in
           bindE (if updates
                  then stored (update_schedule_row (s_id obj) (set_values project_id v))
                  else retE True) (\<lambda>ok.
             if \<not> ok then retE (Some obj)
             else bindE (sync_schedule_item_order entity_type entity_id) (\<lambda>_.
                    retE (Some (if updates then set_values project_id v obj else obj))))))"

section \<open>The order of the user stories of an epic\<close>

text \<open>
  The loop collects the order items of the schedules that are children of the epic, as the
  objects the single synchronisations returned.
\<close>

definition sync_epic_userstories_schedule_item_order_for_epic ::
    "int \<Rightarrow> int \<Rightarrow> schedule list \<Rightarrow> (db, order_item list) eff" where
  "sync_epic_userstories_schedule_item_order_for_epic project_id epic_id ordered_schedules =
     (let target_group_key = build_order_group_key project_id TYPE_USERSTORY TYPE_EPIC epic_id in
      bindE (mapE ordered_schedules sync_schedule_item_order_for_schedule) (\<lambda>synced.
        let ordered_items = filter (\<lambda>item. oi_entity_type item = TYPE_USERSTORY
               \<and> oi_parent_entity_type item = TYPE_EPIC \<and> oi_parent_entity_id item = epic_id) synced in
        if ordered_items = [] then retE []
        else bindE (liftE (fetch_group_items_for_update target_group_key)) (\<lambda>items.
          let remaining_items = filter (\<lambda>item. oi_id item \<notin> set (map oi_id ordered_items)) items in
          bindE (persist_group_positions (ordered_items @ remaining_items)) (\<lambda>persisted.
            retE (map (\<lambda>item. refreshed item persisted) ordered_items)))))"

definition epic_userstory_ids_in_order :: "int \<Rightarrow> db \<Rightarrow> int list" where
  "epic_userstory_ids_in_order epic_id s =
     map ru_user_story_id (sort_key (\<lambda>r. (ru_order r, ru_id r))
       (filter (\<lambda>r. ru_epic_id r = epic_id) (relateds s)))"

definition schedule_of_userstory :: "int \<Rightarrow> int \<Rightarrow> (db, schedule option) eff" where
  "schedule_of_userstory project_id userstory_id =
     bindE (liftE (get_schedule TYPE_USERSTORY userstory_id)) (\<lambda>found.
       case found of
         Some sched \<Rightarrow> retE (Some sched)
       | None \<Rightarrow> upsert_schedule TYPE_USERSTORY userstory_id project_id no_values)"

definition sync_epic_userstories_schedule_item_order_in_bulk ::
    "int option \<Rightarrow> (db, order_item list) eff" where
  "sync_epic_userstories_schedule_item_order_in_bulk epic_ref =
     (if \<not> truthy epic_ref then retE []
      else let epic_id = the epic_ref in
        bindE (liftE (on_dbQ (tbl ''epic'' (find_epic epic_id)) None)) (\<lambda>found.
          case found of
            None \<Rightarrow> retE []
          | Some ep \<Rightarrow>
              bindE (liftE (on_dbQ (tbl ''related'' (epic_userstory_ids_in_order epic_id)) [])) (\<lambda>ids.
                if ids = [] then retE []
                else bindE (mapE ids (schedule_of_userstory (e_project_id ep))) (\<lambda>founds.
                  let ordered_schedules = List.map_filter id founds in
                  if ordered_schedules = [] then retE []
                  else handleE (bindE (run_schedule_item_order_operation_with_retries
                         (\<lambda>_. sync_epic_userstories_schedule_item_order_for_epic
                                (e_project_id ep) epic_id ordered_schedules))
                         (\<lambda>r. retE (case r of None \<Rightarrow> [] | Some items \<Rightarrow> items)))
                       (\<lambda>e. if e = IntegrityError \<or> e = DbError then Some (retE []) else None)))))"

section \<open>Colors\<close>

definition get_primary_epic_color_for_userstory :: "int \<Rightarrow> (db, string option) qry" where
  "get_primary_epic_color_for_userstory userstory_id =
     bindQ (get_primary_epic_relation userstory_id) (\<lambda>relation.
       retQ (case relation of None \<Rightarrow> None | Some (_, ep) \<Rightarrow> Some (e_color ep)))"

definition color_value :: "string option \<Rightarrow> schedule_values" where
  "color_value color = no_values\<lparr>v_color := Some color\<rparr>"

text \<open>The queryset of the tasks is lazy: it is read outside the \<open>try\<close> block.\<close>

definition sync_userstory_and_tasks_schedule_color :: "int \<Rightarrow> (db, unit) eff" where
  "sync_userstory_and_tasks_schedule_color userstory_id =
     (if userstory_id = 0 then retE ()
      else bindE (liftE (on_dbQ (tbl ''userstory'' (find_userstory userstory_id)) None)) (\<lambda>found.
        case found of
          None \<Rightarrow> retE ()
        | Some u \<Rightarrow>
            bindE (liftE (get_primary_epic_color_for_userstory userstory_id)) (\<lambda>color.
            bindE (upsert_schedule TYPE_USERSTORY (us_id u) (us_project_id u) (color_value color)) (\<lambda>_.
            bindE (liftE (tbl ''task'' (story_tasks (us_id u)))) (\<lambda>ts.
              forE ts (\<lambda>t. bindE (upsert_schedule TYPE_TASK (t_id t) (t_project_id t) (color_value color))
                 (\<lambda>_. retE ())))))))"

definition sync_epic_related_schedule_colors :: "int \<Rightarrow> (db, unit) eff" where
  "sync_epic_related_schedule_colors epic_id =
     (if epic_id = 0 then retE ()
      else bindE (liftE (tbl ''related'' (epic_story_ids epic_id))) (\<lambda>ids.
        forE ids sync_userstory_and_tasks_schedule_color))"

definition first_some :: "'a option \<Rightarrow> 'a option \<Rightarrow> 'a option" where
  "first_some a b = (case a of Some x \<Rightarrow> Some x | None \<Rightarrow> b)"

definition update_schedule_color ::
    "string \<Rightarrow> int \<Rightarrow> pyval \<Rightarrow> string \<Rightarrow> (db, schedule option) eff" where
  "update_schedule_color entity_type entity_id raw_project_id color =
     bindE (liftE (assert_entity_type entity_type)) (\<lambda>_.
     bindE (liftE (int_or_raise raw_project_id
              (ValueError ''Invalid project id for schedule color update.''))) (\<lambda>project_id.
       if entity_type = TYPE_EPIC then
         bindE (update_epic_row (\<lambda>e. e_id e = entity_id \<and> e_project_id e = project_id)
                  (\<lambda>e. e\<lparr>e_color := color\<rparr>)) (\<lambda>_.
         bindE (upsert_schedule TYPE_EPIC entity_id project_id (color_value (Some color))) (\<lambda>sched.
         bindE (sync_epic_related_schedule_colors entity_id) (\<lambda>_.
         bindE (emit_event_for_ids [entity_id] ''epics.epic'' project_id) (\<lambda>_.
           retE sched))))
       else if entity_type = TYPE_USERSTORY then
         bindE (liftE (get_primary_epic_color_for_userstory entity_id)) (\<lambda>inherited_color.
         bindE (upsert_schedule TYPE_USERSTORY entity_id project_id
                  (color_value (first_some inherited_color (Some color)))) (\<lambda>sched.
         bindE (emit_event_for_ids [entity_id] ''userstories.userstory'' project_id) (\<lambda>_.
           retE sched)))
       else
         bindE (liftE (tbl ''task'' (\<lambda>s. Option.bind
              (find (\<lambda>t. t_id t = entity_id \<and> t_project_id t = project_id) (tasks s))
              t_user_story_id))) (\<lambda>user_story_id.
         bindE (liftE (if truthy user_story_id
                       then get_primary_epic_color_for_userstory (the user_story_id)
                       else retQ None)) (\<lambda>inherited_color.
         bindE (upsert_schedule TYPE_TASK entity_id project_id
                  (color_value (first_some inherited_color (Some color)))) (\<lambda>sched.
         bindE (emit_event_for_ids [entity_id] ''tasks.task'' project_id) (\<lambda>_.
           retE sched))))))"

end
