(* ===== verification/Schedule_Order_Facts.thy ===== *)
theory Schedule_Order_Facts
  imports Schedule_Order
begin

text \<open>
  Correctness of the sibling order. The library part describes a run of single-row position
  updates (\<open>assign_positions\<close>), shows that reindexing never meets the unique constraint and
  numbers the group from 1, and states group contents as lists of ids, on which moving an
  item is removal and insertion. The properties follow at the end.
\<close>

section \<open>Sequences of position updates\<close>

definition renumber :: "(int \<times> int) list \<Rightarrow> order_item list \<Rightarrow> order_item list" where
  "renumber asg rows =
     map (\<lambda>r. case map_of asg (oi_id r) of None \<Rightarrow> r | Some p \<Rightarrow> r\<lparr>oi_position := p\<rparr>) rows"

lemma renumber_Nil [simp]: "renumber [] rows = rows"
  by (simp add: renumber_def)

lemma renumber_ids [simp]: "map oi_id (renumber asg rows) = map oi_id rows"
  by (auto simp: renumber_def split: option.split)

lemma renumber_groups [simp]: "map oi_group (renumber asg rows) = map oi_group rows"
  by (auto simp: renumber_def oi_group_def split: option.split)

lemma renumber_schedules [simp]: "map oi_schedule_id (renumber asg rows) = map oi_schedule_id rows"
  by (auto simp: renumber_def split: option.split)

lemma length_renumber [simp]: "length (renumber asg rows) = length rows"
  by (simp add: renumber_def)

lemma renumber_Cons:
  "i \<notin> fst ` set asg \<Longrightarrow>
    renumber asg (upd_where (\<lambda>r. oi_id r = i) (\<lambda>r. r\<lparr>oi_position := p\<rparr>) rows) = renumber ((i, p) # asg) rows"
  by (auto simp: renumber_def upd_where_def map_of_eq_None_iff split: option.split dest!: map_of_SomeD)
    force

lemma renumber_over:
  assumes "fst ` set asg \<subseteq> fst ` set asg'"
  shows "renumber asg' (renumber asg rows) = renumber asg' rows"
proof -
  have "map_of asg i = None" if "map_of asg' i = None" for i
    using that assms by (auto simp: map_of_eq_None_iff)
  then show ?thesis
    by (auto simp: renumber_def split: option.split)
qed

lemma renumber_noop:
  "(\<And>r p. r \<in> set rows \<Longrightarrow> map_of asg (oi_id r) = Some p \<Longrightarrow> oi_position r = p) \<Longrightarrow> renumber asg rows = rows"
  by (auto simp: renumber_def intro!: map_idI split: option.split)

lemma renumber_cong:
  "(\<And>r. r \<in> set rows \<Longrightarrow>
      (case map_of asg (oi_id r) of None \<Rightarrow> oi_position r | Some p \<Rightarrow> p)
    = (case map_of asg' (oi_id r) of None \<Rightarrow> oi_position r | Some p \<Rightarrow> p)) \<Longrightarrow>
   renumber asg rows = renumber asg' rows"
  by (fastforce simp: renumber_def split: option.splits)

text \<open>The database state with the order table replaced.\<close>

abbreviation with_orders :: "order_item list \<Rightarrow> db \<Rightarrow> db" where
  "with_orders rows s \<equiv> s\<lparr>item_orders := rows\<rparr>"

lemma set_order_position_ok:
  assumes up: "''item_order'' \<notin> set (down s)"
    and ok: "orders_ok (upd_where (\<lambda>r. oi_id r = i) (\<lambda>r. r\<lparr>oi_position := p\<rparr>) (item_orders s))"
  shows "set_order_position i p s =
    (Inr (), with_orders (upd_where (\<lambda>r. oi_id r = i) (\<lambda>r. r\<lparr>oi_position := p\<rparr>) (item_orders s)) s)"
  using assms by (simp add: set_order_position_def update_order_row_def store_orders_def)

text \<open>
  One update keeps the constraints when the new position is free in the group.
\<close>

lemma orders_ok_upd_gen:
  assumes ok: "orders_ok rows" and ids: "distinct (map oi_id rows)"
    and free: "\<And>r x. r \<in> set rows \<Longrightarrow> oi_id r = i \<Longrightarrow> x \<in> set rows \<Longrightarrow> oi_id x \<noteq> i \<Longrightarrow>
       (oi_group x, oi_position x) \<noteq> (oi_group (f r), oi_position (f r))"
    and pos: "\<And>r. r \<in> set rows \<Longrightarrow> oi_id r = i \<Longrightarrow> 0 \<le> oi_position (f r)"
    and sched: "\<And>r. oi_schedule_id (f r) = oi_schedule_id r"
  shows "orders_ok (upd_where (\<lambda>r. oi_id r = i) f rows)"
proof -
  let ?u = "\<lambda>r. if oi_id r = i then f r else r"
  have d: "distinct (map (\<lambda>r. (oi_group r, oi_position r)) rows)" and "distinct rows"
    using ok ids by (auto simp: orders_ok_def distinct_map)
  have "inj_on (\<lambda>r. (oi_group (?u r), oi_position (?u r))) (set rows)"
  proof (rule inj_onI)
    fix a b assume ab: "a \<in> set rows" "b \<in> set rows"
      and eq: "(oi_group (?u a), oi_position (?u a)) = (oi_group (?u b), oi_position (?u b))"
    show "a = b"
    proof (cases "oi_id a = oi_id b")
      case True
      then show ?thesis using ab ids by (auto dest: distinct_map_inj)
    next
      case False
      have "oi_id a \<noteq> i" using free [OF ab(1) _ ab(2)] eq False by auto
      moreover have "oi_id b \<noteq> i" using free [OF ab(2) _ ab(1)] eq False by auto
      ultimately show ?thesis using eq ab d by (auto dest: distinct_map_inj)
    qed
  qed
  with \<open>distinct rows\<close> have "distinct (map (\<lambda>r. (oi_group (?u r), oi_position (?u r))) rows)"
    by (simp add: distinct_map)
  then have "distinct (map (\<lambda>r. (oi_group r, oi_position r)) (upd_where (\<lambda>r. oi_id r = i) f rows))"
    by (simp add: upd_where_def comp_def)
  moreover have "map oi_schedule_id (upd_where (\<lambda>r. oi_id r = i) f rows) = map oi_schedule_id rows"
    by (simp add: map_upd_where sched)
  moreover have "\<forall>r \<in> set (upd_where (\<lambda>r. oi_id r = i) f rows). 0 \<le> oi_position r"
    using ok pos by (auto simp: orders_ok_def set_upd_where)
  ultimately show ?thesis
    using ok by (simp add: orders_ok_def)
qed

lemma orders_ok_upd:
  assumes "orders_ok rows" and "distinct (map oi_id rows)"
    and "\<And>r. r \<in> set rows \<Longrightarrow> oi_id r = i \<Longrightarrow> oi_group r = key"
    and "\<And>r. r \<in> set rows \<Longrightarrow> oi_group r = key \<Longrightarrow> oi_position r \<noteq> p"
    and "0 \<le> p"
  shows "orders_ok (upd_where (\<lambda>r. oi_id r = i) (\<lambda>r. r\<lparr>oi_position := p\<rparr>) rows)"
  by (rule orders_ok_upd_gen) (use assms in \<open>auto simp: oi_group_def\<close>)

text \<open>
  A whole run: distinct ids of one group are given distinct positions that no row of the
  group holds. Every statement passes the constraint check.
\<close>

lemma assign_positions:
  assumes "''item_order'' \<notin> set (down s)" and "orders_ok (item_orders s)"
    and "distinct (map oi_id (item_orders s))"
    and "distinct (map fst asg)" and "distinct (map snd asg)"
    and "\<And>i p r. (i, p) \<in> set asg \<Longrightarrow> r \<in> set (item_orders s) \<Longrightarrow> oi_id r = i \<Longrightarrow> oi_group r = key"
    and "\<And>i p r. (i, p) \<in> set asg \<Longrightarrow> r \<in> set (item_orders s) \<Longrightarrow> oi_group r = key \<Longrightarrow> oi_position r \<noteq> p"
    and "\<And>i p. (i, p) \<in> set asg \<Longrightarrow> 0 \<le> p"
  shows "forE asg (\<lambda>(i, p). set_order_position i p) s =
           (Inr (), with_orders (renumber asg (item_orders s)) s)
       \<and> orders_ok (renumber asg (item_orders s))"
  using assms
proof (induction asg arbitrary: s)
  case Nil
  then show ?case by (simp add: retE_apply)
next
  case (Cons a asg)
  obtain i p where a: "a = (i, p)" by (cases a)
  let ?rows = "upd_where (\<lambda>r. oi_id r = i) (\<lambda>r. r\<lparr>oi_position := p\<rparr>) (item_orders s)"
  have ok: "orders_ok ?rows"
  proof (rule orders_ok_upd [where key = key])
    show "orders_ok (item_orders s)" "distinct (map oi_id (item_orders s))"
      using Cons.prems(2,3) by auto
    show "oi_group r = key" if "r \<in> set (item_orders s)" "oi_id r = i" for r
      using Cons.prems(6) [of i p] that a by simp
    show "oi_position r \<noteq> p" if "r \<in> set (item_orders s)" "oi_group r = key" for r
      using Cons.prems(7) [of i p] that a by simp
    show "0 \<le> p" using Cons.prems(8) [of i p] a by simp
  qed
  have step: "set_order_position i p s = (Inr (), with_orders ?rows s)"
    by (rule set_order_position_ok) (use Cons.prems(1) ok in auto)
  have mem: "\<exists>r'. r' \<in> set (item_orders s) \<and> oi_id r' = oi_id r \<and> oi_group r' = oi_group r
      \<and> oi_position r \<in> {p, oi_position r'}" if "r \<in> set ?rows" for r
    using that by (auto simp: set_upd_where oi_group_def)
  let ?t = "with_orders ?rows s"
  have IH: "forE asg (\<lambda>(i, p). set_order_position i p) ?t =
           (Inr (), with_orders (renumber asg (item_orders ?t)) ?t)
       \<and> orders_ok (renumber asg (item_orders ?t))"
  proof (rule Cons.IH)
    show "''item_order'' \<notin> set (down ?t)" using Cons.prems(1) by simp
    show "orders_ok (item_orders ?t)" using ok by simp
    show "distinct (map oi_id (item_orders ?t))" using Cons.prems(3) by (simp add: map_upd_where)
    show "distinct (map fst asg)" "distinct (map snd asg)" using Cons.prems(4,5) by auto
    show "oi_group r = key" if "(j, q) \<in> set asg" "r \<in> set (item_orders ?t)" "oi_id r = j" for j q r
    proof -
      have "r \<in> set ?rows" using that(2) by simp
      from mem [OF this] show ?thesis using Cons.prems(6) [of j q] that by auto
    qed
    show "oi_position r \<noteq> q" if "(j, q) \<in> set asg" "r \<in> set (item_orders ?t)" "oi_group r = key" for j q r
    proof -
      have "q \<noteq> p" using Cons.prems(5) that(1) a by (force simp: image_iff)
      have "r \<in> set ?rows" using that(2) by simp
      then obtain r' where "r' \<in> set (item_orders s)" "oi_group r' = oi_group r"
        "oi_position r \<in> {p, oi_position r'}" using mem by blast
      with \<open>q \<noteq> p\<close> that Cons.prems(7) [of j q r'] show ?thesis by auto
    qed
    show "0 \<le> q" if "(j, q) \<in> set asg" for j q using Cons.prems(8) [of j q] that by simp
  qed
  have "renumber asg ?rows = renumber (a # asg) (item_orders s)"
    using Cons.prems(4) a by (auto simp: renumber_Cons)
  with IH step show ?case by (simp add: a bindE_ok)
qed

section \<open>Reindexing\<close>

definition positions_of :: "order_item list \<Rightarrow> (int \<times> int) list" where
  "positions_of items = map (\<lambda>(item, index). (oi_id item, index)) (enum1 items)"

definition numbered :: "order_item list \<Rightarrow> order_item list" where
  "numbered items = map (\<lambda>(item, index). item\<lparr>oi_position := index\<rparr>) (enum1 items)"

lemma map_fst_positions_of [simp]: "map fst (positions_of items) = map oi_id items"
  by (rule nth_equalityI) (simp_all add: positions_of_def enum1_nth)

lemma map_snd_positions_of [simp]: "map snd (positions_of items) = [1..int (length items)]"
  by (rule nth_equalityI) (simp_all add: positions_of_def enum1_nth nth_upto)

lemma length_numbered [simp]: "length (numbered items) = length items"
  by (simp add: numbered_def)

lemma numbered_nth: "k < length items \<Longrightarrow> numbered items ! k = (items ! k)\<lparr>oi_position := int k + 1\<rparr>"
  by (simp add: numbered_def enum1_nth)

lemma map_numbered:
  "(\<And>r p. f (r\<lparr>oi_position := p\<rparr>) = f r) \<Longrightarrow> map f (numbered items) = map f items"
  by (rule nth_equalityI) (simp_all add: numbered_nth)

lemma numbered_ids [simp]: "map oi_id (numbered items) = map oi_id items"
  and numbered_groups [simp]: "map oi_group (numbered items) = map oi_group items"
  by (simp_all add: map_numbered oi_group_def)

lemma numbered_positions [simp]: "map oi_position (numbered items) = [1..int (length items)]"
  by (rule nth_equalityI) (simp_all add: numbered_nth nth_upto)

lemma map_of_positions:
  "distinct (map oi_id items) \<Longrightarrow> k < length items \<Longrightarrow>
    map_of (positions_of items) (oi_id (items ! k)) = Some (int k + 1)"
proof (rule map_of_is_SomeI)
  assume k: "k < length items"
  then have "(items ! k, int k + 1) \<in> set (enum1 items)" by (auto simp: enum1_iff)
  then show "(oi_id (items ! k), int k + 1) \<in> set (positions_of items)"
    by (force simp: positions_of_def image_iff)
qed simp

lemma map_of_positions_None:
  "map_of (positions_of items) i = None \<longleftrightarrow> i \<notin> oi_id ` set items"
  by (metis map_fst_positions_of map_of_eq_None_iff image_set)

lemma pending_updates_iff:
  "(item, i) \<in> set (pending_updates items) \<longleftrightarrow>
     (\<exists>k < length items. items ! k = item \<and> i = int k + 1 \<and> oi_position item \<noteq> i)"
  by (auto simp: pending_updates_def enum1_iff)

lemma pending_mem: "(item, i) \<in> set (pending_updates items) \<Longrightarrow> item \<in> set items"
  by (auto simp: pending_updates_iff)

lemma pending_ids: "distinct (map oi_id items) \<Longrightarrow> distinct (map (oi_id \<circ> fst) (pending_updates items))"
proof -
  assume "distinct (map oi_id items)"
  then have "distinct (map (oi_id \<circ> fst) (enum1 items))"
    by (metis map_fst_enum1 map_map)
  then show ?thesis unfolding pending_updates_def by (rule distinct_map_filter)
qed

lemma pending_finals: "distinct (map snd (pending_updates items))"
  unfolding pending_updates_def by (rule distinct_map_filter) simp

lemma current_max_ge:
  "r \<in> set items \<Longrightarrow> oi_position r \<le> current_max_position items"
  "int (length items) \<le> current_max_position items"
proof -
  have *: "\<forall>x \<in> insert n (set xs). x \<le> fold max xs n" for xs and n :: int
  proof (induction xs arbitrary: n)
    case (Cons a xs)
    have "\<forall>x \<in> insert (max a n) (set xs). x \<le> fold max xs (max a n)" by (rule Cons.IH)
    then show ?case by auto
  qed simp
  show "r \<in> set items \<Longrightarrow> oi_position r \<le> current_max_position items"
    and "int (length items) \<le> current_max_position items"
    using * [of "int (length items)" "map oi_position items"] by (auto simp: current_max_position_def)
qed


text \<open>
  What the reindexing needs of its argument: the objects agree with the stored rows of one
  group and no row of the group is missing from the list.
\<close>

definition whole_group :: "group_key \<Rightarrow> order_item list \<Rightarrow> order_item list \<Rightarrow> bool" where
  "whole_group key items rows \<longleftrightarrow>
     distinct (map oi_id items) \<and> set items = {r \<in> set rows. oi_group r = key}"

lemma renumber_pending:
  assumes whole: "whole_group key items rows" and ids: "distinct (map oi_id rows)"
  shows "renumber (map (\<lambda>(item, p). (oi_id item, p)) (pending_updates items)) rows
       = renumber (positions_of items) rows"
proof (rule renumber_cong)
  fix r assume r: "r \<in> set rows"
  let ?pend = "map (\<lambda>(item, p). (oi_id item, p)) (pending_updates items)"
  have d: "distinct (map oi_id items)" and sub: "set items \<subseteq> set rows"
    using whole by (auto simp: whole_group_def)
  have dp: "distinct (map fst ?pend)"
    using pending_ids [OF d] by (simp add: comp_def case_prod_beta)
  show "(case map_of ?pend (oi_id r) of None \<Rightarrow> oi_position r | Some p \<Rightarrow> p)
      = (case map_of (positions_of items) (oi_id r) of None \<Rightarrow> oi_position r | Some p \<Rightarrow> p)"
  proof (cases "r \<in> set items")
    case False
    then have "oi_id r \<notin> oi_id ` set items"
      using r sub ids by (auto dest: distinct_map_inj)
    moreover from this have "map_of ?pend (oi_id r) = None"
      by (auto simp: map_of_eq_None_iff pending_updates_iff)
    ultimately show ?thesis by (simp add: map_of_positions_None [THEN iffD2])
  next
    case True
    then obtain k where k: "k < length items" "items ! k = r" by (auto simp: in_set_conv_nth)
    have full: "map_of (positions_of items) (oi_id r) = Some (int k + 1)"
      using map_of_positions [OF d k(1)] k(2) by simp
    show ?thesis
    proof (cases "oi_position r = int k + 1")
      case False
      then have "(r, int k + 1) \<in> set (pending_updates items)"
        using k by (auto simp: pending_updates_iff)
      then have "(oi_id r, int k + 1) \<in> set ?pend" by force
      then have "map_of ?pend (oi_id r) = Some (int k + 1)" using dp by simp
      with full show ?thesis by simp
    next
      case True
      have "oi_id r \<notin> fst ` set ?pend"
      proof
        assume "oi_id r \<in> fst ` set ?pend"
        then obtain item i where *: "(item, i) \<in> set (pending_updates items)" "oi_id item = oi_id r"
          by auto
        then obtain k' where k': "k' < length items" "items ! k' = item" "i = int k' + 1"
          "oi_position item \<noteq> i" by (auto simp: pending_updates_iff)
        have "k' = k" using d k k' *(2) nth_eq_iff_index_eq [OF d, of k' k] by simp
        with k k' True show False by simp
      qed
      then have "map_of ?pend (oi_id r) = None" by (simp only: map_of_eq_None_iff not_False_eq_True)
      with full True show ?thesis by simp
    qed
  qed
qed


definition temporary_asg :: "order_item list \<Rightarrow> (int \<times> int) list" where
  "temporary_asg items =
     (let pending = pending_updates items;
          base = current_max_position items + int (length pending) + 1 in
      map (\<lambda>((item, _), offset). (oi_id item, base + int offset)) (zip pending [0..<length pending]))"

definition final_asg :: "order_item list \<Rightarrow> (int \<times> int) list" where
  "final_asg items = map (\<lambda>(item, p). (oi_id item, p)) (pending_updates items)"

lemma temporary_fst: "map fst (temporary_asg items) = map (oi_id \<circ> fst) (pending_updates items)"
  and temporary_snd: "map snd (temporary_asg items) =
     map (\<lambda>k. current_max_position items + int (length (pending_updates items)) + 1 + int k)
       [0..<length (pending_updates items)]"
  by (rule nth_equalityI; simp add: temporary_asg_def Let_def case_prod_beta)+

lemma final_fst: "map fst (final_asg items) = map (oi_id \<circ> fst) (pending_updates items)"
  and final_snd: "map snd (final_asg items) = map snd (pending_updates items)"
  by (simp_all add: final_asg_def comp_def case_prod_beta)

lemma temporary_above:
  "(i, p) \<in> set (temporary_asg items) \<Longrightarrow> current_max_position items < p"
  by (auto simp: temporary_asg_def Let_def)

lemma final_bounds: "(i, p) \<in> set (final_asg items) \<Longrightarrow> 1 \<le> p \<and> p \<le> int (length items)"
  by (auto simp: final_asg_def pending_updates_iff)

lemma persist_as_assignments:
  "persist_group_positions items =
     (if pending_updates items = [] then retE items
      else bindE (forE (temporary_asg items) (\<lambda>(i, p). set_order_position i p)) (\<lambda>_.
           bindE (forE (final_asg items) (\<lambda>(i, p). set_order_position i p)) (\<lambda>_.
           retE (numbered items))))"
  by (simp add: persist_group_positions_def temporary_asg_def final_asg_def numbered_def Let_def
      forE_map case_prod_unfold)

lemma no_pending_numbered: "pending_updates items = [] \<Longrightarrow> numbered items = items"
proof (rule nth_equalityI)
  fix k assume none: "pending_updates items = []" and k: "k < length (numbered items)"
  from none have "\<not> (items ! k, int k + 1) \<in> set (pending_updates items)" by simp
  then have "oi_position (items ! k) = int k + 1" using k by (auto simp: pending_updates_iff)
  then show "numbered items ! k = items ! k"
    using k by (cases "items ! k") (simp add: numbered_nth)
qed simp

text \<open>First phase: every pending row goes above everything in the group.\<close>

lemma first_phase:
  assumes up: "''item_order'' \<notin> set (down s)" and tab: "order_table_ok s"
    and whole: "whole_group key items (item_orders s)"
  shows "forE (temporary_asg items) (\<lambda>(i, p). set_order_position i p) s
       = (Inr (), with_orders (renumber (temporary_asg items) (item_orders s)) s)
       \<and> orders_ok (renumber (temporary_asg items) (item_orders s))"
proof (rule assign_positions [where key = key])
  have d: "distinct (map oi_id items)" using whole by (simp add: whole_group_def)
  show "orders_ok (item_orders s)" "distinct (map oi_id (item_orders s))"
    using tab by (simp_all add: order_table_ok_def)
  show "distinct (map fst (temporary_asg items))" by (simp add: temporary_fst pending_ids [OF d])
  show "distinct (map snd (temporary_asg items))" by (auto simp: temporary_snd distinct_map inj_on_def)
  show "oi_group r = key"
    if "(i, p) \<in> set (temporary_asg items)" "r \<in> set (item_orders s)" "oi_id r = i" for i p r
  proof -
    have "i \<in> set (map fst (temporary_asg items))" using that(1) by force
    then obtain item where "item \<in> set items" "oi_id item = i"
      by (force simp: temporary_fst dest: pending_mem)
    moreover from this have "item = r"
      using whole tab that(2,3) by (auto simp: whole_group_def order_table_ok_def dest: distinct_map_inj)
    ultimately show ?thesis using whole by (auto simp: whole_group_def)
  qed
  show "oi_position r \<noteq> p"
    if "(i, p) \<in> set (temporary_asg items)" "r \<in> set (item_orders s)" "oi_group r = key" for i p r
    using temporary_above [OF that(1)] that(2,3) whole current_max_ge(1) [of r items]
    by (auto simp: whole_group_def)
  show "0 \<le> p" if "(i, p) \<in> set (temporary_asg items)" for i p
    using temporary_above [OF that] current_max_ge(2) [of items] by linarith
qed (rule up)


text \<open>Second phase: the final positions are free once the pending rows are out of the way.\<close>

lemma second_phase:
  assumes up: "''item_order'' \<notin> set (down s)" and tab: "order_table_ok s"
    and whole: "whole_group key items (item_orders s)"
    and t: "t = with_orders (renumber (temporary_asg items) (item_orders s)) s"
    and ok: "orders_ok (item_orders t)"
  shows "forE (final_asg items) (\<lambda>(i, p). set_order_position i p) t
       = (Inr (), with_orders (renumber (final_asg items) (item_orders t)) t)
       \<and> orders_ok (renumber (final_asg items) (item_orders t))"
proof (rule assign_positions [where key = key])
  have d: "distinct (map oi_id items)" using whole by (simp add: whole_group_def)
  have ids: "distinct (map oi_id (item_orders s))" using tab by (simp add: order_table_ok_def)
  have dt: "distinct (map fst (temporary_asg items))" by (simp add: temporary_fst pending_ids [OF d])
  have orig: "\<exists>r' \<in> set (item_orders s). oi_id r' = oi_id r \<and> oi_group r' = oi_group r \<and>
      oi_position r = (case map_of (temporary_asg items) (oi_id r) of None \<Rightarrow> oi_position r' | Some p \<Rightarrow> p)"
    if "r \<in> set (item_orders t)" for r
    using that by (auto simp: t renumber_def oi_group_def split: option.splits)
  show "''item_order'' \<notin> set (down t)" using up by (simp add: t)
  show "orders_ok (item_orders t)" by (fact ok)
  show "distinct (map oi_id (item_orders t))" using ids by (simp add: t)
  show "distinct (map fst (final_asg items))" by (simp add: final_fst pending_ids [OF d])
  show "distinct (map snd (final_asg items))" by (simp add: final_snd pending_finals)
  show "oi_group r = key"
    if asg: "(i, p) \<in> set (final_asg items)" and mem: "r \<in> set (item_orders t)" and rid: "oi_id r = i" for i p r
  proof -
    obtain item where item: "item \<in> set items" "oi_id item = i"
      using asg by (force simp: final_asg_def dest: pending_mem)
    obtain r' where r': "r' \<in> set (item_orders s)" "oi_id r' = oi_id r" "oi_group r' = oi_group r"
      using orig [OF mem] by blast
    have "item = r'"
      using item r' whole ids rid by (auto simp: whole_group_def dest: distinct_map_inj)
    then show ?thesis using item r' whole by (auto simp: whole_group_def)
  qed
  show "oi_position r \<noteq> p"
    if asg: "(i, p) \<in> set (final_asg items)" and mem: "r \<in> set (item_orders t)" and grp: "oi_group r = key" for i p r
  proof -
    obtain r' where r': "r' \<in> set (item_orders s)" "oi_id r' = oi_id r" "oi_group r' = oi_group r"
      and pos: "oi_position r = (case map_of (temporary_asg items) (oi_id r) of
          None \<Rightarrow> oi_position r' | Some p \<Rightarrow> p)"
      using orig [OF mem] by blast
    have "r' \<in> set items" using r' grp whole by (auto simp: whole_group_def)
    then obtain k where k: "k < length items" "items ! k = r'" by (auto simp: in_set_conv_nth)
    show ?thesis
    proof (cases "map_of (temporary_asg items) (oi_id r)")
      case (Some q)
      then have "current_max_position items < q"
        by (auto dest!: map_of_SomeD temporary_above)
      with Some pos final_bounds [OF asg] current_max_ge(2) [of items] show ?thesis by simp
    next
      case None
      then have "oi_id r' \<notin> set (map fst (temporary_asg items))"
        using r'(2) by (simp add: map_of_eq_None_iff)
      then have not_pending: "(r', int k + 1) \<notin> set (pending_updates items)"
        unfolding temporary_fst by force
      then have "oi_position r' = int k + 1" using k by (auto simp: pending_updates_iff)
      moreover have "p \<noteq> int k + 1"
      proof
        assume "p = int k + 1"
        then obtain item where "(item, int k + 1) \<in> set (pending_updates items)"
          using asg by (auto simp: final_asg_def)
        then have "items ! k = item" by (auto simp: pending_updates_iff)
        with k not_pending \<open>(item, int k + 1) \<in> set (pending_updates items)\<close> show False by simp
      qed
      ultimately show ?thesis using None pos by simp
    qed
  qed
  show "0 \<le> p" if "(i, p) \<in> set (final_asg items)" for i p
    using final_bounds [OF that] by simp
qed

lemma persist_ok:
  assumes up: "''item_order'' \<notin> set (down s)" and tab: "order_table_ok s"
    and whole: "whole_group key items (item_orders s)"
  shows "persist_group_positions items s
       = (Inr (numbered items), with_orders (renumber (positions_of items) (item_orders s)) s)"
    and "order_table_ok (with_orders (renumber (positions_of items) (item_orders s)) s)"
proof -
  have ids: "distinct (map oi_id (item_orders s))" using tab by (simp add: order_table_ok_def)
  have same: "renumber (final_asg items) rows = renumber (positions_of items) rows"
    if "rows = item_orders s" for rows
    using renumber_pending [OF whole ids] that by (simp add: final_asg_def)
  let ?t = "with_orders (renumber (temporary_asg items) (item_orders s)) s"
  have "fst ` set (temporary_asg items) \<subseteq> fst ` set (final_asg items)"
    by (metis final_fst image_set order_refl temporary_fst)
  then have over: "renumber (final_asg items) (item_orders ?t) = renumber (positions_of items) (item_orders s)"
    using same [OF HOL.refl] by (simp add: renumber_over)
  note first = first_phase [OF up tab whole]
  have second: "forE (final_asg items) (\<lambda>(i, p). set_order_position i p) ?t
       = (Inr (), with_orders (renumber (final_asg items) (item_orders ?t)) ?t)
       \<and> orders_ok (renumber (final_asg items) (item_orders ?t))"
    by (rule second_phase [OF up tab whole HOL.refl]) (use first in simp)
  show "persist_group_positions items s
       = (Inr (numbered items), with_orders (renumber (positions_of items) (item_orders s)) s)"
  proof (cases "pending_updates items = []")
    case True
    then have "renumber (positions_of items) (item_orders s) = item_orders s"
      using same [OF HOL.refl] by (simp add: final_asg_def)
    with True show ?thesis
      by (simp add: persist_as_assignments no_pending_numbered retE_apply)
  next
    case False
    then show ?thesis
      using first second over by (simp add: persist_as_assignments bindE_ok retE_apply)
  qed
  have "set (map oi_id (renumber (positions_of items) (item_orders s))) = oi_id ` set (item_orders s)"
    by (simp only: renumber_ids set_map)
  then have "\<forall>r \<in> set (renumber (positions_of items) (item_orders s)). oi_id r < order_seq s"
    using tab by (metis (mono_tags, lifting) imageE imageI image_set order_table_ok_def)
  then show "order_table_ok (with_orders (renumber (positions_of items) (item_orders s)) s)"
    using second over ids by (simp add: order_table_ok_def)
qed


section \<open>Groups as lists of ids\<close>

lemma set_group_items: "set (group_items key s) = {r \<in> set (item_orders s). oi_group r = key}"
  by (auto simp: group_items_def)

lemma group_items_whole:
  "distinct (map oi_id (item_orders s)) \<Longrightarrow> whole_group key (group_items key s) (item_orders s)"
proof -
  assume "distinct (map oi_id (item_orders s))"
  then have "distinct (map oi_id (filter (build_order_group_filters key) (item_orders s)))"
    by (rule distinct_map_filter)
  then have "distinct (map oi_id (group_items key s))"
    by (simp add: group_items_def distinct_map)
  then show ?thesis by (auto simp: whole_group_def set_group_items)
qed

lemma group_items_eqI:
  assumes ids: "distinct (map oi_id (item_orders s))"
    and "set xs = {r \<in> set (item_orders s). oi_group r = key}" and "distinct xs"
    and "sorted (map oi_position xs)" and "distinct (map oi_position xs)"
  shows "group_items key s = xs"
  unfolding group_items_def
proof (rule sort_key_inj_key_eq)
  let ?rows = "filter (build_order_group_filters key) (item_orders s)"
  have "distinct ?rows" using ids by (auto simp: distinct_map)
  moreover have "set ?rows = set xs" using assms(2) by auto
  ultimately show "mset ?rows = mset xs"
    using assms(3) by (metis set_eq_iff_mset_eq_distinct)
  show "inj_on (\<lambda>r. (oi_position r, oi_id r)) (set ?rows)"
    using ids by (auto simp: inj_on_def distinct_map)
  have "sorted_wrt (<) (map oi_position xs)"
    using assms(4,5) by (simp add: strict_sorted_iff)
  then have "sorted_wrt (<) (map (\<lambda>r. (oi_position r, oi_id r)) xs)"
    unfolding sorted_wrt_map by (rule sorted_wrt_mono_rel [rotated]) simp
  then show "sorted (map (\<lambda>r. (oi_position r, oi_id r)) xs)"
    using strict_sorted_iff by blast
qed

lemma persist_groups:
  assumes tab: "order_table_ok s" and whole: "whole_group key items (item_orders s)"
    and s': "s' = with_orders (renumber (positions_of items) (item_orders s)) s"
  shows "group_items key s' = numbered items"
    and "key' \<noteq> key \<Longrightarrow> group_items key' s' = group_items key' s"
proof -
  have d: "distinct (map oi_id items)" and items: "set items = {r \<in> set (item_orders s). oi_group r = key}"
    using whole by (auto simp: whole_group_def)
  have ids: "distinct (map oi_id (item_orders s))" using tab by (simp add: order_table_ok_def)
  let ?f = "\<lambda>r. case map_of (positions_of items) (oi_id r) of None \<Rightarrow> r | Some p \<Rightarrow> r\<lparr>oi_position := p\<rparr>"
  have rows': "item_orders s' = map ?f (item_orders s)" by (simp add: s' renumber_def)
  have grp: "oi_group (?f r) = oi_group r" for r by (simp add: oi_group_def split: option.split)
  have on: "?f (items ! k) = numbered items ! k" if "k < length items" for k
    using that by (simp add: map_of_positions [OF d] numbered_nth)
  have off: "?f r = r" if "r \<in> set (item_orders s)" "oi_group r \<noteq> key" for r
  proof -
    have "oi_id r \<notin> oi_id ` set items"
      using that items ids by (auto dest: distinct_map_inj)
    then show ?thesis by (simp add: map_of_positions_None [THEN iffD2])
  qed
  have "{r \<in> set (item_orders s'). oi_group r = key} = ?f ` set items"
    unfolding rows' items using grp by auto
  also have "map ?f items = numbered items"
    by (rule nth_equalityI) (simp_all add: on del: option.case_eq_if)
  then have "?f ` set items = set (numbered items)" by (metis list.set_map)
  finally have "set (numbered items) = {r \<in> set (item_orders s'). oi_group r = key}" by simp
  moreover have "distinct (numbered items)"
    using d by (metis distinct_map numbered_ids)
  ultimately show "group_items key s' = numbered items"
    by (intro group_items_eqI) (simp_all add: s' ids)
  show "group_items key' s' = group_items key' s" if "key' \<noteq> key"
  proof -
    have "filter (build_order_group_filters key') (item_orders s')
        = map ?f (filter (build_order_group_filters key') (item_orders s))"
      by (simp add: rows' filter_map comp_def grp)
    also have "\<dots> = filter (build_order_group_filters key') (item_orders s)"
      using off that by (auto intro!: map_idI)
    finally show ?thesis by (simp add: group_items_def)
  qed
qed


text \<open>
  Abstract view: each group is the list of its item ids. A group is gap free when its
  positions are exactly 1, 2, ..., n.
\<close>

definition order_view :: "db \<Rightarrow> group_key \<Rightarrow> int list" where
  "order_view s key = map oi_id (group_items key s)"

definition gap_free :: "db \<Rightarrow> bool" where
  "gap_free s \<longleftrightarrow> (\<forall>key \<in> set (map oi_group (item_orders s)).
     map oi_position (group_items key s) = [1..int (length (group_items key s))])"

definition moved_order :: "int \<Rightarrow> group_key \<Rightarrow> nat \<Rightarrow> (group_key \<Rightarrow> int list) \<Rightarrow> group_key \<Rightarrow> int list" where
  "moved_order i key n view = (\<lambda>k.
     if k = key then list_insert n i (filter (\<lambda>x. x \<noteq> i) (view k)) else filter (\<lambda>x. x \<noteq> i) (view k))"

text \<open>What an order operation leaves alone: every other table, and which rows exist.\<close>

definition order_frame :: "db \<Rightarrow> db \<Rightarrow> bool" where
  "order_frame s s' \<longleftrightarrow> s' = with_orders (item_orders s') s
     \<and> map oi_id (item_orders s') = map oi_id (item_orders s)
     \<and> map oi_schedule_id (item_orders s') = map oi_schedule_id (item_orders s)"

lemma gap_freeD: "gap_free s \<Longrightarrow> map oi_position (group_items key s) = [1..int (length (group_items key s))]"
proof (cases "key \<in> set (map oi_group (item_orders s))")
  case False
  then have "group_items key s = []"
    by (auto simp: group_items_def filter_empty_conv simp flip: set_empty)
  then show ?thesis by simp
qed (auto simp: gap_free_def)

lemma gap_freeI:
  "(\<And>key. map oi_position (group_items key s) = [1..int (length (group_items key s))]) \<Longrightarrow> gap_free s"
  by (simp add: gap_free_def)

lemma gap_free_bounds:
  assumes "gap_free s" and "r \<in> set (item_orders s)"
  shows "1 \<le> oi_position r \<and> oi_position r \<le> int (length (group_items (oi_group r) s))"
proof -
  have "r \<in> set (group_items (oi_group r) s)" using assms by (simp add: set_group_items)
  then have "oi_position r \<in> set (map oi_position (group_items (oi_group r) s))" by simp
  then show ?thesis unfolding gap_freeD [OF assms(1)] by simp
qed

lemma distinct_order_view: "order_table_ok s \<Longrightarrow> distinct (order_view s key)"
  using group_items_whole [of s key] by (simp add: order_view_def order_table_ok_def whole_group_def)

lemma refreshed_numbered:
  assumes "distinct (map oi_id xs)" and "k < length xs" and "oi_id (xs ! k) = oi_id item"
  shows "refreshed item (numbered xs) = (xs ! k)\<lparr>oi_position := int k + 1\<rparr>"
proof -
  have "find (\<lambda>y. oi_id y = oi_id (numbered xs ! k)) (numbered xs) = Some (numbered xs ! k)"
    using assms(1,2) by (intro find_unique) simp_all
  moreover have "oi_id (numbered xs ! k) = oi_id item" using assms(2,3) by (simp add: numbered_nth)
  ultimately show ?thesis using assms(2) by (simp add: refreshed_def numbered_nth)
qed

text \<open>The clamped target position of a move.\<close>

definition clamp :: "int \<Rightarrow> int \<Rightarrow> int" where
  "clamp p n = max 1 (min p (n + 1))"

lemma clamp_bounds: "0 \<le> n \<Longrightarrow> 1 \<le> clamp p n \<and> clamp p n \<le> n + 1"
  by (auto simp: clamp_def)

lemma nat_clamp: "nat (clamp p (int n) - 1) \<le> n"
  by (auto simp: clamp_def nat_le_iff)

lemma clamp_pred: "int (nat (clamp p n - 1)) + 1 = clamp p n"
  by (simp add: clamp_def)

lemma whole_group_reinsert:
  assumes ids: "distinct (map oi_id rows)" and mem: "item \<in> set rows"
    and g: "whole_group key xs rows" and key: "oi_group item = key"
  shows "whole_group key (list_insert n item (filter (\<lambda>x. oi_id x \<noteq> oi_id item) xs)) rows"
proof -
  have "x = item" if "x \<in> set rows" "oi_id x = oi_id item" for x
    using that ids mem by (auto dest: distinct_map_inj)
  then have "insert item {x \<in> set xs. oi_id x \<noteq> oi_id item} = set xs"
    using g key mem by (auto simp: whole_group_def)
  then show ?thesis
    using g by (auto simp: whole_group_def map_list_insert distinct_map_filter)
qed

lemma move_same_group:
  assumes up: "''item_order'' \<notin> set (down s)" and tab: "order_table_ok s"
    and mem: "item \<in> set (item_orders s)" and key: "oi_group item = key"
    and others: "others = filter (\<lambda>x. oi_id x \<noteq> oi_id item) (group_items key s)"
    and d: "d = clamp (case target of None \<Rightarrow> oi_position item | Some p \<Rightarrow> p) (int (length others))"
    and xs: "xs = list_insert (nat (d - 1)) item others"
  shows "move_order_item_between_groups item key target s
       = (Inr (item\<lparr>oi_position := d\<rparr>), with_orders (renumber (positions_of xs) (item_orders s)) s)"
    and "whole_group key xs (item_orders s)"
    and "order_table_ok (with_orders (renumber (positions_of xs) (item_orders s)) s)"
proof -
  have ids: "distinct (map oi_id (item_orders s))" using tab by (simp add: order_table_ok_def)
  show whole: "whole_group key xs (item_orders s)"
    unfolding xs others
    by (rule whole_group_reinsert [OF ids mem group_items_whole [OF ids] key])
  note p = persist_ok [OF up tab whole]
  show "order_table_ok (with_orders (renumber (positions_of xs) (item_orders s)) s)" by (rule p(2))
  have n: "nat (d - 1) \<le> length others" unfolding d by (rule nat_clamp)
  have "refreshed item (numbered xs) = (xs ! nat (d - 1))\<lparr>oi_position := int (nat (d - 1)) + 1\<rparr>"
    using whole n by (intro refreshed_numbered) (simp_all add: whole_group_def xs nth_list_insert)
  moreover have "xs ! nat (d - 1) = item" using n by (simp add: xs nth_list_insert)
  ultimately have r: "refreshed item (numbered xs) = item\<lparr>oi_position := d\<rparr>"
    unfolding d by (simp only: clamp_pred)
  have k: "(oi_project_id item, oi_entity_type item, oi_parent_entity_type item, oi_parent_entity_id item) = key"
    using key by (simp add: oi_group_def)
  show "move_order_item_between_groups item key target s
       = (Inr (item\<lparr>oi_position := d\<rparr>), with_orders (renumber (positions_of xs) (item_orders s)) s)"
    using up r p(1)
    by (simp add: move_order_item_between_groups_def k Let_def bindE_lift
        fetch_group_items_for_update_def tbl_apply others [symmetric] clamp_def [symmetric] d [symmetric]
        xs [symmetric] bindE_ok retE_apply)
qed


lemma order_frame_refl [simp]: "order_frame s s"
  by (simp add: order_frame_def)

lemma order_frame_trans: "order_frame s t \<Longrightarrow> order_frame t u \<Longrightarrow> order_frame s u"
  unfolding order_frame_def
  by (metis (no_types, lifting) db.surjective db.update_convs(3) db.select_convs(3))

lemma order_frame_renumber [simp]: "order_frame s (with_orders (renumber asg (item_orders s)) s)"
  by (simp add: order_frame_def)

lemma view_numbered: "group_items key s = numbered xs \<Longrightarrow> order_view s key = map oi_id xs"
  by (simp add: order_view_def)

lemma filter_other_group:
  assumes ids: "distinct (map oi_id (item_orders s))" and mem: "item \<in> set (item_orders s)"
    and "oi_group item \<noteq> k"
  shows "filter (\<lambda>x. oi_id x \<noteq> oi_id item) (group_items k s) = group_items k s"
  using assms by (auto simp: filter_id_conv set_group_items dest: distinct_map_inj)

lemma filter_ids: "filter (\<lambda>i. i \<noteq> j) (map oi_id xs) = map oi_id (filter (\<lambda>x. oi_id x \<noteq> j) xs)"
  by (simp add: filter_map comp_def)

lemma length_filter_view:
  "length (filter (\<lambda>x. oi_id x \<noteq> j) (group_items k s)) = length (filter (\<lambda>i. i \<noteq> j) (order_view s k))"
  by (simp add: order_view_def filter_ids)

text \<open>The same-group move on the abstract view.\<close>

lemma move_same_view:
  assumes up: "''item_order'' \<notin> set (down s)" and tab: "order_table_ok s"
    and mem: "item \<in> set (item_orders s)" and key: "oi_group item = key"
    and d: "d = clamp (case target of None \<Rightarrow> oi_position item | Some p \<Rightarrow> p)
                  (int (length (filter (\<lambda>i. i \<noteq> oi_id item) (order_view s key))))"
  obtains s' where "move_order_item_between_groups item key target s = (Inr (item\<lparr>oi_position := d\<rparr>), s')"
    and "order_table_ok s'" and "order_frame s s'"
    and "item\<lparr>oi_position := d\<rparr> \<in> set (item_orders s')"
    and "order_view s' = moved_order (oi_id item) key (nat (d - 1)) (order_view s)"
    and "map oi_position (group_items key s') = [1..int (length (group_items key s'))]"
    and "\<And>k. k \<noteq> key \<Longrightarrow> group_items k s' = group_items k s"
proof -
  have ids: "distinct (map oi_id (item_orders s))" using tab by (simp add: order_table_ok_def)
  let ?others = "filter (\<lambda>x. oi_id x \<noteq> oi_id item) (group_items key s)"
  let ?xs = "list_insert (nat (d - 1)) item ?others"
  let ?s' = "with_orders (renumber (positions_of ?xs) (item_orders s)) s"
  note m = move_same_group [OF up tab mem key HOL.refl d [unfolded length_filter_view [symmetric]] HOL.refl]
  note g = persist_groups [OF tab m(2) HOL.refl]
  have n: "nat (d - 1) \<le> length ?others"
    unfolding d length_filter_view by (rule nat_clamp)
  have at: "numbered ?xs ! nat (d - 1) = item\<lparr>oi_position := d\<rparr>"
  proof -
    have "int (nat (d - 1)) + 1 = d" unfolding d by (rule clamp_pred)
    moreover have "numbered ?xs ! nat (d - 1) = (?xs ! nat (d - 1))\<lparr>oi_position := int (nat (d - 1)) + 1\<rparr>"
      using n by (intro numbered_nth) simp
    ultimately show ?thesis using n by (simp only: nth_list_insert)
  qed
  show thesis
  proof (rule that [OF m(1) m(3)])
    show "order_frame s ?s'" by simp
    have "numbered ?xs ! nat (d - 1) \<in> set (group_items key ?s')"
      unfolding g(1) using n by (intro nth_mem) simp
    then show "item\<lparr>oi_position := d\<rparr> \<in> set (item_orders ?s')"
      unfolding at by (simp add: set_group_items)
    show "order_view ?s' = moved_order (oi_id item) key (nat (d - 1)) (order_view s)"
    proof
      fix k
      show "order_view ?s' k = moved_order (oi_id item) key (nat (d - 1)) (order_view s) k"
      proof (cases "k = key")
        case True
        then show ?thesis
          by (simp add: order_view_def g(1) moved_order_def map_list_insert filter_ids)
      next
        case False
        then show ?thesis
          using filter_other_group [OF ids mem] key
          by (simp add: order_view_def g(2) moved_order_def filter_ids)
      qed
    qed
    show "map oi_position (group_items key ?s') = [1..int (length (group_items key ?s'))]"
      by (simp add: g(1))
    show "group_items k ?s' = group_items k s" if "k \<noteq> key" for k
      by (rule g(2) [OF that])
  qed
qed


text \<open>
  A move to another group, step by step: the row changes group at the end of the target
  group, the group it left closes up, the target group is reindexed around it.
\<close>

lemma relocate_orders_ok:
  assumes tab: "order_table_ok s" and free: "\<And>r. r \<in> set (item_orders s) \<Longrightarrow> oi_group r = key \<Longrightarrow> oi_position r < p"
    and f: "\<And>r. oi_group (f r) = key \<and> oi_position (f r) = p \<and> oi_schedule_id (f r) = oi_schedule_id r
              \<and> oi_id (f r) = oi_id r"
    and p: "0 \<le> p"
  shows "orders_ok (upd_where (\<lambda>r. oi_id r = i) f (item_orders s))"
    and "order_table_ok (with_orders (upd_where (\<lambda>r. oi_id r = i) f (item_orders s)) s)"
    and "order_frame s (with_orders (upd_where (\<lambda>r. oi_id r = i) f (item_orders s)) s)"
proof -
  show ok: "orders_ok (upd_where (\<lambda>r. oi_id r = i) f (item_orders s))"
  proof (rule orders_ok_upd_gen)
    show "(oi_group x, oi_position x) \<noteq> (oi_group (f r), oi_position (f r))"
      if "x \<in> set (item_orders s)" for r x
      using free [OF that] f [of r] by fastforce
  qed (use tab f p in \<open>auto simp: order_table_ok_def\<close>)
  have m: "map oi_id (upd_where (\<lambda>r. oi_id r = i) f (item_orders s)) = map oi_id (item_orders s)"
    "map oi_schedule_id (upd_where (\<lambda>r. oi_id r = i) f (item_orders s)) = map oi_schedule_id (item_orders s)"
    using f by (simp_all add: map_upd_where)
  then show "order_frame s (with_orders (upd_where (\<lambda>r. oi_id r = i) f (item_orders s)) s)"
    by (simp add: order_frame_def)
  show "order_table_ok (with_orders (upd_where (\<lambda>r. oi_id r = i) f (item_orders s)) s)"
    using ok tab m f by (auto simp: order_table_ok_def set_upd_where)
qed

lemma relocate_groups:
  assumes tab: "order_table_ok s" and mem: "item \<in> set (item_orders s)"
    and other: "oi_group item \<noteq> key"
    and f: "\<And>r. oi_group (f r) = key \<and> oi_id (f r) = oi_id r"
    and s1: "s1 = with_orders (upd_where (\<lambda>r. oi_id r = oi_id item) f (item_orders s)) s"
  shows "{r \<in> set (item_orders s1). oi_group r = key} = insert (f item) (set (group_items key s))"
    and "{r \<in> set (item_orders s1). oi_group r = oi_group item}
       = set (filter (\<lambda>x. oi_id x \<noteq> oi_id item) (group_items (oi_group item) s))"
    and "k \<noteq> key \<Longrightarrow> k \<noteq> oi_group item \<Longrightarrow> group_items k s1 = group_items k s"
proof -
  have ids: "distinct (map oi_id (item_orders s))" using tab by (simp add: order_table_ok_def)
  have only: "r = item" if "r \<in> set (item_orders s)" "oi_id r = oi_id item" for r
    using that ids mem by (auto dest: distinct_map_inj)
  let ?u = "\<lambda>r. if oi_id r = oi_id item then f r else r"
  have set1: "set (item_orders s1) = insert (f item) {r \<in> set (item_orders s). oi_id r \<noteq> oi_id item}"
  proof -
    have "set (item_orders s1) = ?u ` set (item_orders s)" by (simp add: s1 upd_where_def)
    also have "\<dots> = (\<lambda>r. if r = item then f item else r) ` set (item_orders s)"
      using only by (intro image_cong) auto
    also have "\<dots> = insert (f item) (set (item_orders s) - {item})" using mem by auto
    also have "set (item_orders s) - {item} = {r \<in> set (item_orders s). oi_id r \<noteq> oi_id item}"
      using only by auto
    finally show ?thesis .
  qed
  show "{r \<in> set (item_orders s1). oi_group r = key} = insert (f item) (set (group_items key s))"
    using f [of item] other only by (auto simp: set1 set_group_items)
  show "{r \<in> set (item_orders s1). oi_group r = oi_group item}
       = set (filter (\<lambda>x. oi_id x \<noteq> oi_id item) (group_items (oi_group item) s))"
    using f [of item] other by (auto simp: set1 set_group_items)
  show "group_items k s1 = group_items k s" if "k \<noteq> key" "k \<noteq> oi_group item"
  proof -
    have "filter (\<lambda>r. oi_group r = k) (map ?u rows) = filter (\<lambda>r. oi_group r = k) rows"
      if "set rows \<subseteq> set (item_orders s)" for rows
      using that \<open>k \<noteq> key\<close> \<open>k \<noteq> oi_group item\<close> f only by (induction rows) auto
    then show ?thesis by (simp add: group_items_def s1 upd_where_def)
  qed
qed


lemma move_other_view:
  assumes up: "''item_order'' \<notin> set (down s)" and tab: "order_table_ok s"
    and mem: "item \<in> set (item_orders s)" and other: "oi_group item \<noteq> key"
    and free: "map oi_position (group_items key s) = [1..int (length (group_items key s))]"
    and d: "d = clamp (case target of None \<Rightarrow> int (length (order_view s key)) + 1 | Some p \<Rightarrow> p)
                  (int (length (order_view s key)))"
  obtains s' item' where "move_order_item_between_groups item key target s = (Inr item', s')"
    and "order_table_ok s'" and "order_frame s s'"
    and "item' \<in> set (item_orders s')" and "oi_id item' = oi_id item"
    and "oi_schedule_id item' = oi_schedule_id item" and "oi_group item' = key" and "oi_position item' = d"
    and "order_view s' = moved_order (oi_id item) key (nat (d - 1)) (order_view s)"
    and "\<And>k. k \<in> {key, oi_group item} \<Longrightarrow>
           map oi_position (group_items k s') = [1..int (length (group_items k s'))]"
    and "\<And>k. k \<notin> {key, oi_group item} \<Longrightarrow> group_items k s' = group_items k s"
proof -
  have ids: "distinct (map oi_id (item_orders s))" using tab by (simp add: order_table_ok_def)
  obtain project_id entity_type parent_type parent_id
    where key: "key = (project_id, entity_type, parent_type, parent_id)" by (cases key)
  let ?cur = "oi_group item"
  let ?p = "int (length (group_items key s)) + 1"
  let ?f = "\<lambda>r. r\<lparr>oi_project_id := project_id, oi_entity_type := entity_type,
       oi_parent_entity_type := parent_type, oi_parent_entity_id := parent_id, oi_position := ?p\<rparr>"
  let ?cur_items = "filter (\<lambda>x. oi_id x \<noteq> oi_id item) (group_items ?cur s)"
  let ?tgt = "group_items key s"
  define s1 where s1: "s1 = with_orders (upd_where (\<lambda>r. oi_id r = oi_id item) ?f (item_orders s)) s"
  define s2 where s2: "s2 = with_orders (renumber (positions_of ?cur_items) (item_orders s1)) s1"
  define xs where xs: "xs = list_insert (nat (d - 1)) (?f item) ?tgt"
  define s3 where s3: "s3 = with_orders (renumber (positions_of xs) (item_orders s2)) s2"
  have f: "oi_group (?f r) = key \<and> oi_position (?f r) = ?p \<and> oi_schedule_id (?f r) = oi_schedule_id r
              \<and> oi_id (?f r) = oi_id r" for r
    by (simp add: key oi_group_def)
  have below: "oi_position r < ?p" if "r \<in> set (item_orders s)" "oi_group r = key" for r
  proof -
    have "oi_position r \<in> set (map oi_position ?tgt)" using that by (simp add: set_group_items)
    then show ?thesis unfolding free by simp
  qed
  note rel = relocate_orders_ok [OF tab below f, where i = "oi_id item", simplified, folded s1]
  have f': "oi_group (?f r) = key \<and> oi_id (?f r) = oi_id r" for r using f by blast
  note grp = relocate_groups [OF tab mem other f' s1]
  have len: "int (length ?tgt) = int (length (order_view s key))" by (simp add: order_view_def)
  have n: "nat (d - 1) \<le> length ?tgt"
    unfolding d len [symmetric] by (rule nat_clamp)
  have no_tgt: "filter (\<lambda>x. oi_id x \<noteq> oi_id item) ?tgt = ?tgt"
    by (rule filter_other_group [OF ids mem other])
  have step1: "update_order_row (oi_id item) ?f s = (Inr (), s1)"
    using up rel(1) by (simp add: update_order_row_def store_orders_def s1)
  have whole2: "whole_group ?cur ?cur_items (item_orders s1)"
    using grp(2) group_items_whole [OF ids, of ?cur]
    by (simp add: whole_group_def distinct_map_filter)
  have up1: "''item_order'' \<notin> set (down s1)" using up by (simp add: s1)
  note p2 = persist_ok [OF up1 rel(2) whole2, folded s2] and g2 = persist_groups [OF rel(2) whole2 s2]
  have up2: "''item_order'' \<notin> set (down s2)" using up1 by (simp add: s2)
  have key_rows: "set (group_items key s2) = insert (?f item) (set ?tgt)"
    using g2(2) [of key] other grp(1) by (simp add: set_group_items)
  have whole3: "whole_group key xs (item_orders s2)"
  proof -
    have "distinct (map oi_id ?tgt)" using group_items_whole [OF ids, of key] by (simp add: whole_group_def)
    moreover have "oi_id item \<notin> oi_id ` set ?tgt"
      using no_tgt by (auto simp: filter_id_conv)
    ultimately show ?thesis
      using key_rows by (simp add: xs whole_group_def map_list_insert set_group_items)
  qed
  note p3 = persist_ok [OF up2 p2(2) whole3, folded s3] and g3 = persist_groups [OF p2(2) whole3 s3]
  let ?item' = "(?f item)\<lparr>oi_position := d\<rparr>"
  have pred: "int (nat (d - 1)) + 1 = d" unfolding d by (rule clamp_pred)
  have len_xs: "length xs = Suc (length ?tgt)" and nth_xs: "xs ! nat (d - 1) = ?f item"
    using n by (simp_all add: xs nth_list_insert)
  have xs_ids: "map oi_id xs = list_insert (nat (d - 1)) (oi_id item) (map oi_id ?tgt)"
    by (simp add: xs map_list_insert)
  have at: "numbered xs ! nat (d - 1) = ?item'"
    using n pred len_xs nth_xs by (subst numbered_nth) (simp_all only: less_Suc_eq_le)
  have ref: "refreshed (?f item) (numbered xs) = ?item'"
    using refreshed_numbered [of xs "nat (d - 1)" "?f item"] whole3 n pred
    by (simp only: whole_group_def len_xs nth_xs less_Suc_eq_le)
  have cur: "(oi_project_id item, oi_entity_type item, oi_parent_entity_type item, oi_parent_entity_id item) = ?cur"
    by (simp add: oi_group_def)
  have desired: "max 1 (min (case target of None \<Rightarrow> ?p | Some p \<Rightarrow> p) ?p) = d"
    unfolding d clamp_def len by (rule HOL.refl)
  have run: "move_order_item_between_groups item key target s = (Inr ?item', s3)"
    using other up step1 p2(1) p3(1) ref
    by (simp add: move_order_item_between_groups_def cur Let_def bindE_lift fetch_group_items_for_update_def
        tbl_apply no_tgt desired bindE_ok retE_apply) (simp add: key bindE_ok retE_apply desired xs)
  have view: "group_items k s3 = (if k = key then numbered xs else if k = ?cur then numbered ?cur_items
      else group_items k s)" for k
    using g3(1) g3(2) [of k] g2(1) g2(2) [of k] grp(3) [of k] other by (cases "k = key"; cases "k = ?cur") (simp_all only: if_True if_False simp_thms)
  show thesis
  proof (rule that [OF run p3(2)])
    have "order_frame s1 s2" unfolding s2 by (rule order_frame_renumber)
    moreover have "order_frame s2 s3" unfolding s3 by (rule order_frame_renumber)
    ultimately show "order_frame s s3" using rel(3) order_frame_trans by blast
    have "numbered xs ! nat (d - 1) \<in> set (group_items key s3)"
      unfolding g3(1) using n len_xs by (intro nth_mem) simp
    then show "?item' \<in> set (item_orders s3)" unfolding at by (simp only: set_group_items mem_Collect_eq)
    show "oi_id ?item' = oi_id item" "oi_schedule_id ?item' = oi_schedule_id item"
      "oi_group ?item' = key" "oi_position ?item' = d"
      by (simp_all add: key oi_group_def)
    show "order_view s3 = moved_order (oi_id item) key (nat (d - 1)) (order_view s)"
    proof
      fix k
      show "order_view s3 k = moved_order (oi_id item) key (nat (d - 1)) (order_view s) k"
        using other no_tgt filter_other_group [OF ids mem, of k] xs_ids
        by (simp only: order_view_def view moved_order_def filter_ids map_list_insert numbered_ids
            split: if_split) simp
    qed
    show "map oi_position (group_items k s3) = [1..int (length (group_items k s3))]"
      if "k \<in> {key, ?cur}" for k
      using that other by (simp only: view) auto
    show "group_items k s3 = group_items k s" if "k \<notin> {key, ?cur}" for k
      using that by (simp only: view) simp
  qed
qed


text \<open>The invariant of the order table, and a move that keeps it.\<close>

definition order_inv :: "db \<Rightarrow> bool" where
  "order_inv s \<longleftrightarrow> order_table_ok s \<and> gap_free s"

definition move_target :: "order_item \<Rightarrow> group_key \<Rightarrow> int option \<Rightarrow> db \<Rightarrow> int" where
  "move_target item key target s =
     (let n = int (length (filter (\<lambda>i. i \<noteq> oi_id item) (order_view s key))) in
      clamp (case target of
               None \<Rightarrow> if oi_group item = key then oi_position item else n + 1
             | Some p \<Rightarrow> p) n)"

lemma move_spec:
  assumes up: "''item_order'' \<notin> set (down s)" and inv: "order_inv s"
    and mem: "item \<in> set (item_orders s)" and d: "d = move_target item key target s"
  obtains s' item' where "move_order_item_between_groups item key target s = (Inr item', s')"
    and "order_inv s'" and "order_frame s s'"
    and "item' \<in> set (item_orders s')" and "oi_id item' = oi_id item"
    and "oi_schedule_id item' = oi_schedule_id item" and "oi_group item' = key" and "oi_position item' = d"
    and "order_view s' = moved_order (oi_id item) key (nat (d - 1)) (order_view s)"
proof -
  have tab: "order_table_ok s" and gf: "gap_free s" using inv by (auto simp: order_inv_def)
  have ids: "distinct (map oi_id (item_orders s))" using tab by (simp add: order_table_ok_def)
  show thesis
  proof (cases "oi_group item = key")
    case True
    have d': "d = clamp (case target of None \<Rightarrow> oi_position item | Some p \<Rightarrow> p)
                  (int (length (filter (\<lambda>i. i \<noteq> oi_id item) (order_view s key))))"
      using True by (simp add: d move_target_def Let_def)
    show thesis
    proof (rule move_same_view [OF up tab mem True d'])
      fix s' assume m: "move_order_item_between_groups item key target s = (Inr (item\<lparr>oi_position := d\<rparr>), s')"
        "order_table_ok s'" "order_frame s s'" "item\<lparr>oi_position := d\<rparr> \<in> set (item_orders s')"
        "order_view s' = moved_order (oi_id item) key (nat (d - 1)) (order_view s)"
        and pos: "map oi_position (group_items key s') = [1..int (length (group_items key s'))]"
        and rest: "\<And>k. k \<noteq> key \<Longrightarrow> group_items k s' = group_items k s"
      have "gap_free s'"
        using pos rest gap_freeD [OF gf] by (intro gap_freeI) metis
      with m True show thesis by (intro that [OF m(1)]) (simp_all add: order_inv_def oi_group_def)
    qed
  next
    case False
    then have "filter (\<lambda>i. i \<noteq> oi_id item) (order_view s key) = order_view s key"
      using filter_other_group [OF ids mem] by (simp add: order_view_def filter_ids)
    then have d': "d = clamp (case target of None \<Rightarrow> int (length (order_view s key)) + 1 | Some p \<Rightarrow> p)
                  (int (length (order_view s key)))"
      using False by (simp add: d move_target_def Let_def)
    show thesis
    proof (rule move_other_view [OF up tab mem False gap_freeD [OF gf] d'])
      fix s' item' assume m: "move_order_item_between_groups item key target s = (Inr item', s')"
        "order_table_ok s'" "order_frame s s'" "item' \<in> set (item_orders s')" "oi_id item' = oi_id item"
        "oi_schedule_id item' = oi_schedule_id item" "oi_group item' = key" "oi_position item' = d"
        "order_view s' = moved_order (oi_id item) key (nat (d - 1)) (order_view s)"
        and pos: "\<And>k. k \<in> {key, oi_group item} \<Longrightarrow>
           map oi_position (group_items k s') = [1..int (length (group_items k s'))]"
        and rest: "\<And>k. k \<notin> {key, oi_group item} \<Longrightarrow> group_items k s' = group_items k s"
      have "gap_free s'"
        using pos rest gap_freeD [OF gf] by (intro gap_freeI) metis
      with m show thesis by (intro that [OF m(1)]) (simp_all add: order_inv_def)
    qed
  qed
qed

text \<open>In a gap free group an item sits at its position, so moving it there changes nothing.\<close>

lemma list_insert_same:
  "distinct xs \<Longrightarrow> k < length xs \<Longrightarrow> list_insert k (xs ! k) (filter (\<lambda>x. x \<noteq> xs ! k) xs) = xs"
proof -
  assume d: "distinct xs" and k: "k < length xs"
  obtain ys z zs where xs: "xs = ys @ z # zs" and len: "length ys = k"
    using id_take_nth_drop [OF k] k by (metis length_take min.absorb4)
  have "filter (\<lambda>x. x \<noteq> z) ys = ys" "filter (\<lambda>x. x \<noteq> z) zs = zs"
    using d by (auto simp: xs filter_id_conv)
  then have "filter (\<lambda>x. x \<noteq> z) xs = ys @ zs" by (simp add: xs)
  then show ?thesis by (simp add: xs nth_append list_insert_def flip: len)
qed

lemma gap_free_nth:
  assumes inv: "order_inv s" and mem: "item \<in> set (item_orders s)"
  shows "nat (oi_position item - 1) < length (order_view s (oi_group item))"
    and "order_view s (oi_group item) ! nat (oi_position item - 1) = oi_id item"
proof -
  let ?g = "group_items (oi_group item) s"
  have gf: "gap_free s" using inv by (simp add: order_inv_def)
  have "item \<in> set ?g" using mem by (simp add: set_group_items)
  then obtain k where k: "k < length ?g" "?g ! k = item" by (auto simp: in_set_conv_nth)
  have "map oi_position ?g ! k = int k + 1"
    unfolding gap_freeD [OF gf] using k by (simp add: nth_upto)
  then have "oi_position item = int k + 1" using k by simp
  then show "nat (oi_position item - 1) < length (order_view s (oi_group item))"
    and "order_view s (oi_group item) ! nat (oi_position item - 1) = oi_id item"
    using k by (simp_all add: order_view_def)
qed

lemma not_in_other_view:
  assumes "order_table_ok s" and "item \<in> set (item_orders s)" and "k \<noteq> oi_group item"
  shows "oi_id item \<notin> set (order_view s k)"
  using assms by (auto simp: order_view_def set_group_items order_table_ok_def dest: distinct_map_inj)

lemma moved_order_same:
  assumes inv: "order_inv s" and mem: "item \<in> set (item_orders s)"
  shows "moved_order (oi_id item) (oi_group item) (nat (oi_position item - 1)) (order_view s) = order_view s"
proof
  fix k
  have tab: "order_table_ok s" using inv by (simp add: order_inv_def)
  show "moved_order (oi_id item) (oi_group item) (nat (oi_position item - 1)) (order_view s) k = order_view s k"
  proof (cases "k = oi_group item")
    case True
    then show ?thesis
      using list_insert_same [OF distinct_order_view [OF tab, of k], of "nat (oi_position item - 1)"]
        gap_free_nth [OF inv mem] by (simp add: moved_order_def)
  next
    case False
    then show ?thesis
      using not_in_other_view [OF tab mem False] by (auto simp: moved_order_def filter_id_conv)
  qed
qed


section \<open>Creation and synchronisation\<close>

text \<open>What an operation that may create an order row leaves alone.\<close>

definition orders_only :: "db \<Rightarrow> db \<Rightarrow> bool" where
  "orders_only s s' \<longleftrightarrow> s' = s\<lparr>item_orders := item_orders s', order_seq := order_seq s'\<rparr>"

lemma orders_only_refl [simp]: "orders_only s s"
  by (simp add: orders_only_def)

lemma orders_only_iff:
  "orders_only s s' \<longleftrightarrow> schedules s' = schedules s \<and> dependencies s' = dependencies s
     \<and> epics s' = epics s \<and> userstories s' = userstories s \<and> tasks s' = tasks s
     \<and> relateds s' = relateds s \<and> schedule_seq s' = schedule_seq s \<and> down s' = down s
     \<and> outbox s' = outbox s"
  by (cases s, cases s') (auto simp: orders_only_def)

lemma orders_only_trans: "orders_only s t \<Longrightarrow> orders_only t u \<Longrightarrow> orders_only s u"
  by (simp add: orders_only_iff)

lemma order_frame_only: "order_frame s s' \<Longrightarrow> orders_only s s'"
  unfolding order_frame_def orders_only_def
  by (metis db.surjective db.update_convs(3) db.update_convs(9) db.select_convs(9))

definition parent_fits :: "string \<Rightarrow> string \<Rightarrow> int \<Rightarrow> bool" where
  "parent_fits entity_type parent_type parent_id \<longleftrightarrow>
     (parent_type = ROOT_PARENT_ENTITY_TYPE \<and> parent_id = ROOT_PARENT_ENTITY_ID)
   \<or> (entity_type = TYPE_USERSTORY \<and> parent_type = TYPE_EPIC)
   \<or> (entity_type = TYPE_TASK \<and> parent_type = TYPE_USERSTORY)"

lemma resolve_total: "\<exists>pt pid. resolve_order_parent et eid s = Inr (pt, pid) \<and> parent_fits et pt pid"
  by (auto simp: resolve_order_parent_def get_primary_epic_relation_def effs parent_fits_def
      split: option.split if_splits)

definition parent_key :: "schedule \<Rightarrow> db \<Rightarrow> group_key" where
  "parent_key sched s = (case resolve_order_parent (s_entity_type sched) (s_entity_id sched) s of
      Inr (pt, pid) \<Rightarrow> (s_project_id sched, s_entity_type sched, pt, pid)
    | Inl _ \<Rightarrow> (s_project_id sched, s_entity_type sched, ROOT_PARENT_ENTITY_TYPE, ROOT_PARENT_ENTITY_ID))"

lemma order_clean_ok:
  "parent_fits (s_entity_type sched) pt pid \<Longrightarrow> oi_project_id r = s_project_id sched \<Longrightarrow>
   oi_entity_type r = s_entity_type sched \<Longrightarrow> oi_parent_entity_type r = pt \<Longrightarrow>
   oi_parent_entity_id r = pid \<Longrightarrow> 1 \<le> oi_position r \<Longrightarrow> order_clean sched r s = Inr ()"
  by (auto simp: order_clean_def Let_def parent_fits_def)

lemma append_group_items:
  assumes inv: "order_inv s" and id: "oi_id r = order_seq s"
    and g: "oi_group r = key" and p: "oi_position r = int (length (group_items key s)) + 1"
    and s': "item_orders s' = item_orders s @ [r]"
  shows "group_items key s' = group_items key s @ [r]"
    and "k \<noteq> key \<Longrightarrow> group_items k s' = group_items k s"
proof -
  have tab: "order_table_ok s" and gf: "gap_free s" using inv by (auto simp: order_inv_def)
  have new: "\<And>x. x \<in> set (item_orders s) \<Longrightarrow> oi_id x \<noteq> oi_id r"
    using tab id by (force simp: order_table_ok_def)
  have ids: "distinct (map oi_id (item_orders s'))"
    using tab new by (force simp: order_table_ok_def s')
  have pos: "map oi_position (group_items key s @ [r]) = [1..int (length (group_items key s)) + 1]"
    using gap_freeD [OF gf, of key] by (simp add: p upto_rec2)
  show "group_items key s' = group_items key s @ [r]"
  proof (rule group_items_eqI [OF ids])
    show "set (group_items key s @ [r]) = {x \<in> set (item_orders s'). oi_group x = key}"
      using g by (auto simp: set_group_items s')
    show "sorted (map oi_position (group_items key s @ [r]))"
      "distinct (map oi_position (group_items key s @ [r]))"
      unfolding pos by simp_all
    then show "distinct (group_items key s @ [r])" by (simp only: distinct_map)
  qed
  show "group_items k s' = group_items k s" if "k \<noteq> key"
    using that g by (simp add: group_items_def s')
qed

lemma create_ok:
  assumes up: "''item_order'' \<notin> set (down s)" and inv: "order_inv s"
    and type: "s_entity_type sched \<in> {TYPE_EPIC, TYPE_USERSTORY, TYPE_TASK}"
    and key: "key = (s_project_id sched, s_entity_type sched, pt, pid)"
    and fits: "parent_fits (s_entity_type sched) pt pid"
    and fresh: "find_order_item (s_id sched) s = None"
  obtains s' r where "create_order_item sched key (int (length (group_items key s)) + 1) s = (Inr r, s')"
    and "order_inv s'" and "orders_only s s'" and "item_orders s' = item_orders s @ [r]"
    and "oi_id r = order_seq s" and "oi_schedule_id r = s_id sched" and "oi_group r = key"
    and "oi_position r = int (length (order_view s key)) + 1"
    and "order_view s' = (order_view s)(key := order_view s key @ [order_seq s])"
proof -
  let ?p = "int (length (group_items key s)) + 1"
  define r where r: "r = \<lparr>oi_id = order_seq s, oi_schedule_id = s_id sched, oi_project_id = s_project_id sched,
      oi_entity_type = s_entity_type sched, oi_parent_entity_type = pt, oi_parent_entity_id = pid,
      oi_position = ?p\<rparr>"
  define s' where s': "s' = s\<lparr>item_orders := item_orders s @ [r], order_seq := order_seq s + 1\<rparr>"
  have tab: "order_table_ok s" and gf: "gap_free s" using inv by (auto simp: order_inv_def)
  have rg: "oi_group r = key" and rp: "oi_position r = ?p" and rid: "oi_id r = order_seq s"
    and rs: "oi_schedule_id r = s_id sched"
    by (simp_all add: r key oi_group_def)
  have no_sched: "\<forall>x \<in> set (item_orders s). oi_schedule_id x \<noteq> s_id sched"
    using fresh by (auto simp: find_order_item_def find_None_all)
  have no_pos: "\<forall>x \<in> set (item_orders s). oi_group x = key \<longrightarrow> oi_position x \<noteq> ?p"
    using gap_free_bounds [OF gf] by fastforce
  have ok: "orders_ok (item_orders s @ [r])"
    using tab no_sched no_pos rg rp rs by (auto simp: orders_ok_def order_table_ok_def)
  have clean: "order_full_clean sched r s = Inr ()"
    using up type no_sched no_pos rg rp rs order_clean_ok [OF fits, of r s]
    by (auto simp: order_full_clean_def effs r)
  have "oi_id x < order_seq s" if "x \<in> set (item_orders s)" for x
    using tab that by (simp add: order_table_ok_def)
  then have tab': "order_table_ok s'"
    using ok tab rid by (force simp: order_table_ok_def s')
  have s'_rows: "item_orders s' = item_orders s @ [r]" by (simp add: s')
  note g = append_group_items [OF inv rid rg rp s'_rows]
  have "gap_free s'"
  proof (rule gap_freeI)
    fix k show "map oi_position (group_items k s') = [1..int (length (group_items k s'))]"
      using g gap_freeD [OF gf, of k] rp by (cases "k = key") (simp_all add: upto_rec2)
  qed
  moreover have "create_order_item sched key ?p s = (Inr r, s')"
    using clean ok by (simp add: create_order_item_def key Let_def bindE_lift r [symmetric, unfolded key]
        store_orders_def bindE_ok s')
  moreover have "order_view s' = (order_view s)(key := order_view s key @ [order_seq s])"
    using g rid by (auto simp: order_view_def fun_eq_iff)
  ultimately show thesis
    using tab' rid rs rg rp by (intro that [of r s']) (simp_all add: order_inv_def orders_only_def s' order_view_def)
qed


definition synced_view :: "schedule \<Rightarrow> db \<Rightarrow> group_key \<Rightarrow> int list" where
  "synced_view sched s =
     (let key = parent_key sched s in
      case find_order_item (s_id sched) s of
        None \<Rightarrow> (order_view s)(key := order_view s key @ [order_seq s])
      | Some item \<Rightarrow>
          if oi_group item = key then order_view s
          else moved_order (oi_id item) key (length (order_view s key)) (order_view s))"

lemma find_order_item_eq:
  "order_table_ok s \<Longrightarrow> item \<in> set (item_orders s) \<Longrightarrow> find_order_item (oi_schedule_id item) s = Some item"
  by (simp add: find_order_item_def order_table_ok_def orders_ok_def find_unique)

lemma sync_spec:
  assumes up: "''item_order'' \<notin> set (down s)" and inv: "order_inv s"
    and type: "s_entity_type sched \<in> {TYPE_EPIC, TYPE_USERSTORY, TYPE_TASK}"
  obtains s' item where "sync_schedule_item_order_for_schedule sched s = (Inr item, s')"
    and "order_inv s'" and "orders_only s s'" and "item \<in> set (item_orders s')"
    and "oi_schedule_id item = s_id sched" and "oi_group item = parent_key sched s"
    and "order_view s' = synced_view sched s"
proof -
  obtain pt pid where res: "resolve_order_parent (s_entity_type sched) (s_entity_id sched) s = Inr (pt, pid)"
    and fits: "parent_fits (s_entity_type sched) pt pid"
    using resolve_total by blast
  let ?key = "(s_project_id sched, s_entity_type sched, pt, pid)"
  have pk: "parent_key sched s = ?key" by (simp add: parent_key_def res)
  have run: "sync_schedule_item_order_for_schedule sched s =
     (case find_order_item (s_id sched) s of
        None \<Rightarrow> create_order_item sched ?key (int (length (group_items ?key s)) + 1) s
      | Some item \<Rightarrow> move_order_item_between_groups item ?key None s)"
    using up by (simp add: sync_schedule_item_order_for_schedule_def bindE_lift res tbl_apply
        fetch_group_items_for_update_def Let_def split: option.split)
  show thesis
  proof (cases "find_order_item (s_id sched) s")
    case None
    show thesis
    proof (rule create_ok [OF up inv type HOL.refl fits None])
      fix s' r assume c: "create_order_item sched ?key (int (length (group_items ?key s)) + 1) s = (Inr r, s')"
        "order_inv s'" "orders_only s s'" "item_orders s' = item_orders s @ [r]"
        "oi_schedule_id r = s_id sched" "oi_group r = ?key"
        "order_view s' = (order_view s)(?key := order_view s ?key @ [order_seq s])"
      show thesis
        by (rule that [of r s']) (use c None in \<open>simp_all add: run pk synced_view_def Let_def\<close>)
    qed
  next
    case (Some item)
    then have mem: "item \<in> set (item_orders s)" and sid: "oi_schedule_id item = s_id sched"
      by (auto simp: find_order_item_def dest: find_Some_mem)
    let ?d = "move_target item ?key None s"
    have view: "moved_order (oi_id item) ?key (nat (?d - 1)) (order_view s) = synced_view sched s"
    proof (cases "oi_group item = ?key")
      case True
      have tab: "order_table_ok s" using inv by (simp add: order_inv_def)
      have k: "nat (oi_position item - 1) < length (order_view s ?key)"
        using gap_free_nth(1) [OF inv mem] True by simp
      have "1 \<le> oi_position item"
        using gap_free_bounds [of s item] inv mem by (simp add: order_inv_def)
      moreover have "length (filter (\<lambda>i. i \<noteq> oi_id item) (order_view s ?key)) + 1 = length (order_view s ?key)"
      proof -
        have "oi_id item \<in> set (order_view s ?key)"
          using gap_free_nth [OF inv mem] True by (metis nth_mem)
        then show ?thesis by (rule length_filter_neq [OF distinct_order_view [OF tab]])
      qed
      ultimately have "?d = oi_position item"
        using True k by (auto simp: move_target_def Let_def clamp_def)
      then show ?thesis
        using moved_order_same [OF inv mem] True Some by (simp add: synced_view_def pk Let_def)
    next
      case False
      have "filter (\<lambda>i. i \<noteq> oi_id item) (order_view s ?key) = order_view s ?key"
        using not_in_other_view [of s item ?key] inv mem False
        by (auto simp: order_inv_def filter_id_conv)
      then have "nat (?d - 1) = length (order_view s ?key)"
        using False by (simp add: move_target_def Let_def clamp_def)
      then show ?thesis using False Some by (simp add: synced_view_def pk Let_def)
    qed
    show thesis
    proof (rule move_spec [OF up inv mem, of ?d ?key None])
      fix s' item' assume m: "move_order_item_between_groups item ?key None s = (Inr item', s')"
        "order_inv s'" "order_frame s s'" "item' \<in> set (item_orders s')"
        "oi_schedule_id item' = oi_schedule_id item" "oi_group item' = ?key"
        "order_view s' = moved_order (oi_id item) ?key (nat (?d - 1)) (order_view s)"
      show thesis
        by (rule that [of item' s']) (use m Some sid in \<open>simp_all add: run pk view order_frame_only\<close>)
    qed simp
  qed
qed

text \<open>An operation that succeeds at its first attempt is returned as it is.\<close>

lemma run_with_retries_ok:
  "operation 0 s = (Inr x, s') \<Longrightarrow>
    run_schedule_item_order_operation_with_retries operation s = (Inr (Some x), s')"
  by (simp add: run_schedule_item_order_operation_with_retries_def RETRY_LIMIT_def upt_rec
      handleE_apply bindE_apply atomicE_apply retE_apply)

lemma find_schedule_type: "find_schedule et eid s = Some sched \<Longrightarrow>
    s_entity_type sched = et \<and> s_entity_id sched = eid \<and> sched \<in> set (schedules s)"
  by (auto simp: find_schedule_def dest: find_Some_mem)

lemma get_schedule_ok:
  "et \<in> {TYPE_EPIC, TYPE_USERSTORY, TYPE_TASK} \<Longrightarrow> available s \<Longrightarrow> get_schedule et eid s = Inr (find_schedule et eid s)"
  by (auto simp: get_schedule_def assert_entity_type_def effs available_def)


section \<open>Deleting\<close>

text \<open>Removing one row and closing the gap it leaves.\<close>

lemma remove_and_close:
  assumes up: "''item_order'' \<notin> set (down s)" and inv: "order_inv s"
    and mem: "item \<in> set (item_orders s)"
    and rest: "rest = filter (\<lambda>x. oi_id x \<noteq> oi_id item) (group_items (oi_group item) s)"
    and s1: "s1 = with_orders (filter (\<lambda>r. oi_id r \<noteq> oi_id item) (item_orders s)) s"
  obtains s2 where "persist_group_positions rest s1 = (Inr (numbered rest), s2)"
    and "order_inv s2" and "orders_only s s2"
    and "map oi_schedule_id (item_orders s2) = map oi_schedule_id (item_orders s1)"
    and "order_view s2 = (\<lambda>k. filter (\<lambda>i. i \<noteq> oi_id item) (order_view s k))"
proof -
  have tab: "order_table_ok s" and gf: "gap_free s" using inv by (auto simp: order_inv_def)
  have ids: "distinct (map oi_id (item_orders s))" using tab by (simp add: order_table_ok_def)
  let ?g = "oi_group item"
  have tab1: "order_table_ok s1"
    using tab by (auto simp: s1 order_table_ok_def orders_ok_def intro: distinct_map_filter)
  have whole: "whole_group ?g rest (item_orders s1)"
    using group_items_whole [OF ids, of ?g]
    by (auto simp: whole_group_def rest s1 intro: distinct_map_filter)
  have up1: "''item_order'' \<notin> set (down s1)" using up by (simp add: s1)
  define s2 where s2: "s2 = with_orders (renumber (positions_of rest) (item_orders s1)) s1"
  note p = persist_ok [OF up1 tab1 whole, folded s2]
  note g = persist_groups [OF tab1 whole s2]
  have other: "group_items k s1 = group_items k s" if "k \<noteq> ?g" for k
  proof -
    have "oi_id r \<noteq> oi_id item" if "r \<in> set (item_orders s)" "oi_group r = k" for r
      using that \<open>k \<noteq> ?g\<close> mem ids by (auto dest: distinct_map_inj)
    then have "filter (\<lambda>r. oi_group r = k) (item_orders s1) = filter (\<lambda>r. oi_group r = k) (item_orders s)"
      by (auto simp: s1 intro: filter_cong)
    then show ?thesis by (simp add: group_items_def)
  qed
  have "gap_free s2"
  proof (rule gap_freeI)
    fix k show "map oi_position (group_items k s2) = [1..int (length (group_items k s2))]"
      using g other gap_freeD [OF gf, of k] by (cases "k = ?g") simp_all
  qed
  moreover have "order_view s2 = (\<lambda>k. filter (\<lambda>i. i \<noteq> oi_id item) (order_view s k))"
  proof
    fix k show "order_view s2 k = filter (\<lambda>i. i \<noteq> oi_id item) (order_view s k)"
    proof (cases "k = ?g")
      case True
      then show ?thesis by (simp add: order_view_def g(1) rest filter_ids)
    next
      case False
      then show ?thesis
        using g(2) [OF False] other [OF False] filter_other_group [OF ids mem False [symmetric]]
        by (simp add: order_view_def filter_ids)
    qed
  qed
  ultimately show thesis
    using p by (intro that [of s2]) (simp_all add: order_inv_def s2 s1 orders_only_def)
qed

text \<open>The tables a deletion touches can be queried.\<close>

definition order_up :: "db \<Rightarrow> bool" where
  "order_up s \<longleftrightarrow> ''schedule'' \<notin> set (down s) \<and> ''item_order'' \<notin> set (down s) \<and> ''dependency'' \<notin> set (down s)"

lemma available_order_up: "available s \<Longrightarrow> order_up s"
  by (simp add: available_def order_up_def)

lemma delete_spec:
  assumes av: "order_up s" and inv: "order_inv s"
    and type: "et \<in> {TYPE_EPIC, TYPE_USERSTORY, TYPE_TASK}" and sched: "find_schedule et eid s = Some sched"
  obtains s' where "delete_schedule et eid s = (Inr (), s')" and "order_inv s'"
    and "schedules s' = filter (\<lambda>r. s_id r \<noteq> s_id sched) (schedules s)"
    and "dependencies s' = filter (\<lambda>d. d_from_schedule_id d \<noteq> s_id sched \<and> d_to_schedule_id d \<noteq> s_id sched) (dependencies s)"
    and "find_order_item (s_id sched) s' = None"
    and "order_view s' = (case find_order_item (s_id sched) s of
          None \<Rightarrow> order_view s
        | Some item \<Rightarrow> (\<lambda>k. filter (\<lambda>i. i \<noteq> oi_id item) (order_view s k)))"
    and "epics s' = epics s" and "userstories s' = userstories s" and "tasks s' = tasks s"
    and "relateds s' = relateds s"
proof -
  have up: "''item_order'' \<notin> set (down s)" using av by (simp add: order_up_def)
  have assert: "assert_entity_type et (s :: db) = Inr ()" for s
    using type by (auto simp: assert_entity_type_def)
  let ?del = "\<lambda>t. t\<lparr>schedules := filter (\<lambda>r. s_id r \<noteq> s_id sched) (schedules t),
      item_orders := filter (\<lambda>r. oi_schedule_id r \<noteq> s_id sched) (item_orders t),
      dependencies := filter (\<lambda>d. d_from_schedule_id d \<noteq> s_id sched \<and> d_to_schedule_id d \<noteq> s_id sched)
        (dependencies t)\<rparr>"
  have del: "delete_schedule_row (s_id sched) t = (Inr (), ?del t)" if "order_up t" for t
    using that by (simp add: delete_schedule_row_def order_up_def)
  have same: "?del t = t\<lparr>schedules := filter (\<lambda>r. s_id r \<noteq> s_id sched) (schedules t),
      dependencies := filter (\<lambda>d. d_from_schedule_id d \<noteq> s_id sched \<and> d_to_schedule_id d \<noteq> s_id sched)
        (dependencies t)\<rparr>" if "\<forall>r \<in> set (item_orders t). oi_schedule_id r \<noteq> s_id sched" for t
  proof -
    have "filter (\<lambda>r. oi_schedule_id r \<noteq> s_id sched) (item_orders t) = item_orders t"
      using that by (simp add: filter_id_conv)
    then show ?thesis by simp
  qed
  have inv_del: "order_inv (t\<lparr>schedules := x, dependencies := y\<rparr>) = order_inv t"
    and view_del: "order_view (t\<lparr>schedules := x, dependencies := y\<rparr>) = order_view t" for t x y
    by (simp_all add: order_inv_def order_table_ok_def gap_free_def group_items_def order_view_def fun_eq_iff)
  show thesis
  proof (cases "find_order_item (s_id sched) s")
    case None
    then have none: "\<forall>r \<in> set (item_orders s). oi_schedule_id r \<noteq> s_id sched"
      by (simp add: find_order_item_def find_None_all)
    have "delete_schedule et eid s = (Inr (), ?del s)"
      using av del [OF av] by (simp add: delete_schedule_def bindE_lift assert on_db_apply atomicE_apply sched None
          order_up_def tbl_apply)
    then show thesis
      unfolding same [OF none]
      by (rule that) (use None in \<open>simp_all add: inv inv_del view_del find_order_item_def\<close>)
  next
    case (Some item)
    then have mem: "item \<in> set (item_orders s)" and sid: "oi_schedule_id item = s_id sched"
      by (auto simp: find_order_item_def dest: find_Some_mem)
    have tab: "order_table_ok s" using inv by (simp add: order_inv_def)
    define rest where rest: "rest = filter (\<lambda>x. oi_id x \<noteq> oi_id item) (group_items (oi_group item) s)"
    define s1 where s1: "s1 = with_orders (filter (\<lambda>r. oi_id r \<noteq> oi_id item) (item_orders s)) s"
    show thesis
    proof (rule remove_and_close [OF up inv mem rest s1])
      fix s2 assume p: "persist_group_positions rest s1 = (Inr (numbered rest), s2)"
        and inv2: "order_inv s2" and only: "orders_only s s2"
        and sch: "map oi_schedule_id (item_orders s2) = map oi_schedule_id (item_orders s1)"
        and view: "order_view s2 = (\<lambda>k. filter (\<lambda>i. i \<noteq> oi_id item) (order_view s k))"
      have "\<forall>r \<in> set (item_orders s1). oi_schedule_id r \<noteq> s_id sched"
        using tab mem sid by (auto simp: s1 order_table_ok_def orders_ok_def dest: distinct_map_inj)
      then have "\<forall>i \<in> set (map oi_schedule_id (item_orders s2)). i \<noteq> s_id sched" by (simp add: sch)
      then have none: "\<forall>r \<in> set (item_orders s2). oi_schedule_id r \<noteq> s_id sched" by simp
      have dn: "order_up s2" using only av by (simp add: orders_only_iff order_up_def)
      have k: "(oi_project_id item, oi_entity_type item, oi_parent_entity_type item, oi_parent_entity_id item)
          = oi_group item" by (simp add: oi_group_def)
      have "delete_order_row (oi_id item) s = (Inr (), s1)"
        using up by (simp add: delete_order_row_def s1)
      then have "delete_schedule et eid s = (Inr (), ?del s2)"
        using av p by (simp add: delete_schedule_def bindE_lift assert on_db_apply atomicE_apply sched Some
            del [OF dn] order_up_def tbl_apply fetch_group_items_for_update_def bindE_ok k rest [symmetric]
            retE_apply)
      then show thesis
        unfolding same [OF none]
        by (rule that) (use only Some none inv2 view in
            \<open>simp_all add: inv_del view_del find_order_item_def find_None_all orders_only_iff\<close>)
    qed
  qed
qed

end
