(* ===== verification/Schedule_Dates_Facts.thy ===== *)
theory Schedule_Dates_Facts
  imports Schedule_Dates Schedule_Order_Facts Schedule_Demo
begin

text \<open>
  Correctness of the date rules: what the folds over children and dependencies compute, as
  minima and maxima of sets, and what the checks accept.
\<close>

section \<open>Minima and maxima of optional dates\<close>

definition min_of :: "int set \<Rightarrow> int option" where
  "min_of S = (if S = {} then None else Some (Min S))"

definition max_of :: "int set \<Rightarrow> int option" where
  "max_of S = (if S = {} then None else Some (Max S))"

lemma min_of_insert:
  "finite S \<Longrightarrow> min_of (insert x S) = Some (case min_of S of None \<Rightarrow> x | Some m \<Rightarrow> min x m)"
  by (simp add: min_of_def)

lemma max_of_insert:
  "finite S \<Longrightarrow> max_of (insert x S) = Some (case max_of S of None \<Rightarrow> x | Some m \<Rightarrow> max x m)"
  by (simp add: max_of_def)

definition present :: "'a option list \<Rightarrow> 'a set" where
  "present xs = {d. Some d \<in> set xs}"

lemma present_simps [simp]: "present [] = {}" "present (None # xs) = present xs"
  "present (Some d # xs) = insert d (present xs)"
  by (auto simp: present_def)

lemma finite_present [simp]: "finite (present xs)"
proof (induction xs)
  case (Cons a xs)
  then show ?case by (cases a) auto
qed simp

lemma widen_bounds_eq:
  assumes "finite S" and "finite T"
  shows "widen_bounds (min_of S, max_of T) (a, b) = (min_of (set_option a \<union> S), max_of (set_option b \<union> T))"
  using assms by (cases a; cases b)
    (auto simp: widen_bounds_def min_of_insert max_of_insert min_def max_def split: option.split)

lemma foldl_widen:
  "finite S \<Longrightarrow> finite T \<Longrightarrow> foldl widen_bounds (min_of S, max_of T) xs =
     (min_of (present (map fst xs) \<union> S), max_of (present (map snd xs) \<union> T))"
proof (induction xs arbitrary: S T)
  case (Cons x xs)
  obtain a b where x: "x = (a, b)" by (cases x)
  have "foldl widen_bounds (min_of S, max_of T) (x # xs)
      = foldl widen_bounds (min_of (set_option a \<union> S), max_of (set_option b \<union> T)) xs"
    using Cons.prems by (simp add: x widen_bounds_eq)
  also have "\<dots> = (min_of (present (map fst xs) \<union> (set_option a \<union> S)),
                  max_of (present (map snd xs) \<union> (set_option b \<union> T)))"
    by (rule Cons.IH) (use Cons.prems in auto)
  finally show ?case by (cases a; cases b) (simp_all add: x Un_commute)
qed simp

text \<open>The bounds of the children are the least start and the greatest due date among them.\<close>

lemma bounds_of_children_eq:
  "bounds_of_children m children =
     (min_of (present (map (fst \<circ> child_bounds m) children)),
      max_of (present (map (snd \<circ> child_bounds m) children)))"
  using foldl_widen [of "{}" "{}" "map (child_bounds m) children"]
  by (simp add: bounds_of_children_def min_of_def max_of_def)

lemma present_map: "present (map f xs) = {d. \<exists>x \<in> set xs. f x = Some d}"
  by (auto simp: present_def image_iff) metis

text \<open>
  A parent with optional bounds contains a child: no bound both have is crossed.
\<close>

definition contains :: "date option \<times> date option \<Rightarrow> date option \<times> date option \<Rightarrow> bool" where
  "contains parent child \<longleftrightarrow>
     (\<forall>p c. fst parent = Some p \<longrightarrow> fst child = Some c \<longrightarrow> p \<le> c)
   \<and> (\<forall>p c. snd parent = Some p \<longrightarrow> snd child = Some c \<longrightarrow> c \<le> p)"

lemma min_of_below: "finite S \<Longrightarrow> (case min_of S of None \<Rightarrow> False | Some m \<Rightarrow> m < p) \<longleftrightarrow> (\<exists>c \<in> S. c < p)"
  by (simp add: min_of_def Min_less_iff)

lemma max_of_above: "finite S \<Longrightarrow> (case max_of S of None \<Rightarrow> False | Some m \<Rightarrow> p < m) \<longleftrightarrow> (\<exists>c \<in> S. p < c)"
  by (simp add: max_of_def Max_gr_iff)

lemma bounds_violation_iff:
  "bounds_violation msg parent (bounds_of_children m children) = None \<longleftrightarrow>
     (\<forall>c \<in> set children. contains parent (child_bounds m c))"
proof -
  let ?S = "present (map (fst \<circ> child_bounds m) children)"
  let ?T = "present (map (snd \<circ> child_bounds m) children)"
  have "bounds_violation msg parent (bounds_of_children m children) = None \<longleftrightarrow>
      \<not> (\<exists>p. snd parent = Some p \<and> (case max_of ?T of None \<Rightarrow> False | Some m \<Rightarrow> p < m))
    \<and> \<not> (\<exists>p. fst parent = Some p \<and> (case min_of ?S of None \<Rightarrow> False | Some m \<Rightarrow> m < p))"
    by (cases parent) (auto simp: bounds_violation_def bounds_of_children_eq split: option.splits)
  also have "\<dots> \<longleftrightarrow> (\<forall>c \<in> set children. contains parent (child_bounds m c))"
    unfolding min_of_below [OF finite_present] max_of_above [OF finite_present]
    by (auto simp: present_map contains_def not_less) (meson not_le)+
  finally show ?thesis .
qed

section \<open>Reading the children\<close>

lemma get_schedule_map_ok:
  "available s \<Longrightarrow> get_schedule_map et ids s = Inr (\<lambda>i. if i \<in> set ids then find_schedule et i s else None)"
  by (auto simp: get_schedule_map_def)

definition task_children :: "int \<Rightarrow> db \<Rightarrow> (date option \<times> date option) list" where
  "task_children us s = map (\<lambda>t. child_bounds (\<lambda>i. find_schedule TYPE_TASK i s) (t_id t, t_due_date t))
     (story_tasks us s)"

definition epic_stories :: "int \<Rightarrow> db \<Rightarrow> userstory list" where
  "epic_stories ep s = filter (\<lambda>u. us_id u \<in> set (epic_story_ids ep s)) (userstories s)"

definition story_children :: "int \<Rightarrow> db \<Rightarrow> (date option \<times> date option) list" where
  "story_children ep s = map (\<lambda>u. child_bounds (\<lambda>i. find_schedule TYPE_USERSTORY i s) (us_id u, us_due_date u))
     (epic_stories ep s)"

lemma task_bounds_violation_iff:
  assumes "available s" and "us \<noteq> 0"
  shows "\<exists>b. get_task_children_bounds us s = Inr b
     \<and> (bounds_violation msg parent b = None \<longleftrightarrow> (\<forall>c \<in> set (task_children us s). contains parent c))"
proof (cases "story_tasks us s = []")
  case True
  then show ?thesis
    using assms by (cases parent) (simp add: get_task_children_bounds_def bindQ_apply on_dbQ_apply
        bounds_violation_def task_children_def split: option.split)
next
  case False
  let ?m = "\<lambda>i. if i \<in> set (map t_id (story_tasks us s)) then find_schedule TYPE_TASK i s else None"
  have "get_task_children_bounds us s
      = Inr (bounds_of_children ?m (map (\<lambda>t. (t_id t, t_due_date t)) (story_tasks us s)))"
    using assms False by (simp add: get_task_children_bounds_def bindQ_apply on_dbQ_apply get_schedule_map_ok)
  then show ?thesis
    by (auto simp: bounds_violation_iff task_children_def child_bounds_def)
qed

lemma story_bounds_violation_iff:
  assumes "available s" and "ep \<noteq> 0"
  shows "\<exists>b. get_userstory_children_bounds ep s = Inr b
     \<and> (bounds_violation msg parent b = None \<longleftrightarrow> (\<forall>c \<in> set (story_children ep s). contains parent c))"
proof (cases "epic_story_ids ep s = []")
  case True
  then show ?thesis
    using assms by (cases parent) (simp add: get_userstory_children_bounds_def bindQ_apply on_dbQ_apply
        bounds_violation_def story_children_def epic_stories_def split: option.split)
next
  case False
  let ?m = "\<lambda>i. if i \<in> set (epic_story_ids ep s) then find_schedule TYPE_USERSTORY i s else None"
  have "get_userstory_children_bounds ep s
      = Inr (bounds_of_children ?m (map (\<lambda>u. (us_id u, us_due_date u)) (epic_stories ep s)))"
    using assms False by (simp add: get_userstory_children_bounds_def bindQ_apply on_dbQ_apply
        get_schedule_map_ok epic_stories_def)
  then show ?thesis
    by (auto simp: bounds_violation_iff story_children_def epic_stories_def child_bounds_def)
qed

section \<open>Incoming dependencies\<close>

definition source_dues :: "int \<Rightarrow> db \<Rightarrow> date set" where
  "source_dues schedule_id s = present (map s_due_date (incoming_sources schedule_id s))"

lemma latest_required_eq:
  "(\<forall>d \<in> present dues. d < DATE_MAX) \<Longrightarrow> finite S \<Longrightarrow>
    latest_required dues (max_of S) = Inr (max_of ((\<lambda>d. d + 1) ` present dues \<union> S))"
proof (induction dues arbitrary: S)
  case (Cons a dues)
  show ?case
  proof (cases a)
    case (Some d)
    have "add_days d 1 = Inr (d + 1)"
      using Cons.prems Some by (simp add: add_days_def)
    moreover have "(case max_of S of None \<Rightarrow> Some (d + 1)
          | Some r \<Rightarrow> if d + 1 > r then Some (d + 1) else Some r) = max_of (insert (d + 1) S)"
      using Cons.prems(2) by (auto simp: max_of_insert max_def split: option.split)
    ultimately have "latest_required (a # dues) (max_of S) = latest_required dues (max_of (insert (d + 1) S))"
      by (simp add: Some)
    also have "\<dots> = Inr (max_of ((\<lambda>d. d + 1) ` present dues \<union> insert (d + 1) S))"
      by (rule Cons.IH) (use Cons.prems Some in auto)
    finally show ?thesis by (simp add: Some)
  qed (use Cons in simp)
qed simp

lemma max_of_plus: "finite S \<Longrightarrow> max_of ((\<lambda>d. d + 1) ` S) = map_option (\<lambda>d. d + 1) (max_of S)"
  using mono_Max_commute [of "\<lambda>d. d + 1" S] by (simp add: max_of_def mono_def)

lemma required_start_eq:
  assumes "available s" and "i \<noteq> 0" and "\<forall>d \<in> source_dues i s. d < DATE_MAX"
  shows "get_required_start_from_incoming_dependencies i s = Inr (map_option (\<lambda>d. d + 1) (max_of (source_dues i s)))"
proof -
  have "max_of {} = None" by (simp add: max_of_def)
  with assms latest_required_eq [of "map s_due_date (incoming_sources i s)" "{}"] show ?thesis
    by (simp add: get_required_start_from_incoming_dependencies_def incoming_sources_query_def bindQ_apply
        source_dues_def max_of_plus)
qed

lemma max_of_less: "finite S \<Longrightarrow> (case max_of S of None \<Rightarrow> True | Some m \<Rightarrow> m < c) \<longleftrightarrow> (\<forall>d \<in> S. d < c)"
  by (auto simp: max_of_def)

lemma candidate_violation_iff:
  assumes "available s" and "s_id r \<noteq> 0" and "\<forall>d \<in> source_dues (s_id r) s. d < DATE_MAX"
  shows "get_dependency_violation_for_candidate_start (Some r) (Some c) s
    = Inr (if \<forall>d \<in> source_dues (s_id r) s. d < c then None else Some MSG_TARGET_BEFORE_SOURCE)"
proof -
  have "finite (source_dues (s_id r) s)" by (simp add: source_dues_def)
  from max_of_less [OF this, of c] show ?thesis
    by (auto simp: get_dependency_violation_for_candidate_start_def bindQ_apply required_start_eq [OF assms]
        split: option.splits)
qed

lemma proposed_bounds_ok:
  assumes "available s" and "et \<in> {TYPE_EPIC, TYPE_USERSTORY, TYPE_TASK}"
  shows "\<exists>b. get_proposed_bounds_for_entity obj et s = Inr b"
  using assms by (auto simp: get_proposed_bounds_for_entity_def bindQ_apply get_schedule_ok Let_def
      split: option.split)

lemma dependency_start_violation_iff:
  assumes "available s" and "et \<in> {TYPE_EPIC, TYPE_USERSTORY, TYPE_TASK}"
    and "ob_id obj = Some i" and "i \<noteq> 0" and "find_schedule et i s = Some r"
    and "get_proposed_bounds_for_entity obj et s = Inr (start, due)"
  shows "get_dependency_start_violation_error (Some obj) et s = Inr (
     if incoming_sources (s_id r) s = [] then None
     else case start of
        None \<Rightarrow> Some MSG_NO_TARGET_START
      | Some c \<Rightarrow> if \<forall>d \<in> source_dues (s_id r) s. d < c then None else Some MSG_TARGET_BEFORE_SOURCE)"
proof -
  have "get_schedule et i s = Inr (Some r)"
    using assms get_schedule_ok [of et s i] by simp
  then show ?thesis
    using assms by (force simp: get_dependency_start_violation_error_def truthy_def bindQ_apply
        incoming_sources_query_def source_dues_def present_map split: option.splits)
qed

end
