(* ===== verification/Schedule_Upsert_Facts.thy ===== *)
theory Schedule_Upsert_Facts
  imports Schedule_Upsert Schedule_Dates_Facts
begin

text \<open>
  Facts about \<open>upsert_schedule\<close> and the operations built on it: the frame of each (which
  tables it may change), the invariant of the schedule and order tables, and the exact
  result of an upsert on an available database.
\<close>

section \<open>Frames\<close>

interpretation orders_only: effect_preorder orders_only
  by unfold_locales (auto intro: orders_only_trans)

lemma obeys_orders_onlyI:
  assumes "\<And>s. orders_only s (snd (m s))"
  shows "obeys orders_only m"
  using assms by (simp add: obeys_def)

lemma store_orders_only: "obeys orders_only (store_orders rows)"
  by (rule obeysI) (simp add: store_orders_def orders_only_iff)

lemma update_order_row_only: "obeys orders_only (update_order_row i f)"
  by (rule obeysI) (simp add: update_order_row_def store_orders_def orders_only_iff)

lemma persist_only: "obeys orders_only (persist_group_positions items)"
  unfolding persist_group_positions_def Let_def
  by (intro orders_only.obeys_rules) (auto simp: set_order_position_def intro: update_order_row_only)

lemma move_only: "obeys orders_only (move_order_item_between_groups item key target)"
  unfolding move_order_item_between_groups_def Let_def
  by (auto intro!: orders_only.obeys_rules update_order_row_only persist_only split: prod.split)

lemma create_only: "obeys orders_only (create_order_item sched key position)"
  by (rule obeysI) (cases key, auto simp: create_order_item_def bindE_apply store_orders_def
      orders_only_iff Let_def split: sum.split)

lemma sync_for_only: "obeys orders_only (sync_schedule_item_order_for_schedule sched)"
  unfolding sync_schedule_item_order_for_schedule_def Let_def
  by (auto intro!: orders_only.obeys_rules move_only create_only split: prod.split option.split)

context effect_preorder
begin

lemma obeys_retry:
  "(\<And>k. obeys R (operation k)) \<Longrightarrow> obeys R (run_schedule_item_order_operation_with_retries operation)"
proof -
  assume op: "\<And>k. obeys R (operation k)"
  have "obeys R (retry_attempts ks operation)" for ks
  proof (induction ks)
    case (Cons k ks)
    then show ?case
      using op by (auto intro!: obeys_handle obeys_bind obeys_atomic obeys_ret obeys_raise split: if_splits)
  qed (simp add: obeys_ret)
  then show ?thesis by (simp add: run_schedule_item_order_operation_with_retries_def)
qed

text \<open>A failing upsert step leaves the state alone, so only successful runs matter.\<close>

lemma obeys_atomic_ok:
  "(\<And>s x s'. m s = (Inr x, s') \<Longrightarrow> R s s') \<Longrightarrow> obeys R (atomicE m)"
  by (rule obeysI) (auto simp: atomicE_apply refl split: prod.split sum.split)

lemma obeys_retry_ok:
  "(\<And>k s x s'. operation k s = (Inr x, s') \<Longrightarrow> R s s') \<Longrightarrow>
    obeys R (run_schedule_item_order_operation_with_retries operation)"
proof -
  assume op: "\<And>k s x s'. operation k s = (Inr x, s') \<Longrightarrow> R s s'"
  have "obeys R (retry_attempts ks operation)" for ks
  proof (induction ks)
    case (Cons k ks)
    have "obeys R (atomicE (operation k))" by (rule obeys_atomic_ok) (rule op)
    with Cons show ?case
      by (auto intro!: obeys_handle obeys_bind obeys_ret obeys_raise split: if_splits)
  qed (simp add: obeys_ret)
  then show ?thesis by (simp add: run_schedule_item_order_operation_with_retries_def)
qed

end

lemma obeys_or_stored:
  "effect_preorder R \<Longrightarrow> obeys R m \<Longrightarrow> obeys R (or_stored_item_order i m)"
proof -
  assume p: "effect_preorder R" and m: "obeys R m"
  show ?thesis
    unfolding or_stored_item_order_def
    by (rule effect_preorder.obeys_handle [OF p m]) (auto intro!: effect_preorder.obeys_on_db [OF p]
        effect_preorder.obeys_lift [OF p] effect_preorder.obeys_ret [OF p] split: if_splits)
qed

lemmas orders_only_or_stored = obeys_or_stored [OF orders_only.effect_preorder_axioms]
  and keeps_or_stored = obeys_or_stored [OF keeps.effect_preorder_axioms]

lemma sync_only: "obeys orders_only (sync_schedule_item_order et eid)"
  unfolding sync_schedule_item_order_def
  by (auto intro!: orders_only.obeys_rules orders_only_or_stored orders_only.obeys_retry
      sync_for_only split: option.split)

lemma set_position_only: "obeys orders_only (set_schedule_item_order_position et eid pos)"
  unfolding set_schedule_item_order_position_def set_schedule_item_order_position_for_schedule_def Let_def
  by (auto intro!: orders_only.obeys_rules orders_only_or_stored orders_only.obeys_retry
      sync_for_only move_only split: option.split)

section \<open>The invariant of the tables\<close>

definition table_inv :: "db \<Rightarrow> bool" where
  "table_inv s \<longleftrightarrow> schedules_ok s \<and> order_inv s
     \<and> (\<forall>r \<in> set (schedules s). s_entity_type r \<in> {TYPE_EPIC, TYPE_USERSTORY, TYPE_TASK})"

lemma order_inv_cong:
  "item_orders t = item_orders s \<Longrightarrow> order_seq t = order_seq s \<Longrightarrow> order_inv t = order_inv s"
  by (simp add: order_inv_def order_table_ok_def gap_free_def group_items_def)

lemma table_inv_orders: "orders_only s t \<Longrightarrow> table_inv s \<Longrightarrow> order_inv t \<Longrightarrow> table_inv t"
  by (simp add: table_inv_def orders_only_iff schedules_ok_def)

lemma sync_keeps: "obeys (keeps table_inv) (sync_schedule_item_order et eid)"
proof -
  have step: "keeps table_inv s s'"
    if sched: "find_schedule et eid t = Some sched" and ty: "et \<in> {TYPE_EPIC, TYPE_USERSTORY, TYPE_TASK}"
      and run: "sync_schedule_item_order_for_schedule sched s = (Inr x, s')" for sched t s x s'
  proof (cases "''item_order'' \<in> set (down s)")
    case True
    then have "fst (sync_schedule_item_order_for_schedule sched s) \<noteq> Inr x"
      by (auto simp: sync_schedule_item_order_for_schedule_def bindE_lift tbl_apply Let_def split: sum.split)
    with run show ?thesis by simp
  next
    case False
    have type: "s_entity_type sched \<in> {TYPE_EPIC, TYPE_USERSTORY, TYPE_TASK}"
      using find_schedule_type [OF sched] ty by simp
    show ?thesis
      unfolding keeps_def
    proof
      assume inv: "table_inv s"
      then have "order_inv s" by (simp add: table_inv_def)
      then show "table_inv s'"
        by (rule sync_spec [OF False _ type]) (use run inv table_inv_orders in auto)
    qed
  qed
  show ?thesis
  proof (rule obeysI)
    fix s
    show "keeps table_inv s (snd (sync_schedule_item_order et eid s))"
    proof (cases "et \<in> {TYPE_EPIC, TYPE_USERSTORY, TYPE_TASK}")
      case False
      then show ?thesis
        by (simp add: sync_schedule_item_order_def bindE_lift assert_entity_type_def keeps_def)
    next
      case True
      show ?thesis
      proof (cases "get_schedule et eid s")
        case (Inr found)
        have run: "sync_schedule_item_order et eid s = (case found of None \<Rightarrow> retE None
           | Some sched \<Rightarrow> or_stored_item_order (s_id sched)
              (run_schedule_item_order_operation_with_retries
                (\<lambda>_. sync_schedule_item_order_for_schedule sched))) s"
          using True Inr by (auto simp: sync_schedule_item_order_def bindE_lift assert_entity_type_def)
        show ?thesis
        proof (cases found)
          case (Some sched)
          then have f: "find_schedule et eid s = Some sched"
            using Inr True by (auto simp: get_schedule_def assert_entity_type_def effs split: if_splits)
          have "obeys (keeps table_inv) (or_stored_item_order (s_id sched)
              (run_schedule_item_order_operation_with_retries
                (\<lambda>_. sync_schedule_item_order_for_schedule sched)))"
            by (intro keeps_or_stored keeps.obeys_retry_ok) (rule step [OF f True])
          then show ?thesis by (simp add: run Some obeysD)
        qed (simp add: run retE_apply keeps_def)
      qed (use True in \<open>auto simp: sync_schedule_item_order_def bindE_lift assert_entity_type_def keeps_def\<close>)
    qed
  qed
qed

section \<open>Upserting\<close>

text \<open>What an upsert leaves alone.\<close>

definition sched_only :: "db \<Rightarrow> db \<Rightarrow> bool" where
  "sched_only s s' \<longleftrightarrow> dependencies s' = dependencies s
     \<and> epics s' = epics s \<and> userstories s' = userstories s \<and> tasks s' = tasks s
     \<and> relateds s' = relateds s \<and> down s' = down s \<and> outbox s' = outbox s"

interpretation sched_only: effect_preorder sched_only
  by unfold_locales (auto simp: sched_only_def)

lemma orders_sched_only: "orders_only s t \<Longrightarrow> sched_only s t"
  by (simp add: orders_only_iff sched_only_def)

lemma get_or_create_only: "obeys sched_only (get_or_create_schedule et eid p)"
  by (rule obeysI) (simp add: get_or_create_schedule_def sched_only_def Let_def split: option.split)

lemma update_schedule_only: "obeys sched_only (update_schedule_row i f)"
  by (rule obeysI) (simp add: update_schedule_row_def sched_only_def)

lemma upsert_only: "obeys sched_only (upsert_schedule et eid p v)"
proof -
  have "obeys sched_only (sync_schedule_item_order et eid)"
    using sync_only by (auto simp: obeys_def intro: orders_sched_only)
  then show ?thesis
    unfolding upsert_schedule_def Let_def stored_def
    by (intro sched_only.obeys_rules get_or_create_only update_schedule_only)
qed

text \<open>The row a created schedule starts as, and the schedule table after an upsert.\<close>

definition new_schedule :: "string \<Rightarrow> int \<Rightarrow> int \<Rightarrow> int \<Rightarrow> schedule" where
  "new_schedule i_type eid p i = \<lparr>s_id = i, s_entity_type = i_type, s_entity_id = eid, s_project_id = p,
     s_created_date = None, s_due_date = None, s_estimated_start = None, s_actual_start = None,
     s_color = None\<rparr>"

definition base_schedule :: "string \<Rightarrow> int \<Rightarrow> int \<Rightarrow> db \<Rightarrow> schedule" where
  "base_schedule et eid p s =
     (case find_schedule et eid s of Some r \<Rightarrow> r | None \<Rightarrow> new_schedule et eid p (schedule_seq s))"

definition upserted :: "string \<Rightarrow> int \<Rightarrow> int \<Rightarrow> schedule_values \<Rightarrow> db \<Rightarrow> schedule list" where
  "upserted et eid p v s = upd_where (\<lambda>r. s_id r = s_id (base_schedule et eid p s)) (set_values p v)
     (case find_schedule et eid s of Some r \<Rightarrow> schedules s
      | None \<Rightarrow> schedules s @ [new_schedule et eid p (schedule_seq s)])"

lemma set_values_keys [simp]:
  "s_id (set_values p v r) = s_id r" "s_entity_type (set_values p v r) = s_entity_type r"
  "s_entity_id (set_values p v r) = s_entity_id r" "s_project_id (set_values p v r) = p"
  by (simp_all add: set_values_def)

lemma set_values_none: "s_project_id r = p \<Longrightarrow> set_values p no_values r = r"
  by (simp add: set_values_def no_values_def)

lemma schedules_ok_upd:
  "schedules_ok s \<Longrightarrow> (\<And>r. s_id (f r) = s_id r \<and> s_entity_type (f r) = s_entity_type r \<and> s_entity_id (f r) = s_entity_id r) \<Longrightarrow>
    schedules_ok (s\<lparr>schedules := upd_where P f (schedules s)\<rparr>)"
  by (auto simp: schedules_ok_def map_upd_where set_upd_where)

lemma table_inv_upd:
  "table_inv s \<Longrightarrow> (\<And>r. s_id (f r) = s_id r \<and> s_entity_type (f r) = s_entity_type r \<and> s_entity_id (f r) = s_entity_id r) \<Longrightarrow>
    table_inv (s\<lparr>schedules := upd_where P f (schedules s)\<rparr>)"
  using schedules_ok_upd [of s f P]
  by (auto simp: table_inv_def set_upd_where order_inv_cong [of "s\<lparr>schedules := upd_where P f (schedules s)\<rparr>" s])

lemma table_inv_new:
  assumes "table_inv s" and "find_schedule et eid s = None"
    and "et \<in> {TYPE_EPIC, TYPE_USERSTORY, TYPE_TASK}" and "0 < schedule_seq s"
  shows "table_inv (s\<lparr>schedules := schedules s @ [new_schedule et eid p (schedule_seq s)],
                      schedule_seq := schedule_seq s + 1\<rparr>)" (is "table_inv ?t")
proof -
  have "order_inv ?t = order_inv s" by (rule order_inv_cong) simp_all
  moreover have "schedules_ok ?t"
    using assms by (force simp: table_inv_def schedules_ok_def new_schedule_def find_schedule_def find_None_all)
  ultimately show ?thesis using assms by (auto simp: table_inv_def new_schedule_def)
qed

lemma upsert_keeps: "obeys (keeps (\<lambda>s. table_inv s \<and> 0 < schedule_seq s)) (upsert_schedule et eid p v)"
  (is "obeys (keeps ?I) _")
proof (cases "et \<in> {TYPE_EPIC, TYPE_USERSTORY, TYPE_TASK}")
  case False
  then show ?thesis
    by (simp add: upsert_schedule_def assert_entity_type_def obeys_def bindE_lift keeps_def)
next
  case True
  have create: "obeys (keeps ?I) (get_or_create_schedule et eid p)"
  proof (rule obeysI)
    fix s
    show "keeps ?I s (snd (get_or_create_schedule et eid p s))"
      using table_inv_new [of s et eid p] True
      by (simp add: get_or_create_schedule_def keeps_def Let_def new_schedule_def split: option.split)
  qed
  have update: "obeys (keeps ?I) (update_schedule_row i (set_values p v))" for i
    by (rule obeysI) (simp add: update_schedule_row_def keeps_def table_inv_upd)
  have sync: "obeys (keeps ?I) (sync_schedule_item_order et eid)"
    using sync_keeps sync_only by (auto simp: obeys_def keeps_def orders_only_iff)
  show ?thesis
    unfolding upsert_schedule_def Let_def stored_def
    by (intro keeps.obeys_rules create update sync)
qed

text \<open>
  On an available database whose groups are gap free an upsert always succeeds, and its
  effect on the schedule table is exactly \<open>upserted\<close>.
\<close>

lemma sync_ok:
  assumes av: "available s" and inv: "order_inv s" and et: "et \<in> {TYPE_EPIC, TYPE_USERSTORY, TYPE_TASK}"
    and sched: "find_schedule et eid s = Some sched"
  obtains s' item where "sync_schedule_item_order et eid s = (Inr (Some item), s')" "order_inv s'" "orders_only s s'"
    "oi_schedule_id item = s_id sched" "oi_group item = parent_key sched s" "item \<in> set (item_orders s')"
    "order_view s' = synced_view sched s"
proof -
  have up: "''item_order'' \<notin> set (down s)" using av by (simp add: available_def)
  have type: "s_entity_type sched \<in> {TYPE_EPIC, TYPE_USERSTORY, TYPE_TASK}"
    using et find_schedule_type [OF sched] by simp
  show thesis
  proof (rule sync_spec [OF up inv type])
    fix s' item assume *: "sync_schedule_item_order_for_schedule sched s = (Inr item, s')" "order_inv s'"
      "orders_only s s'" "item \<in> set (item_orders s')" "oi_schedule_id item = s_id sched"
      "oi_group item = parent_key sched s" "order_view s' = synced_view sched s"
    have "sync_schedule_item_order et eid s = (Inr (Some item), s')"
      using av et sched * by (auto simp: sync_schedule_item_order_def bindE_lift assert_entity_type_def
          get_schedule_ok or_stored_item_order_def handleE_apply run_with_retries_ok)
    with * show thesis by (rule_tac that)
  qed
qed

lemma find_schedule_upd:
  assumes ok: "schedules_ok s" and r: "find_schedule et eid s = Some r"
    and f: "\<And>x. s_id (f x) = s_id x \<and> s_entity_type (f x) = s_entity_type x \<and> s_entity_id (f x) = s_entity_id x"
  shows "find_schedule et' eid' (s\<lparr>schedules := upd_where (\<lambda>x. s_id x = s_id r) f (schedules s)\<rparr>)
    = (if (et', eid') = (et, eid) then Some (f r) else find_schedule et' eid' s)"
proof -
  have mem: "r \<in> set (schedules s)" and key: "s_entity_type r = et" "s_entity_id r = eid"
    using find_schedule_type [OF r] by auto
  have ids: "distinct (map s_id (schedules s))"
    and keys: "distinct (map (\<lambda>r. (s_entity_type r, s_entity_id r)) (schedules s))"
    using ok by (auto simp: schedules_ok_def)
  have same: "s_id x = s_id r \<longleftrightarrow> x = r" if "x \<in> set (schedules s)" for x
    using that mem ids by (auto dest: distinct_map_inj)
  have find_map: "find P (map g xs) = map_option g (find P xs)" if "\<And>x. x \<in> set xs \<Longrightarrow> P (g x) = P x"
    for P :: "schedule \<Rightarrow> bool" and g xs using that by (induction xs) auto
  let ?g = "\<lambda>x. if s_id x = s_id r then f x else x"
  let ?P = "\<lambda>x. s_entity_type x = et' \<and> s_entity_id x = eid'"
  have "find_schedule et' eid' (s\<lparr>schedules := upd_where (\<lambda>x. s_id x = s_id r) f (schedules s)\<rparr>)
      = map_option ?g (find_schedule et' eid' s)"
    unfolding find_schedule_def upd_where_def using f by (simp add: find_map)
  also have "\<dots> = (if (et', eid') = (et, eid) then Some (f r) else find_schedule et' eid' s)"
  proof (cases "find_schedule et' eid' s")
    case None
    then show ?thesis using r by auto
  next
    case (Some x)
    then have "x \<in> set (schedules s)" "s_entity_type x = et'" "s_entity_id x = eid'"
      using find_schedule_type by auto
    then show ?thesis using Some r key same by auto
  qed
  finally show ?thesis .
qed

definition wf_db :: "db \<Rightarrow> bool" where
  "wf_db s \<longleftrightarrow> table_inv s \<and> 0 < schedule_seq s"

lemma wf_db_iff: "wf_db = (\<lambda>s. table_inv s \<and> 0 < schedule_seq s)"
  by (rule ext) (simp add: wf_db_def)

lemmas upsert_wf = upsert_keeps [folded wf_db_iff]

lemma find_schedule_append:
  "find_schedule et eid (s\<lparr>schedules := schedules s @ [r], schedule_seq := n\<rparr>)
    = (case find_schedule et eid s of Some x \<Rightarrow> Some x
       | None \<Rightarrow> if s_entity_type r = et \<and> s_entity_id r = eid then Some r else None)"
proof -
  have "find P (xs @ [r]) = (case find P xs of Some x \<Rightarrow> Some x | None \<Rightarrow> if P r then Some r else None)"
    for P xs by (induction xs) auto
  then show ?thesis by (simp add: find_schedule_def)
qed

lemma get_or_create_ok:
  assumes av: "available s" and wf: "wf_db s" and et: "et \<in> {TYPE_EPIC, TYPE_USERSTORY, TYPE_TASK}"
  obtains s1 where "get_or_create_schedule et eid p s = (Inr (base_schedule et eid p s), s1)" and "wf_db s1"
    and "sched_only s s1" and "find_schedule et eid s1 = Some (base_schedule et eid p s)"
    and "\<And>et' eid'. (et', eid') \<noteq> (et, eid) \<Longrightarrow> find_schedule et' eid' s1 = find_schedule et' eid' s"
    and "schedules s1 = (case find_schedule et eid s of Some r \<Rightarrow> schedules s
      | None \<Rightarrow> schedules s @ [new_schedule et eid p (schedule_seq s)])"
proof (cases "find_schedule et eid s")
  case (Some r)
  then show thesis
    using av wf by (intro that [of s]) (simp_all add: get_or_create_schedule_def available_def base_schedule_def
        sched_only.refl)
next
  case None
  define n where n: "n = new_schedule et eid p (schedule_seq s)"
  define s1 where s1: "s1 = s\<lparr>schedules := schedules s @ [n], schedule_seq := schedule_seq s + 1\<rparr>"
  have "get_or_create_schedule et eid p s = (Inr (base_schedule et eid p s), s1)"
    using None av by (simp add: get_or_create_schedule_def available_def s1 n new_schedule_def base_schedule_def
        Let_def)
  moreover have "wf_db s1"
    using table_inv_new [of s et eid p] wf None et by (auto simp: wf_db_def s1 n)
  ultimately show thesis
    using None by (intro that [of s1]) (auto simp: s1 n sched_only_def find_schedule_append base_schedule_def
        new_schedule_def split: option.split)
qed

lemma upsert_spec:
  assumes av: "available s" and wf: "wf_db s" and et: "et \<in> {TYPE_EPIC, TYPE_USERSTORY, TYPE_TASK}"
  obtains s' where
    "upsert_schedule et eid p v s = (Inr (Some (set_values p v (base_schedule et eid p s))), s')"
    and "wf_db s'" and "sched_only s s'" and "schedules s' = upserted et eid p v s"
    and "\<forall>et' eid'. find_schedule et' eid' s' = (if (et', eid') = (et, eid)
           then Some (set_values p v (base_schedule et eid p s)) else find_schedule et' eid' s)"
proof (rule get_or_create_ok [OF av wf et, of eid p])
  fix s1 assume run1: "get_or_create_schedule et eid p s = (Inr (base_schedule et eid p s), s1)"
    and wf1: "wf_db s1" and only1: "sched_only s s1"
    and find1: "find_schedule et eid s1 = Some (base_schedule et eid p s)"
    and other1: "\<And>et' eid'. (et', eid') \<noteq> (et, eid) \<Longrightarrow> find_schedule et' eid' s1 = find_schedule et' eid' s"
    and sch1: "schedules s1 = (case find_schedule et eid s of Some r \<Rightarrow> schedules s
      | None \<Rightarrow> schedules s @ [new_schedule et eid p (schedule_seq s)])"
  define b where b: "b = base_schedule et eid p s"
  define s2 where s2: "s2 = s1\<lparr>schedules := upd_where (\<lambda>r. s_id r = s_id b) (set_values p v) (schedules s1)\<rparr>"
  have ok1: "schedules_ok s1" using wf1 by (simp add: wf_db_def table_inv_def)
  have av1: "available s1" using av only1 by (simp add: available_def sched_only_def)
  have find2: "find_schedule et' eid' s2 = (if (et', eid') = (et, eid) then Some (set_values p v b)
      else find_schedule et' eid' s)" for et' eid'
    using find_schedule_upd [OF ok1 find1, of "set_values p v" et' eid'] other1 by (auto simp: s2 b)
  have wf2: "wf_db s2"
    using wf1 table_inv_upd [of s1 "set_values p v" "\<lambda>r. s_id r = s_id b"] by (simp add: wf_db_def s2)
  have av2: "available s2" using av1 by (simp add: s2 available_def)
  have nochange: "s2 = s1 \<and> set_values p v b = b" if "s_project_id b = p" "v = no_values"
  proof
    have mem: "b \<in> set (schedules s1)" using find_schedule_type [OF find1] by (simp add: b)
    have "s_id r = s_id b \<longleftrightarrow> r = b" if "r \<in> set (schedules s1)" for r
      using that mem ok1 by (auto simp: schedules_ok_def dest: distinct_map_inj)
    then have "map (\<lambda>r. if s_id r = s_id b then set_values p v r else r) (schedules s1) = schedules s1"
      using that by (intro map_idI) (auto simp: set_values_none)
    then show "s2 = s1" by (simp add: s2 upd_where_def)
    show "set_values p v b = b" using that by (simp add: set_values_none)
  qed
  have sched2: "find_schedule et eid s2 = Some (set_values p v b)" using find2 by simp
  have oi2: "order_inv s2" using wf2 by (simp add: wf_db_def table_inv_def)
  show thesis
  proof (rule sync_ok [OF av2 oi2 et sched2])
    fix s' item assume sync: "sync_schedule_item_order et eid s2 = (Inr (Some item), s')"
      and oi: "order_inv s'" and only2: "orders_only s2 s'"
    have down1: "''schedule'' \<notin> set (down s1)" using av1 by (simp add: available_def)
    have "upsert_schedule et eid p v s = (Inr (Some (set_values p v b)), s')"
    proof (cases "s_project_id b \<noteq> p \<or> v \<noteq> no_values")
      case True
      then show ?thesis
        using run1 et sync down1 by (auto simp: upsert_schedule_def bindE_lift assert_entity_type_def
            bindE_apply on_db_apply retE_apply stored_def update_schedule_row_def b [symmetric] s2)
    next
      case False
      then show ?thesis
        using run1 et sync nochange by (auto simp: upsert_schedule_def bindE_lift assert_entity_type_def
            bindE_apply on_db_apply retE_apply b [symmetric])
    qed
    moreover have "wf_db s'"
      using table_inv_orders [OF only2 _ oi] wf2 only2 by (simp add: wf_db_def orders_only_iff)
    moreover have "sched_only s s'"
      using only1 only2 by (simp add: sched_only_def orders_only_iff s2)
    moreover have "schedules s' = upserted et eid p v s"
      using only2 sch1 by (simp add: orders_only_iff s2 upserted_def b)
    moreover have "find_schedule et' eid' s' = find_schedule et' eid' s2" for et' eid'
      using only2 by (simp add: orders_only_iff find_schedule_def)
    ultimately show thesis
      using find2 by (intro that [of s']) (auto simp: b)
  qed
qed

end
