(* ===== verification/Schedule_Demo_Facts.thy ===== *)
theory Schedule_Demo_Facts
  imports Schedule_Demo Schedule_Upsert_Facts
begin

text \<open>Facts about the demonstration project that the witnesses share.\<close>

lemma mk_schedule_simps [simp]:
  "s_id (mk_schedule i et eid start due) = i" "s_entity_type (mk_schedule i et eid start due) = et"
  "s_entity_id (mk_schedule i et eid start due) = eid" "s_due_date (mk_schedule i et eid start due) = due"
  "s_estimated_start (mk_schedule i et eid start due) = start"
  "s_actual_start (mk_schedule i et eid start due) = None" "s_project_id (mk_schedule i et eid start due) = 1"
  by (simp_all add: mk_schedule_def)

lemma demo_order_inv: "order_inv demo_db"
  unfolding order_inv_def
proof
  show "order_table_ok demo_db" by (rule demo_order_table_ok)
  show "gap_free demo_db"
    by (simp add: gap_free_def demo_defs group_items_def oi_group_def type_defs upto.simps)
qed

lemma demo_wf: "wf_db demo_db"
  using demo_order_inv demo_schedules_ok
  by (simp add: wf_db_def table_inv_def) (simp add: demo_defs)

lemma demo_find:
  "find_schedule TYPE_EPIC 10 demo_db = Some (mk_schedule 1 TYPE_EPIC 10 (Some 10) (Some 20))"
  "find_schedule TYPE_USERSTORY 20 demo_db = Some (mk_schedule 2 TYPE_USERSTORY 20 (Some 10) (Some 15))"
  "find_schedule TYPE_USERSTORY 21 demo_db = Some (mk_schedule 3 TYPE_USERSTORY 21 (Some 16) (Some 20))"
  "find_schedule TYPE_TASK 30 demo_db = Some (mk_schedule 4 TYPE_TASK 30 (Some 10) (Some 12))"
  "find_schedule TYPE_TASK 31 demo_db = Some (mk_schedule 5 TYPE_TASK 31 (Some 13) (Some 15))"
  by (simp_all add: find_schedule_def demo_defs)

lemma demo_sources: "incoming_sources 3 demo_db = [mk_schedule 2 TYPE_USERSTORY 20 (Some 10) (Some 15)]"
  by (simp add: incoming_sources_def demo_defs)

definition demo_obj :: "int \<Rightarrow> date \<Rightarrow> date \<Rightarrow> entity_obj" where
  "demo_obj i start due = \<lparr>ob_id = Some i, ob_actual_start = Some None, ob_estimated_start = Some (Some start),
     ob_due_date = Some (Some due), ob_user_story_id = None, ob_user_story = None\<rparr>"

lemma demo_obj_id [simp]: "ob_id (demo_obj i start due) = Some i"
  by (simp add: demo_obj_def)

lemma demo_bounds:
  "i \<noteq> 0 \<Longrightarrow> et \<in> {TYPE_EPIC, TYPE_USERSTORY, TYPE_TASK} \<Longrightarrow>
    get_proposed_bounds_for_entity (demo_obj i start due) et demo_db = Inr (Some start, Some due)"
  by (auto simp: get_proposed_bounds_for_entity_def demo_obj_def bindQ_apply get_schedule_ok
      resolve_effective_start_def getattr_or_none_def)

end
