(* ===== verification/Schedule_Order_Props.thy ===== *)
theory Schedule_Order_Props
  imports Schedule_Demo_Facts
begin

text \<open>
  The properties of the sibling order, each with a witness on the demonstration project.
\<close>

text \<open>C17: Reindexing a sibling group never meets the unique constraint on (group, position),
  although it rewrites the rows one statement at a time: given all rows of a group in any
  order, it ends with the rows numbered 1, 2, ..., n in that order and leaves every other
  group, and every other table, as it was.\<close>

theorem persist_group_positions_correct:
  assumes "''item_order'' \<notin> set (down s)" and "order_table_ok s"
    and "whole_group key items (item_orders s)"
  shows "\<exists>s'. persist_group_positions items s = (Inr (numbered items), s')
     \<and> order_table_ok s' \<and> order_frame s s'
     \<and> order_view s' key = map oi_id items
     \<and> map oi_position (group_items key s') = [1..int (length items)]
     \<and> (\<forall>k. k \<noteq> key \<longrightarrow> group_items k s' = group_items k s)"
  using persist_ok [OF assms] persist_groups [OF assms(2,3) HOL.refl]
  by (intro exI [of _ "with_orders (renumber (positions_of items) (item_orders s)) s"])
    (simp add: view_numbered)

theorem persist_group_positions_correct_witness:
  "\<exists>s'. persist_group_positions (rev (group_items (1, TYPE_USERSTORY, TYPE_EPIC, 10) demo_db)) demo_db
       = (Inr (numbered (rev (group_items (1, TYPE_USERSTORY, TYPE_EPIC, 10) demo_db))), s')
     \<and> order_table_ok s'"
proof -
  have "distinct (map oi_id (item_orders demo_db))"
    using demo_order_table_ok by (simp add: order_table_ok_def)
  then have "whole_group (1, TYPE_USERSTORY, TYPE_EPIC, 10)
      (rev (group_items (1, TYPE_USERSTORY, TYPE_EPIC, 10) demo_db)) (item_orders demo_db)"
    using group_items_whole by (simp add: whole_group_def rev_map [symmetric])
  then show ?thesis
    using persist_group_positions_correct [OF _ demo_order_table_ok] by (force simp: demo_db_def)
qed

text \<open>C19: Synchronising the order of a scheduled item always succeeds when every group is
  numbered without gaps: it returns the item's own row, placed under the item's current
  parent; an item already there keeps its place, one that changed parent goes to the end of
  the new group while the old group closes up, a new one is appended; and again every group
  is numbered without gaps.\<close>

theorem sync_schedule_item_order_correct:
  assumes "available s" and "order_inv s" and "et \<in> {TYPE_EPIC, TYPE_USERSTORY, TYPE_TASK}"
    and "find_schedule et eid s = Some sched"
  shows "\<exists>item s'. sync_schedule_item_order et eid s = (Inr (Some item), s')
     \<and> order_inv s' \<and> orders_only s s' \<and> item \<in> set (item_orders s')
     \<and> oi_schedule_id item = s_id sched \<and> oi_group item = parent_key sched s
     \<and> order_view s' = synced_view sched s"
proof -
  have up: "''item_order'' \<notin> set (down s)" using assms(1) by (simp add: available_def)
  have type: "s_entity_type sched \<in> {TYPE_EPIC, TYPE_USERSTORY, TYPE_TASK}"
    using assms(3) find_schedule_type [OF assms(4)] by simp
  show ?thesis
  proof (rule sync_spec [OF up assms(2) type])
    fix s' item assume *: "sync_schedule_item_order_for_schedule sched s = (Inr item, s')" "order_inv s'"
      "orders_only s s'" "item \<in> set (item_orders s')" "oi_schedule_id item = s_id sched"
      "oi_group item = parent_key sched s" "order_view s' = synced_view sched s"
    have "sync_schedule_item_order et eid s = (Inr (Some item), s')"
      using assms * by (auto simp: sync_schedule_item_order_def bindE_lift assert_entity_type_def
          get_schedule_ok or_stored_item_order_def handleE_apply run_with_retries_ok)
    with * show ?thesis by blast
  qed
qed

theorem sync_schedule_item_order_correct_witness:
  "\<exists>item s'. sync_schedule_item_order TYPE_TASK 31 demo_db = (Inr (Some item), s') \<and> order_inv s'"
  using sync_schedule_item_order_correct [OF demo_available demo_order_inv _ demo_find(5)] by blast

text \<open>C18: Moving an item to a requested position clamps the position to the group, puts the
  item exactly there, keeps the relative order of all its siblings and the contents of every
  other group, and leaves all groups numbered without gaps.\<close>

theorem set_schedule_item_order_position_correct:
  assumes "available s" and "order_inv s" and "et \<in> {TYPE_EPIC, TYPE_USERSTORY, TYPE_TASK}"
    and "find_schedule et eid s = Some sched" and "py_int pos = Inr p"
  shows "\<exists>item s'. set_schedule_item_order_position et eid pos s = (Inr (Some item), s')
     \<and> order_inv s' \<and> orders_only s s'
     \<and> oi_schedule_id item = s_id sched \<and> oi_group item = parent_key sched s
     \<and> oi_position item = clamp p (int (length (order_view s' (parent_key sched s))) - 1)
     \<and> order_view s' = moved_order (oi_id item) (parent_key sched s) (nat (oi_position item - 1))
                         (synced_view sched s)"
proof -
  have up: "''item_order'' \<notin> set (down s)" using assms(1) by (simp add: available_def)
  have type: "s_entity_type sched \<in> {TYPE_EPIC, TYPE_USERSTORY, TYPE_TASK}"
    using assms(3) find_schedule_type [OF assms(4)] by simp
  show ?thesis
  proof (rule sync_spec [OF up assms(2) type])
    fix s1 item assume sync: "sync_schedule_item_order_for_schedule sched s = (Inr item, s1)"
      and inv1: "order_inv s1" and only1: "orders_only s s1" and mem1: "item \<in> set (item_orders s1)"
      and sid: "oi_schedule_id item = s_id sched" and grp: "oi_group item = parent_key sched s"
      and view1: "order_view s1 = synced_view sched s"
    have up1: "''item_order'' \<notin> set (down s1)" using up only1 by (simp add: orders_only_iff)
    let ?d = "move_target item (oi_group item) (Some (max 1 p)) s1"
    have k: "(oi_project_id item, oi_entity_type item, oi_parent_entity_type item, oi_parent_entity_id item)
          = oi_group item" by (simp add: oi_group_def)
    show ?thesis
    proof (rule move_spec [OF up1 inv1 mem1, of ?d "oi_group item" "Some (max 1 p)"])
      fix s' item' assume m: "move_order_item_between_groups item (oi_group item) (Some (max 1 p)) s1 = (Inr item', s')"
        "order_inv s'" "order_frame s1 s'" "oi_id item' = oi_id item"
        "oi_schedule_id item' = oi_schedule_id item" "oi_group item' = oi_group item" "oi_position item' = ?d"
        "order_view s' = moved_order (oi_id item) (oi_group item) (nat (?d - 1)) (order_view s1)"
      have "set_schedule_item_order_position_for_schedule sched (max 1 p) s = (Inr item', s')"
        using sync m(1) by (simp add: set_schedule_item_order_position_for_schedule_def bindE_ok k)
      then have run: "set_schedule_item_order_position et eid pos s = (Inr (Some item'), s')"
        using assms by (auto simp: set_schedule_item_order_position_def bindE_lift assert_entity_type_def
            int_or_raise_def get_schedule_ok or_stored_item_order_def handleE_apply run_with_retries_ok Let_def)
      have "?d = clamp p (int (length (order_view s' (oi_group item))) - 1)"
        by (simp add: m(8) moved_order_def move_target_def Let_def clamp_def)
      with run m sid grp view1 only1 show ?thesis
        by (intro exI [of _ item'] exI [of _ s'])
          (auto intro: orders_only_trans order_frame_only)
    qed simp
  qed
qed

theorem set_schedule_item_order_position_correct_witness:
  "\<exists>item s'. set_schedule_item_order_position TYPE_TASK 31 (VStr '' 1 '') demo_db = (Inr (Some item), s')
     \<and> order_inv s'"
proof -
  have "py_int (VStr '' 1 '') = Inr 1" by code_simp
  then show ?thesis
    using set_schedule_item_order_position_correct [OF demo_available demo_order_inv _ demo_find(5)] by blast
qed

text \<open>C20: Deleting a schedule removes its row, its place in the order (its siblings close up,
  keeping their relative order) and every dependency from it or to it; no group is left with
  a gap.\<close>

theorem delete_schedule_correct:
  assumes "available s" and "order_inv s" and "et \<in> {TYPE_EPIC, TYPE_USERSTORY, TYPE_TASK}"
    and "find_schedule et eid s = Some sched"
  shows "\<exists>s'. delete_schedule et eid s = (Inr (), s') \<and> order_inv s'
     \<and> schedules s' = filter (\<lambda>r. s_id r \<noteq> s_id sched) (schedules s)
     \<and> (\<forall>d \<in> set (dependencies s'). d_from_schedule_id d \<noteq> s_id sched \<and> d_to_schedule_id d \<noteq> s_id sched)
     \<and> find_order_item (s_id sched) s' = None
     \<and> order_view s' = (case find_order_item (s_id sched) s of
          None \<Rightarrow> order_view s
        | Some item \<Rightarrow> (\<lambda>k. filter (\<lambda>i. i \<noteq> oi_id item) (order_view s k)))"
  by (rule delete_spec [OF available_order_up [OF assms(1)] assms(2-4)]) auto

theorem delete_schedule_correct_witness:
  "\<exists>s'. delete_schedule TYPE_TASK 31 demo_db = (Inr (), s') \<and> order_inv s'"
  using delete_schedule_correct [OF demo_available demo_order_inv _ demo_find(5)] by blast

section \<open>Retrying\<close>

text \<open>C31: The retry loop makes at most three attempts, each from the state before the first one;
  the first attempt that does not end in an integrity error decides: its result is returned
  with its changes, or its exception is raised with no change; after three integrity errors
  the last one is raised with no change.\<close>

theorem retries_correct:
  "case find (\<lambda>k. fst (operation k s) \<noteq> Inl IntegrityError) [0, 1, 2] of
     None \<Rightarrow> run_schedule_item_order_operation_with_retries operation s = (Inl IntegrityError, s)
   | Some k \<Rightarrow> (case operation k s of
        (Inr x, s') \<Rightarrow> run_schedule_item_order_operation_with_retries operation s = (Inr (Some x), s')
      | (Inl e, s') \<Rightarrow> run_schedule_item_order_operation_with_retries operation s = (Inl e, s))"
proof -
  have three: "[0..<RETRY_LIMIT] = [0, 1, 2]" by (simp add: RETRY_LIMIT_def upt_rec)
  have attempt: "retry_attempts (k # ks) operation s = (case operation k s of
        (Inr x, s') \<Rightarrow> (Inr (Some x), s')
      | (Inl e, s') \<Rightarrow> if e = IntegrityError
            then (if k = 2 then (Inl IntegrityError, s) else retry_attempts ks operation s) else (Inl e, s))" for k ks
    by (simp add: handleE_apply bindE_apply atomicE_apply retE_apply raiseE_apply RETRY_LIMIT_def
        split: prod.split sum.split)
  show ?thesis
    unfolding run_schedule_item_order_operation_with_retries_def three
    by (auto simp: attempt simp del: retry_attempts.simps split: prod.splits sum.splits if_splits)
qed

end
