(* ===== verification/Schedule_Propagate.thy ===== *)
theory Schedule_Propagate
  imports Schedule_Upsert
begin

text \<open>
  Pushing dates through the project, \<open>taiga/projects/schedule/services.py\<close>: a schedule that
  starts too early for its incoming dependencies is shifted, its parents are widened to
  contain it, and both continue along the outgoing dependencies. The functions of the
  source call each other recursively without a bound. They are written here over the
  function \<open>prop\<close> they call back, and the knot is tied by \<open>depth\<close>, the number of nested
  activations the Python stack still has room for; at 0 the call raises \<open>RecursionError\<close>.
\<close>

section \<open>Shifting one schedule\<close>

definition update_entity_due_date_for_schedule :: "schedule \<Rightarrow> date option \<Rightarrow> (db, unit) eff" where
  "update_entity_due_date_for_schedule sched due =
     (if s_entity_id sched = 0 then retE ()
      else if s_entity_type sched = TYPE_EPIC then raiseE (FieldDoesNotExist ''due_date'')
      else if s_entity_type sched = TYPE_USERSTORY then
        on_db (update_userstory_row (\<lambda>u. us_id u = s_entity_id sched) (\<lambda>u. u\<lparr>us_due_date := due\<rparr>)) ()
      else if s_entity_type sched = TYPE_TASK then
        on_db (update_task_row (\<lambda>t. t_id t = s_entity_id sched) (\<lambda>t. t\<lparr>t_due_date := due\<rparr>)) ()
      else retE ())"

text \<open>The entry of \<open>updates\<close> for the due date, when the shift has one.\<close>

definition shifted_due :: "schedule \<Rightarrow> date \<Rightarrow> date option res" where
  "shifted_due sched required_start =
     (case s_due_date sched of
        None \<Rightarrow> Inr None
      | Some current_due \<Rightarrow>
          (case (case get_effective_start (Some sched) of
                   Some current_start \<Rightarrow> add_days required_start (max (current_due - current_start) 0)
                 | None \<Rightarrow> Inr (max current_due required_start)) of
             Inl e \<Rightarrow> Inl e
           | Inr next_due \<Rightarrow> Inr (if next_due \<noteq> current_due then Some next_due else None)))"

definition shift_row :: "date \<Rightarrow> bool \<Rightarrow> date option \<Rightarrow> schedule \<Rightarrow> schedule" where
  "shift_row required_start on_actual due_update r =
     (let r1 = (if on_actual then r\<lparr>s_actual_start := Some required_start\<rparr>
                else r\<lparr>s_estimated_start := Some required_start\<rparr>) in
      case due_update of None \<Rightarrow> r1 | Some due \<Rightarrow> r1\<lparr>s_due_date := Some due\<rparr>)"

text \<open>
  The result says whether the schedule was shifted and whether its due date changed. The
  code also updates the object; the callers read only its keys afterwards.
\<close>

definition shift_schedule_forward_to_start ::
    "schedule option \<Rightarrow> date option \<Rightarrow> (db, bool \<times> bool) eff" where
  "shift_schedule_forward_to_start target required =
     (case (target, required) of
        (Some sched, Some required_start) \<Rightarrow>
          if (case get_effective_start (Some sched) of Some c \<Rightarrow> c \<ge> required_start | None \<Rightarrow> False)
          then retE (False, False)
          else bindE (liftE (\<lambda>_. shifted_due sched required_start)) (\<lambda>due_update.
            bindE (stored (update_schedule_row (s_id sched)
                     (shift_row required_start (s_actual_start sched \<noteq> None) due_update))) (\<lambda>ok.
              if \<not> ok then retE (False, False)
              else case due_update of
                None \<Rightarrow> retE (True, False)
              | Some due \<Rightarrow> bindE (update_entity_due_date_for_schedule sched (Some due))
                               (\<lambda>_. retE (True, True))))
      | _ \<Rightarrow> retE (False, False))"

section \<open>Widening the parents\<close>

definition build_expand_bounds_updates ::
    "schedule option \<Rightarrow> date option \<Rightarrow> date option \<Rightarrow> date option \<Rightarrow> schedule_values" where
  "build_expand_bounds_updates sched fallback_due candidate_start candidate_due =
     (let start_updates = (case candidate_start of
            None \<Rightarrow> no_values
          | Some c \<Rightarrow>
              (case Option.bind sched s_actual_start of
                 Some a \<Rightarrow> if c < a then no_values\<lparr>v_actual_start := Some (Some c)\<rparr> else no_values
               | None \<Rightarrow>
                   (case Option.bind sched s_estimated_start of
                      Some e \<Rightarrow> if c < e then no_values\<lparr>v_estimated_start := Some (Some c)\<rparr> else no_values
                    | None \<Rightarrow> no_values\<lparr>v_estimated_start := Some (Some c)\<rparr>)));
          current_due = get_due_from_schedule_or_fallback sched fallback_due in
      case candidate_due of
        None \<Rightarrow> start_updates
      | Some d \<Rightarrow>
          if (case current_due of None \<Rightarrow> True | Some cd \<Rightarrow> d > cd)
          then start_updates\<lparr>v_due_date := Some (Some d)\<rparr> else start_updates)"

definition propagate_dependency_chain_forward ::
    "(int \<Rightarrow> (db, unit) eff) \<Rightarrow> string \<Rightarrow> int \<Rightarrow> (db, unit) eff" where
  "propagate_dependency_chain_forward prop entity_type entity_id =
     bindE (liftE (get_schedule entity_type entity_id)) (\<lambda>found.
       case found of None \<Rightarrow> retE () | Some sched \<Rightarrow> prop (s_id sched))"

definition expand_userstory_bounds ::
    "(int \<Rightarrow> (db, unit) eff) \<Rightarrow> userstory \<Rightarrow> date option \<Rightarrow> date option \<Rightarrow> (db, unit) eff" where
  "expand_userstory_bounds prop u candidate_start candidate_due =
     bindE (liftE (get_schedule TYPE_USERSTORY (us_id u))) (\<lambda>sched.
       let updates = build_expand_bounds_updates sched (us_due_date u) candidate_start candidate_due in
       if updates = no_values then retE ()
       else bindE (upsert_schedule TYPE_USERSTORY (us_id u) (us_project_id u) updates) (\<lambda>_.
         bindE (case v_due_date updates of
                  None \<Rightarrow> retE True
                | Some due \<Rightarrow> stored (update_userstory_row (\<lambda>x. us_id x = us_id u)
                                 (\<lambda>x. x\<lparr>us_due_date := due\<rparr>))) (\<lambda>ok.
           if \<not> ok then retE ()
           else propagate_dependency_chain_forward prop TYPE_USERSTORY (us_id u))))"

definition ensure_epic_bounds_for_userstory :: "(int \<Rightarrow> (db, unit) eff) \<Rightarrow> int \<Rightarrow> (db, unit) eff" where
  "ensure_epic_bounds_for_userstory prop userstory_id =
     (if userstory_id = 0 then retE ()
      else bindE (liftE (on_dbQ (tbl ''userstory'' (find_userstory userstory_id)) None)) (\<lambda>found.
        case found of
          None \<Rightarrow> retE ()
        | Some u \<Rightarrow>
            bindE (liftE (get_primary_epic_relation (us_id u))) (\<lambda>relation.
              case relation of
                None \<Rightarrow> retE ()
              | Some (_, ep) \<Rightarrow>
                  bindE (liftE (get_schedule TYPE_USERSTORY (us_id u))) (\<lambda>userstory_schedule.
                  bindE (liftE (get_schedule TYPE_EPIC (e_id ep))) (\<lambda>epic_schedule.
                    let updates = build_expand_bounds_updates epic_schedule None
                          (get_effective_start userstory_schedule)
                          (get_due_from_schedule_or_fallback userstory_schedule (us_due_date u)) in
                    if updates = no_values then retE ()
                    else bindE (upsert_schedule TYPE_EPIC (e_id ep) (e_project_id ep) updates) (\<lambda>_.
                      propagate_dependency_chain_forward prop TYPE_EPIC (e_id ep)))))))"

definition ensure_userstory_and_epic_bounds_from_task ::
    "(int \<Rightarrow> (db, unit) eff) \<Rightarrow> int \<Rightarrow> int option \<Rightarrow> (db, unit) eff" where
  "ensure_userstory_and_epic_bounds_from_task prop task_id userstory_id =
     (if task_id = 0 then retE ()
      else bindE (liftE (on_dbQ (tbl ''task'' (\<lambda>s. find (\<lambda>t. t_id t = task_id
                \<and> (userstory_id = None \<or> t_user_story_id t = userstory_id)) (tasks s))) None)) (\<lambda>found.
        case found of
          None \<Rightarrow> retE ()
        | Some t \<Rightarrow>
            if \<not> truthy (t_user_story_id t) then retE ()
            else bindE (liftE (get_schedule TYPE_TASK (t_id t))) (\<lambda>task_schedule.
              bindE (liftE (on_dbQ (tbl ''userstory'' (find_userstory (the (t_user_story_id t)))) None)) (\<lambda>story.
                case story of
                  None \<Rightarrow> retE ()
                | Some u \<Rightarrow>
                    bindE (expand_userstory_bounds prop u (get_effective_start task_schedule)
                             (get_due_from_schedule_or_fallback task_schedule (t_due_date t))) (\<lambda>_.
                      ensure_epic_bounds_for_userstory prop (us_id u))))))"

definition ensure_ancestor_bounds_for_dependency_target ::
    "(int \<Rightarrow> (db, unit) eff) \<Rightarrow> schedule \<Rightarrow> (db, unit) eff" where
  "ensure_ancestor_bounds_for_dependency_target prop sched =
     (if s_entity_id sched = 0 then retE ()
      else if s_entity_type sched = TYPE_TASK
      then ensure_userstory_and_epic_bounds_from_task prop (s_entity_id sched) None
      else if s_entity_type sched = TYPE_USERSTORY
      then ensure_epic_bounds_for_userstory prop (s_entity_id sched)
      else retE ())"

section \<open>Following the outgoing dependencies\<close>

definition outgoing_target_ids :: "int \<Rightarrow> db \<Rightarrow> int list" where
  "outgoing_target_ids schedule_id s =
     map d_to_schedule_id (filter (\<lambda>d. d_from_schedule_id d = schedule_id) (dependencies s))"

text \<open>
  The inner loop body. The work list is the pair of \<open>queue\<close> and \<open>queued\<close>; the result \<open>None\<close>
  is a \<open>return\<close> from the whole function.
\<close>

definition visit_target ::
    "(int \<Rightarrow> (db, unit) eff) \<Rightarrow> int \<Rightarrow> int list \<times> int set \<Rightarrow> (db, (int list \<times> int set) option) eff" where
  "visit_target prop target_schedule_id work =
     bindE (liftE (on_dbQ (bindQ (tbl ''schedule'' (find_schedule_id target_schedule_id))
                              (\<lambda>x. retQ (Some x))) None)) (\<lambda>fetched.
       case fetched of
         None \<Rightarrow> retE None
       | Some None \<Rightarrow> retE (Some work)
       | Some (Some target) \<Rightarrow>
           bindE (liftE (get_required_start_from_incoming_dependencies (s_id target))) (\<lambda>required_start.
             case required_start of
               None \<Rightarrow> retE (Some work)
             | Some r \<Rightarrow>
                 bindE (shift_schedule_forward_to_start (Some target) (Some r)) (\<lambda>(shifted, due_changed).
                   if \<not> shifted then retE (Some work)
                   else if due_changed then
                     bindE (ensure_ancestor_bounds_for_dependency_target prop target) (\<lambda>_.
                       retE (Some (if s_id target \<notin> snd work
                                   then (fst work @ [s_id target], insert (s_id target) (snd work))
                                   else work)))
                   else retE (Some work))))"

fun visit_targets ::
    "(int \<Rightarrow> (db, unit) eff) \<Rightarrow> int list \<Rightarrow> int list \<times> int set \<Rightarrow> (db, (int list \<times> int set) option) eff" where
  "visit_targets prop [] work = retE (Some work)"
| "visit_targets prop (t # ts) work =
     bindE (visit_target prop t work) (\<lambda>r.
       case r of None \<Rightarrow> retE None | Some work' \<Rightarrow> visit_targets prop ts work')"

definition MAX_ITERATIONS :: int where "MAX_ITERATIONS = 10000"

function propagate_loop ::
    "(int \<Rightarrow> (db, unit) eff) \<Rightarrow> int \<Rightarrow> int list \<Rightarrow> int set \<Rightarrow> (db, unit) eff" where
  "propagate_loop prop iterations queue queued =
     (if queue = [] \<or> \<not> iterations < MAX_ITERATIONS then retE ()
      else
        bindE (liftE (on_dbQ (bindQ (tbl ''dependency'' (outgoing_target_ids (hd queue)))
                                 (\<lambda>ts. retQ (Some ts))) None)) (\<lambda>fetched.
          case fetched of
            None \<Rightarrow> retE ()
          | Some targets \<Rightarrow>
              bindE (visit_targets prop targets (tl queue, queued - {hd queue})) (\<lambda>r.
                case r of
                  None \<Rightarrow> retE ()
                | Some (queue', queued') \<Rightarrow> propagate_loop prop (iterations + 1) queue' queued')))"
  by auto

termination
  by (relation "measure (\<lambda>(prop, iterations, queue, queued). nat (MAX_ITERATIONS - iterations))") auto

declare propagate_loop.simps [simp del]

primrec propagate_dependency_chain_forward_from_schedule :: "nat \<Rightarrow> int \<Rightarrow> (db, unit) eff" where
  "propagate_dependency_chain_forward_from_schedule 0 schedule_id = raiseE RecursionError"
| "propagate_dependency_chain_forward_from_schedule (Suc depth) schedule_id =
     (if schedule_id = 0 then retE ()
      else propagate_loop (propagate_dependency_chain_forward_from_schedule depth)
             0 [schedule_id] {schedule_id})"

end
