(* ===== verification/Schedule_Propagate_Facts.thy ===== *)
theory Schedule_Propagate_Facts
  imports Schedule_Propagate Schedule_Upsert_Facts
begin

text \<open>
  What propagation does to the stored dates. The relation \<open>postpones\<close> holds between the
  states before and after every step, whatever the step returns or raises: no schedule row
  is lost, no due date moves earlier, and the tables the propagation has no business with
  stay as they are.
\<close>

section \<open>The relation\<close>

definition due_le :: "date option \<Rightarrow> date option \<Rightarrow> bool" where
  "due_le a b \<longleftrightarrow> (\<forall>x. a = Some x \<longrightarrow> (\<exists>y. b = Some y \<and> x \<le> y))"

lemma due_le_refl [simp]: "due_le a a"
  by (simp add: due_le_def)

lemma due_le_trans: "due_le a b \<Longrightarrow> due_le b c \<Longrightarrow> due_le a c"
  unfolding due_le_def by (metis order_trans)

definition row_later :: "schedule \<Rightarrow> schedule \<Rightarrow> bool" where
  "row_later r r' \<longleftrightarrow> s_id r' = s_id r \<and> s_entity_type r' = s_entity_type r
     \<and> s_entity_id r' = s_entity_id r \<and> s_color r' = s_color r
     \<and> s_created_date r' = s_created_date r \<and> due_le (s_due_date r) (s_due_date r')"

definition rows_later :: "schedule list \<Rightarrow> schedule list \<Rightarrow> bool" where
  "rows_later rs rs' \<longleftrightarrow> (\<forall>r \<in> set rs. \<exists>r' \<in> set rs'. row_later r r')"

lemma row_later_refl [simp]: "row_later r r"
  by (simp add: row_later_def)

lemma row_later_trans: "row_later a b \<Longrightarrow> row_later b c \<Longrightarrow> row_later a c"
  unfolding row_later_def by (auto intro: due_le_trans)

lemma rows_later_refl [simp]: "rows_later rs rs"
  unfolding rows_later_def using row_later_refl by blast

lemma rows_later_trans: "rows_later a b \<Longrightarrow> rows_later b c \<Longrightarrow> rows_later a c"
  unfolding rows_later_def by (meson row_later_trans)

lemma rows_later_append [simp]: "rows_later rs (rs @ xs)"
  unfolding rows_later_def by (auto intro: row_later_refl)

lemma rows_later_upd: "(\<And>r. r \<in> set rs \<Longrightarrow> P r \<Longrightarrow> row_later r (f r)) \<Longrightarrow> rows_later rs (upd_where P f rs)"
  unfolding rows_later_def
proof
  fix r assume "\<And>r. r \<in> set rs \<Longrightarrow> P r \<Longrightarrow> row_later r (f r)" and "r \<in> set rs"
  then show "\<exists>r' \<in> set (upd_where P f rs). row_later r r'"
    by (intro bexI [of _ "if P r then f r else r"]) (auto simp: upd_where_def)
qed

definition task_keys :: "db \<Rightarrow> (int \<times> int \<times> int option) list" where
  "task_keys s = map (\<lambda>t. (t_id t, t_project_id t, t_user_story_id t)) (tasks s)"

definition story_keys :: "db \<Rightarrow> (int \<times> int) list" where
  "story_keys s = map (\<lambda>u. (us_id u, us_project_id u)) (userstories s)"

definition postpones :: "db \<Rightarrow> db \<Rightarrow> bool" where
  "postpones s t \<longleftrightarrow> dependencies t = dependencies s \<and> epics t = epics s \<and> relateds t = relateds s
     \<and> down t = down s \<and> outbox t = outbox s
     \<and> task_keys t = task_keys s \<and> story_keys t = story_keys s
     \<and> (wf_db s \<longrightarrow> wf_db t \<and> rows_later (schedules s) (schedules t))"

interpretation postpones: effect_preorder postpones
  by unfold_locales (auto simp: postpones_def intro: rows_later_trans)

text \<open>The schedule of an item after such a step.\<close>

lemma find_schedule_mem:
  assumes "schedules_ok s" and "r \<in> set (schedules s)"
  shows "find_schedule (s_entity_type r) (s_entity_id r) s = Some r"
proof -
  have "distinct (map (\<lambda>r. (s_entity_type r, s_entity_id r)) (schedules s))"
    using assms(1) by (simp add: schedules_ok_def)
  from find_unique [OF this assms(2)] show ?thesis by (simp add: find_schedule_def)
qed

lemma find_later:
  assumes "wf_db s" and "postpones s t" and "find_schedule et eid s = Some r"
  shows "\<exists>r'. find_schedule et eid t = Some r' \<and> row_later r r'"
proof -
  have r: "r \<in> set (schedules s)" "s_entity_type r = et" "s_entity_id r = eid"
    using find_schedule_type [OF assms(3)] by auto
  then obtain r' where r': "r' \<in> set (schedules t)" "row_later r r'"
    using assms(1,2) by (auto simp: postpones_def rows_later_def)
  have "schedules_ok t" using assms(1,2) by (simp add: postpones_def wf_db_def table_inv_def)
  from find_schedule_mem [OF this r'(1)] r' r show ?thesis by (auto simp: row_later_def)
qed

section \<open>The single steps\<close>

lemma sched_only_keys: "sched_only s t \<Longrightarrow> dependencies t = dependencies s \<and> epics t = epics s
    \<and> relateds t = relateds s \<and> down t = down s \<and> outbox t = outbox s
    \<and> task_keys t = task_keys s \<and> story_keys t = story_keys s"
  by (simp add: sched_only_def task_keys_def story_keys_def)

lemma postpones_sched:
  "sched_only s t \<Longrightarrow> (wf_db s \<Longrightarrow> wf_db t \<and> rows_later (schedules s) (schedules t)) \<Longrightarrow> postpones s t"
  by (simp add: postpones_def sched_only_keys)

lemma wf_db_orders: "orders_only s t \<Longrightarrow> wf_db s \<Longrightarrow> table_inv t \<Longrightarrow> wf_db t"
  by (simp add: wf_db_def orders_only_iff)

lemma sync_postpones: "obeys postpones (sync_schedule_item_order et eid)"
proof (rule obeysI)
  fix s
  have only: "orders_only s (snd (sync_schedule_item_order et eid s))" using sync_only by (rule obeysD)
  have "keeps table_inv s (snd (sync_schedule_item_order et eid s))" using sync_keeps by (rule obeysD)
  with only show "postpones s (snd (sync_schedule_item_order et eid s))"
    by (intro postpones_sched) (auto simp: wf_db_def keeps_def orders_only_iff intro: orders_sched_only)
qed

lemma wf_upd:
  "wf_db s \<Longrightarrow> (\<And>r. s_id (f r) = s_id r \<and> s_entity_type (f r) = s_entity_type r \<and> s_entity_id (f r) = s_entity_id r) \<Longrightarrow>
    wf_db (s\<lparr>schedules := upd_where P f (schedules s)\<rparr>)"
  by (simp add: wf_db_def table_inv_upd)

lemma update_schedule_postpones:
  assumes "wf_db s \<Longrightarrow> \<forall>r \<in> set (schedules s). s_id r = i \<longrightarrow> row_later r (f r)"
    and "\<And>r. s_id (f r) = s_id r \<and> s_entity_type (f r) = s_entity_type r \<and> s_entity_id (f r) = s_entity_id r"
  shows "postpones s (snd (update_schedule_row i f s))"
  using assms
  by (intro postpones_sched) (auto simp: update_schedule_row_def sched_only_def wf_upd rows_later_upd)

lemma create_postpones:
  "et \<in> {TYPE_EPIC, TYPE_USERSTORY, TYPE_TASK} \<Longrightarrow> postpones s (snd (get_or_create_schedule et eid p s))"
proof (rule postpones_sched)
  assume et: "et \<in> {TYPE_EPIC, TYPE_USERSTORY, TYPE_TASK}"
  show "sched_only s (snd (get_or_create_schedule et eid p s))" by (rule obeysD [OF get_or_create_only])
  show "wf_db (snd (get_or_create_schedule et eid p s))
      \<and> rows_later (schedules s) (schedules (snd (get_or_create_schedule et eid p s)))" if "wf_db s"
    using that et table_inv_new [of s et eid p]
    by (simp add: get_or_create_schedule_def wf_db_def Let_def new_schedule_def split: option.split)
qed

text \<open>The values of an upsert that may only postpone the due date.\<close>

definition postponing :: "schedule_values \<Rightarrow> schedule option \<Rightarrow> bool" where
  "postponing v sched \<longleftrightarrow> v_color v = None \<and> v_created_date v = None
     \<and> due_le (Option.bind sched s_due_date) (given (v_due_date v) (Option.bind sched s_due_date))"

lemma created_row:
  "get_or_create_schedule et eid p s = (Inr obj, s1) \<Longrightarrow>
     (find_schedule et eid s = Some obj \<and> s1 = s) \<or>
     (find_schedule et eid s = None \<and> obj = new_schedule et eid p (schedule_seq s) \<and> obj \<in> set (schedules s1))"
  by (auto simp: get_or_create_schedule_def new_schedule_def Let_def split: if_splits option.splits)

lemma upsert_postpones:
  assumes "postponing v (find_schedule et eid s)"
  shows "postpones s (snd (upsert_schedule et eid p v s))"
proof (cases "et \<in> {TYPE_EPIC, TYPE_USERSTORY, TYPE_TASK}")
  case False
  then show ?thesis
    by (simp add: upsert_schedule_def assert_entity_type_def bindE_lift postpones.refl)
next
  case et: True
  have create: "postpones s (snd ((on_db (bindE (get_or_create_schedule et eid p)
                     (\<lambda>obj. retE (Some obj))) None) s))"
    by (intro postpones.run_on_db postpones.run_bind create_postpones [OF et]) (simp add: postpones.run_ret)
  have update: "postpones s1 (snd (update_schedule_row (s_id obj) (set_values p v) s1))"
    if created: "get_or_create_schedule et eid p s = (Inr obj, s1)" for obj s1
  proof (rule update_schedule_postpones)
    have later: "row_later obj (set_values p v obj)"
      using created_row [OF created] assms
      by (auto simp: row_later_def set_values_def postponing_def new_schedule_def due_le_def)
    have mem: "obj \<in> set (schedules s1)"
      using created_row [OF created] find_schedule_type by blast
    show "\<forall>r \<in> set (schedules s1). s_id r = s_id obj \<longrightarrow> row_later r (set_values p v r)" if "wf_db s1"
      using that mem later by (auto simp: wf_db_def table_inv_def schedules_ok_def dest: distinct_map_inj)
  qed simp
  show ?thesis
    unfolding upsert_schedule_def Let_def
  proof (intro postpones.run_lift, rule postpones.run_bind, rule create)
    fix found s1 assume "on_db (bindE (get_or_create_schedule et eid p) (\<lambda>obj. retE (Some obj))) None s = (Inr found, s1)"
    then have "found = None \<or> (\<exists>obj. found = Some obj \<and> get_or_create_schedule et eid p s = (Inr obj, s1))"
      by (auto simp: on_db_apply bindE_apply retE_apply split: prod.splits sum.splits if_splits)
    then show "postpones s1 (snd ((case found of None \<Rightarrow> retE None | Some obj \<Rightarrow>
           bindE (if s_project_id obj \<noteq> p \<or> v \<noteq> no_values
                  then stored (update_schedule_row (s_id obj) (set_values p v)) else retE True)
             (\<lambda>ok. if \<not> ok then retE (Some obj) else bindE (sync_schedule_item_order et eid)
               (\<lambda>_. retE (Some (if s_project_id obj \<noteq> p \<or> v \<noteq> no_values then set_values p v obj else obj))))) s1))"
    proof (elim disjE exE conjE)
      fix obj assume obj: "found = Some obj" "get_or_create_schedule et eid p s = (Inr obj, s1)"
      have "postpones s1 (snd ((if s_project_id obj \<noteq> p \<or> v \<noteq> no_values
                  then stored (update_schedule_row (s_id obj) (set_values p v)) else retE True) s1))"
        by (auto simp: stored_def intro!: postpones.run_on_db postpones.run_bind update [OF obj(2)] postpones.run_ret)
      then show ?thesis
        unfolding obj option.case
        by (rule postpones.run_bind)
          (auto intro!: postpones.run_ret postpones.run_bind obeysD [OF sync_postpones])
    qed (simp add: postpones.run_ret)
  qed
qed

section \<open>Shifting\<close>

lemma entity_only:
  "postpones s (snd (update_entity_due_date_for_schedule sched due s))"
  by (auto simp: update_entity_due_date_for_schedule_def update_userstory_row_def update_task_row_def
      on_db_apply retE_apply raiseE_apply postpones_def task_keys_def story_keys_def map_upd_where comp_def
      wf_db_def table_inv_def schedules_ok_def order_inv_def order_table_ok_def gap_free_def group_items_def)

lemma userstory_row_only:
  "postpones s (snd (update_userstory_row P (\<lambda>u. u\<lparr>us_due_date := due\<rparr>) s))"
  by (auto simp: update_userstory_row_def postpones_def task_keys_def story_keys_def map_upd_where
      wf_db_def table_inv_def schedules_ok_def order_inv_def order_table_ok_def gap_free_def group_items_def)

text \<open>The shifted due date: at least the old one, and the duration is kept.\<close>

lemma shifted_due_later:
  assumes "shifted_due sched req = Inr (Some due)"
    and "\<not> (case get_effective_start (Some sched) of Some c \<Rightarrow> c \<ge> req | None \<Rightarrow> False)"
  shows "due_le (s_due_date sched) (Some due)"
  using assms
  by (auto simp: shifted_due_def due_le_def add_days_def split: option.splits sum.splits if_splits)

lemma shift_row_keys [simp]:
  "s_id (shift_row req a d r) = s_id r" "s_entity_type (shift_row req a d r) = s_entity_type r"
  "s_entity_id (shift_row req a d r) = s_entity_id r" "s_color (shift_row req a d r) = s_color r"
  "s_created_date (shift_row req a d r) = s_created_date r" "s_project_id (shift_row req a d r) = s_project_id r"
  "s_due_date (shift_row req a d r) = (case d of None \<Rightarrow> s_due_date r | Some x \<Rightarrow> Some x)"
  by (simp_all add: shift_row_def Let_def split: option.split)

lemma shift_postpones:
  assumes mem: "sched \<in> set (schedules s)"
  shows "postpones s (snd (shift_schedule_forward_to_start (Some sched) required s))"
proof (cases required)
  case None
  then show ?thesis by (simp add: shift_schedule_forward_to_start_def postpones.run_ret)
next
  case (Some req)
  show ?thesis
  proof (cases "case get_effective_start (Some sched) of Some c \<Rightarrow> c \<ge> req | None \<Rightarrow> False")
    case True
    then show ?thesis using Some by (simp add: shift_schedule_forward_to_start_def postpones.run_ret)
  next
    case False
    have "postpones s (snd (update_schedule_row (s_id sched)
             (shift_row req (s_actual_start sched \<noteq> None) due_update) s))"
      if due: "shifted_due sched req = Inr due_update" for due_update
    proof (rule update_schedule_postpones)
      have later: "row_later sched (shift_row req (s_actual_start sched \<noteq> None) due_update sched)"
        using shifted_due_later [of sched req] due False
        by (auto simp: row_later_def split: option.split)
      show "\<forall>r \<in> set (schedules s). s_id r = s_id sched \<longrightarrow>
          row_later r (shift_row req (s_actual_start sched \<noteq> None) due_update r)" if "wf_db s"
        using that mem later by (auto simp: wf_db_def table_inv_def schedules_ok_def dest: distinct_map_inj)
    qed simp
    then have "postpones s (snd (stored (update_schedule_row (s_id sched)
             (shift_row req (s_actual_start sched \<noteq> None) due_update)) s))"
      if "shifted_due sched req = Inr due_update" for due_update
      unfolding stored_def using that
      by (intro postpones.run_on_db postpones.run_bind postpones.run_ret)
    then show ?thesis
      using False Some
      by (auto simp: shift_schedule_forward_to_start_def intro!: postpones.run_lift postpones.run_bind
          postpones.run_ret entity_only split: option.split)
  qed
qed

section \<open>Widening\<close>

lemma expand_postponing: "postponing (build_expand_bounds_updates sched fb cs cd) sched"
  by (auto simp: postponing_def build_expand_bounds_updates_def no_values_def Let_def due_le_def
      get_due_from_schedule_or_fallback_def split: option.splits if_splits)

lemma get_schedule_Inr:
  "get_schedule et eid s = Inr x \<Longrightarrow> ''schedule'' \<notin> set (down s) \<Longrightarrow> x = find_schedule et eid s"
  by (auto simp: get_schedule_def assert_entity_type_def effs split: if_splits)

text \<open>When the schedule table cannot be read an upsert changes nothing.\<close>

lemma upsert_down: "''schedule'' \<in> set (down s) \<Longrightarrow> snd (upsert_schedule et eid p v s) = s"
  by (auto simp: upsert_schedule_def bindE_lift assert_entity_type_def get_or_create_schedule_def
      bindE_apply on_db_apply retE_apply)

lemma expand_upsert_postpones:
  assumes "get_schedule et eid s = Inr sched"
  shows "postpones s (snd (upsert_schedule et eid p (build_expand_bounds_updates sched fb cs cd) s))"
proof (cases "''schedule'' \<in> set (down s)")
  case True
  then show ?thesis by (simp add: upsert_down postpones.refl)
next
  case False
  then show ?thesis
    using get_schedule_Inr [OF assms] by (intro upsert_postpones) (simp add: expand_postponing)
qed

lemma forward_postpones:
  "(\<And>i. obeys postpones (prop i)) \<Longrightarrow> obeys postpones (propagate_dependency_chain_forward prop et eid)"
  unfolding propagate_dependency_chain_forward_def
  by (auto intro!: postpones.obeys_rules split: option.split)

lemma expand_userstory_postpones:
  assumes "\<And>i. obeys postpones (prop i)"
  shows "obeys postpones (expand_userstory_bounds prop u cs cd)"
proof (rule obeysI)
  fix s
  show "postpones s (snd (expand_userstory_bounds prop u cs cd s))"
    unfolding expand_userstory_bounds_def Let_def stored_def
    by (rule postpones.run_lift)
      (auto intro!: postpones.run_ret postpones.run_bind postpones.run_on_db expand_upsert_postpones
        userstory_row_only obeysD [OF forward_postpones] assms split: option.split)
qed

lemma ensure_epic_postpones:
  assumes "\<And>i. obeys postpones (prop i)"
  shows "obeys postpones (ensure_epic_bounds_for_userstory prop us)"
proof (rule obeysI)
  fix s
  show "postpones s (snd (ensure_epic_bounds_for_userstory prop us s))"
    unfolding ensure_epic_bounds_for_userstory_def Let_def
    by (auto intro!: postpones.run_lift postpones.run_ret postpones.run_bind expand_upsert_postpones
        obeysD [OF forward_postpones] assms split: option.split)
qed

lemma ensure_userstory_postpones:
  assumes "\<And>i. obeys postpones (prop i)"
  shows "obeys postpones (ensure_userstory_and_epic_bounds_from_task prop t us)"
  unfolding ensure_userstory_and_epic_bounds_from_task_def Let_def
  by (auto intro!: postpones.obeys_rules expand_userstory_postpones ensure_epic_postpones assms
      split: option.split)

lemma ensure_ancestor_postpones:
  assumes "\<And>i. obeys postpones (prop i)"
  shows "obeys postpones (ensure_ancestor_bounds_for_dependency_target prop sched)"
  unfolding ensure_ancestor_bounds_for_dependency_target_def
  by (auto intro!: postpones.obeys_ret ensure_userstory_postpones ensure_epic_postpones assms)

section \<open>The loop and the recursion\<close>

lemma visit_target_postpones:
  assumes "\<And>i. obeys postpones (prop i)"
  shows "obeys postpones (visit_target prop i work)"
proof (rule obeysI)
  fix s
  have mem: "target \<in> set (schedules s)"
    if "on_dbQ (bindQ (tbl ''schedule'' (find_schedule_id i)) (\<lambda>x. retQ (Some x))) None s = Inr (Some (Some target))"
    for target
    using that by (auto simp: effs find_schedule_id_def dest: find_Some_mem split: if_splits)
  show "postpones s (snd (visit_target prop i work s))"
    unfolding visit_target_def
    by (auto intro!: postpones.run_lift postpones.run_ret postpones.run_bind mem shift_postpones
        obeysD [OF ensure_ancestor_postpones] assms split: option.split)
qed

lemma visit_targets_postpones:
  assumes "\<And>i. obeys postpones (prop i)"
  shows "obeys postpones (visit_targets prop ts work)"
  by (induction ts arbitrary: work)
    (auto intro!: postpones.obeys_ret postpones.obeys_bind visit_target_postpones assms split: option.split)

lemma loop_postpones:
  assumes "\<And>i. obeys postpones (prop i)"
  shows "obeys postpones (propagate_loop prop n queue queued)"
  using assms
proof (induction "prop" n queue queued rule: propagate_loop.induct)
  case (1 call n queue queued)
  show ?case
  proof (cases "queue = [] \<or> \<not> n < MAX_ITERATIONS")
    case True
    then show ?thesis by (subst propagate_loop.simps) (auto simp: postpones.obeys_ret)
  next
    case False
    then have "obeys postpones (propagate_loop call (n + 1) queue' queued')" for queue' queued'
      using "1.IH" "1.prems" by blast
    then show ?thesis
      using False 1(2) by (subst propagate_loop.simps)
        (auto intro!: postpones.obeys_rules visit_targets_postpones split: option.split prod.split)
  qed
qed

lemma propagate_postpones: "obeys postpones (propagate_dependency_chain_forward_from_schedule depth i)"
  by (induction depth arbitrary: i) (auto intro: postpones.obeys_ret postpones.obeys_raise loop_postpones)

section \<open>What a widening stores\<close>

definition later_due :: "date option \<Rightarrow> date option \<Rightarrow> date option" where
  "later_due current candidate = (case candidate of
      None \<Rightarrow> current
    | Some d \<Rightarrow> (case current of None \<Rightarrow> Some d | Some c \<Rightarrow> Some (max c d)))"

lemma expand_exact:
  assumes "v = build_expand_bounds_updates (Some r) fb cs cd"
  shows "get_effective_start (Some (set_values p v r)) = expand_parent_start (get_effective_start (Some r)) cs"
    and "get_due_from_schedule_or_fallback (Some (set_values p v r)) fb
       = later_due (get_due_from_schedule_or_fallback (Some r) fb) cd"
  using assms
  by (auto simp: build_expand_bounds_updates_def set_values_def no_values_def get_effective_start_def
      expand_parent_start_def get_due_from_schedule_or_fallback_def later_due_def Let_def max_def
      split: option.splits)

lemma expand_none:
  assumes "build_expand_bounds_updates (Some r) fb cs cd = no_values"
  shows "expand_parent_start (get_effective_start (Some r)) cs = get_effective_start (Some r)"
    and "later_due (get_due_from_schedule_or_fallback (Some r) fb) cd
       = get_due_from_schedule_or_fallback (Some r) fb"
  using expand_exact [OF HOL.refl, of "s_project_id r" r fb cs cd] assms by (simp_all add: set_values_none)

text \<open>Propagation from a schedule without outgoing dependencies does nothing.\<close>

lemma propagate_no_targets:
  assumes "available s" and "outgoing_target_ids i s = []"
  shows "propagate_dependency_chain_forward_from_schedule (Suc depth) i s = (Inr (), s)"
proof -
  have "propagate_loop call 0 [i] {i} s = (Inr (), s)" for call
    using assms by (subst propagate_loop.simps)
      (simp add: MAX_ITERATIONS_def bindE_lift effs, subst propagate_loop.simps, simp add: retE_apply)
  then show ?thesis by (simp add: retE_apply)
qed

end
