(* ===== verification/Schedule_Date_Props.thy ===== *)
theory Schedule_Date_Props
  imports Schedule_Propagate_Facts Schedule_Demo_Facts
begin

text \<open>
  The properties of the date rules, of \<open>upsert_schedule\<close> and of the propagation, each with a
  witness on the demonstration project.
\<close>

section \<open>Dependencies\<close>

text \<open>C27: The start a schedule is required to have is the day after the latest due date among
  the sources of its incoming dependencies, and there is no requirement exactly when none of
  them has a due date.\<close>

theorem required_start_correct:
  assumes "available s" and "i \<noteq> 0" and "\<forall>d \<in> source_dues i s. d < DATE_MAX"
  shows "\<exists>req. get_required_start_from_incoming_dependencies i s = Inr req
     \<and> (req = None \<longleftrightarrow> (\<forall>r \<in> set (incoming_sources i s). s_due_date r = None))
     \<and> (\<forall>q. req = Some q \<longrightarrow>
           (\<exists>r \<in> set (incoming_sources i s). s_due_date r = Some (q - 1))
         \<and> (\<forall>r \<in> set (incoming_sources i s). \<forall>d. s_due_date r = Some d \<longrightarrow> d < q))"
proof -
  have fin: "finite (source_dues i s)" by (simp add: source_dues_def)
  have mem: "d \<in> source_dues i s \<longleftrightarrow> (\<exists>r \<in> set (incoming_sources i s). s_due_date r = Some d)" for d
    by (simp add: source_dues_def present_map)
  have none: "source_dues i s = {} \<longleftrightarrow> (\<forall>r \<in> set (incoming_sources i s). s_due_date r = None)"
    unfolding set_eq_iff mem empty_iff by (metis not_None_eq)
  show ?thesis
  proof (cases "source_dues i s = {}")
    case True
    then show ?thesis using none by (simp add: required_start_eq [OF assms] max_of_def)
  next
    case False
    then have "Max (source_dues i s) \<in> source_dues i s" and "\<forall>d \<in> source_dues i s. d \<le> Max (source_dues i s)"
      using fin by auto
    then show ?thesis using False none mem
      by (auto simp: required_start_eq [OF assms] max_of_def)
  qed
qed

theorem required_start_correct_witness:
  "get_required_start_from_incoming_dependencies 3 demo_db = Inr (Some 16)"
proof -
  have "\<forall>d \<in> source_dues 3 demo_db. d < DATE_MAX"
    by (simp add: source_dues_def demo_sources present_map mk_schedule_def DATE_MAX_def)
  from required_start_correct [OF demo_available _ this] show ?thesis
    by (auto simp: demo_sources mk_schedule_def)
qed

text \<open>C28: The two places that check a start against the incoming dependencies, the one for
  an item being saved and the one for a candidate start of an ancestor, agree: both accept a
  start exactly when it is after the due date of every source that has one, and otherwise
  give the same message.\<close>

theorem dependency_checks_agree:
  assumes "available s" and "et \<in> {TYPE_EPIC, TYPE_USERSTORY, TYPE_TASK}"
    and "ob_id obj = Some i" and "i \<noteq> 0" and "find_schedule et i s = Some r" and "s_id r \<noteq> 0"
    and "get_proposed_bounds_for_entity obj et s = Inr (Some c, due)"
    and "\<forall>d \<in> source_dues (s_id r) s. d < DATE_MAX"
  shows "get_dependency_start_violation_error (Some obj) et s
       = get_dependency_violation_for_candidate_start (Some r) (Some c) s
     \<and> (get_dependency_start_violation_error (Some obj) et s = Inr None \<longleftrightarrow>
          (\<forall>x \<in> set (incoming_sources (s_id r) s). \<forall>d. s_due_date x = Some d \<longrightarrow> d < c))"
proof -
  have "source_dues (s_id r) s = {}" if "incoming_sources (s_id r) s = []"
    using that by (simp add: source_dues_def)
  moreover have "(\<forall>d \<in> source_dues (s_id r) s. d < c) \<longleftrightarrow>
      (\<forall>x \<in> set (incoming_sources (s_id r) s). \<forall>d. s_due_date x = Some d \<longrightarrow> d < c)"
    by (auto simp: source_dues_def present_map)
  ultimately show ?thesis
    using candidate_violation_iff [OF assms(1,6,8)] dependency_start_violation_iff [OF assms(1-5,7)]
    by auto
qed

theorem dependency_checks_agree_witness:
  "get_dependency_start_violation_error (Some (demo_obj 21 14 18)) TYPE_USERSTORY demo_db
     = get_dependency_violation_for_candidate_start
         (Some (mk_schedule 3 TYPE_USERSTORY 21 (Some 16) (Some 20))) (Some 14) demo_db"
proof -
  let ?r = "mk_schedule 3 TYPE_USERSTORY 21 (Some 16) (Some 20)"
  have dues: "\<forall>d \<in> source_dues (s_id ?r) demo_db. d < DATE_MAX"
    by (simp add: source_dues_def demo_sources present_map DATE_MAX_def)
  show ?thesis
    by (rule dependency_checks_agree [OF demo_available _ demo_obj_id _ demo_find(3) _ demo_bounds dues,
          THEN conjunct1]) simp_all
qed

section \<open>Bounds of parents and children\<close>

text \<open>C32: The bounds check of a user story accepts exactly the dates that contain the
  effective start and due date of every one of its tasks (a missing date on either side is
  no violation), and it always answers.\<close>

theorem userstory_bounds_check_correct:
  assumes "available s" and "ob_id obj = Some i" and "i \<noteq> 0"
    and "get_proposed_bounds_for_entity obj TYPE_USERSTORY s = Inr bounds"
  shows "\<exists>answer. get_userstory_bounds_violation_error (Some obj) s = Inr answer
     \<and> (answer = None \<longleftrightarrow> (\<forall>t \<in> set (story_tasks i s).
          contains bounds (get_effective_start (find_schedule TYPE_TASK (t_id t) s),
                           get_due_from_schedule_or_fallback (find_schedule TYPE_TASK (t_id t) s) (t_due_date t))))"
proof -
  obtain b where b: "get_task_children_bounds i s = Inr b"
    and iff: "bounds_violation MSG_STORY_START bounds b = None \<longleftrightarrow> (\<forall>c \<in> set (task_children i s). contains bounds c)"
    using task_bounds_violation_iff [OF assms(1,3), of MSG_STORY_START bounds] by (elim exE conjE)
  have "get_userstory_bounds_violation_error (Some obj) s = Inr (bounds_violation MSG_STORY_START bounds b)"
    using assms b by (simp add: get_userstory_bounds_violation_error_def truthy_def bindQ_apply)
  then show ?thesis using iff by (simp add: task_children_def child_bounds_def)
qed

theorem userstory_bounds_check_correct_witness:
  "\<exists>answer. get_userstory_bounds_violation_error (Some (demo_obj 20 9 14)) demo_db = Inr answer
     \<and> answer \<noteq> None"
proof -
  have t: "\<lparr>t_id = 31, t_project_id = 1, t_user_story_id = Some 20, t_due_date = Some 15\<rparr> \<in> set (story_tasks 20 demo_db)"
    by (simp add: story_tasks_def demo_db_def)
  have "\<not> contains (Some 9, Some 14) (Some 13, Some 15)" by (simp add: contains_def)
  then have no: "\<not> contains (Some 9, Some 14)
      (get_effective_start (find_schedule TYPE_TASK 31 demo_db),
       get_due_from_schedule_or_fallback (find_schedule TYPE_TASK 31 demo_db) (Some 15))"
    by (simp add: demo_find(5) get_effective_start_def get_due_from_schedule_or_fallback_def)
  have b: "get_proposed_bounds_for_entity (demo_obj 20 9 14) TYPE_USERSTORY demo_db = Inr (Some 9, Some 14)"
    by (rule demo_bounds) simp_all
  have "(20::int) \<noteq> 0" by simp
  note check = userstory_bounds_check_correct [OF demo_available demo_obj_id this b]
  show ?thesis
    by (rule ex_forward [OF check], erule conj_forward, assumption, use t no in \<open>auto dest: bspec [OF _ t]\<close>)
qed

text \<open>The bounds check of an epic likewise accepts exactly the dates that contain every
  user story related to the epic.\<close>

theorem epic_bounds_check_correct:
  assumes "available s" and "ob_id obj = Some i" and "i \<noteq> 0"
    and "get_proposed_bounds_for_entity obj TYPE_EPIC s = Inr bounds"
  shows "\<exists>answer. get_epic_bounds_violation_error (Some obj) s = Inr answer
     \<and> (answer = None \<longleftrightarrow> (\<forall>u \<in> set (userstories s).
          (\<exists>r \<in> set (relateds s). ru_epic_id r = i \<and> ru_user_story_id r = us_id u) \<longrightarrow>
          contains bounds (get_effective_start (find_schedule TYPE_USERSTORY (us_id u) s),
                           get_due_from_schedule_or_fallback (find_schedule TYPE_USERSTORY (us_id u) s) (us_due_date u))))"
proof -
  obtain b where b: "get_userstory_children_bounds i s = Inr b"
    and iff: "bounds_violation MSG_EPIC_START bounds b = None \<longleftrightarrow> (\<forall>c \<in> set (story_children i s). contains bounds c)"
    using story_bounds_violation_iff [OF assms(1,3), of MSG_EPIC_START bounds] by (elim exE conjE)
  have "get_epic_bounds_violation_error (Some obj) s = Inr (bounds_violation MSG_EPIC_START bounds b)"
    using assms b by (simp add: get_epic_bounds_violation_error_def truthy_def bindQ_apply)
  moreover have "us_id u \<in> set (epic_story_ids i s) \<longleftrightarrow>
      (\<exists>r \<in> set (relateds s). ru_epic_id r = i \<and> ru_user_story_id r = us_id u)" for u
    by (auto simp: epic_story_ids_def image_iff)
  ultimately show ?thesis using iff by (auto simp: story_children_def epic_stories_def child_bounds_def)
qed

theorem epic_bounds_check_correct_witness:
  "\<exists>answer. get_epic_bounds_violation_error (Some (demo_obj 10 11 20)) demo_db = Inr answer
     \<and> answer \<noteq> None"
proof -
  have u: "\<lparr>us_id = 20, us_project_id = 1, us_due_date = Some 15\<rparr> \<in> set (userstories demo_db)"
    and r: "\<lparr>ru_id = 1, ru_epic_id = 10, ru_user_story_id = 20, ru_order = 1\<rparr> \<in> set (relateds demo_db)"
    by (simp_all add: demo_db_def)
  have "\<not> contains (Some 11, Some 20) (Some 10, Some 15)" by (simp add: contains_def)
  then have no: "\<not> contains (Some 11, Some 20)
      (get_effective_start (find_schedule TYPE_USERSTORY 20 demo_db),
       get_due_from_schedule_or_fallback (find_schedule TYPE_USERSTORY 20 demo_db) (Some 15))"
    by (simp add: demo_find(2) get_effective_start_def get_due_from_schedule_or_fallback_def)
  have b: "get_proposed_bounds_for_entity (demo_obj 10 11 20) TYPE_EPIC demo_db = Inr (Some 11, Some 20)"
    by (rule demo_bounds) simp_all
  have "(10::int) \<noteq> 0" by simp
  note check = epic_bounds_check_correct [OF demo_available demo_obj_id this b]
  have "\<exists>r \<in> set (relateds demo_db). ru_epic_id r = 10 \<and> ru_user_story_id r = 20"
    using r by (intro bexI [OF _ r]) simp
  with no show ?thesis
    by (intro ex_forward [OF check]) (auto dest: bspec [OF _ u])
qed

end
