(* ===== verification/Schedule_Bulk.thy ===== *)
theory Schedule_Bulk
  imports Schedule_Propagate
begin

text \<open>
  Applying many date changes at once, \<open>taiga/projects/schedule/services.py\<close>:
  \<open>apply_schedule_dates_in_bulk\<close> and its steps, in the order it runs them: normalisation of
  the request, locking, writing, side effects, validation of the final state, events.
\<close>

section \<open>The request\<close>

text \<open>
  One element of the request. \<open>in_start\<close> and \<open>in_due\<close> are \<open>None\<close> when the key is absent; an
  absent key of the other fields is \<open>VNone\<close>, as \<open>update.get\<close> gives it.
\<close>

record raw_update =
  in_entity_type :: pyval
  in_entity_id :: pyval
  in_start_field :: pyval
  in_start :: "date option option"
  in_due :: "date option option"

datatype raw_item = NotDict | Dict raw_update

record nupdate =
  n_entity_type :: string
  n_entity_id :: int
  n_start_field :: string
  n_start :: "date option option"
  n_due :: "date option option"

abbreviation n_key :: "nupdate \<Rightarrow> string \<times> int" where
  "n_key u \<equiv> (n_entity_type u, n_entity_id u)"

definition normalize_entity_type :: "pyval \<Rightarrow> string res" where
  "normalize_entity_type v = (case v of
      VStr str \<Rightarrow> if str \<in> {TYPE_EPIC, TYPE_USERSTORY, TYPE_TASK} then Inr str
                  else Inl (ValueError ''Invalid entity type for schedule bulk update.'')
    | VContainer _ \<Rightarrow> Inl TypeError
    | _ \<Rightarrow> Inl (ValueError ''Invalid entity type for schedule bulk update.''))"

definition normalize_entity_id :: "pyval \<Rightarrow> int res" where
  "normalize_entity_id v = (case py_int v of
      Inr i \<Rightarrow> if i < 1 then Inl (ValueError ''Invalid entity id for schedule bulk update.'') else Inr i
    | Inl _ \<Rightarrow> Inl (ValueError ''Invalid entity id for schedule bulk update.''))"

definition normalize_start_field :: "pyval \<Rightarrow> string res" where
  "normalize_start_field v =
     (case (if py_truth v then v else VStr ''estimated_start'') of
        VStr str \<Rightarrow> if str \<in> {''estimated_start'', ''actual_start''} then Inr str
                    else Inl (ValueError ''Invalid start field for schedule bulk update.'')
      | _ \<Rightarrow> Inl (ValueError ''Invalid start field for schedule bulk update.''))"

definition normalize_one :: "raw_item \<Rightarrow> nupdate res" where
  "normalize_one item = (case item of
      NotDict \<Rightarrow> Inl (ValueError ''Each bulk schedule update must be an object.'')
    | Dict u \<Rightarrow>
        (case normalize_entity_type (in_entity_type u) of Inl e \<Rightarrow> Inl e | Inr et \<Rightarrow>
        (case normalize_entity_id (in_entity_id u) of Inl e \<Rightarrow> Inl e | Inr eid \<Rightarrow>
        (case normalize_start_field (in_start_field u) of Inl e \<Rightarrow> Inl e | Inr sf \<Rightarrow>
           if in_start u = None \<and> in_due u = None
           then Inl (ValueError ''At least one schedule date must be provided.'')
           else Inr \<lparr>n_entity_type = et, n_entity_id = eid, n_start_field = sf,
                     n_start = in_start u, n_due = in_due u\<rparr>))))"

text \<open>\<open>d[k] = v\<close> on a dict in insertion order, here of updates by their own key.\<close>

definition put_update :: "nupdate \<Rightarrow> nupdate list \<Rightarrow> nupdate list" where
  "put_update u d = (if n_key u \<in> n_key ` set d
     then map (\<lambda>x. if n_key x = n_key u then u else x) d else d @ [u])"

fun normalize_loop :: "raw_item list \<Rightarrow> nupdate list \<Rightarrow> nupdate list res" where
  "normalize_loop [] d = Inr d"
| "normalize_loop (x # xs) d = (case normalize_one x of Inl e \<Rightarrow> Inl e | Inr u \<Rightarrow> normalize_loop xs (put_update u d))"

definition normalize_schedule_bulk_date_updates :: "raw_item list \<Rightarrow> nupdate list res" where
  "normalize_schedule_bulk_date_updates bulk_updates =
     (case normalize_loop bulk_updates [] of Inl e \<Rightarrow> Inl e | Inr d \<Rightarrow> Inr (sort_key n_key d))"

section \<open>Locking\<close>

text \<open>
  The locked model instances by \<open>(entity_type, entity_id)\<close>; of an instance only its due date
  is used, which an epic does not have.
\<close>

type_synonym locked = "(string \<times> int) \<Rightarrow> date option option"

definition project_entities :: "string \<Rightarrow> int \<Rightarrow> (db, (int \<times> date option) list) qry" where
  "project_entities entity_type project_id =
     (if entity_type = TYPE_EPIC then
        tbl ''epic'' (\<lambda>s. [(e_id e, None). e \<leftarrow> epics s, e_project_id e = project_id])
      else if entity_type = TYPE_USERSTORY then
        tbl ''userstory'' (\<lambda>s. [(us_id u, us_due_date u). u \<leftarrow> userstories s, us_project_id u = project_id])
      else if entity_type = TYPE_TASK then
        tbl ''task'' (\<lambda>s. [(t_id t, t_due_date t). t \<leftarrow> tasks s, t_project_id t = project_id])
      else raiseQ (ValueError ''Invalid entity type for schedule bulk update.''))"

fun lock_types :: "int \<Rightarrow> nupdate list \<Rightarrow> string list \<Rightarrow> locked \<Rightarrow> (db, locked) qry" where
  "lock_types project_id updates [] acc = retQ acc"
| "lock_types project_id updates (et # ets) acc =
     bindQ (project_entities et project_id) (\<lambda>rows.
       let entity_ids = map n_entity_id (filter (\<lambda>u. n_entity_type u = et) updates) in
       if \<exists>i \<in> set entity_ids. map_of rows i = None
       then raiseQ (ValueError ''One or more entities do not belong to the selected project.'')
       else lock_types project_id updates ets
              (\<lambda>k. if fst k = et \<and> snd k \<in> set entity_ids then map_of rows (snd k) else acc k))"

definition lock_schedule_bulk_entities :: "int \<Rightarrow> nupdate list \<Rightarrow> (db, locked) qry" where
  "lock_schedule_bulk_entities project_id updates =
     lock_types project_id updates (sort (remdups (map n_entity_type updates))) (\<lambda>_. None)"

section \<open>Writing\<close>

definition update_values :: "nupdate \<Rightarrow> schedule_values" where
  "update_values u =
     (let v = no_values\<lparr>v_due_date := n_due u\<rparr> in
      case n_start u of
        None \<Rightarrow> v
      | Some start \<Rightarrow> if n_start_field u = ''actual_start'' then v\<lparr>v_actual_start := Some start\<rparr>
                      else v\<lparr>v_estimated_start := Some start\<rparr>)"

definition apply_one :: "int \<Rightarrow> nupdate \<Rightarrow> locked \<Rightarrow> (db, locked) eff" where
  "apply_one project_id u locked =
     bindE (upsert_schedule (n_entity_type u) (n_entity_id u) project_id (update_values u)) (\<lambda>_.
       case n_due u of
         None \<Rightarrow> retE locked
       | Some due \<Rightarrow>
           if n_entity_type u \<noteq> TYPE_TASK \<and> n_entity_type u \<noteq> TYPE_USERSTORY then retE locked
           else
             bindE (if n_entity_type u = TYPE_TASK
                    then update_task_row (\<lambda>t. t_project_id t = project_id \<and> t_id t = n_entity_id u)
                           (\<lambda>t. t\<lparr>t_due_date := due\<rparr>)
                    else update_userstory_row (\<lambda>x. us_project_id x = project_id \<and> us_id x = n_entity_id u)
                           (\<lambda>x. x\<lparr>us_due_date := due\<rparr>)) (\<lambda>_.
               retE (if locked (n_key u) = None then locked else locked(n_key u \<mapsto> due))))"

fun apply_schedule_bulk_updates :: "int \<Rightarrow> nupdate list \<Rightarrow> locked \<Rightarrow> (db, locked) eff" where
  "apply_schedule_bulk_updates project_id [] locked = retE locked"
| "apply_schedule_bulk_updates project_id (u # us) locked =
     bindE (apply_one project_id u locked) (apply_schedule_bulk_updates project_id us)"

section \<open>Side effects\<close>

definition sync_schedule_bulk_side_effects :: "(int \<Rightarrow> (db, unit) eff) \<Rightarrow> nupdate list \<Rightarrow> (db, unit) eff" where
  "sync_schedule_bulk_side_effects prop updates =
     (let deduplicated_entities = rev (remdups (rev (map n_key updates))) in
      bindE (forE deduplicated_entities (\<lambda>(entity_type, entity_id).
        if entity_type = TYPE_TASK then ensure_userstory_and_epic_bounds_from_task prop entity_id None
        else if entity_type = TYPE_USERSTORY then ensure_epic_bounds_for_userstory prop entity_id
        else retE ())) (\<lambda>_.
      forE deduplicated_entities (\<lambda>(entity_type, entity_id).
        propagate_dependency_chain_forward prop entity_type entity_id)))"

section \<open>Validation of the result\<close>

definition build_schedule_validation_obj :: "string \<Rightarrow> int \<Rightarrow> locked \<Rightarrow> (db, entity_obj) qry" where
  "build_schedule_validation_obj entity_type entity_id locked =
     bindQ (get_schedule entity_type entity_id) (\<lambda>found.
       case found of
         None \<Rightarrow> raiseQ (ValueError ''Couldn't find schedule data for one of the updated entities.'')
       | Some sched \<Rightarrow> retQ \<lparr>ob_id = Some entity_id,
             ob_actual_start = Some (s_actual_start sched),
             ob_estimated_start = Some (s_estimated_start sched),
             ob_due_date = Some (if entity_type = TYPE_EPIC then s_due_date sched
                                 else getattr_or_none (locked (entity_type, entity_id))),
             ob_user_story_id = None, ob_user_story = None\<rparr>)"

text \<open>\<open>error = check; if error: raise ValueError(error)\<close>\<close>

definition refuse :: "(db, string option) qry \<Rightarrow> (db, unit) qry" where
  "refuse check = bindQ check (\<lambda>error. case error of None \<Rightarrow> retQ () | Some m \<Rightarrow> raiseQ (ValueError m))"

definition validate_one :: "locked \<Rightarrow> nupdate \<Rightarrow> (db, unit) qry" where
  "validate_one locked u =
     bindQ (build_schedule_validation_obj (n_entity_type u) (n_entity_id u) locked) (\<lambda>obj.
       if n_entity_type u = TYPE_TASK then
         bindQ (refuse (get_dependency_start_violation_error (Some obj) TYPE_TASK)) (\<lambda>_.
           refuse (get_ancestor_dependency_start_violation_error (Some obj) TYPE_TASK))
       else if n_entity_type u = TYPE_USERSTORY then
         bindQ (refuse (get_userstory_bounds_violation_error (Some obj))) (\<lambda>_.
         bindQ (refuse (get_dependency_start_violation_error (Some obj) TYPE_USERSTORY)) (\<lambda>_.
           refuse (get_ancestor_dependency_start_violation_error (Some obj) TYPE_USERSTORY)))
       else if n_entity_type u = TYPE_EPIC then
         bindQ (refuse (get_epic_bounds_violation_error (Some obj))) (\<lambda>_.
           refuse (get_dependency_start_violation_error (Some obj) TYPE_EPIC))
       else retQ ())"

fun validate_schedule_bulk_updates :: "locked \<Rightarrow> nupdate list \<Rightarrow> (db, unit) qry" where
  "validate_schedule_bulk_updates locked [] = retQ ()"
| "validate_schedule_bulk_updates locked (u # us) =
     bindQ (validate_one locked u) (\<lambda>_. validate_schedule_bulk_updates locked us)"

section \<open>Events\<close>

definition updated_ids :: "string \<Rightarrow> nupdate list \<Rightarrow> int list" where
  "updated_ids entity_type updates =
     sort (remdups (map n_entity_id (filter (\<lambda>u. n_entity_type u = entity_type) updates)))"

definition emit_schedule_bulk_change_events :: "int \<Rightarrow> nupdate list \<Rightarrow> (db, unit) eff" where
  "emit_schedule_bulk_change_events project_id updates =
     bindE (forE [(''tasks.task'', TYPE_TASK), (''userstories.userstory'', TYPE_USERSTORY),
                  (''epics.epic'', TYPE_EPIC)] (\<lambda>(content_type, et).
        let entity_ids = updated_ids et updates in
        if entity_ids = [] then retE () else emit_event_for_ids entity_ids content_type project_id))
     (\<lambda>_.
      let schedule_event_ids = sort (remdups (map n_entity_id updates)) in
      if schedule_event_ids = [] then retE ()
      else emit_event_for_ids schedule_event_ids ''schedule.scheduledependency'' project_id)"

section \<open>The operation\<close>

definition bulk_steps :: "(int \<Rightarrow> (db, unit) eff) \<Rightarrow> int \<Rightarrow> nupdate list \<Rightarrow> (db, unit) eff" where
  "bulk_steps prop project_id updates =
     bindE (liftE (lock_schedule_bulk_entities project_id updates)) (\<lambda>locked.
     bindE (apply_schedule_bulk_updates project_id updates locked) (\<lambda>locked'.
     bindE (sync_schedule_bulk_side_effects prop updates) (\<lambda>_.
     bindE (liftE (validate_schedule_bulk_updates locked' updates)) (\<lambda>_.
       emit_schedule_bulk_change_events project_id updates))))"

definition apply_schedule_dates_in_bulk ::
    "(int \<Rightarrow> (db, unit) eff) \<Rightarrow> pyval \<Rightarrow> raw_item list \<Rightarrow> (db, nupdate list) eff" where
  "apply_schedule_dates_in_bulk prop raw_project_id bulk_updates =
     bindE (liftE (int_or_raise raw_project_id
              (ValueError ''Invalid project id for schedule bulk update.''))) (\<lambda>project_id.
       if project_id < 1 then raiseE (ValueError ''Invalid project id for schedule bulk update.'')
       else bindE (liftE (\<lambda>_. normalize_schedule_bulk_date_updates bulk_updates)) (\<lambda>updates.
         if updates = [] then retE []
         else bindE (atomicE (bulk_steps prop project_id updates)) (\<lambda>_. retE updates)))"

end
