(* ===== verification/Schedule_Model.thy ===== *)
theory Schedule_Model
  imports Schedule_Bulk
begin

text \<open>
  Dependencies between schedules as \<open>taiga/projects/schedule/models.py\<close> validates and stores
  them, and the signal handlers of \<open>taiga/projects/schedule/signals.py\<close> that keep the
  schedules in step with the epics, user stories and tasks being saved and deleted.
\<close>

section \<open>Dependencies\<close>

definition MSG_SAME_SCHEDULE :: string where
  "MSG_SAME_SCHEDULE = ''The source and target schedules must be different.''"
definition MSG_OTHER_PROJECT :: string where
  "MSG_OTHER_PROJECT = ''The source and target schedules must belong to the same project.''"
definition MSG_NO_SOURCE_DUE :: string where
  "MSG_NO_SOURCE_DUE = ''The source schedule must have a due date.''"

text \<open>\<open>ScheduleDependency.clean\<close>, on the two foreign keys of the instance.\<close>

definition dependency_clean :: "int option \<Rightarrow> int option \<Rightarrow> (db, unit) qry" where
  "dependency_clean from_schedule_id to_schedule_id =
     (if \<not> truthy from_schedule_id \<or> \<not> truthy to_schedule_id then retQ ()
      else if from_schedule_id = to_schedule_id then raiseQ (ValidationError MSG_SAME_SCHEDULE)
      else bindQ (tbl ''schedule'' (\<lambda>s. (find_schedule_id (the from_schedule_id) s,
                                       find_schedule_id (the to_schedule_id) s))) (\<lambda>found.
        case found of
          (Some from_schedule, Some to_schedule) \<Rightarrow>
            if s_project_id from_schedule \<noteq> s_project_id to_schedule
            then raiseQ (ValidationError MSG_OTHER_PROJECT)
            else
              (case (s_due_date from_schedule,
                     (case s_actual_start to_schedule of Some d \<Rightarrow> Some d | None \<Rightarrow> s_estimated_start to_schedule)) of
                 (None, _) \<Rightarrow> raiseQ (ValidationError MSG_NO_SOURCE_DUE)
               | (Some due, None) \<Rightarrow> raiseQ (ValidationError MSG_NO_TARGET_START)
               | (Some due, Some start) \<Rightarrow>
                   if start \<le> due then raiseQ (ValidationError MSG_TARGET_BEFORE_SOURCE) else retQ ())
        | _ \<Rightarrow> retQ ()))"

text \<open>
  \<open>full_clean\<close>: the foreign keys are set and refer to stored rows, then \<open>clean\<close>, then the
  unique pair. Django collects the messages of all three; the model keeps the first.
  \<open>pk\<close> is the key of a stored instance, \<open>None\<close> for a new one.
\<close>

definition dependency_full_clean ::
    "int option \<Rightarrow> int option \<Rightarrow> int option \<Rightarrow> (db, unit) qry" where
  "dependency_full_clean pk from_schedule_id to_schedule_id =
     (case (from_schedule_id, to_schedule_id) of
        (Some f, Some t) \<Rightarrow>
          bindQ (tbl ''schedule'' (\<lambda>s. find_schedule_id f s \<noteq> None \<and> find_schedule_id t s \<noteq> None)) (\<lambda>stored_keys.
          bindQ (if stored_keys then retQ () else raiseQ (ValidationError ''The schedule instance does not exist.'')) (\<lambda>_.
          bindQ (dependency_clean from_schedule_id to_schedule_id) (\<lambda>_.
          bindQ (tbl ''dependency'' dependencies) (\<lambda>deps.
            if \<exists>d \<in> set deps. d_from_schedule_id d = f \<and> d_to_schedule_id d = t \<and> pk \<noteq> Some (d_id d)
            then raiseQ (ValidationError ''Schedule dependency with this from schedule and to schedule already exists.'')
            else retQ ()))))
      | _ \<Rightarrow> raiseQ (ValidationError ''This field cannot be null.''))"

text \<open>\<open>ScheduleDependency.save\<close>: an insert with the key \<open>new_id\<close> of the sequence, or an update.\<close>

definition dependency_save ::
    "int \<Rightarrow> int option \<Rightarrow> int option \<Rightarrow> int option \<Rightarrow> (db, dependency) eff" where
  "dependency_save new_id pk from_schedule_id to_schedule_id =
     bindE (liftE (dependency_full_clean pk from_schedule_id to_schedule_id)) (\<lambda>_.
       case pk of
         None \<Rightarrow> (\<lambda>s. let d = \<lparr>d_id = new_id, d_from_schedule_id = the from_schedule_id,
                                d_to_schedule_id = the to_schedule_id\<rparr>
                     in (Inr d, s\<lparr>dependencies := dependencies s @ [d]\<rparr>))
       | Some i \<Rightarrow> (\<lambda>s. let d = \<lparr>d_id = i, d_from_schedule_id = the from_schedule_id,
                                d_to_schedule_id = the to_schedule_id\<rparr>
                     in (Inr d, s\<lparr>dependencies := upd_where (\<lambda>x. d_id x = i) (\<lambda>_. d) (dependencies s)\<rparr>)))"

text \<open>
  The property \<open>project_id\<close>. A set foreign key is followed by a query that raises when the
  row is missing; Django reports that as \<open>DoesNotExist\<close>.
\<close>

definition dependency_project_id :: "int option \<Rightarrow> int option \<Rightarrow> (db, int option) qry" where
  "dependency_project_id from_schedule_id to_schedule_id =
     (if truthy from_schedule_id then
        bindQ (tbl ''schedule'' (find_schedule_id (the from_schedule_id))) (\<lambda>found.
          case found of Some r \<Rightarrow> retQ (Some (s_project_id r)) | None \<Rightarrow> raiseQ DoesNotExist)
      else if truthy to_schedule_id then
        bindQ (tbl ''schedule'' (find_schedule_id (the to_schedule_id))) (\<lambda>found.
          case found of Some r \<Rightarrow> retQ (Some (s_project_id r)) | None \<Rightarrow> raiseQ DoesNotExist)
      else retQ None)"

section \<open>Signals\<close>

text \<open>
  The instance a signal carries. The outer option of a date or color says whether the
  instance has the attribute, which the code asks with \<open>hasattr\<close>.
\<close>

record instance_obj =
  i_id :: int
  i_project_id :: int
  i_created_date :: "int option"
  i_due_date :: "date option option"
  i_estimated_start :: "date option option"
  i_actual_start :: "date option option"
  i_color :: "string option option"
  i_user_story_id :: "int option"

definition instance_values :: "instance_obj \<Rightarrow> schedule_values" where
  "instance_values ob = \<lparr>v_created_date = Some (i_created_date ob),
     v_due_date = Some (getattr_or_none (i_due_date ob)),
     v_estimated_start = i_estimated_start ob, v_actual_start = i_actual_start ob, v_color = None\<rparr>"

definition with_color :: "string option \<Rightarrow> instance_obj \<Rightarrow> schedule_values \<Rightarrow> schedule_values" where
  "with_color inherited_color ob data =
     (case inherited_color of
        Some c \<Rightarrow> data\<lparr>v_color := Some (Some c)\<rparr>
      | None \<Rightarrow> (case i_color ob of Some c \<Rightarrow> data\<lparr>v_color := Some c\<rparr> | None \<Rightarrow> data))"

definition task_post_save :: "(int \<Rightarrow> (db, unit) eff) \<Rightarrow> instance_obj \<Rightarrow> (db, unit) eff" where
  "task_post_save prop ob =
     bindE (liftE (if truthy (i_user_story_id ob)
                   then get_primary_epic_color_for_userstory (the (i_user_story_id ob))
                   else retQ None)) (\<lambda>inherited_color.
     bindE (upsert_schedule TYPE_TASK (i_id ob) (i_project_id ob)
              (with_color inherited_color ob (instance_values ob))) (\<lambda>_.
     bindE (ensure_userstory_and_epic_bounds_from_task prop (i_id ob) (i_user_story_id ob)) (\<lambda>_.
       propagate_dependency_chain_forward prop TYPE_TASK (i_id ob))))"

definition task_post_delete :: "instance_obj \<Rightarrow> (db, unit) eff" where
  "task_post_delete ob = delete_schedule TYPE_TASK (i_id ob)"

definition userstory_post_save :: "(int \<Rightarrow> (db, unit) eff) \<Rightarrow> instance_obj \<Rightarrow> (db, unit) eff" where
  "userstory_post_save prop ob =
     bindE (liftE (get_primary_epic_color_for_userstory (i_id ob))) (\<lambda>inherited_color.
     bindE (upsert_schedule TYPE_USERSTORY (i_id ob) (i_project_id ob)
              (with_color inherited_color ob (instance_values ob))) (\<lambda>_.
     bindE (ensure_epic_bounds_for_userstory prop (i_id ob)) (\<lambda>_.
       propagate_dependency_chain_forward prop TYPE_USERSTORY (i_id ob))))"

definition userstory_post_delete :: "instance_obj \<Rightarrow> (db, unit) eff" where
  "userstory_post_delete ob = delete_schedule TYPE_USERSTORY (i_id ob)"

definition epic_values :: "instance_obj \<Rightarrow> schedule_values" where
  "epic_values ob = \<lparr>v_created_date = Some (i_created_date ob), v_due_date = i_due_date ob,
     v_estimated_start = i_estimated_start ob, v_actual_start = i_actual_start ob,
     v_color = Some (getattr_or_none (i_color ob))\<rparr>"

definition epic_post_save :: "(int \<Rightarrow> (db, unit) eff) \<Rightarrow> instance_obj \<Rightarrow> (db, unit) eff" where
  "epic_post_save prop ob =
     bindE (upsert_schedule TYPE_EPIC (i_id ob) (i_project_id ob) (epic_values ob)) (\<lambda>_.
     bindE (sync_epic_related_schedule_colors (i_id ob)) (\<lambda>_.
       propagate_dependency_chain_forward prop TYPE_EPIC (i_id ob)))"

definition epic_post_delete :: "instance_obj \<Rightarrow> (db, unit) eff" where
  "epic_post_delete ob = delete_schedule TYPE_EPIC (i_id ob)"

definition related_userstory_post_save :: "(int \<Rightarrow> (db, unit) eff) \<Rightarrow> int \<Rightarrow> (db, unit) eff" where
  "related_userstory_post_save prop user_story_id =
     bindE (sync_schedule_item_order TYPE_USERSTORY user_story_id) (\<lambda>_.
     bindE (sync_userstory_and_tasks_schedule_color user_story_id) (\<lambda>_.
       ensure_epic_bounds_for_userstory prop user_story_id))"

definition related_userstory_post_delete :: "(int \<Rightarrow> (db, unit) eff) \<Rightarrow> int \<Rightarrow> (db, unit) eff" where
  "related_userstory_post_delete prop user_story_id =
     bindE (sync_schedule_item_order TYPE_USERSTORY user_story_id) (\<lambda>_.
     bindE (sync_userstory_and_tasks_schedule_color user_story_id) (\<lambda>_.
       ensure_epic_bounds_for_userstory prop user_story_id))"

definition related_userstories_bulk_changed ::
    "(int \<Rightarrow> (db, unit) eff) \<Rightarrow> int option \<Rightarrow> int list \<Rightarrow> (db, unit) eff" where
  "related_userstories_bulk_changed prop epic_id userstory_ids =
     bindE (sync_epic_userstories_schedule_item_order_in_bulk epic_id) (\<lambda>_.
       forE userstory_ids (\<lambda>userstory_id.
         bindE (sync_userstory_and_tasks_schedule_color userstory_id) (\<lambda>_.
           ensure_epic_bounds_for_userstory prop userstory_id)))"

text \<open>The signals the application connects, with the handler of each.\<close>

datatype signal =
    TaskSaved instance_obj
  | TaskDeleted instance_obj
  | UserStorySaved instance_obj
  | UserStoryDeleted instance_obj
  | EpicSaved instance_obj
  | EpicDeleted instance_obj
  | RelatedUserStorySaved int
  | RelatedUserStoryDeleted int
  | RelatedUserStoriesBulkChanged "int option" "int list"

fun connect_schedule_signals :: "(int \<Rightarrow> (db, unit) eff) \<Rightarrow> signal \<Rightarrow> (db, unit) eff" where
  "connect_schedule_signals prop (TaskSaved ob) = task_post_save prop ob"
| "connect_schedule_signals prop (TaskDeleted ob) = task_post_delete ob"
| "connect_schedule_signals prop (UserStorySaved ob) = userstory_post_save prop ob"
| "connect_schedule_signals prop (UserStoryDeleted ob) = userstory_post_delete ob"
| "connect_schedule_signals prop (EpicSaved ob) = epic_post_save prop ob"
| "connect_schedule_signals prop (EpicDeleted ob) = epic_post_delete ob"
| "connect_schedule_signals prop (RelatedUserStorySaved us) = related_userstory_post_save prop us"
| "connect_schedule_signals prop (RelatedUserStoryDeleted us) = related_userstory_post_delete prop us"
| "connect_schedule_signals prop (RelatedUserStoriesBulkChanged ep uss) =
     related_userstories_bulk_changed prop ep uss"

end
