(* ===== verification/Schedule_Bulk_Facts.thy ===== *)
theory Schedule_Bulk_Facts
  imports Schedule_Bulk Schedule_Propagate_Facts
begin

text \<open>
  Lemmas about the bulk operation: the normalised request, what locking checks, the frames
  and invariants of the writing steps, and what a successful validation says.
\<close>

section \<open>Normalisation\<close>

definition valid_update :: "nupdate \<Rightarrow> bool" where
  "valid_update u \<longleftrightarrow> n_entity_type u \<in> {TYPE_EPIC, TYPE_USERSTORY, TYPE_TASK} \<and> 1 \<le> n_entity_id u
     \<and> n_start_field u \<in> {''estimated_start'', ''actual_start''} \<and> (n_start u \<noteq> None \<or> n_due u \<noteq> None)"

lemma normalize_entity_type_Inr:
  "normalize_entity_type v = Inr et \<Longrightarrow> et \<in> {TYPE_EPIC, TYPE_USERSTORY, TYPE_TASK}"
  by (cases v) (simp_all add: normalize_entity_type_def split: if_splits)

lemma normalize_entity_id_Inr: "normalize_entity_id v = Inr i \<Longrightarrow> 1 \<le> i"
  by (simp add: normalize_entity_id_def split: sum.splits if_splits)

lemma normalize_start_field_Inr:
  "normalize_start_field v = Inr f \<Longrightarrow> f \<in> {''estimated_start'', ''actual_start''}"
  by (cases "if py_truth v then v else VStr ''estimated_start''")
    (simp_all add: normalize_start_field_def split: if_splits)

lemma normalize_one_valid: "normalize_one x = Inr u \<Longrightarrow> valid_update u"
proof -
  assume run: "normalize_one x = Inr u"
  then obtain r where x: "x = Dict r" by (cases x) (simp_all add: normalize_one_def)
  obtain et where et: "normalize_entity_type (in_entity_type r) = Inr et"
    using run x by (cases "normalize_entity_type (in_entity_type r)") (simp_all add: normalize_one_def)
  obtain i where i: "normalize_entity_id (in_entity_id r) = Inr i"
    using run x et by (cases "normalize_entity_id (in_entity_id r)") (simp_all add: normalize_one_def)
  obtain f where f: "normalize_start_field (in_start_field r) = Inr f"
    using run x et i by (cases "normalize_start_field (in_start_field r)") (simp_all add: normalize_one_def)
  have "u = \<lparr>n_entity_type = et, n_entity_id = i, n_start_field = f, n_start = in_start r, n_due = in_due r\<rparr>"
    and "in_start r \<noteq> None \<or> in_due r \<noteq> None"
    using run x et i f by (simp_all add: normalize_one_def split: if_splits)
  then show ?thesis
    using normalize_entity_type_Inr [OF et] normalize_entity_id_Inr [OF i] normalize_start_field_Inr [OF f]
    by (simp add: valid_update_def)
qed

lemma put_update_keys:
  assumes "distinct (map n_key d)"
  shows "distinct (map n_key (put_update u d)) \<and> n_key ` set (put_update u d) = insert (n_key u) (n_key ` set d)"
proof (cases "n_key u \<in> n_key ` set d")
  case True
  have "map n_key (put_update u d) = map n_key d" using True by (simp add: put_update_def)
  moreover from this have "n_key ` set (put_update u d) = n_key ` set d" by (metis image_set)
  ultimately show ?thesis using assms True by (simp add: insert_absorb)
next
  case False
  then show ?thesis using assms by (simp add: put_update_def)
qed

lemma put_update_mem: "x \<in> set (put_update u d) \<longleftrightarrow> x = u \<or> (x \<in> set d \<and> n_key x \<noteq> n_key u)"
  by (auto simp: put_update_def image_iff)

text \<open>An entry of the dict is the last element of the request with its key.\<close>

definition last_with_key :: "raw_item list \<Rightarrow> nupdate \<Rightarrow> bool" where
  "last_with_key xs u \<longleftrightarrow> (\<exists>ys x zs. xs = ys @ x # zs \<and> normalize_one x = Inr u
     \<and> (\<forall>z \<in> set zs. \<forall>w. normalize_one z = Inr w \<longrightarrow> n_key w \<noteq> n_key u))"

lemma last_with_key_snoc:
  assumes "normalize_one x = Inr w"
  shows "last_with_key (xs @ [x]) u \<longleftrightarrow> u = w \<or> (last_with_key xs u \<and> n_key u \<noteq> n_key w)"
proof
  assume "last_with_key (xs @ [x]) u"
  then obtain ys y zs where *: "xs @ [x] = ys @ y # zs" "normalize_one y = Inr u"
    "\<forall>z \<in> set zs. \<forall>w. normalize_one z = Inr w \<longrightarrow> n_key w \<noteq> n_key u"
    by (auto simp: last_with_key_def)
  show "u = w \<or> (last_with_key xs u \<and> n_key u \<noteq> n_key w)"
  proof (cases zs rule: rev_cases)
    case Nil
    then show ?thesis using * assms by simp
  next
    case (snoc zs' z)
    then have "xs = ys @ y # zs'" "z = x" using *(1) by auto
    then show ?thesis using *(2,3) assms snoc by (force simp: last_with_key_def)
  qed
next
  assume "u = w \<or> (last_with_key xs u \<and> n_key u \<noteq> n_key w)"
  then show "last_with_key (xs @ [x]) u"
  proof
    assume "u = w"
    then show ?thesis using assms unfolding last_with_key_def by (intro exI [of _ xs]) simp
  next
    assume *: "last_with_key xs u \<and> n_key u \<noteq> n_key w"
    then obtain ys y zs where "xs = ys @ y # zs" "normalize_one y = Inr u"
      "\<forall>z \<in> set zs. \<forall>w. normalize_one z = Inr w \<longrightarrow> n_key w \<noteq> n_key u"
      by (auto simp: last_with_key_def)
    then show ?thesis using * assms unfolding last_with_key_def
      by (intro exI [of _ ys] exI [of _ y] exI [of _ "zs @ [x]"]) auto
  qed
qed

text \<open>The loop, over the part \<open>done\<close> of the request already read.\<close>

lemma normalize_loop_spec:
  assumes "distinct (map n_key d)" and "\<forall>u. u \<in> set d \<longleftrightarrow> last_with_key seen u"
    and "\<forall>x \<in> set seen. \<exists>u. normalize_one x = Inr u"
  shows "case normalize_loop xs d of
      Inl e \<Rightarrow> \<exists>ys x zs. xs = ys @ x # zs \<and> normalize_one x = Inl e \<and> (\<forall>y \<in> set ys. \<exists>u. normalize_one y = Inr u)
    | Inr d' \<Rightarrow> distinct (map n_key d') \<and> (\<forall>u. u \<in> set d' \<longleftrightarrow> last_with_key (seen @ xs) u)
         \<and> (\<forall>x \<in> set xs. \<exists>u. normalize_one x = Inr u)"
  using assms
proof (induction xs arbitrary: d seen)
  case Nil
  then show ?case by simp
next
  case (Cons x xs)
  show ?case
  proof (cases "normalize_one x")
    case (Inl e)
    then show ?thesis by (auto intro: exI [of _ "[]"])
  next
    case (Inr w)
    have IH: "case normalize_loop xs (put_update w d) of
      Inl e \<Rightarrow> \<exists>ys x zs. xs = ys @ x # zs \<and> normalize_one x = Inl e \<and> (\<forall>y \<in> set ys. \<exists>u. normalize_one y = Inr u)
    | Inr d' \<Rightarrow> distinct (map n_key d') \<and> (\<forall>u. u \<in> set d' \<longleftrightarrow> last_with_key ((seen @ [x]) @ xs) u)
         \<and> (\<forall>x \<in> set xs. \<exists>u. normalize_one x = Inr u)"
    proof (rule Cons.IH)
      show "distinct (map n_key (put_update w d))" using put_update_keys Cons.prems(1) by blast
      show "\<forall>u. u \<in> set (put_update w d) \<longleftrightarrow> last_with_key (seen @ [x]) u"
        using Cons.prems(2) by (simp add: put_update_mem last_with_key_snoc [OF Inr])
      show "\<forall>y \<in> set (seen @ [x]). \<exists>u. normalize_one y = Inr u" using Cons.prems(3) Inr by auto
    qed
    show ?thesis
    proof (cases "normalize_loop xs (put_update w d)")
      case (Inl e)
      with IH obtain ys y zs where "xs = ys @ y # zs" "normalize_one y = Inl e"
        "\<forall>y \<in> set ys. \<exists>u. normalize_one y = Inr u" by auto
      then have "x # xs = (x # ys) @ y # zs \<and> normalize_one y = Inl e
          \<and> (\<forall>y \<in> set (x # ys). \<exists>u. normalize_one y = Inr u)" using \<open>normalize_one x = Inr w\<close> by simp
      moreover have "normalize_loop (x # xs) d = Inl e" using Inl \<open>normalize_one x = Inr w\<close> by simp
      ultimately show ?thesis by (simp only: sum.case) blast
    qed (use IH Inr in auto)
  qed
qed

lemma normalize_loop_top:
  "case normalize_loop xs [] of
      Inl e \<Rightarrow> \<exists>ys x zs. xs = ys @ x # zs \<and> normalize_one x = Inl e \<and> (\<forall>y \<in> set ys. \<exists>u. normalize_one y = Inr u)
    | Inr d' \<Rightarrow> distinct (map n_key d') \<and> (\<forall>u. u \<in> set d' \<longleftrightarrow> last_with_key xs u)
         \<and> (\<forall>x \<in> set xs. \<exists>u. normalize_one x = Inr u)"
proof -
  have "\<forall>u. u \<in> set [] \<longleftrightarrow> last_with_key [] u" by (simp add: last_with_key_def)
  from normalize_loop_spec [OF _ this, of xs, unfolded append_Nil] show ?thesis by simp
qed

section \<open>Locking\<close>

definition in_project :: "int \<Rightarrow> string \<Rightarrow> int \<Rightarrow> db \<Rightarrow> bool" where
  "in_project p et i s \<longleftrightarrow>
     (if et = TYPE_EPIC then \<exists>e \<in> set (epics s). e_id e = i \<and> e_project_id e = p
      else if et = TYPE_USERSTORY then \<exists>u \<in> set (userstories s). us_id u = i \<and> us_project_id u = p
      else \<exists>t \<in> set (tasks s). t_id t = i \<and> t_project_id t = p)"

lemma project_entities_ok:
  assumes "available s" and "et \<in> {TYPE_EPIC, TYPE_USERSTORY, TYPE_TASK}"
  shows "\<exists>rows. project_entities et p s = Inr rows \<and> (\<forall>i. map_of rows i \<noteq> None \<longleftrightarrow> in_project p et i s)"
  using assms by (auto simp: project_entities_def map_of_eq_None_iff in_project_def image_iff)

lemma lock_types_ok:
  assumes av: "available s"
  shows "set ets \<subseteq> {TYPE_EPIC, TYPE_USERSTORY, TYPE_TASK} \<Longrightarrow>
   (if \<forall>u \<in> set us. n_entity_type u \<in> set ets \<longrightarrow> in_project p (n_entity_type u) (n_entity_id u) s
    then \<exists>locked. lock_types p us ets acc s = Inr locked
       \<and> (\<forall>u \<in> set us. n_entity_type u \<in> set ets \<or> acc (n_key u) \<noteq> None \<longrightarrow> locked (n_key u) \<noteq> None)
    else lock_types p us ets acc s = Inl (ValueError ''One or more entities do not belong to the selected project.''))"
proof (induction ets arbitrary: acc)
  case (Cons et ets)
  have et: "et \<in> {TYPE_EPIC, TYPE_USERSTORY, TYPE_TASK}" using Cons.prems by simp
  obtain rows where rows: "project_entities et p s = Inr rows"
    and mem: "\<forall>i. map_of rows i \<noteq> None \<longleftrightarrow> in_project p et i s"
    using project_entities_ok [OF av et] by blast
  define ids where ids: "ids = map n_entity_id (filter (\<lambda>u. n_entity_type u = et) us)"
  define acc' where acc': "acc' = (\<lambda>k. if fst k = et \<and> snd k \<in> set ids then map_of rows (snd k) else acc k)"
  have step: "lock_types p us (et # ets) acc s = (if \<exists>i \<in> set ids. map_of rows i = None
       then Inl (ValueError ''One or more entities do not belong to the selected project.'')
       else lock_types p us ets acc' s)"
    unfolding lock_types.simps bindQ_apply rows sum.case Let_def ids [symmetric] acc' by auto
  have all: "(\<exists>i \<in> set ids. map_of rows i = None) \<longleftrightarrow>
      \<not> (\<forall>u \<in> set us. n_entity_type u = et \<longrightarrow> in_project p et (n_entity_id u) s)"
  proof -
    have "map_of rows i = None \<longleftrightarrow> \<not> in_project p et i s" for i using mem by blast
    then show ?thesis by (auto simp: ids)
  qed
  have sub: "set ets \<subseteq> {TYPE_EPIC, TYPE_USERSTORY, TYPE_TASK}" using Cons.prems by simp
  show ?case
  proof (cases "\<exists>i \<in> set ids. map_of rows i = None")
    case True
    then show ?thesis using step all by auto
  next
    case False
    then have here: "\<forall>u \<in> set us. n_entity_type u = et \<longrightarrow> in_project p et (n_entity_id u) s" using all by blast
    have locked: "acc' (n_key u) \<noteq> None" if "u \<in> set us" "n_entity_type u = et \<or> acc (n_key u) \<noteq> None" for u
      using that False by (auto simp: acc' ids)
    have "lock_types p us (et # ets) acc s = lock_types p us ets acc' s" using step False by simp
    then show ?thesis using Cons.IH [OF sub, of acc'] here locked
      by (auto split: if_splits)
  qed
qed simp


text \<open>What the lock of the whole request says.\<close>

lemma lock_ok:
  assumes av: "available s" and valid: "\<forall>u \<in> set us. valid_update u"
  shows "if \<forall>u \<in> set us. in_project p (n_entity_type u) (n_entity_id u) s
    then \<exists>locked. lock_schedule_bulk_entities p us s = Inr locked \<and> (\<forall>u \<in> set us. locked (n_key u) \<noteq> None)
    else lock_schedule_bulk_entities p us s
       = Inl (ValueError ''One or more entities do not belong to the selected project.'')"
proof -
  have "set (sort (remdups (map n_entity_type us))) \<subseteq> {TYPE_EPIC, TYPE_USERSTORY, TYPE_TASK}"
    using valid by (auto simp: valid_update_def)
  from lock_types_ok [OF av this, of us p "\<lambda>_. None"] show ?thesis
    unfolding lock_schedule_bulk_entities_def by (simp cong: if_cong)
qed

section \<open>Frames and invariants of the writing steps\<close>

lemma wf_db_cong:
  "schedules t = schedules s \<Longrightarrow> schedule_seq t = schedule_seq s \<Longrightarrow> item_orders t = item_orders s \<Longrightarrow>
    order_seq t = order_seq s \<Longrightarrow> wf_db t = wf_db s"
  using order_inv_cong [of t s] by (simp add: wf_db_def table_inv_def schedules_ok_def)

definition wf_step :: "db \<Rightarrow> db \<Rightarrow> bool" where
  "wf_step s t \<longleftrightarrow> down t = down s \<and> (wf_db s \<longrightarrow> wf_db t)"

interpretation wf_step: effect_preorder wf_step
  by unfold_locales (auto simp: wf_step_def)

lemma wf_task: "obeys wf_step (update_task_row P (\<lambda>t. t\<lparr>t_due_date := d\<rparr>))"
  and wf_story: "obeys wf_step (update_userstory_row Q (\<lambda>u. u\<lparr>us_due_date := d\<rparr>))"
  by (rule obeysI, simp add: update_task_row_def update_userstory_row_def wf_step_def,
      intro impI, simp cong: wf_db_cong)+

lemma wf_emit: "obeys wf_step (emit_event_for_ids ids ct p)"
  by (rule obeysI) (simp add: emit_event_for_ids_def wf_step_def cong: wf_db_cong)

lemma wf_upsert: "obeys wf_step (upsert_schedule et eid p v)"
  using upsert_wf upsert_only by (auto simp: obeys_def wf_step_def keeps_def sched_only_def)

lemma postpones_wf: "obeys postpones m \<Longrightarrow> obeys wf_step m"
  by (auto simp: obeys_def postpones_def wf_step_def)

lemma wf_apply_one: "obeys wf_step (apply_one p u locked)"
  unfolding apply_one_def
  by (auto intro!: wf_step.obeys_rules wf_upsert wf_task wf_story split: option.split)

lemma wf_apply: "obeys wf_step (apply_schedule_bulk_updates p us locked)"
  by (induction us arbitrary: locked) (auto intro!: wf_step.obeys_ret wf_step.obeys_bind wf_apply_one)

lemma postpones_side_effects:
  assumes "\<And>i. obeys postpones (prop i)"
  shows "obeys postpones (sync_schedule_bulk_side_effects prop us)"
  unfolding sync_schedule_bulk_side_effects_def Let_def
  by (auto intro!: postpones.obeys_rules ensure_userstory_postpones ensure_epic_postpones
      forward_postpones assms split: prod.split)

lemma wf_events: "obeys wf_step (emit_schedule_bulk_change_events p us)"
  unfolding emit_schedule_bulk_change_events_def Let_def
  by (auto intro!: wf_step.obeys_rules wf_emit split: prod.split)

lemma wf_bulk:
  assumes "\<And>i. obeys postpones (prop i)"
  shows "obeys wf_step (apply_schedule_dates_in_bulk prop pid xs)"
proof -
  have "obeys wf_step (sync_schedule_bulk_side_effects prop us)" for us
    by (rule postpones_wf [OF postpones_side_effects [OF assms]])
  then show ?thesis
    unfolding apply_schedule_dates_in_bulk_def bulk_steps_def Let_def
    by (auto intro!: wf_step.obeys_rules wf_apply wf_events)
qed

text \<open>The due date a locked instance carries after the writes.\<close>

lemma apply_one_locked:
  "apply_one p u locked s = (Inr locked', s') \<Longrightarrow>
     (\<forall>k. locked k \<noteq> None \<longrightarrow> locked' k \<noteq> None) \<and> (\<forall>k. k \<noteq> n_key u \<longrightarrow> locked' k = locked k)
     \<and> (\<forall>due. n_due u = Some due \<longrightarrow> n_entity_type u \<in> {TYPE_TASK, TYPE_USERSTORY} \<longrightarrow>
          locked (n_key u) \<noteq> None \<longrightarrow> locked' (n_key u) = Some due)"
  unfolding apply_one_def
  by (auto simp: bindE_Inr retE_apply split: option.splits if_splits)

lemma apply_locked:
  "apply_schedule_bulk_updates p us locked s = (Inr locked', s') \<Longrightarrow> distinct (map n_key us) \<Longrightarrow>
     (\<forall>k. locked k \<noteq> None \<longrightarrow> locked' k \<noteq> None) \<and> (\<forall>k. k \<notin> n_key ` set us \<longrightarrow> locked' k = locked k)
     \<and> (\<forall>u \<in> set us. \<forall>due. n_due u = Some due \<longrightarrow> n_entity_type u \<in> {TYPE_TASK, TYPE_USERSTORY} \<longrightarrow>
          locked (n_key u) \<noteq> None \<longrightarrow> locked' (n_key u) = Some due)"
proof (induction us arbitrary: locked s)
  case Nil
  then show ?case by (simp add: retE_apply)
next
  case (Cons u us)
  then obtain l1 s1 where one: "apply_one p u locked s = (Inr l1, s1)"
    and rest: "apply_schedule_bulk_updates p us l1 s1 = (Inr locked', s')"
    by (auto simp: bindE_Inr)
  note a = apply_one_locked [OF one]
  note b = Cons.IH [OF rest]
  have d: "n_key u \<notin> n_key ` set us" "distinct (map n_key us)" using Cons.prems(2) by auto
  note b' = b [OF d(2)]
  have a1: "locked k \<noteq> None \<Longrightarrow> l1 k \<noteq> None" for k using conjunct1 [OF a, THEN spec, of k] by (rule mp)
  have a2: "k \<noteq> n_key u \<Longrightarrow> l1 k = locked k" for k
    using conjunct1 [OF conjunct2 [OF a], THEN spec, of k] by (rule mp)
  have b1: "l1 k \<noteq> None \<Longrightarrow> locked' k \<noteq> None" for k using conjunct1 [OF b', THEN spec, of k] by (rule mp)
  have b2: "k \<notin> n_key ` set us \<Longrightarrow> locked' k = l1 k" for k
    using conjunct1 [OF conjunct2 [OF b'], THEN spec, of k] by (rule mp)
  have keep: "\<forall>k. locked k \<noteq> None \<longrightarrow> locked' k \<noteq> None" by (intro allI impI b1 a1)
  have frame: "\<forall>k. k \<notin> n_key ` set (u # us) \<longrightarrow> locked' k = locked k"
  proof (intro allI impI)
    fix k assume "k \<notin> n_key ` set (u # us)"
    then have "k \<notin> n_key ` set us" "k \<noteq> n_key u" by simp_all
    then show "locked' k = locked k" using b2 [of k] a2 [of k] by (metis (no_types))
  qed
  have "\<forall>due. n_due x = Some due \<longrightarrow> n_entity_type x \<in> {TYPE_TASK, TYPE_USERSTORY} \<longrightarrow>
          locked (n_key x) \<noteq> None \<longrightarrow> locked' (n_key x) = Some due" if x: "x \<in> set (u # us)" for x
  proof (cases "x = u")
    case True
    have "locked' (n_key u) = l1 (n_key u)" by (rule b2 [OF d(1)])
    then show ?thesis using conjunct2 [OF conjunct2 [OF a]] True by simp
  next
    case False
    then have mem: "x \<in> set us" using x by simp
    show ?thesis
      using bspec [OF conjunct2 [OF conjunct2 [OF b']] mem] a1 [of "n_key x"] by auto
  qed
  then show ?case using keep frame by (intro conjI ballI)
qed

text \<open>
  What the writes leave: the named items have a schedule with the given values (over the one
  they had, or over an empty one), the schedules of all other items are those of before, and
  of the rows of tasks and user stories only due dates change.
\<close>

definition same_project :: "db \<Rightarrow> db \<Rightarrow> bool" where
  "same_project s t \<longleftrightarrow> dependencies t = dependencies s \<and> epics t = epics s \<and> relateds t = relateds s
     \<and> task_keys t = task_keys s \<and> story_keys t = story_keys s"

definition bulk_written :: "int \<Rightarrow> nupdate \<Rightarrow> db \<Rightarrow> db \<Rightarrow> bool" where
  "bulk_written p u s t \<longleftrightarrow> (\<exists>b. find_schedule (n_entity_type u) (n_entity_id u) t = Some (set_values p (update_values u) b)
     \<and> (\<forall>old. find_schedule (n_entity_type u) (n_entity_id u) s = Some old \<longrightarrow> b = old))"

lemma apply_one_spec:
  assumes av: "available s" and wf: "wf_db s" and valid: "valid_update u"
    and run: "apply_one p u locked s = (Inr l1, s1)"
  shows "available s1" and "wf_db s1" and "same_project s s1" and "bulk_written p u s s1"
    and "(et, eid) \<noteq> n_key u \<Longrightarrow> find_schedule et eid s1 = find_schedule et eid s"
proof -
  have et: "n_entity_type u \<in> {TYPE_EPIC, TYPE_USERSTORY, TYPE_TASK}" using valid by (simp add: valid_update_def)
  obtain s0 where up: "upsert_schedule (n_entity_type u) (n_entity_id u) p (update_values u) s
      = (Inr (Some (set_values p (update_values u) (base_schedule (n_entity_type u) (n_entity_id u) p s))), s0)"
    and wf0: "wf_db s0" and only: "sched_only s s0"
    and find: "\<forall>et' eid'. find_schedule et' eid' s0 = (if (et', eid') = n_key u
           then Some (set_values p (update_values u) (base_schedule (n_entity_type u) (n_entity_id u) p s))
           else find_schedule et' eid' s)"
    by (rule upsert_spec [OF av wf et, of "n_entity_id u" p "update_values u"])
  have down: "down s0 = []" using av only by (simp add: available_def sched_only_def)
  have s1: "schedules s1 = schedules s0 \<and> down s1 = down s0 \<and> same_project s0 s1 \<and> wf_db s1"
    using run up down wf0
    by (auto simp: apply_one_def bindE_apply retE_apply update_task_row_def update_userstory_row_def same_project_def
        task_keys_def story_keys_def map_upd_where comp_def split: option.splits if_splits cong: wf_db_cong)
  have found: "find_schedule et' eid' s1 = find_schedule et' eid' s0" for et' eid'
    using s1 by (simp add: find_schedule_def)
  show "available s1" "wf_db s1" using s1 down by (simp_all add: available_def)
  show "same_project s s1" using s1 sched_only_keys [OF only] by (simp add: same_project_def)
  show "bulk_written p u s s1"
    using find by (auto simp: bulk_written_def found base_schedule_def)
  show "(et, eid) \<noteq> n_key u \<Longrightarrow> find_schedule et eid s1 = find_schedule et eid s"
    using find by (auto simp: found)
qed

lemma apply_spec:
  "available s \<Longrightarrow> wf_db s \<Longrightarrow> \<forall>u \<in> set us. valid_update u \<Longrightarrow> distinct (map n_key us) \<Longrightarrow>
     apply_schedule_bulk_updates p us locked s = (Inr l1, s1) \<Longrightarrow>
     wf_db s1 \<and> same_project s s1 \<and> (\<forall>u \<in> set us. bulk_written p u s s1)
     \<and> (\<forall>et eid. (et, eid) \<notin> n_key ` set us \<longrightarrow> find_schedule et eid s1 = find_schedule et eid s)"
proof (induction us arbitrary: locked s)
  case (Cons u us)
  obtain l0 s0 where one: "apply_one p u locked s = (Inr l0, s0)"
    and rest: "apply_schedule_bulk_updates p us l0 s0 = (Inr l1, s1)"
    using Cons.prems(5) by (auto simp: bindE_Inr)
  have valid: "valid_update u" and us: "\<forall>u \<in> set us. valid_update u" "distinct (map n_key us)"
    and fresh: "n_key u \<notin> n_key ` set us" using Cons.prems(3,4) by auto
  note a = apply_one_spec [OF Cons.prems(1,2) valid one]
  note b = Cons.IH [OF a(1,2) us rest]
  have "find_schedule (n_entity_type u) (n_entity_id u) s1 = find_schedule (n_entity_type u) (n_entity_id u) s0"
    using b fresh by blast
  then have first: "bulk_written p u s s1" using a(4) by (simp add: bulk_written_def)
  have later: "bulk_written p w s s1" if w: "w \<in> set us" for w
  proof -
    have "n_key u \<noteq> n_key w"
    proof
      assume "n_key u = n_key w"
      then have "n_key u \<in> n_key ` set us" by (rule image_eqI) (rule w)
      with fresh show False by contradiction
    qed
    then have "find_schedule (n_entity_type w) (n_entity_id w) s0 = find_schedule (n_entity_type w) (n_entity_id w) s"
      by (intro a(5)) (rule not_sym)
    moreover have "bulk_written p w s0 s1" using b w by blast
    ultimately show ?thesis by (simp add: bulk_written_def)
  qed
  have other: "find_schedule et eid s1 = find_schedule et eid s" if "(et, eid) \<notin> n_key ` set (u # us)" for et eid
  proof -
    have "(et, eid) \<notin> n_key ` set us" "(et, eid) \<noteq> n_key u" using that by auto
    moreover from this(1) have "find_schedule et eid s1 = find_schedule et eid s0" using b by blast
    ultimately show ?thesis using a(5) by simp
  qed
  have "same_project s s1" using a(3) b by (simp add: same_project_def)
  moreover have "\<forall>w \<in> set (u # us). bulk_written p w s s1" using first later by simp
  ultimately show ?case using b other by (intro conjI allI impI) simp_all
qed (auto simp: same_project_def retE_apply)

section \<open>Validation\<close>

lemma refuse_ok: "refuse check s = Inr () \<longleftrightarrow> check s = Inr None"
  by (auto simp: refuse_def bindQ_apply split: sum.split option.split)

lemma validate_all: "validate_schedule_bulk_updates locked us s = Inr () \<longleftrightarrow> (\<forall>u \<in> set us. validate_one locked u s = Inr ())"
  by (induction us) (auto simp: bindQ_apply split: sum.splits)

lemma validation_obj_ok:
  assumes "available s" and "et \<in> {TYPE_EPIC, TYPE_USERSTORY, TYPE_TASK}"
    and "build_schedule_validation_obj et i locked s = Inr obj"
  obtains r where "find_schedule et i s = Some r" and "ob_id obj = Some i"
    and "get_proposed_bounds_for_entity obj et s = Inr (get_effective_start (Some r),
          if et = TYPE_EPIC then s_due_date r else getattr_or_none (locked (et, i)))"
    and "ob_user_story_id obj = None" and "ob_user_story obj = None"
proof -
  obtain r where r: "find_schedule et i s = Some r"
    using assms by (auto simp: build_schedule_validation_obj_def bindQ_apply get_schedule_ok split: option.splits)
  then have obj: "obj = \<lparr>ob_id = Some i, ob_actual_start = Some (s_actual_start r),
             ob_estimated_start = Some (s_estimated_start r),
             ob_due_date = Some (if et = TYPE_EPIC then s_due_date r else getattr_or_none (locked (et, i))),
             ob_user_story_id = None, ob_user_story = None\<rparr>"
    using assms by (simp add: build_schedule_validation_obj_def bindQ_apply get_schedule_ok)
  have "\<exists>x. (if i \<noteq> 0 then get_schedule et i else retQ None) s = Inr x"
    using assms by (simp add: get_schedule_ok)
  then have "get_proposed_bounds_for_entity obj et s = Inr (get_effective_start (Some r),
          if et = TYPE_EPIC then s_due_date r else getattr_or_none (locked (et, i)))"
    by (auto simp: get_proposed_bounds_for_entity_def bindQ_apply obj resolve_effective_start_def
        get_effective_start_def getattr_or_none_def split: if_splits)
  then show thesis using r obj by (intro that) simp_all
qed

text \<open>What one accepted update means in the state it was validated in.\<close>

definition starts_after_sources :: "schedule \<Rightarrow> db \<Rightarrow> bool" where
  "starts_after_sources r s \<longleftrightarrow> (\<forall>x \<in> set (incoming_sources (s_id r) s).
     \<exists>c. get_effective_start (Some r) = Some c \<and> (\<forall>d. s_due_date x = Some d \<longrightarrow> d < c))"

lemma refused_dependency:
  assumes "available s" and "et \<in> {TYPE_EPIC, TYPE_USERSTORY, TYPE_TASK}"
    and "ob_id obj = Some i" and "i \<noteq> 0" and "find_schedule et i s = Some r"
    and "get_proposed_bounds_for_entity obj et s = Inr (get_effective_start (Some r), due)"
    and "get_dependency_start_violation_error (Some obj) et s = Inr None"
  shows "starts_after_sources r s"
  using assms(7) unfolding dependency_start_violation_iff [OF assms(1-6)] starts_after_sources_def
  by (auto simp: source_dues_def present_map split: if_splits option.splits)

lemma validate_one_means:
  assumes av: "available s" and valid: "valid_update u" and ok: "validate_one locked u s = Inr ()"
  shows "\<exists>r. find_schedule (n_entity_type u) (n_entity_id u) s = Some r \<and> starts_after_sources r s
     \<and> (n_entity_type u = TYPE_USERSTORY \<longrightarrow> (\<forall>c \<in> set (task_children (n_entity_id u) s).
            contains (get_effective_start (Some r), getattr_or_none (locked (n_key u))) c))
     \<and> (n_entity_type u = TYPE_EPIC \<longrightarrow> (\<forall>c \<in> set (story_children (n_entity_id u) s).
            contains (get_effective_start (Some r), s_due_date r) c))"
proof -
  have et: "n_entity_type u \<in> {TYPE_EPIC, TYPE_USERSTORY, TYPE_TASK}" and nz: "n_entity_id u \<noteq> 0"
    using valid by (auto simp: valid_update_def)
  obtain obj where obj: "build_schedule_validation_obj (n_entity_type u) (n_entity_id u) locked s = Inr obj"
    using ok by (auto simp: validate_one_def bindQ_apply split: sum.splits)
  from av et obj show ?thesis
  proof (rule validation_obj_ok)
    fix r assume r: "find_schedule (n_entity_type u) (n_entity_id u) s = Some r"
      and oid: "ob_id obj = Some (n_entity_id u)"
      and b: "get_proposed_bounds_for_entity obj (n_entity_type u) s = Inr (get_effective_start (Some r),
          if n_entity_type u = TYPE_EPIC then s_due_date r
          else getattr_or_none (locked (n_entity_type u, n_entity_id u)))"
    have dep: "get_dependency_start_violation_error (Some obj) (n_entity_type u) s = Inr None"
      using ok obj et by (auto simp: validate_one_def bindQ_apply refuse_ok split: sum.splits if_splits)
    have after: "starts_after_sources r s"
      by (rule refused_dependency [OF av et oid nz r b dep])
    have story: "\<forall>c \<in> set (task_children (n_entity_id u) s).
            contains (get_effective_start (Some r), getattr_or_none (locked (n_key u))) c"
      if us: "n_entity_type u = TYPE_USERSTORY"
    proof -
      have "get_userstory_bounds_violation_error (Some obj) s = Inr None"
        using ok obj us by (auto simp: validate_one_def bindQ_apply refuse_ok split: sum.splits)
      then show ?thesis
        using task_bounds_violation_iff [OF av nz, of MSG_STORY_START
            "(get_effective_start (Some r), getattr_or_none (locked (n_key u)))"] b oid nz us
        by (auto simp: get_userstory_bounds_violation_error_def truthy_def bindQ_apply)
    qed
    have epic: "\<forall>c \<in> set (story_children (n_entity_id u) s). contains (get_effective_start (Some r), s_due_date r) c"
      if ep: "n_entity_type u = TYPE_EPIC"
    proof -
      have "get_epic_bounds_violation_error (Some obj) s = Inr None"
        using ok obj ep by (auto simp: validate_one_def bindQ_apply refuse_ok split: sum.splits)
      then show ?thesis
        using story_bounds_violation_iff [OF av nz, of MSG_EPIC_START
            "(get_effective_start (Some r), s_due_date r)"] b oid nz ep
        by (auto simp: get_epic_bounds_violation_error_def truthy_def bindQ_apply)
    qed
    show ?thesis using r after story epic by blast
  qed
qed

end
