(* ===== verification/Schedule_Propagate_Props.thy ===== *)
theory Schedule_Propagate_Props
  imports Schedule_Propagate_Facts Schedule_Demo_Facts
begin

text \<open>
  The properties of \<open>upsert_schedule\<close>, of the shift and of the propagation, each with a
  witness on the demonstration project.
\<close>

text \<open>C24: An upsert on an available database returns the schedule of the item with exactly the
  given values set (all others kept, or empty when the row is new), stores that same row,
  leaves the schedule of every other item and all other tables alone, and keeps the table
  invariants, the gap-free order included.\<close>

theorem upsert_schedule_correct:
  assumes "available s" and "wf_db s" and "et \<in> {TYPE_EPIC, TYPE_USERSTORY, TYPE_TASK}"
  shows "\<exists>s' r. upsert_schedule et eid p v s = (Inr (Some r), s')
     \<and> (let old = base_schedule et eid p s; set = (\<lambda>new was. case new of None \<Rightarrow> was | Some x \<Rightarrow> x);
            set_color = (\<lambda>new was. case new of None \<Rightarrow> was | Some x \<Rightarrow> x) in
        r = old\<lparr>s_project_id := p, s_created_date := set (v_created_date v) (s_created_date old),
              s_due_date := set (v_due_date v) (s_due_date old),
              s_estimated_start := set (v_estimated_start v) (s_estimated_start old),
              s_actual_start := set (v_actual_start v) (s_actual_start old),
              s_color := set_color (v_color v) (s_color old)\<rparr>)
     \<and> find_schedule et eid s' = Some r
     \<and> (\<forall>et' eid'. (et', eid') \<noteq> (et, eid) \<longrightarrow> find_schedule et' eid' s' = find_schedule et' eid' s)
     \<and> sched_only s s' \<and> wf_db s'"
  by (rule upsert_spec [OF assms, of eid p v]) (auto simp: set_values_def given_def [abs_def] Let_def)

theorem upsert_schedule_correct_witness:
  "\<exists>s' r. upsert_schedule TYPE_TASK 31 1 (no_values\<lparr>v_due_date := Some (Some 18)\<rparr>) demo_db = (Inr (Some r), s')
     \<and> s_due_date r = Some 18 \<and> s_estimated_start r = Some 13 \<and> find_schedule TYPE_TASK 31 s' = Some r"
proof -
  have "TYPE_TASK \<in> {TYPE_EPIC, TYPE_USERSTORY, TYPE_TASK}" by simp
  from upsert_schedule_correct [OF demo_available demo_wf this,
      of 31 1 "no_values\<lparr>v_due_date := Some (Some 18)\<rparr>"]
  show ?thesis
    by (elim ex_forward conjE) (simp add: base_schedule_def demo_find no_values_def Let_def)
qed

section \<open>Shifting\<close>

lemma find_schedule_id_mem:
  "schedules_ok s \<Longrightarrow> r \<in> set (schedules s) \<Longrightarrow> find_schedule_id (s_id r) s = Some r"
  by (simp add: find_schedule_id_def schedules_ok_def find_unique)

lemma upd_where_hit:
  "x \<in> set (upd_where P f rows) \<Longrightarrow> P x \<Longrightarrow> (\<And>r. P (f r) = P r) \<Longrightarrow> (\<And>r. g (f r) = v) \<Longrightarrow> g x = v"
  unfolding upd_where_def set_map by (erule imageE) metis

lemma find_id_upd:
  "(\<And>x. s_id (f x) = s_id x) \<Longrightarrow> find (\<lambda>r. s_id r = i) (upd_where (\<lambda>r. s_id r = j) f rows)
     = (if i = j then map_option f (find (\<lambda>r. s_id r = i) rows) else find (\<lambda>r. s_id r = i) rows)"
  by (induction rows) (auto simp: upd_where_def)

text \<open>
  The due date after a shift to \<open>req\<close>: the duration is kept; a due date before the start counts
  as a duration of zero, and without a start the due date only gives way to the new start.
\<close>

definition shifted_due_date :: "schedule \<Rightarrow> date \<Rightarrow> date option" where
  "shifted_due_date sched req = (case s_due_date sched of
     None \<Rightarrow> None
   | Some d \<Rightarrow> Some (case get_effective_start (Some sched) of Some c \<Rightarrow> req + max (d - c) 0 | None \<Rightarrow> max d req))"

lemma shifted_due_eq:
  "(\<And>d. shifted_due_date sched req = Some d \<Longrightarrow> d \<le> DATE_MAX) \<Longrightarrow> shifted_due sched req
     = Inr (if shifted_due_date sched req = s_due_date sched then None else shifted_due_date sched req)"
  by (auto simp: shifted_due_def shifted_due_date_def add_days_def split: option.split)

text \<open>The row of the schedule after the shift, and the row of its item when the due date moves.\<close>

lemma update_entity_run:
  assumes "available s" and "s_entity_type sched \<in> {TYPE_USERSTORY, TYPE_TASK}" and "s_entity_id sched \<noteq> 0"
  shows "update_entity_due_date_for_schedule sched due s = (Inr (), s\<lparr>
      tasks := map (\<lambda>t. if s_entity_type sched = TYPE_TASK \<and> t_id t = s_entity_id sched
                 then t\<lparr>t_due_date := due\<rparr> else t) (tasks s),
      userstories := map (\<lambda>u. if s_entity_type sched = TYPE_USERSTORY \<and> us_id u = s_entity_id sched
                 then u\<lparr>us_due_date := due\<rparr> else u) (userstories s)\<rparr>)"
  using assms by (auto simp: available_def update_entity_due_date_for_schedule_def update_userstory_row_def
      update_task_row_def on_db_apply upd_where_def)

text \<open>C21: A schedule of a user story or task that starts before the start its dependencies
  require is moved to start exactly then (on the actual start when it has one, else on the
  estimated), keeping its duration (a due date before the start counts as no duration, and
  one without a start only gives way to the new start). The new due date is written to the
  row of this one user story or task, to no other row, and only when it differs from the
  old one; every other schedule, user story and task and every other table stays as it was.
  A schedule that already starts late enough is left alone. (The schedule of an epic with a
  due date cannot be shifted: see \<open>shifting_epic_fails\<close>.)\<close>

theorem shift_schedule_correct:
  assumes "available s" and "wf_db s" and "sched \<in> set (schedules s)"
    and "s_entity_type sched \<in> {TYPE_USERSTORY, TYPE_TASK}" and "s_entity_id sched \<noteq> 0"
    and "\<And>d. shifted_due_date sched req = Some d \<Longrightarrow> d \<le> DATE_MAX"
  shows "if \<exists>c. get_effective_start (Some sched) = Some c \<and> req \<le> c
     then shift_schedule_forward_to_start (Some sched) (Some req) s = (Inr (False, False), s)
     else let due = shifted_due_date sched req; moved = (due \<noteq> s_due_date sched) in
       \<exists>s' r. shift_schedule_forward_to_start (Some sched) (Some req) s = (Inr (True, moved), s')
       \<and> find_schedule_id (s_id sched) s' = Some r
       \<and> r = sched\<lparr>s_actual_start := if s_actual_start sched = None then None else Some req,
              s_estimated_start := if s_actual_start sched = None then Some req else s_estimated_start sched,
              s_due_date := due\<rparr>
       \<and> (\<forall>i. i \<noteq> s_id sched \<longrightarrow> find_schedule_id i s' = find_schedule_id i s)
       \<and> tasks s' = map (\<lambda>t. if moved \<and> s_entity_type sched = TYPE_TASK \<and> t_id t = s_entity_id sched
              then t\<lparr>t_due_date := due\<rparr> else t) (tasks s)
       \<and> userstories s' = map (\<lambda>u. if moved \<and> s_entity_type sched = TYPE_USERSTORY \<and> us_id u = s_entity_id sched
              then u\<lparr>us_due_date := due\<rparr> else u) (userstories s)
       \<and> s' = s\<lparr>schedules := schedules s', tasks := tasks s', userstories := userstories s'\<rparr>"
proof (cases "\<exists>c. get_effective_start (Some sched) = Some c \<and> req \<le> c")
  case True
  then show ?thesis by (auto simp: shift_schedule_forward_to_start_def retE_apply)
next
  case False
  let ?due = "shifted_due_date sched req"
  define f where f: "f = shift_row req (s_actual_start sched \<noteq> None) (if ?due = s_due_date sched then None else ?due)"
  define s1 where s1: "s1 = s\<lparr>schedules := upd_where (\<lambda>r. s_id r = s_id sched) f (schedules s)\<rparr>"
  have row: "f sched = sched\<lparr>s_actual_start := if s_actual_start sched = None then None else Some req,
      s_estimated_start := if s_actual_start sched = None then Some req else s_estimated_start sched,
      s_due_date := ?due\<rparr>"
    by (cases sched) (auto simp: f shift_row_def shifted_due_date_def split: option.splits)
  have ok: "schedules_ok s" using assms(2) by (simp add: wf_db_def table_inv_def)
  have find: "find_schedule_id i s1 = (if i = s_id sched then Some (f sched) else find_schedule_id i s)" for i
    using find_schedule_id_mem [OF ok assms(3)]
    by (simp add: find_schedule_id_def s1 find_id_upd f)
  have early: "\<not> (case get_effective_start (Some sched) of Some c \<Rightarrow> c \<ge> req | None \<Rightarrow> False)"
    using False by (auto split: option.split)
  have av: "available s1" and down: "down s = []" using assms(1) by (simp_all add: available_def s1)
  have store: "stored (update_schedule_row (s_id sched) g) s
      = (Inr True, s\<lparr>schedules := upd_where (\<lambda>r. s_id r = s_id sched) g (schedules s)\<rparr>)" for g
    using down by (simp add: stored_def on_db_apply bindE_apply update_schedule_row_def retE_apply)
  have shift: "shift_schedule_forward_to_start (Some sched) (Some req) s
      = (case (if ?due = s_due_date sched then None else ?due) of None \<Rightarrow> (Inr (True, False), s1)
         | Some due \<Rightarrow> bindE (update_entity_due_date_for_schedule sched (Some due)) (\<lambda>_. retE (True, True)) s1)"
    using early by (simp add: shift_schedule_forward_to_start_def bindE_lift shifted_due_eq [OF assms(6)]
        bindE_apply [of "stored _"] store retE_apply s1 f split: option.split)
  show ?thesis
  proof (cases "?due = s_due_date sched")
    case True
    then have "shift_schedule_forward_to_start (Some sched) (Some req) s = (Inr (True, False), s1)" using shift by simp
    then show ?thesis using False True find row by (simp add: s1)
  next
    case moved: False
    then obtain due where due: "?due = Some due" by (auto simp: shifted_due_date_def split: option.splits)
    note entity = update_entity_run [OF av assms(4,5), of "Some due"]
    have "shift_schedule_forward_to_start (Some sched) (Some req) s
        = (Inr (True, True), snd (update_entity_due_date_for_schedule sched (Some due) s1))"
      using shift moved due entity by (simp add: bindE_apply retE_apply)
    then show ?thesis using False moved due find row entity by (simp add: s1 find_schedule_id_def)
  qed
qed

theorem shift_schedule_correct_witness:
  "\<exists>s' r. shift_schedule_forward_to_start (Some (mk_schedule 5 TYPE_TASK 31 (Some 13) (Some 15))) (Some 17) demo_db
      = (Inr (True, True), s') \<and> s_due_date r = Some 19 \<and> find_schedule_id 5 s' = Some r
      \<and> map t_due_date (tasks s') = map (\<lambda>t. if t_id t = 31 then Some 19 else t_due_date t) (tasks demo_db)"
proof -
  let ?r = "mk_schedule 5 TYPE_TASK 31 (Some 13) (Some 15)"
  have mem: "?r \<in> set (schedules demo_db)" using find_schedule_type [OF demo_find(5)] by simp
  have due: "shifted_due_date ?r 17 = Some 19" by (simp add: shifted_due_date_def get_effective_start_def)
  show ?thesis
    using shift_schedule_correct [OF demo_available demo_wf mem, of 17]
    by (auto simp: due get_effective_start_def DATE_MAX_def Let_def)
qed

section \<open>Propagation\<close>

text \<open>C22: Whatever the project looks like and however the run ends (also by an exception),
  pushing dates forward along the dependencies never loses a schedule, never moves a due
  date earlier, and leaves the dependencies, the epics and their relations, colors and
  creation dates as they were.\<close>

theorem propagation_only_postpones:
  assumes "wf_db s" and "r \<in> set (schedules s)"
    and "propagate_dependency_chain_forward_from_schedule depth i s = (res, s')"
  shows "wf_db s' \<and> dependencies s' = dependencies s \<and> epics s' = epics s \<and> relateds s' = relateds s
     \<and> (\<exists>r' \<in> set (schedules s'). s_id r' = s_id r \<and> s_entity_type r' = s_entity_type r
          \<and> s_entity_id r' = s_entity_id r \<and> s_color r' = s_color r \<and> s_created_date r' = s_created_date r
          \<and> (\<forall>d. s_due_date r = Some d \<longrightarrow> (\<exists>d'. s_due_date r' = Some d' \<and> d \<le> d')))"
proof -
  have "postpones s s'" using obeysD2 [OF propagate_postpones assms(3)] .
  then show ?thesis
    using assms(1,2) by (simp add: postpones_def rows_later_def row_later_def due_le_def)
qed

theorem propagation_only_postpones_witness:
  "\<exists>r' \<in> set (schedules (snd (propagate_dependency_chain_forward_from_schedule 5 2 demo_db))).
     s_id r' = 3 \<and> (\<exists>d'. s_due_date r' = Some d' \<and> 20 \<le> d')"
proof -
  have mem: "mk_schedule 3 TYPE_USERSTORY 21 (Some 16) (Some 20) \<in> set (schedules demo_db)"
    using find_schedule_type [OF demo_find(3)] by simp
  obtain res s' where run: "propagate_dependency_chain_forward_from_schedule 5 2 demo_db = (res, s')"
    by (cases "propagate_dependency_chain_forward_from_schedule 5 2 demo_db")
  from propagation_only_postpones [OF demo_wf mem run] show ?thesis
    by (auto simp: run)
qed

text \<open>Shifting the schedule of an epic that has a due date always fails: the code writes the
  new due date to the epic as well, which has no such column, and the exception this raises
  is not one the code expects.\<close>

theorem shifting_epic_fails:
  assumes "available s" and "s_entity_type sched = TYPE_EPIC" and "s_entity_id sched \<noteq> 0"
    and "get_effective_start (Some sched) = Some c" and "c < req"
    and "s_due_date sched = Some d" and "req + max (d - c) 0 \<le> DATE_MAX"
  shows "fst (shift_schedule_forward_to_start (Some sched) (Some req) s) = Inl (FieldDoesNotExist ''due_date'')"
proof -
  have "shifted_due sched req = Inr (Some (req + max (d - c) 0))"
    using assms by (auto simp: shifted_due_def add_days_def)
  then show ?thesis
    using assms by (simp add: shift_schedule_forward_to_start_def bindE_lift stored_def on_db_apply bindE_apply
        update_schedule_row_def retE_apply available_def update_entity_due_date_for_schedule_def raiseE_apply)
qed

theorem shifting_epic_fails_witness:
  "fst (shift_schedule_forward_to_start (Some (mk_schedule 1 TYPE_EPIC 10 (Some 10) (Some 20))) (Some 12) demo_db)
     = Inl (FieldDoesNotExist ''due_date'')"
  by (rule shifting_epic_fails [where c = 10 and d = 20])
    (simp_all add: get_effective_start_def DATE_MAX_def)

section \<open>Widening the epic of a user story\<close>

text \<open>After a change of a user story its primary epic starts at the earlier of its own
  start and the start of the story (which is the very start the ancestor check examined
  before the change) and ends at the later of the two due dates; its other dates, colors
  and project stay, every other schedule and all other tables too.\<close>

theorem ensure_epic_bounds_correct:
  assumes "available s" and "wf_db s" and "us \<noteq> 0" and "find_userstory us s = Some u"
    and "get_primary_epic_relation us s = Inr (Some (rel, ep))" and "e_project_id ep = s_project_id es"
    and "find_schedule TYPE_EPIC (e_id ep) s = Some es" and "outgoing_target_ids (s_id es) s = []"
  shows "\<exists>s' es'. ensure_epic_bounds_for_userstory (propagate_dependency_chain_forward_from_schedule (Suc depth)) us s
        = (Inr (), s')
     \<and> find_schedule TYPE_EPIC (e_id ep) s' = Some es'
     \<and> get_effective_start (Some es') = expand_parent_start (get_effective_start (Some es))
          (get_effective_start (find_schedule TYPE_USERSTORY us s))
     \<and> s_due_date es' = later_due (s_due_date es)
          (get_due_from_schedule_or_fallback (find_schedule TYPE_USERSTORY us s) (us_due_date u))
     \<and> s_color es' = s_color es \<and> s_project_id es' = s_project_id es
     \<and> (\<forall>et eid. (et, eid) \<noteq> (TYPE_EPIC, e_id ep) \<longrightarrow> find_schedule et eid s' = find_schedule et eid s)
     \<and> sched_only s s' \<and> wf_db s'"
proof -
  have uid: "us_id u = us" using assms(4) by (auto simp: find_userstory_def dest: find_Some_mem)
  let ?cs = "get_effective_start (find_schedule TYPE_USERSTORY us s)"
  let ?cd = "get_due_from_schedule_or_fallback (find_schedule TYPE_USERSTORY us s) (us_due_date u)"
  define v where v: "v = build_expand_bounds_updates (Some es) None ?cs ?cd"
  let ?call = "propagate_dependency_chain_forward_from_schedule (Suc depth)"
  have fb: "get_due_from_schedule_or_fallback (Some r) None = s_due_date r" for r
    by (simp add: get_due_from_schedule_or_fallback_def split: option.split)
  have start: "ensure_epic_bounds_for_userstory ?call us s = (if v = no_values then retE ()
      else bindE (upsert_schedule TYPE_EPIC (e_id ep) (e_project_id ep) v)
             (\<lambda>_. propagate_dependency_chain_forward ?call TYPE_EPIC (e_id ep))) s"
    using assms by (simp add: ensure_epic_bounds_for_userstory_def bindE_lift on_dbQ_apply uid get_schedule_ok
        v Let_def)
  show ?thesis
  proof (cases "v = no_values")
    case True
    then show ?thesis
      using start expand_none [of es None ?cs ?cd] assms(2,7)
      by (intro exI [of _ s] exI [of _ es]) (simp add: retE_apply fb v sched_only.refl)
  next
    case False
    have "TYPE_EPIC \<in> {TYPE_EPIC, TYPE_USERSTORY, TYPE_TASK}" by simp
    then show ?thesis
    proof (rule upsert_spec [OF assms(1,2), of TYPE_EPIC "e_id ep" "e_project_id ep" v])
      fix s' assume run: "upsert_schedule TYPE_EPIC (e_id ep) (e_project_id ep) v s
          = (Inr (Some (set_values (e_project_id ep) v (base_schedule TYPE_EPIC (e_id ep) (e_project_id ep) s))), s')"
        and wf: "wf_db s'" and only: "sched_only s s'"
        and find: "\<forall>et' eid'. find_schedule et' eid' s' = (if (et', eid') = (TYPE_EPIC, e_id ep)
           then Some (set_values (e_project_id ep) v (base_schedule TYPE_EPIC (e_id ep) (e_project_id ep) s))
           else find_schedule et' eid' s)"
      define es' where es': "es' = set_values (e_project_id ep) v es"
      have base: "base_schedule TYPE_EPIC (e_id ep) (e_project_id ep) s = es"
        by (simp add: base_schedule_def assms(7))
      have av: "available s'" using assms(1) only by (simp add: available_def sched_only_def)
      have found: "find_schedule TYPE_EPIC (e_id ep) s' = Some es'" using find base by (simp add: es')
      have out: "outgoing_target_ids (s_id es') s' = []"
        using assms(8) only by (simp add: outgoing_target_ids_def sched_only_def es')
      have "propagate_dependency_chain_forward ?call TYPE_EPIC (e_id ep) s' = (Inr (), s')"
        using propagate_no_targets [OF av out] av found
        by (simp add: propagate_dependency_chain_forward_def bindE_lift get_schedule_ok)
      then have "ensure_epic_bounds_for_userstory ?call us s = (Inr (), s')"
        using start False run by (simp add: bindE_apply)
      moreover have "s_color es' = s_color es" "s_project_id es' = s_project_id es"
        using assms(6) expand_postponing [of "Some es" None ?cs ?cd]
        by (simp_all add: es' set_values_def postponing_def v)
      ultimately show ?thesis
        using found find only wf expand_exact [OF v, of "e_project_id ep"]
        by (intro exI [of _ s'] exI [of _ es']) (simp add: fb es')
    qed
  qed
qed

lemma demo_relation: "get_primary_epic_relation 21 demo_db
    = Inr (Some (\<lparr>ru_id = 2, ru_epic_id = 10, ru_user_story_id = 21, ru_order = 2\<rparr>,
                 \<lparr>e_id = 10, e_project_id = 1, e_color = ''#d00''\<rparr>))"
  by (simp add: get_primary_epic_relation_def effs story_relations_def demo_db_def)

theorem ensure_epic_bounds_correct_witness:
  "\<exists>s' es'. ensure_epic_bounds_for_userstory (propagate_dependency_chain_forward_from_schedule (Suc 3)) 21 demo_db
      = (Inr (), s') \<and> find_schedule TYPE_EPIC 10 s' = Some es' \<and> s_due_date es' = Some 20"
proof -
  have u: "find_userstory 21 demo_db = Some \<lparr>us_id = 21, us_project_id = 1, us_due_date = Some 20\<rparr>"
    by (simp add: find_userstory_def demo_db_def)
  have f: "find_schedule TYPE_EPIC (e_id \<lparr>e_id = 10, e_project_id = 1, e_color = ''#d00''\<rparr>) demo_db
      = Some (mk_schedule 1 TYPE_EPIC 10 (Some 10) (Some 20))" by (simp add: demo_find)
  have o: "outgoing_target_ids (s_id (mk_schedule 1 TYPE_EPIC 10 (Some 10) (Some 20))) demo_db = []"
    by (simp add: outgoing_target_ids_def demo_db_def)
  have "(21::int) \<noteq> 0" by simp
  note c = ensure_epic_bounds_correct [OF demo_available demo_wf this u demo_relation _ f o, of 3]
  show ?thesis
    by (rule exE [OF c], simp, elim exE conjE, intro exI conjI, assumption, simp)
      (simp add: later_due_def get_due_from_schedule_or_fallback_def demo_find)
qed

end
