(* ===== verification/Schedule_Divergence.thy ===== *)
theory Schedule_Divergence
  imports Schedule_Propagate_Props
begin

text \<open>
  A project on which propagation cannot succeed: a user story with a dependency to one of
  its own tasks. Every shift of the task widens the story, which moves the start the task
  is required to have, so the functions call each other until the Python stack or the
  calendar is exhausted.
\<close>















end
