(* ===== verification/Schedule_Bulk_Props.thy ===== *)
theory Schedule_Bulk_Props
  imports Schedule_Bulk_Facts Schedule_Divergence
begin

text \<open>The properties of the bulk operation, each with a witness on the demonstration project.\<close>

abbreviation propagate :: "nat \<Rightarrow> int \<Rightarrow> (db, unit) eff" where
  "propagate depth \<equiv> propagate_dependency_chain_forward_from_schedule depth"

text \<open>C25: Normalising a bulk request either fails with the error of its first invalid element,
  or gives valid updates sorted by entity, one per entity, each of them the last element of
  the request for its entity.\<close>

theorem normalize_bulk_correct:
  "case normalize_schedule_bulk_date_updates xs of
     Inl e \<Rightarrow> \<exists>ys x zs. xs = ys @ x # zs \<and> normalize_one x = Inl e \<and> (\<forall>y \<in> set ys. \<exists>u. normalize_one y = Inr u)
   | Inr us \<Rightarrow> sorted (map n_key us) \<and> distinct (map n_key us)
       \<and> (\<forall>u \<in> set us. valid_update u)
       \<and> (\<forall>x \<in> set xs. \<exists>u. normalize_one x = Inr u)
       \<and> (\<forall>u. u \<in> set us \<longleftrightarrow> last_with_key xs u)"
proof -
  note spec = normalize_loop_top [of xs]
  show ?thesis
  proof (cases "normalize_loop xs []")
    case (Inl e)
    then show ?thesis using spec by (simp add: normalize_schedule_bulk_date_updates_def)
  next
    case (Inr d)
    have "valid_update u" if "last_with_key xs u" for u
      using that by (auto simp: last_with_key_def intro: normalize_one_valid)
    moreover have "distinct (map n_key (sort_key n_key d))"
      using spec Inr by (auto simp: distinct_map)
    ultimately show ?thesis
      using spec Inr by (simp add: normalize_schedule_bulk_date_updates_def)
  qed
qed

lemma normalize_bulk_valid:
  "normalize_schedule_bulk_date_updates xs = Inr us \<Longrightarrow> distinct (map n_key us) \<and> (\<forall>u \<in> set us. valid_update u)"
proof -
  assume n: "normalize_schedule_bulk_date_updates xs = Inr us"
  obtain d where "normalize_loop xs [] = Inr d" "us = sort_key n_key d" "distinct (map n_key d)"
    "\<forall>u. u \<in> set d \<longleftrightarrow> last_with_key xs u"
    using n normalize_loop_top [of xs] by (auto simp: normalize_schedule_bulk_date_updates_def split: sum.splits)
  then show ?thesis
    by (auto simp: distinct_map last_with_key_def intro: normalize_one_valid)
qed

section \<open>The operation as a whole\<close>

lemma bulk_run:
  assumes "apply_schedule_dates_in_bulk call pid xs s = (Inr us, s')" and "us \<noteq> []"
  obtains p where "py_int pid = Inr p" and "1 \<le> p" and "normalize_schedule_bulk_date_updates xs = Inr us"
    and "bulk_steps call p us s = (Inr (), s')"
  using assms unfolding apply_schedule_dates_in_bulk_def
  by (auto simp: bindE_lift int_or_raise_def bindE_apply atomicE_apply retE_apply raiseE_apply
      split: sum.splits if_splits prod.splits)

text \<open>C26: A bulk update that fails, for whatever reason and at whatever step, leaves the database
  and the events to be sent exactly as they were.\<close>

theorem bulk_failure_changes_nothing:
  assumes "apply_schedule_dates_in_bulk call pid xs s = (Inl e, s')"
  shows "s' = s"
  using assms unfolding apply_schedule_dates_in_bulk_def
  by (auto simp: bindE_apply atomicE_apply retE_apply raiseE_apply
      split: sum.splits if_splits prod.splits)

theorem bulk_failure_changes_nothing_witness:
  "snd (apply_schedule_dates_in_bulk (propagate 9) (VInt 1) [NotDict] demo_db) = demo_db"
proof -
  have "apply_schedule_dates_in_bulk (propagate 9) (VInt 1) [NotDict] demo_db
      = (Inl (ValueError ''Each bulk schedule update must be an object.''), demo_db)"
    by (simp add: apply_schedule_dates_in_bulk_def bindE_lift normalize_schedule_bulk_date_updates_def
        normalize_one_def)
  from bulk_failure_changes_nothing [OF this] this show ?thesis by simp
qed

text \<open>A bulk update that names an item outside the selected project is refused before
  anything is written, with the message for that case.\<close>

theorem bulk_refuses_foreign_items:
  assumes "available s" and "py_int pid = Inr p" and "1 \<le> p"
    and "normalize_schedule_bulk_date_updates xs = Inr us" and "u \<in> set us"
    and "\<not> in_project p (n_entity_type u) (n_entity_id u) s"
  shows "apply_schedule_dates_in_bulk call pid xs s
     = (Inl (ValueError ''One or more entities do not belong to the selected project.''), s)"
proof -
  have no: "\<not> (\<forall>u \<in> set us. in_project p (n_entity_type u) (n_entity_id u) s)" using assms(5,6) by blast
  have "lock_schedule_bulk_entities p us s
       = Inl (ValueError ''One or more entities do not belong to the selected project.'')"
    using lock_ok [OF assms(1) conjunct2 [OF normalize_bulk_valid [OF assms(4)]], of p] unfolding if_not_P [OF no] .
  then show ?thesis
    using assms(2-5) by (auto simp: apply_schedule_dates_in_bulk_def bindE_lift int_or_raise_def
        bulk_steps_def bindE_apply [of "atomicE _"] atomicE_apply)
qed

definition demo_request :: "string \<Rightarrow> int \<Rightarrow> date \<Rightarrow> date \<Rightarrow> raw_item" where
  "demo_request et i start due = Dict \<lparr>in_entity_type = VStr et, in_entity_id = VInt i, in_start_field = VNone,
     in_start = Some (Some start), in_due = Some (Some due)\<rparr>"

definition demo_update :: "string \<Rightarrow> int \<Rightarrow> date \<Rightarrow> date \<Rightarrow> nupdate" where
  "demo_update et i start due = \<lparr>n_entity_type = et, n_entity_id = i, n_start_field = ''estimated_start'',
     n_start = Some (Some start), n_due = Some (Some due)\<rparr>"

lemma demo_normalize:
  "et \<in> {TYPE_EPIC, TYPE_USERSTORY, TYPE_TASK} \<Longrightarrow> 1 \<le> i \<Longrightarrow>
    normalize_schedule_bulk_date_updates [demo_request et i start due] = Inr [demo_update et i start due]"
  by (auto simp: normalize_schedule_bulk_date_updates_def normalize_one_def demo_request_def demo_update_def
      normalize_entity_type_def normalize_entity_id_def normalize_start_field_def py_int_def py_truth_def
      put_update_def)

theorem bulk_refuses_foreign_items_witness:
  "apply_schedule_dates_in_bulk (propagate 9) (VInt 2) [demo_request TYPE_TASK 31 13 14] demo_db
     = (Inl (ValueError ''One or more entities do not belong to the selected project.''), demo_db)"
proof (rule bulk_refuses_foreign_items [OF demo_available])
  show "py_int (VInt 2) = Inr 2" by (simp add: py_int_def)
  show "normalize_schedule_bulk_date_updates [demo_request TYPE_TASK 31 13 14]
      = Inr [demo_update TYPE_TASK 31 13 14]" by (rule demo_normalize) simp_all
  show "\<not> in_project 2 (n_entity_type (demo_update TYPE_TASK 31 13 14))
      (n_entity_id (demo_update TYPE_TASK 31 13 14)) demo_db"
    by (simp add: in_project_def demo_update_def demo_db_def)
qed simp_all

lemma emit_same: "obeys (same (\<lambda>s. (schedules s, dependencies s, tasks s, userstories s, relateds s)))
    (emit_schedule_bulk_change_events p us)"
proof -
  have "obeys (same (\<lambda>s. (schedules s, dependencies s, tasks s, userstories s, relateds s)))
      (emit_event_for_ids ids ct p)" for ids ct
    by (rule obeysI) (simp add: emit_event_for_ids_def same_def)
  then show ?thesis
    unfolding emit_schedule_bulk_change_events_def Let_def
    by (auto intro!: same.obeys_rules split: prod.split)
qed

lemma emit_epics: "obeys (same (\<lambda>s. epics s)) (emit_schedule_bulk_change_events p us)"
proof -
  have "obeys (same (\<lambda>s. epics s)) (emit_event_for_ids ids ct p)" for ids ct
    by (rule obeysI) (simp add: emit_event_for_ids_def same_def)
  then show ?thesis
    unfolding emit_schedule_bulk_change_events_def Let_def
    by (auto intro!: same.obeys_rules split: prod.split)
qed

text \<open>From the written values to the end of the operation.\<close>

definition row_ends :: "int \<Rightarrow> nupdate \<Rightarrow> db \<Rightarrow> schedule \<Rightarrow> bool" where
  "row_ends p u s r \<longleftrightarrow> (\<forall>d. n_due u = Some (Some d) \<longrightarrow> (\<exists>d'. s_due_date r = Some d' \<and> d \<le> d'))
     \<and> (\<forall>old. find_schedule (n_entity_type u) (n_entity_id u) s = Some old \<longrightarrow>
          s_id r = s_id old \<and> s_color r = s_color old \<and> s_created_date r = s_created_date old)"

lemma written_later:
  assumes "bulk_written p u s s1" and "wf_db s1" and "postpones s1 s2"
    and "find_schedule (n_entity_type u) (n_entity_id u) s2 = Some r"
  shows "row_ends p u s r"
proof -
  obtain b where b: "find_schedule (n_entity_type u) (n_entity_id u) s1 = Some (set_values p (update_values u) b)"
    and old: "\<forall>old. find_schedule (n_entity_type u) (n_entity_id u) s = Some old \<longrightarrow> b = old"
    using assms(1) by (auto simp: bulk_written_def)
  have "row_later (set_values p (update_values u) b) r" using find_later [OF assms(2,3) b] assms(4) by simp
  then show ?thesis using old
    by (auto simp: row_ends_def row_later_def set_values_def update_values_def due_le_def given_def no_values_def Let_def
        split: option.splits)
qed

lemma bulk_end_state:
  assumes spec: "wf_db s1 \<and> same_project s s1 \<and> (\<forall>u \<in> set us. bulk_written p u s s1)
     \<and> (\<forall>et eid. (et, eid) \<notin> n_key ` set us \<longrightarrow> find_schedule et eid s1 = find_schedule et eid s)"
    and later: "postpones s1 s2"
    and emit: "same (\<lambda>s. (schedules s, dependencies s, tasks s, userstories s, relateds s)) s2 s'"
      "same (\<lambda>s. epics s) s2 s'" "wf_step s2 s'"
  shows "\<forall>u \<in> set us. \<forall>r. find_schedule (n_entity_type u) (n_entity_id u) s' = Some r \<longrightarrow> row_ends p u s r"
    and "\<forall>et i old. (et, i) \<notin> n_key ` set us \<and> find_schedule et i s = Some old \<longrightarrow>
       (\<exists>r. find_schedule et i s' = Some r \<and> s_id r = s_id old \<and> s_color r = s_color old
          \<and> s_created_date r = s_created_date old
          \<and> (\<forall>d. s_due_date old = Some d \<longrightarrow> (\<exists>d'. s_due_date r = Some d' \<and> d \<le> d')))"
    and "same_project s s'" and "wf_db s'"
proof -
  have same: "find_schedule et i s' = find_schedule et i s2" for et i
    using emit(1) by (simp add: same_def find_schedule_def)
  show "\<forall>u \<in> set us. \<forall>r. find_schedule (n_entity_type u) (n_entity_id u) s' = Some r \<longrightarrow> row_ends p u s r"
    using spec later written_later by (auto simp: same)
  show "\<forall>et i old. (et, i) \<notin> n_key ` set us \<and> find_schedule et i s = Some old \<longrightarrow>
       (\<exists>r. find_schedule et i s' = Some r \<and> s_id r = s_id old \<and> s_color r = s_color old
          \<and> s_created_date r = s_created_date old
          \<and> (\<forall>d. s_due_date old = Some d \<longrightarrow> (\<exists>d'. s_due_date r = Some d' \<and> d \<le> d')))"
  proof (intro allI impI)
    fix et i old assume "(et, i) \<notin> n_key ` set us \<and> find_schedule et i s = Some old"
    then have "find_schedule et i s1 = Some old" using spec by simp
    with spec later obtain r where "find_schedule et i s2 = Some r" "row_later old r" using find_later by blast
    then show "\<exists>r. find_schedule et i s' = Some r \<and> s_id r = s_id old \<and> s_color r = s_color old
          \<and> s_created_date r = s_created_date old
          \<and> (\<forall>d. s_due_date old = Some d \<longrightarrow> (\<exists>d'. s_due_date r = Some d' \<and> d \<le> d'))"
      by (intro exI [of _ r]) (auto simp: same row_later_def due_le_def)
  qed
  show "same_project s s'"
    using spec later emit by (auto simp: same_project_def postpones_def same_def task_keys_def story_keys_def)
  show "wf_db s'" using spec later emit(3) by (simp add: postpones_def wf_step_def)
qed

text \<open>C2: A bulk update that succeeds named only items of the selected project. In the state it
  leaves behind every named item has its schedule (its former one, with its color and
  creation date, when it had one) and starts after the due date of every source of its
  incoming dependencies; the due date given to it is stored, or a later one when the effects
  on dependent items moved it on; a named epic contains all its user stories, and a named
  user story that was given a due date contains all its tasks between its start and that due
  date (one given only a start is checked against its former due date, which is not stated
  here). Every item that was not named, of this project or another, keeps its schedule with
  its color and creation date, and a due date that is at most later: the effects on parents
  and dependent items. No dependency, epic, epic relation, task or user story is added,
  removed or moved to another project or story, and the table invariants hold.\<close>

theorem bulk_success_is_valid:
  assumes "available s" and "wf_db s"
    and "apply_schedule_dates_in_bulk (propagate depth) pid xs s = (Inr us, s')" and "u \<in> set us"
  shows "(\<exists>p. py_int pid = Inr p \<and> in_project p (n_entity_type u) (n_entity_id u) s)
     \<and> (\<exists>r. find_schedule (n_entity_type u) (n_entity_id u) s' = Some r \<and> starts_after_sources r s'
         \<and> (\<forall>d. n_due u = Some (Some d) \<longrightarrow> (\<exists>d'. s_due_date r = Some d' \<and> d \<le> d'))
         \<and> (\<forall>old. find_schedule (n_entity_type u) (n_entity_id u) s = Some old \<longrightarrow>
              s_id r = s_id old \<and> s_color r = s_color old \<and> s_created_date r = s_created_date old)
         \<and> (n_entity_type u = TYPE_EPIC \<longrightarrow> (\<forall>c \<in> set (story_children (n_entity_id u) s').
              contains (get_effective_start (Some r), s_due_date r) c))
         \<and> (\<forall>due. n_entity_type u = TYPE_USERSTORY \<and> n_due u = Some due \<longrightarrow>
              (\<forall>c \<in> set (task_children (n_entity_id u) s'). contains (get_effective_start (Some r), due) c)))
     \<and> (\<forall>et i old. (et, i) \<notin> n_key ` set us \<and> find_schedule et i s = Some old \<longrightarrow>
          (\<exists>r. find_schedule et i s' = Some r \<and> s_id r = s_id old \<and> s_color r = s_color old
             \<and> s_created_date r = s_created_date old
             \<and> (\<forall>d. s_due_date old = Some d \<longrightarrow> (\<exists>d'. s_due_date r = Some d' \<and> d \<le> d'))))
     \<and> same_project s s' \<and> wf_db s'"
proof -
  have "us \<noteq> []" using assms(4) by auto
  with assms(3) show ?thesis
  proof (rule bulk_run)
    fix p assume p: "py_int pid = Inr p" and norm: "normalize_schedule_bulk_date_updates xs = Inr us"
      and run: "bulk_steps (propagate depth) p us s = (Inr (), s')"
    have valid: "\<forall>u \<in> set us. valid_update u" and dist: "distinct (map n_key us)"
      using normalize_bulk_valid [OF norm] by auto
    obtain l0 l1 s1 s2 where lock: "lock_schedule_bulk_entities p us s = Inr l0"
      and app: "apply_schedule_bulk_updates p us l0 s = (Inr l1, s1)"
      and side: "sync_schedule_bulk_side_effects (propagate depth) us s1 = (Inr (), s2)"
      and val: "validate_schedule_bulk_updates l1 us s2 = Inr ()"
      and emit: "emit_schedule_bulk_change_events p us s2 = (Inr (), s')"
      using run unfolding bulk_steps_def by (auto simp: bindE_Inr)
    have inp: "\<forall>u \<in> set us. in_project p (n_entity_type u) (n_entity_id u) s"
      and l0: "\<forall>u \<in> set us. l0 (n_key u) \<noteq> None"
      using lock_ok [OF assms(1) valid, of p] lock by (auto split: if_splits)
    have due: "getattr_or_none (l1 (n_key u)) = due" if "n_entity_type u = TYPE_USERSTORY" "n_due u = Some due" for due
      using conjunct2 [OF conjunct2 [OF apply_locked [OF app dist]]] l0 assms(4) that
      by (auto simp: getattr_or_none_def)
    note spec = apply_spec [OF assms(1,2) valid dist app]
    have later: "postpones s1 s2" using obeysD2 [OF postpones_side_effects [OF propagate_postpones] side] .
    have emit_only: "same (\<lambda>s. (schedules s, dependencies s, tasks s, userstories s, relateds s)) s2 s'"
      by (rule obeysD2 [where m = "emit_schedule_bulk_change_events p us", OF emit_same emit])
    note end_state = bulk_end_state [OF spec later emit_only obeysD2 [OF emit_epics emit] obeysD2 [OF wf_events emit]]
    have av2: "available s2"
      using assms(1) obeysD2 [OF wf_apply app] later by (simp add: wf_step_def available_def postpones_def)
    have "valid_update u" and "validate_one l1 u s2 = Inr ()"
      using valid val assms(4) by (auto simp: validate_all)
    from validate_one_means [OF av2 this] obtain r where r: "find_schedule (n_entity_type u) (n_entity_id u) s2 = Some r"
        "starts_after_sources r s2"
        "n_entity_type u = TYPE_USERSTORY \<longrightarrow> (\<forall>c \<in> set (task_children (n_entity_id u) s2).
            contains (get_effective_start (Some r), getattr_or_none (l1 (n_key u))) c)"
        "n_entity_type u = TYPE_EPIC \<longrightarrow> (\<forall>c \<in> set (story_children (n_entity_id u) s2).
            contains (get_effective_start (Some r), s_due_date r) c)" by (elim exE conjE) (rule that)
    have same: "find_schedule et i s' = find_schedule et i s2" "incoming_sources i s' = incoming_sources i s2"
      "task_children i s' = task_children i s2" "story_children i s' = story_children i s2" for et i
      using emit_only unfolding same_def prod.inject
      by (simp_all only: find_schedule_def incoming_sources_def task_children_def
          story_tasks_def story_children_def epic_stories_def epic_story_ids_def)
    have "\<exists>p. py_int pid = Inr p \<and> in_project p (n_entity_type u) (n_entity_id u) s" using p inp assms(4) by blast
    moreover have "find_schedule (n_entity_type u) (n_entity_id u) s' = Some r" using r(1) same by simp
    moreover from this have "row_ends p u s r" using end_state(1) assms(4) by auto
    ultimately show ?thesis
      using r(2-4) due end_state(2-4) by (auto simp: same starts_after_sources_def row_ends_def)
  qed
qed

theorem bulk_success_is_valid_witness:
  "\<exists>s' r. find_schedule TYPE_TASK 31 s' = Some r \<and> starts_after_sources r s'
     \<and> s' = snd (apply_schedule_dates_in_bulk (propagate 9) (VInt 1) [demo_request TYPE_TASK 31 13 14] demo_db)"
proof -
  let ?run = "apply_schedule_dates_in_bulk (propagate 9) (VInt 1) [demo_request TYPE_TASK 31 13 14] demo_db"
  have "fst ?run = Inr [demo_update TYPE_TASK 31 13 14]" by code_simp
  then have run: "?run = (Inr [demo_update TYPE_TASK 31 13 14], snd ?run)" by (metis prod.collapse)
  have "demo_update TYPE_TASK 31 13 14 \<in> set [demo_update TYPE_TASK 31 13 14]" by simp
  from bulk_success_is_valid [OF demo_available demo_wf run this] show ?thesis by (auto simp: demo_update_def)
qed

theorem normalize_bulk_correct_witness:
  "last_with_key [demo_request TYPE_TASK 31 13 14] (demo_update TYPE_TASK 31 13 14)"
proof -
  have n: "normalize_schedule_bulk_date_updates [demo_request TYPE_TASK 31 13 14]
      = Inr [demo_update TYPE_TASK 31 13 14]" by (rule demo_normalize) simp_all
  show ?thesis
    using normalize_bulk_correct [of "[demo_request TYPE_TASK 31 13 14]"] unfolding n by auto
qed

section \<open>Two checks that do not do what they are for\<close>

text \<open>The ancestor check of the bulk operation never reports anything for a task: the object
  it is given has no user story, so the check finds no ancestor to examine.\<close>

theorem bulk_ancestor_check_is_vacuous:
  assumes "available s" and "build_schedule_validation_obj TYPE_TASK i locked s = Inr obj"
  shows "get_ancestor_dependency_start_violation_error (Some obj) TYPE_TASK s = Inr None"
proof -
  have "TYPE_TASK \<in> {TYPE_EPIC, TYPE_USERSTORY, TYPE_TASK}" by simp
  from assms(1) this assms(2) show ?thesis
    by (rule validation_obj_ok) (auto simp: get_ancestor_dependency_start_violation_error_def truthy_def
        bindQ_apply get_task_parent_userstory_id_def getattr_or_none_def)
qed

text \<open>A task of the second user story, which must start after the first one is due.\<close>

definition late_task_db :: db where
  "late_task_db = demo_db\<lparr>
     schedules := schedules demo_db @ [mk_schedule 6 TYPE_TASK 32 (Some 16) (Some 18)],
     item_orders := item_orders demo_db @ [mk_order 6 6 TYPE_TASK TYPE_USERSTORY 21 1],
     tasks := tasks demo_db @ [\<lparr>t_id = 32, t_project_id = 1, t_user_story_id = Some 21, t_due_date = Some 18\<rparr>],
     schedule_seq := 7, order_seq := 7\<rparr>"

theorem bulk_ancestor_check_is_vacuous_witness:
  "\<exists>obj. build_schedule_validation_obj TYPE_TASK 32 (\<lambda>_. None) late_task_db = Inr obj
     \<and> get_ancestor_dependency_start_violation_error (Some obj) TYPE_TASK late_task_db = Inr None"
proof -
  have av: "available late_task_db" by (simp add: late_task_db_def demo_db_def available_def)
  have "\<exists>r. find_schedule TYPE_TASK 32 late_task_db = Some r"
    by (simp add: late_task_db_def demo_defs find_schedule_def)
  then obtain obj where "build_schedule_validation_obj TYPE_TASK 32 (\<lambda>_. None) late_task_db = Inr obj"
    using av by (auto simp: build_schedule_validation_obj_def bindQ_apply get_schedule_ok)
  with bulk_ancestor_check_is_vacuous [OF av this] show ?thesis by blast
qed

text \<open>So a bulk update of a task can be accepted although it leaves the user story of the task
  starting before the due date of a story it depends on.\<close>

theorem bulk_breaks_story_dependency:
  "case apply_schedule_dates_in_bulk (propagate 9) (VInt 1) [demo_request TYPE_TASK 32 12 18] late_task_db of
     (Inl e, s') \<Rightarrow> False
   | (Inr us, s') \<Rightarrow>
       (case find_schedule TYPE_USERSTORY 21 s' of
          None \<Rightarrow> False
        | Some r \<Rightarrow> get_effective_start (Some r) = Some 12
            \<and> map s_due_date (incoming_sources (s_id r) s') = [Some 15])"
  by code_simp

definition story_start :: "int \<Rightarrow> date \<Rightarrow> raw_item" where
  "story_start i start = Dict \<lparr>in_entity_type = VStr TYPE_USERSTORY, in_entity_id = VInt i,
     in_start_field = VNone, in_start = Some (Some start), in_due = None\<rparr>"

text \<open>A bulk update is not equivalent to its parts: extending a task past the end of its user
  story is accepted, starting the story earlier is accepted, but both in one request are
  refused, because the story is validated with the due date it had before the request.\<close>

theorem bulk_validates_stale_due_date:
  "fst (apply_schedule_dates_in_bulk (propagate 9) (VInt 1) [demo_request TYPE_TASK 31 13 18] demo_db)
     = Inr [demo_update TYPE_TASK 31 13 18]
   \<and> fst (apply_schedule_dates_in_bulk (propagate 9) (VInt 1) [story_start 20 9]
        (snd (apply_schedule_dates_in_bulk (propagate 9) (VInt 1) [demo_request TYPE_TASK 31 13 18] demo_db)))
     = Inr [(demo_update TYPE_USERSTORY 20 9 0)\<lparr>n_due := None\<rparr>]
   \<and> fst (apply_schedule_dates_in_bulk (propagate 9) (VInt 1)
        [demo_request TYPE_TASK 31 13 18, story_start 20 9] demo_db) = Inl (ValueError MSG_BEFORE_ITEM)"
  by (intro conjI; code_simp)

end
