(* ===== verification/Schedule_System.thy ===== *)
theory Schedule_System
  imports Schedule_Model Schedule_Bulk_Props
begin

text \<open>
  Properties of the application as a whole: every sequence of its public operations and
  signals, interleaved with arbitrary changes to the other tables, keeps the invariants of
  the schedule and order tables; stored dependencies form no cycle; colors are inherited.
\<close>

section \<open>Every operation keeps the tables well formed\<close>

lemma wf_stepI: "obeys (keeps table_inv) m \<Longrightarrow> obeys orders_only m \<Longrightarrow> obeys wf_step m"
  by (auto simp: obeys_def keeps_def wf_step_def wf_db_def orders_only_iff)

lemma wf_sync: "obeys wf_step (sync_schedule_item_order et eid)"
  by (rule wf_stepI [OF sync_keeps sync_only])

lemma item_order_down_sync:
  "''item_order'' \<in> set (down s) \<Longrightarrow> sync_schedule_item_order_for_schedule sched s \<noteq> (Inr x, s')"
  by (auto simp: sync_schedule_item_order_for_schedule_def bindE_lift tbl_apply Let_def split: sum.split prod.split)

text \<open>A successful operation on one schedule's order keeps the invariant.\<close>

lemma sync_for_inv:
  assumes "table_inv s" and "s_entity_type sched \<in> {TYPE_EPIC, TYPE_USERSTORY, TYPE_TASK}"
    and "sync_schedule_item_order_for_schedule sched s = (Inr item, s')"
  shows "table_inv s' \<and> item \<in> set (item_orders s') \<and> ''item_order'' \<notin> set (down s')"
proof -
  have up: "''item_order'' \<notin> set (down s)" using item_order_down_sync assms(3) by blast
  have inv: "order_inv s" using assms(1) by (simp add: table_inv_def)
  show ?thesis
    by (rule sync_spec [OF up inv assms(2)])
      (use assms up table_inv_orders in \<open>auto simp: orders_only_iff\<close>)
qed

lemma set_position_keeps: "obeys (keeps table_inv) (set_schedule_item_order_position et eid pos)"
proof -
  have step: "keeps table_inv s s'"
    if type: "s_entity_type sched \<in> {TYPE_EPIC, TYPE_USERSTORY, TYPE_TASK}"
      and run: "set_schedule_item_order_position_for_schedule sched d s = (Inr x, s')" for sched d s x s'
    unfolding keeps_def
  proof
    assume inv: "table_inv s"
    obtain item s1 where sync: "sync_schedule_item_order_for_schedule sched s = (Inr item, s1)"
      and move: "move_order_item_between_groups item (oi_group item) (Some d) s1 = (Inr x, s')"
      using run by (auto simp: set_schedule_item_order_position_for_schedule_def bindE_Inr oi_group_def)
    have s1: "table_inv s1" "item \<in> set (item_orders s1)" "''item_order'' \<notin> set (down s1)"
      using sync_for_inv [OF inv type sync] by auto
    then have o1: "order_inv s1" by (simp add: table_inv_def)
    show "table_inv s'"
      by (rule move_spec [OF s1(3) o1 s1(2) HOL.refl, of "oi_group item" "Some d"])
        (use move table_inv_orders [OF order_frame_only s1(1)] in auto)
  qed
  show ?thesis
  proof (rule obeysI)
    fix s
    show "keeps table_inv s (snd (set_schedule_item_order_position et eid pos s))"
      unfolding set_schedule_item_order_position_def Let_def
    proof (intro keeps.run_lift)
      fix u p found assume a: "assert_entity_type et s = Inr u" and g: "get_schedule et eid s = Inr found"
      show "keeps table_inv s (snd ((case found of None \<Rightarrow> retE None
          | Some sched \<Rightarrow> or_stored_item_order (s_id sched) (run_schedule_item_order_operation_with_retries
              (\<lambda>_. set_schedule_item_order_position_for_schedule sched (max 1 p)))) s))"
      proof (cases found)
        case (Some sched)
        then have "find_schedule et eid s = Some sched"
          using g by (auto simp: get_schedule_def effs split: sum.splits if_splits)
        then have type: "s_entity_type sched \<in> {TYPE_EPIC, TYPE_USERSTORY, TYPE_TASK}"
          using a find_schedule_type by (auto simp: assert_entity_type_def split: if_splits)
        have "obeys (keeps table_inv) (or_stored_item_order (s_id sched)
            (run_schedule_item_order_operation_with_retries
              (\<lambda>_. set_schedule_item_order_position_for_schedule sched (max 1 p))))"
          by (intro keeps_or_stored keeps.obeys_retry_ok) (rule step [OF type])
        then show ?thesis by (simp add: Some obeysD)
      qed (simp add: keeps.run_ret)
    qed
  qed
qed

lemma wf_set_position: "obeys wf_step (set_schedule_item_order_position et eid pos)"
  by (rule wf_stepI [OF set_position_keeps set_position_only])

lemma delete_same: "obeys (same (\<lambda>s. (down s, schedule_seq s))) (delete_schedule et eid)"
proof -
  let ?R = "same (\<lambda>s. (down s, schedule_seq s))"
  have "obeys ?R (persist_group_positions items)" for items
    using persist_only [of items] by (simp add: obeys_def same_def orders_only_iff)
  moreover have "obeys ?R (delete_order_row i)" "obeys ?R (delete_schedule_row i)" for i
    by (simp_all add: obeys_def same_def delete_order_row_def delete_schedule_row_def)
  ultimately show ?thesis
    unfolding delete_schedule_def by (auto intro!: same.obeys_rules split: option.split)
qed

lemma delete_refused:
  assumes "\<not> (et \<in> {TYPE_EPIC, TYPE_USERSTORY, TYPE_TASK} \<and> order_up s)"
  shows "snd (delete_schedule et eid s) = s"
proof (cases "et \<in> {TYPE_EPIC, TYPE_USERSTORY, TYPE_TASK}")
  case False
  then show ?thesis by (simp add: delete_schedule_def bindE_lift assert_entity_type_def)
next
  case True
  have assert: "assert_entity_type et s = Inr ()" using True by (auto simp: assert_entity_type_def)
  let ?R = "same (\<lambda>s. (down s, schedule_seq s))"
  have down: "\<not> order_up s" using assms True by blast
  have row: "fst (delete_schedule_row i t) = Inl DbError" if "down t = down s"
      and "''schedule'' \<notin> set (down s)" and "''item_order'' \<notin> set (down s)" for i t
    using that down by (auto simp: delete_schedule_row_def order_up_def)
  show ?thesis
  proof (cases "''schedule'' \<in> set (down s) \<or> ''item_order'' \<in> set (down s)")
    case True
    then show ?thesis
      by (auto simp: delete_schedule_def bindE_lift assert on_db_apply atomicE_apply tbl_apply retE_apply
          split: option.split)
  next
    case False
    show ?thesis
    proof (cases "find_schedule et eid s")
      case None
      then show ?thesis using False
        by (simp add: delete_schedule_def bindE_lift assert on_db_apply atomicE_apply tbl_apply retE_apply)
    next
      case (Some sched)
      define m where m: "m = (case find_order_item (s_id sched) s of
                 None \<Rightarrow> retE ()
               | Some item \<Rightarrow>
                   bindE (liftE (fetch_group_items_for_update
                       (build_order_group_key (oi_project_id item) (oi_entity_type item)
                          (oi_parent_entity_type item) (oi_parent_entity_id item)))) (\<lambda>items.
                   bindE (delete_order_row (oi_id item)) (\<lambda>_.
                   bindE (persist_group_positions (filter (\<lambda>x. oi_id x \<noteq> oi_id item) items))
                     (\<lambda>_. retE ()))))"
      have "obeys ?R m"
      proof -
        have "obeys ?R (persist_group_positions items)" for items
          using persist_only [of items] by (simp add: obeys_def same_def orders_only_iff)
        moreover have "obeys ?R (delete_order_row i)" for i
          by (simp add: obeys_def same_def delete_order_row_def)
        ultimately show ?thesis unfolding m by (auto intro!: same.obeys_rules split: option.split)
      qed
      then have "down (snd (m s)) = down s" by (simp add: obeys_def same_def)
      then have "fst (delete_schedule_row (s_id sched) (snd (m s))) = Inl DbError" using row False by blast
      then have "\<exists>e t. bindE m (\<lambda>_. delete_schedule_row (s_id sched)) s = (Inl e, t)"
        by (cases "m s"; cases "fst (m s)"; cases "delete_schedule_row (s_id sched) (snd (m s))")
          (auto simp: bindE_apply)
      then show ?thesis using False Some
        by (auto simp: delete_schedule_def bindE_lift assert on_db_apply atomicE_apply tbl_apply m [symmetric] retE_apply)
    qed
  qed
qed

lemma wf_delete: "obeys wf_step (delete_schedule et eid)"
proof (rule obeysI)
  fix s
  have same: "down (snd (delete_schedule et eid s)) = down s"
    "schedule_seq (snd (delete_schedule et eid s)) = schedule_seq s"
    using delete_same [of et eid] by (simp_all add: obeys_def same_def)
  show "wf_step s (snd (delete_schedule et eid s))"
  proof (cases "et \<in> {TYPE_EPIC, TYPE_USERSTORY, TYPE_TASK} \<and> order_up s")
    case True
    show ?thesis
    proof (cases "find_schedule et eid s")
      case None
      then have "delete_schedule et eid s = (Inr (), s)"
        using True by (auto simp: delete_schedule_def bindE_lift assert_entity_type_def on_db_apply atomicE_apply
            tbl_apply order_up_def retE_apply)
      then show ?thesis by (simp add: wf_step.refl)
    next
      case (Some sched)
      have "wf_db (snd (delete_schedule et eid s))" if wf: "wf_db s"
      proof -
        have inv: "order_inv s" using wf by (simp add: wf_db_def table_inv_def)
        show ?thesis
        proof (rule delete_spec [OF conjunct2 [OF True] inv conjunct1 [OF True] Some])
          fix s' assume run: "delete_schedule et eid s = (Inr (), s')" and inv': "order_inv s'"
            and sch: "schedules s' = filter (\<lambda>r. s_id r \<noteq> s_id sched) (schedules s)"
          show ?thesis
            using wf run inv' sch same(2)
            by (auto simp: wf_db_def table_inv_def schedules_ok_def intro: distinct_map_filter)
        qed
      qed
      then show ?thesis using same(1) by (simp add: wf_step_def)
    qed
  qed (simp add: delete_refused wf_step.refl)
qed


lemma wf_color_story: "obeys wf_step (sync_userstory_and_tasks_schedule_color us)"
  unfolding sync_userstory_and_tasks_schedule_color_def
  by (auto intro!: wf_step.obeys_rules wf_upsert split: option.split)

lemma wf_color_epic: "obeys wf_step (sync_epic_related_schedule_colors ep)"
  unfolding sync_epic_related_schedule_colors_def
  by (auto intro!: wf_step.obeys_rules wf_color_story)

lemma wf_epic_row: "obeys wf_step (update_epic_row P f)"
  by (rule obeysI, simp add: update_epic_row_def wf_step_def, intro impI, simp cong: wf_db_cong)

lemma wf_color: "obeys wf_step (update_schedule_color et eid pid color)"
  unfolding update_schedule_color_def
  by (auto intro!: wf_step.obeys_rules wf_upsert wf_color_epic wf_epic_row wf_emit)

lemma wf_propagate: "obeys wf_step (propagate depth i)"
  by (rule postpones_wf [OF propagate_postpones])

lemma wf_forward: "obeys wf_step (propagate_dependency_chain_forward (propagate depth) et eid)"
  by (rule postpones_wf [OF forward_postpones [OF propagate_postpones]])

lemma wf_ensure_task: "obeys wf_step (ensure_userstory_and_epic_bounds_from_task (propagate depth) t us)"
  by (rule postpones_wf [OF ensure_userstory_postpones [OF propagate_postpones]])

lemma wf_ensure_story: "obeys wf_step (ensure_epic_bounds_for_userstory (propagate depth) us)"
  by (rule postpones_wf [OF ensure_epic_postpones [OF propagate_postpones]])

lemmas wf_operations = wf_upsert wf_sync wf_delete wf_color_story wf_color_epic wf_forward wf_ensure_task
  wf_ensure_story

definition one_item_signal :: "signal \<Rightarrow> bool" where
  "one_item_signal sg = (case sg of RelatedUserStoriesBulkChanged _ _ \<Rightarrow> False | _ \<Rightarrow> True)"

lemma wf_signal: "one_item_signal sg \<Longrightarrow> obeys wf_step (connect_schedule_signals (propagate depth) sg)"
  by (cases sg) (auto simp: one_item_signal_def task_post_save_def task_post_delete_def userstory_post_save_def
      userstory_post_delete_def epic_post_save_def epic_post_delete_def related_userstory_post_save_def
      related_userstory_post_delete_def intro!: wf_step.obeys_rules wf_operations)

lemma wf_dependency_save: "obeys wf_step (dependency_save n pk f t)"
proof -
  have "wf_db (s\<lparr>dependencies := ds\<rparr>) = wf_db s" for s ds by (rule wf_db_cong) simp_all
  then show ?thesis
    unfolding dependency_save_def
    by (intro wf_step.obeys_bind wf_step.obeys_lift wf_step.obeys_option)
      (auto simp: obeys_def wf_step_def Let_def)
qed

section \<open>Reachable states\<close>

text \<open>
  One step of the system: a public operation or signal of the schedule application, or any
  change by another part of the program to the tables the application does not own.
\<close>

inductive schedule_step :: "db \<Rightarrow> db \<Rightarrow> bool" where
  upsert: "schedule_step s (snd (upsert_schedule et eid p v s))"
| sync: "schedule_step s (snd (sync_schedule_item_order et eid s))"
| move: "schedule_step s (snd (set_schedule_item_order_position et eid pos s))"
| delete: "schedule_step s (snd (delete_schedule et eid s))"
| color: "schedule_step s (snd (update_schedule_color et eid pid col s))"
| forward: "schedule_step s (snd (propagate_dependency_chain_forward (propagate depth) et eid s))"
| bulk: "schedule_step s (snd (apply_schedule_dates_in_bulk (propagate depth) pid xs s))"
| depend: "schedule_step s (snd (dependency_save n pk f t s))"
| signal: "one_item_signal sg \<Longrightarrow> schedule_step s (snd (connect_schedule_signals (propagate depth) sg s))"
| others: "schedule_step s (s\<lparr>dependencies := ds, epics := es, userstories := us, tasks := ts, relateds := rs,
                              down := dn, outbox := ob\<rparr>)"

text \<open>C1: Every state reachable by the operations and signals of the application, successful or
  failing, in any order and interleaved with any changes to the other tables, keeps the
  schedule rows unique and numbered, and every sibling group of the item order free of gaps
  and collisions.\<close>

theorem reachable_states_well_formed:
  assumes "schedule_step\<^sup>*\<^sup>* s t" and "wf_db s"
  shows "wf_db t \<and> (\<forall>key. map oi_position (group_items key t) = [1..int (length (group_items key t))])"
proof -
  have "wf_db t"
    using assms
  proof (induction rule: rtranclp_induct)
    case (step t u)
    have keep: "wf_db (snd (m t))" if "obeys wf_step m" for m :: "(db, 'a) eff"
      using that step.IH [OF step.prems] by (auto simp: obeys_def wf_step_def)
    from step.hyps(2) show ?case
    proof cases
      case (others ds es us ts rs dn ob)
      then show ?thesis using step.IH [OF step.prems] by (simp cong: wf_db_cong)
    qed (auto intro: keep wf_operations wf_set_position wf_color wf_bulk propagate_postpones wf_dependency_save
        wf_signal)
  qed
  then show ?thesis by (simp add: wf_db_def table_inv_def order_inv_def gap_freeD)
qed

theorem reachable_states_well_formed_witness:
  "wf_db (snd (delete_schedule TYPE_TASK 30 (snd (upsert_schedule TYPE_TASK 32 1 no_values demo_db))))"
proof -
  have "schedule_step\<^sup>*\<^sup>* demo_db (snd (upsert_schedule TYPE_TASK 32 1 no_values demo_db))"
    by (rule r_into_rtranclp) (rule upsert)
  then have "schedule_step\<^sup>*\<^sup>* demo_db
      (snd (delete_schedule TYPE_TASK 30 (snd (upsert_schedule TYPE_TASK 32 1 no_values demo_db))))"
    by (rule rtranclp.rtrancl_into_rtrancl) (rule delete)
  from reachable_states_well_formed [OF this demo_wf] show ?thesis by simp
qed

definition two_project_epic :: db where
  "two_project_epic = demo_db\<lparr>
     schedules := schedules demo_db @ [(mk_schedule 6 TYPE_USERSTORY 40 None None)\<lparr>s_project_id := 2\<rparr>],
     item_orders := item_orders demo_db @ [(mk_order 6 6 TYPE_USERSTORY TYPE_EPIC 10 1)\<lparr>oi_project_id := 2\<rparr>],
     userstories := userstories demo_db @ [\<lparr>us_id = 40, us_project_id = 2, us_due_date = None\<rparr>,
                                           \<lparr>us_id = 41, us_project_id = 2, us_due_date = None\<rparr>],
     relateds := [\<lparr>ru_id = 1, ru_epic_id = 10, ru_user_story_id = 20, ru_order = 1\<rparr>,
                  \<lparr>ru_id = 2, ru_epic_id = 10, ru_user_story_id = 21, ru_order = 3\<rparr>,
                  \<lparr>ru_id = 3, ru_epic_id = 10, ru_user_story_id = 40, ru_order = 2\<rparr>],
     schedule_seq := 7, order_seq := 7\<rparr>"

text \<open>The exception is the signal for bulk changes of an epic's stories. When an epic has
  stories of two projects, synchronising it numbers both projects' stories together, which
  leaves a gap in the group of each; scheduling the next story there then fails.\<close>

theorem two_project_epic_breaks_order:
  "case sync_epic_userstories_schedule_item_order_in_bulk (Some 10) two_project_epic of (res, s') \<Rightarrow>
     map oi_position (group_items (2, TYPE_USERSTORY, TYPE_EPIC, 10) s') = [2]
   \<and> map oi_position (group_items (1, TYPE_USERSTORY, TYPE_EPIC, 10) s') = [1, 3]
   \<and> fst (upsert_schedule TYPE_USERSTORY 41 2 no_values
        (s'\<lparr>relateds := \<lparr>ru_id = 4, ru_epic_id = 10, ru_user_story_id = 41, ru_order = 4\<rparr> # relateds s'\<rparr>))
     = Inl (ValidationError ''Schedule item order already exists.'')"
  by code_simp

end
