(* ===== verification/Schedule_Model_Props.thy ===== *)
theory Schedule_Model_Props
  imports Schedule_System
begin

text \<open>
  Properties of stored dependencies and of the colors that user stories and tasks inherit
  from their epic.
\<close>

section \<open>Dependencies\<close>

text \<open>C29: A dependency passes its validation exactly when it joins two different schedules of the
  same project, the source has a due date, and the target starts after it.\<close>

theorem dependency_clean_correct:
  assumes "available s" and "f \<noteq> 0" and "t \<noteq> 0"
    and "find_schedule_id f s = Some a" and "find_schedule_id t s = Some b"
  shows "dependency_clean (Some f) (Some t) s = Inr () \<longleftrightarrow>
     f \<noteq> t \<and> s_project_id a = s_project_id b
   \<and> (\<exists>due start. s_due_date a = Some due \<and> get_effective_start (Some b) = Some start \<and> due < start)"
  using assms by (auto simp: dependency_clean_def truthy_def bindQ_apply get_effective_start_def
      split: option.splits if_splits)

lemma demo_find_id:
  "find_schedule_id 2 demo_db = Some (mk_schedule 2 TYPE_USERSTORY 20 (Some 10) (Some 15))"
  "find_schedule_id 3 demo_db = Some (mk_schedule 3 TYPE_USERSTORY 21 (Some 16) (Some 20))"
  "find_schedule_id 4 demo_db = Some (mk_schedule 4 TYPE_TASK 30 (Some 10) (Some 12))"
  "find_schedule_id 5 demo_db = Some (mk_schedule 5 TYPE_TASK 31 (Some 13) (Some 15))"
  by (simp_all add: find_schedule_id_def demo_defs)

theorem dependency_clean_correct_witness:
  "dependency_clean (Some 4) (Some 3) demo_db = Inr () \<and> dependency_clean (Some 3) (Some 4) demo_db \<noteq> Inr ()"
  using dependency_clean_correct [OF demo_available _ _ demo_find_id(3,2)]
    dependency_clean_correct [OF demo_available _ _ demo_find_id(2,3)]
  by (simp add: get_effective_start_def)

definition dependency_edges :: "db \<Rightarrow> (int \<times> int) set" where
  "dependency_edges s = (\<lambda>d. (d_from_schedule_id d, d_to_schedule_id d)) ` set (dependencies s)"

text \<open>Every stored dependency holds, and no schedule ends before it starts.\<close>

definition well_dated :: "db \<Rightarrow> bool" where
  "well_dated s \<longleftrightarrow>
     (\<forall>d \<in> set (dependencies s). \<exists>a b due start. find_schedule_id (d_from_schedule_id d) s = Some a
        \<and> find_schedule_id (d_to_schedule_id d) s = Some b \<and> s_due_date a = Some due
        \<and> get_effective_start (Some b) = Some start \<and> due < start)
   \<and> (\<forall>r \<in> set (schedules s). \<forall>start due. get_effective_start (Some r) = Some start \<longrightarrow> s_due_date r = Some due
        \<longrightarrow> start \<le> due)"

lemma well_dated_step:
  assumes "well_dated s" and "(f, t) \<in> dependency_edges s" and "(t, u) \<in> dependency_edges s"
  shows "\<exists>a b. find_schedule_id f s = Some a \<and> find_schedule_id t s = Some b
     \<and> the (s_due_date a) < the (s_due_date b)"
proof -
  obtain d where d: "d \<in> set (dependencies s)" "d_from_schedule_id d = f" "d_to_schedule_id d = t"
    using assms(2) by (auto simp: dependency_edges_def)
  obtain e where e: "e \<in> set (dependencies s)" "d_from_schedule_id e = t"
    using assms(3) by (auto simp: dependency_edges_def)
  obtain a b due start where ab: "find_schedule_id f s = Some a" "find_schedule_id t s = Some b"
    "s_due_date a = Some due" "get_effective_start (Some b) = Some start" "due < start"
    using assms(1) d unfolding well_dated_def by blast
  obtain due' where "s_due_date b = Some due'"
    using assms(1) e ab(2) unfolding well_dated_def by fastforce
  moreover have "b \<in> set (schedules s)" using ab(2) by (auto simp: find_schedule_id_def dest: find_Some_mem)
  ultimately have "start \<le> due'" using assms(1) ab(4) unfolding well_dated_def by blast
  then show ?thesis using ab \<open>s_due_date b = Some due'\<close> by auto
qed

lemma well_dated_path:
  assumes "well_dated s" and "(f, t) \<in> (dependency_edges s)\<^sup>+" and "(t, u) \<in> dependency_edges s"
  shows "the (s_due_date (the (find_schedule_id f s))) < the (s_due_date (the (find_schedule_id t s)))"
  using assms(2,3)
proof (induction arbitrary: u rule: trancl_induct)
  case (base y)
  then show ?case using well_dated_step [OF assms(1)] by fastforce
next
  case (step y z)
  then show ?case using well_dated_step [OF assms(1) step.hyps(2) step.prems] step.IH [OF step.hyps(2)] by auto
qed

lemma well_dated_acyclic: "well_dated s \<Longrightarrow> acyclic (dependency_edges s)"
  unfolding acyclic_def
proof (intro allI notI)
  fix x assume w: "well_dated s" and c: "(x, x) \<in> (dependency_edges s)\<^sup>+"
  from c obtain y where "(x, y) \<in> dependency_edges s" by (meson tranclD)
  from well_dated_path [OF w c this] show False by simp
qed

text \<open>C30: Saving a dependency, new or stored (an update may give it other ends), keeps every stored
  dependency satisfied, and as long as no item ends before it starts the stored dependencies
  never form a cycle, although no code looks for cycles. The saved row is stored with the two
  ends, once, and all other rows stay. (Keys of schedules are never 0.)\<close>

theorem dependency_save_acyclic:
  assumes "available s" and "well_dated s" and "f \<noteq> 0" and "t \<noteq> 0"
    and "\<And>i. pk = Some i \<Longrightarrow> i \<in> d_id ` set (dependencies s)"
    and "dependency_save n pk (Some f) (Some t) s = (Inr d, s')"
  shows "well_dated s' \<and> acyclic (dependency_edges s')
     \<and> d = \<lparr>d_id = (case pk of None \<Rightarrow> n | Some i \<Rightarrow> i), d_from_schedule_id = f, d_to_schedule_id = t\<rparr>
     \<and> set (dependencies s') = insert d {x \<in> set (dependencies s). pk \<noteq> Some (d_id x)}"
proof -
  have clean: "dependency_full_clean pk (Some f) (Some t) s = Inr ()"
    using assms(6) by (auto simp: dependency_save_def bindE_lift split: sum.splits)
  then have "find_schedule_id f s \<noteq> None \<and> find_schedule_id t s \<noteq> None"
    and ok: "dependency_clean (Some f) (Some t) s = Inr ()"
    using assms(1) by (auto simp: dependency_full_clean_def bindQ_apply split: sum.splits if_splits)
  then obtain a b where ab: "find_schedule_id f s = Some a" "find_schedule_id t s = Some b" by blast
  then have dated: "\<exists>due start. s_due_date a = Some due \<and> get_effective_start (Some b) = Some start \<and> due < start"
    using dependency_clean_correct [OF assms(1,3,4)] ok by blast
  have d: "d = \<lparr>d_id = (case pk of None \<Rightarrow> n | Some i \<Rightarrow> i), d_from_schedule_id = f, d_to_schedule_id = t\<rparr>"
    and only: "schedules s' = schedules s"
    using assms(6) clean by (auto simp: dependency_save_def bindE_lift Let_def split: option.splits)
  have rows: "set (dependencies s') = insert d {x \<in> set (dependencies s). pk \<noteq> Some (d_id x)}"
  proof (cases pk)
    case None
    then show ?thesis using assms(6) clean by (auto simp: dependency_save_def bindE_lift Let_def)
  next
    case (Some i)
    then have "dependencies s' = upd_where (\<lambda>x. d_id x = i) (\<lambda>_. d) (dependencies s)"
      using assms(6) clean by (auto simp: dependency_save_def bindE_lift Let_def)
    moreover obtain x where "x \<in> set (dependencies s)" "d_id x = i" using assms(5)[OF Some] by blast
    ultimately show ?thesis using Some by (auto simp: upd_where_def image_iff)
  qed
  have find: "find_schedule_id i s' = find_schedule_id i s" for i by (simp add: find_schedule_id_def only)
  have "well_dated s'"
    using assms(2) ab dated unfolding well_dated_def rows find only by (auto simp: d)
  then show ?thesis using well_dated_acyclic d rows by blast
qed

lemma demo_well_dated: "well_dated demo_db"
  by (simp add: well_dated_def demo_find_id get_effective_start_def)
    (simp add: demo_defs demo_find_id get_effective_start_def find_schedule_id_def)

theorem dependency_save_acyclic_witness:
  "(\<exists>d s'. dependency_save 3 None (Some 4) (Some 3) demo_db = (Inr d, s') \<and> acyclic (dependency_edges s'))
   \<and> (\<exists>d s'. dependency_save 9 (Some 1) (Some 4) (Some 3) demo_db = (Inr d, s') \<and> acyclic (dependency_edges s'))"
proof -
  have new: "fst (dependency_save 3 None (Some 4) (Some 3) demo_db)
      = Inr \<lparr>d_id = 3, d_from_schedule_id = 4, d_to_schedule_id = 3\<rparr>" by code_simp
  have stored: "fst (dependency_save 9 (Some 1) (Some 4) (Some 3) demo_db)
      = Inr \<lparr>d_id = 1, d_from_schedule_id = 4, d_to_schedule_id = 3\<rparr>" by code_simp
  obtain s1 where s1: "dependency_save 3 None (Some 4) (Some 3) demo_db
      = (Inr \<lparr>d_id = 3, d_from_schedule_id = 4, d_to_schedule_id = 3\<rparr>, s1)" using new by (metis prod.collapse)
  obtain s2 where s2: "dependency_save 9 (Some 1) (Some 4) (Some 3) demo_db
      = (Inr \<lparr>d_id = 1, d_from_schedule_id = 4, d_to_schedule_id = 3\<rparr>, s2)" using stored by (metis prod.collapse)
  have id: "1 \<in> d_id ` set (dependencies demo_db)" by (simp add: demo_db_def)
  show ?thesis
    using dependency_save_acyclic [OF demo_available demo_well_dated _ _ _ s1] s1
      dependency_save_acyclic [OF demo_available demo_well_dated _ _ _ s2] s2 id by auto
qed

section \<open>Colors\<close>

text \<open>After a task is saved its schedule has the color of the primary epic of its user story
  when there is one, otherwise the color the saved instance carries (or the color it had),
  whatever the propagation of dates that follows does.\<close>

theorem task_saved_color:
  assumes "available s" and "wf_db s"
    and "(if truthy (i_user_story_id ob) then get_primary_epic_color_for_userstory (the (i_user_story_id ob))
          else retQ None) s = Inr inherited"
    and "task_post_save (propagate depth) ob s = (res, s')"
  shows "\<exists>r. find_schedule TYPE_TASK (i_id ob) s' = Some r
     \<and> s_created_date r = i_created_date ob
     \<and> s_color r = (case inherited of Some c \<Rightarrow> Some c
          | None \<Rightarrow> (case i_color ob of Some c \<Rightarrow> c
                   | None \<Rightarrow> s_color (base_schedule TYPE_TASK (i_id ob) (i_project_id ob) s)))"
proof -
  define v where v: "v = with_color inherited ob (instance_values ob)"
  have "TYPE_TASK \<in> {TYPE_EPIC, TYPE_USERSTORY, TYPE_TASK}" by simp
  with assms(1,2) show ?thesis
  proof (rule upsert_spec [of s TYPE_TASK "i_id ob" "i_project_id ob" v])
    let ?b = "base_schedule TYPE_TASK (i_id ob) (i_project_id ob) s"
    fix s1 assume run: "upsert_schedule TYPE_TASK (i_id ob) (i_project_id ob) v s
        = (Inr (Some (set_values (i_project_id ob) v ?b)), s1)" and wf: "wf_db s1"
      and find: "\<forall>et' eid'. find_schedule et' eid' s1 = (if (et', eid') = (TYPE_TASK, i_id ob)
           then Some (set_values (i_project_id ob) v ?b) else find_schedule et' eid' s)"
    have "task_post_save (propagate depth) ob s =
        bindE (ensure_userstory_and_epic_bounds_from_task (propagate depth) (i_id ob) (i_user_story_id ob))
          (\<lambda>_. propagate_dependency_chain_forward (propagate depth) TYPE_TASK (i_id ob)) s1"
      using run by (simp add: task_post_save_def bindE_lift assms(3) v [symmetric])
        (simp add: bindE_apply)
    moreover have "obeys postpones
        (bindE (ensure_userstory_and_epic_bounds_from_task (propagate depth) (i_id ob) (i_user_story_id ob))
          (\<lambda>_. propagate_dependency_chain_forward (propagate depth) TYPE_TASK (i_id ob)))"
      by (intro postpones.obeys_bind ensure_userstory_postpones forward_postpones propagate_postpones)
    ultimately have "postpones s1 s'" using assms(4) by (metis obeysD2)
    moreover have "find_schedule TYPE_TASK (i_id ob) s1 = Some (set_values (i_project_id ob) v ?b)"
      using find by simp
    ultimately obtain r where "find_schedule TYPE_TASK (i_id ob) s' = Some r"
      "row_later (set_values (i_project_id ob) v ?b) r" using find_later [OF wf] by blast
    then show ?thesis
      by (auto simp: row_later_def v with_color_def set_values_def instance_values_def split: option.split)
  qed
qed

definition demo_task_instance :: instance_obj where
  "demo_task_instance = \<lparr>i_id = 31, i_project_id = 1, i_created_date = Some 7, i_due_date = Some (Some 15),
     i_estimated_start = None, i_actual_start = None, i_color = None, i_user_story_id = Some 20\<rparr>"

theorem task_saved_color_witness:
  "\<exists>r. find_schedule TYPE_TASK 31 (snd (task_post_save (propagate 9) demo_task_instance demo_db)) = Some r
     \<and> s_color r = Some ''#d00''"
proof -
  have inh: "(if truthy (i_user_story_id demo_task_instance)
      then get_primary_epic_color_for_userstory (the (i_user_story_id demo_task_instance))
      else retQ None) demo_db = Inr (Some ''#d00'')" by code_simp
  have "task_post_save (propagate 9) demo_task_instance demo_db
      = (fst (task_post_save (propagate 9) demo_task_instance demo_db),
         snd (task_post_save (propagate 9) demo_task_instance demo_db))" by simp
  from task_saved_color [OF demo_available demo_wf inh this] show ?thesis
    by (auto simp: demo_task_instance_def)
qed

lemma upsert_colors:
  assumes "available s" and "wf_db s"
  shows "\<exists>s'. forE ts (\<lambda>t. bindE (upsert_schedule TYPE_TASK (t_id t) (t_project_id t) (color_value c))
                 (\<lambda>_. retE ())) s = (Inr (), s')
     \<and> wf_db s' \<and> sched_only s s'
     \<and> (\<forall>t \<in> set ts. \<exists>r. find_schedule TYPE_TASK (t_id t) s' = Some r \<and> s_color r = c)
     \<and> (\<forall>et eid. et \<noteq> TYPE_TASK \<or> eid \<notin> t_id ` set ts \<longrightarrow> find_schedule et eid s' = find_schedule et eid s)
     \<and> (\<forall>et eid r. find_schedule et eid s = Some r \<and> s_color r = c \<longrightarrow>
          (\<exists>r'. find_schedule et eid s' = Some r' \<and> s_color r' = c))"
  using assms
proof (induction ts arbitrary: s)
  case Nil
  then show ?case by (auto simp: retE_apply sched_only.refl)
next
  case (Cons t ts)
  have "TYPE_TASK \<in> {TYPE_EPIC, TYPE_USERSTORY, TYPE_TASK}" by simp
  with Cons.prems show ?case
  proof (rule upsert_spec [of s TYPE_TASK "t_id t" "t_project_id t" "color_value c"])
    let ?r = "set_values (t_project_id t) (color_value c) (base_schedule TYPE_TASK (t_id t) (t_project_id t) s)"
    fix s1 assume run: "upsert_schedule TYPE_TASK (t_id t) (t_project_id t) (color_value c) s = (Inr (Some ?r), s1)"
      and wf: "wf_db s1" and only: "sched_only s s1"
      and find: "\<forall>et' eid'. find_schedule et' eid' s1 = (if (et', eid') = (TYPE_TASK, t_id t) then Some ?r
          else find_schedule et' eid' s)"
    have col: "s_color ?r = c" by (simp add: set_values_def color_value_def no_values_def)
    have av: "available s1" using Cons.prems(1) only by (simp add: available_def sched_only_def)
    from Cons.IH [OF av wf] obtain s2 where IH:
      "forE ts (\<lambda>t. bindE (upsert_schedule TYPE_TASK (t_id t) (t_project_id t) (color_value c)) (\<lambda>_. retE ())) s1
         = (Inr (), s2)" "wf_db s2" "sched_only s1 s2"
      "\<forall>t \<in> set ts. \<exists>r. find_schedule TYPE_TASK (t_id t) s2 = Some r \<and> s_color r = c"
      "\<forall>et eid. et \<noteq> TYPE_TASK \<or> eid \<notin> t_id ` set ts \<longrightarrow> find_schedule et eid s2 = find_schedule et eid s1"
      "\<forall>et eid r. find_schedule et eid s1 = Some r \<and> s_color r = c \<longrightarrow>
          (\<exists>r'. find_schedule et eid s2 = Some r' \<and> s_color r' = c)" by (elim exE conjE) (rule that)
    have here: "\<exists>r. find_schedule TYPE_TASK (t_id t) s2 = Some r \<and> s_color r = c"
      using IH(6) find col by simp
    show ?thesis
    proof (intro exI [of _ s2] conjI)
      show "forE (t # ts) (\<lambda>t. bindE (upsert_schedule TYPE_TASK (t_id t) (t_project_id t) (color_value c))
          (\<lambda>_. retE ())) s = (Inr (), s2)"
        using run IH(1) by (simp add: bindE_apply retE_apply)
      show "wf_db s2" by (rule IH(2))
      show "sched_only s s2" using only IH(3) by (rule sched_only.trans)
      show "\<forall>x \<in> set (t # ts). \<exists>r. find_schedule TYPE_TASK (t_id x) s2 = Some r \<and> s_color r = c"
        using here IH(4) by simp
      show "\<forall>et eid. et \<noteq> TYPE_TASK \<or> eid \<notin> t_id ` set (t # ts) \<longrightarrow>
          find_schedule et eid s2 = find_schedule et eid s" using IH(5) find by auto
      show "\<forall>et eid r. find_schedule et eid s = Some r \<and> s_color r = c \<longrightarrow>
          (\<exists>r'. find_schedule et eid s2 = Some r' \<and> s_color r' = c)"
      proof (intro allI impI)
        fix et eid r assume r: "find_schedule et eid s = Some r \<and> s_color r = c"
        show "\<exists>r'. find_schedule et eid s2 = Some r' \<and> s_color r' = c"
          by (cases "(et, eid) = (TYPE_TASK, t_id t)") (use r here IH(6) find in auto)
      qed
    qed
  qed
qed

text \<open>Synchronising the colors of a user story gives the story and every one of its tasks the
  color of the story's primary epic (none when it has no epic), creating the schedules that
  are missing, and touches no other schedule.\<close>

theorem story_color_sync_correct:
  assumes "available s" and "wf_db s" and "us \<noteq> 0" and "find_userstory us s = Some u"
    and "get_primary_epic_color_for_userstory us s = Inr c"
  shows "\<exists>s'. sync_userstory_and_tasks_schedule_color us s = (Inr (), s') \<and> wf_db s' \<and> sched_only s s'
     \<and> (\<exists>r. find_schedule TYPE_USERSTORY us s' = Some r \<and> s_color r = c)
     \<and> (\<forall>t \<in> set (story_tasks us s). \<exists>r. find_schedule TYPE_TASK (t_id t) s' = Some r \<and> s_color r = c)
     \<and> (\<forall>et eid. (et, eid) \<noteq> (TYPE_USERSTORY, us) \<and> (et \<noteq> TYPE_TASK \<or> eid \<notin> t_id ` set (story_tasks us s))
          \<longrightarrow> find_schedule et eid s' = find_schedule et eid s)"
proof -
  have uid: "us_id u = us" using assms(4) by (auto simp: find_userstory_def dest: find_Some_mem)
  have "TYPE_USERSTORY \<in> {TYPE_EPIC, TYPE_USERSTORY, TYPE_TASK}" by simp
  with assms(1,2) show ?thesis
  proof (rule upsert_spec [of s TYPE_USERSTORY us "us_project_id u" "color_value c"])
    let ?r = "set_values (us_project_id u) (color_value c) (base_schedule TYPE_USERSTORY us (us_project_id u) s)"
    fix s1 assume run: "upsert_schedule TYPE_USERSTORY us (us_project_id u) (color_value c) s = (Inr (Some ?r), s1)"
      and wf: "wf_db s1" and only: "sched_only s s1"
      and find: "\<forall>et' eid'. find_schedule et' eid' s1 = (if (et', eid') = (TYPE_USERSTORY, us) then Some ?r
          else find_schedule et' eid' s)"
    have col: "s_color ?r = c" by (simp add: set_values_def color_value_def no_values_def)
    have av: "available s1" using assms(1) only by (simp add: available_def sched_only_def)
    have ts: "story_tasks us s1 = story_tasks us s" using only by (simp add: story_tasks_def sched_only_def)
    from upsert_colors [OF av wf, of "story_tasks us s" c] obtain s2 where loop:
      "forE (story_tasks us s) (\<lambda>t. bindE (upsert_schedule TYPE_TASK (t_id t) (t_project_id t) (color_value c))
          (\<lambda>_. retE ())) s1 = (Inr (), s2)" "wf_db s2" "sched_only s1 s2"
      "\<forall>t \<in> set (story_tasks us s). \<exists>r. find_schedule TYPE_TASK (t_id t) s2 = Some r \<and> s_color r = c"
      "\<forall>et eid. et \<noteq> TYPE_TASK \<or> eid \<notin> t_id ` set (story_tasks us s) \<longrightarrow>
          find_schedule et eid s2 = find_schedule et eid s1" by (elim exE conjE) (rule that)
    have "sync_userstory_and_tasks_schedule_color us s = (Inr (), s2)"
      using assms(1,3,4,5) uid run av ts loop(1)
      by (simp add: sync_userstory_and_tasks_schedule_color_def bindE_lift on_dbQ_apply)
        (simp add: bindE_apply ts)
    then show ?thesis
      using loop find col sched_only.trans [OF only loop(3)] by (intro exI [of _ s2]) auto
  qed
qed

theorem story_color_sync_correct_witness:
  "\<exists>s' r. sync_userstory_and_tasks_schedule_color 20 demo_db = (Inr (), s')
     \<and> find_schedule TYPE_TASK 31 s' = Some r \<and> s_color r = Some ''#d00''"
proof -
  have u: "find_userstory 20 demo_db = Some \<lparr>us_id = 20, us_project_id = 1, us_due_date = Some 15\<rparr>"
    by (simp add: find_userstory_def demo_db_def)
  have c: "get_primary_epic_color_for_userstory 20 demo_db = Inr (Some ''#d00'')" by code_simp
  have "(20::int) \<noteq> 0" by simp
  from story_color_sync_correct [OF demo_available demo_wf this u c] show ?thesis
    by (auto simp: story_tasks_def demo_db_def)
qed

end
