(* ===== verification/Schedule_Validators.thy ===== *)
theory Schedule_Validators
  imports Schedule_Bulk
begin

text \<open>
  Reading request data: the fields of \<open>taiga/base/api/fields.py\<close> the schedule endpoints use,
  and the validators of \<open>taiga/projects/schedule/validators.py\<close>. Parsing a date
  (\<open>parse_date\<close> of Django) and the text of a container (\<open>repr_of\<close>, Python's \<open>str\<close> of a list or
  dict) are arguments.
\<close>

section \<open>Fields\<close>

text \<open>\<open>validators.EMPTY_VALUES\<close>: \<open>None\<close>, the empty string and empty containers.\<close>

definition empty_value :: "pyval \<Rightarrow> bool" where
  "empty_value v \<longleftrightarrow> v = VNone \<or> v = VStr '''' \<or> v = VContainer False"

definition REQUIRED :: string where "REQUIRED = ''This field is required.''"
definition INVALID_INTEGER :: string where "INVALID_INTEGER = ''Enter a whole number.''"
definition INVALID_CHOICE :: string where "INVALID_CHOICE = ''Select a valid choice.''"
definition INVALID_DATE :: string where "INVALID_DATE = ''Date has wrong format.''"
definition BELOW_MIN :: string where "BELOW_MIN = ''Ensure this value is greater than or equal to the limit.''"

text \<open>
  \<open>WritableField.field_from_native\<close> for a field without default: the outer \<open>None\<close> is a field
  that is not in the data and not in the result; \<open>run\<close> stands for the field's validators,
  which are not run on an empty value.
\<close>

definition field_from_native ::
    "bool \<Rightarrow> (pyval \<Rightarrow> string + 'a option) \<Rightarrow> ('a \<Rightarrow> string option) \<Rightarrow> pyval option \<Rightarrow> string + 'a option option" where
  "field_from_native required from_native run native =
     (case native of
        None \<Rightarrow> if required then Inl REQUIRED else Inr None
      | Some v \<Rightarrow> (case from_native v of
          Inl e \<Rightarrow> Inl e
        | Inr None \<Rightarrow> if required then Inl REQUIRED else Inr (Some None)
        | Inr (Some x) \<Rightarrow> (case run x of Some e \<Rightarrow> Inl e | None \<Rightarrow> Inr (Some (Some x)))))"

text \<open>\<open>IntegerField\<close>: \<open>int(str(value))\<close>, so a boolean is no integer.\<close>

definition integer_from_native :: "pyval \<Rightarrow> string + int option" where
  "integer_from_native v =
     (if empty_value v then Inr None
      else case v of
          VInt i \<Rightarrow> Inr (Some i)
        | VStr str \<Rightarrow> (case parse_int str of Some i \<Rightarrow> Inr (Some i) | None \<Rightarrow> Inl INVALID_INTEGER)
        | _ \<Rightarrow> Inl INVALID_INTEGER)"

definition min_value :: "int \<Rightarrow> int \<Rightarrow> string option" where
  "min_value limit i = (if i < limit then Some BELOW_MIN else None)"

definition integer_field :: "bool \<Rightarrow> int \<Rightarrow> pyval option \<Rightarrow> string + int option option" where
  "integer_field required limit = field_from_native required integer_from_native (min_value limit)"

text \<open>
  \<open>ChoiceField\<close> over string choices. The choices are only consulted for a true value: \<open>0\<close> and
  \<open>False\<close> are not empty values, and pass unchanged.
\<close>

definition choice_from_native :: "string list \<Rightarrow> pyval \<Rightarrow> string + pyval option" where
  "choice_from_native choices v =
     (if empty_value v then Inr None
      else if py_truth v \<and> v \<notin> VStr ` set choices then Inl INVALID_CHOICE
      else Inr (Some v))"

definition choice_field :: "bool \<Rightarrow> string list \<Rightarrow> pyval option \<Rightarrow> string + pyval option option" where
  "choice_field required choices = field_from_native required (choice_from_native choices) (\<lambda>_. None)"

text \<open>\<open>DateField\<close> with the default input format, ISO 8601.\<close>

definition date_from_native :: "(string \<Rightarrow> date option) \<Rightarrow> pyval \<Rightarrow> string + date option" where
  "date_from_native parse_date v =
     (if empty_value v then Inr None
      else case v of
          VStr str \<Rightarrow> (case parse_date str of Some d \<Rightarrow> Inr (Some d) | None \<Rightarrow> Inl INVALID_DATE)
        | _ \<Rightarrow> Inl INVALID_DATE)"

definition date_field :: "(string \<Rightarrow> date option) \<Rightarrow> pyval option \<Rightarrow> string + date option option" where
  "date_field parse_date = field_from_native False (date_from_native parse_date) (\<lambda>_. None)"

text \<open>\<open>CharField\<close>: the text of any value; an empty value is the empty string, not \<open>None\<close>.\<close>

definition char_from_native :: "(pyval \<Rightarrow> string) \<Rightarrow> pyval \<Rightarrow> string" where
  "char_from_native str_of v = (if empty_value v then '''' else case v of VStr s \<Rightarrow> s | _ \<Rightarrow> str_of v)"

definition char_field :: "(pyval \<Rightarrow> string) \<Rightarrow> pyval option \<Rightarrow> string + string option" where
  "char_field str_of native = (case native of
      None \<Rightarrow> Inr None
    | Some v \<Rightarrow> Inr (Some (char_from_native str_of v)))"

section \<open>Updating one item\<close>

text \<open>
  The deserialised data of \<open>ScheduleItemUpdateValidator\<close>: a field is \<open>None\<close> when it was not in
  the request, and \<open>Some None\<close> when it was there without a value.
\<close>

record item_update =
  iu_project :: int
  iu_entity_type :: pyval
  iu_entity_id :: int
  iu_position :: "int option option"
  iu_color :: "string option"
  iu_due_date :: "date option option"
  iu_estimated_start :: "date option option"
  iu_actual_start :: "date option option"

definition ENTITY_TYPES :: "string list" where
  "ENTITY_TYPES = [TYPE_EPIC, TYPE_USERSTORY, TYPE_TASK]"

text \<open>The names of the fields with errors, as \<open>validator.errors\<close> has them as keys.\<close>

definition error_names :: "(string \<times> bool) list \<Rightarrow> string list" where
  "error_names checks = map fst (filter snd checks)"

fun failed :: "'a + 'b \<Rightarrow> bool" where
  "failed (Inl _) = True"
| "failed (Inr _) = False"

definition NON_FIELD_ERRORS :: string where "NON_FIELD_ERRORS = ''non_field_errors''"

text \<open>The results of the fields, collected; then \<open>ScheduleItemUpdateValidator.validate\<close>.\<close>

definition collect_item_update ::
    "string + int option option \<Rightarrow> string + pyval option option \<Rightarrow> string + int option option
     \<Rightarrow> string + int option option \<Rightarrow> string + string option \<Rightarrow> string + date option option
     \<Rightarrow> string + date option option \<Rightarrow> string + date option option \<Rightarrow> string list + item_update" where
  "collect_item_update project entity_type entity_id position color due_date estimated_start actual_start =
     (let errors = error_names [(''project'', failed project), (''entity_type'', failed entity_type),
            (''entity_id'', failed entity_id), (''position'', failed position), (''color'', failed color),
            (''due_date'', failed due_date), (''estimated_start'', failed estimated_start),
            (''actual_start'', failed actual_start)] in
      if errors \<noteq> [] then Inl errors
      else case (project, entity_type, entity_id, position, color, due_date, estimated_start, actual_start) of
          (Inr (Some (Some p)), Inr (Some (Some et)), Inr (Some (Some i)), Inr pos, Inr c, Inr du, Inr es, Inr ac) \<Rightarrow>
            if pos = None \<and> c = None \<and> du = None \<and> es = None \<and> ac = None
            then Inl [NON_FIELD_ERRORS]
            else Inr \<lparr>iu_project = p, iu_entity_type = et, iu_entity_id = i, iu_position = pos, iu_color = c,
                      iu_due_date = du, iu_estimated_start = es, iu_actual_start = ac\<rparr>
        | _ \<Rightarrow> Inl [NON_FIELD_ERRORS])"

definition schedule_item_update_validator ::
    "(string \<Rightarrow> date option) \<Rightarrow> (pyval \<Rightarrow> string) \<Rightarrow> (string \<times> pyval) list \<Rightarrow> string list + item_update" where
  "schedule_item_update_validator parse_date str_of data =
     (let get = map_of data in
      collect_item_update (integer_field True 1 (get ''project'')) (choice_field True ENTITY_TYPES (get ''entity_type''))
        (integer_field True 1 (get ''entity_id'')) (integer_field False 1 (get ''position''))
        (char_field str_of (get ''color'')) (date_field parse_date (get ''due_date''))
        (date_field parse_date (get ''estimated_start'')) (date_field parse_date (get ''actual_start'')))"

section \<open>Applying dates in bulk\<close>

text \<open>
  \<open>_ScheduleBulkDateUpdateValidator\<close>; the result is the dictionary the service takes. In the
  nested list, \<open>None\<close> is an element that is no object.
\<close>

definition START_FIELDS :: "string list" where "START_FIELDS = [''estimated_start'', ''actual_start'']"

definition schedule_bulk_date_update_validator ::
    "(string \<Rightarrow> date option) \<Rightarrow> (string \<times> pyval) list option \<Rightarrow> string list + raw_item" where
  "schedule_bulk_date_update_validator parse_date item = (case item of
      None \<Rightarrow> Inl [NON_FIELD_ERRORS]
    | Some data \<Rightarrow>
       (let get = map_of data;
            entity_type = choice_field True ENTITY_TYPES (get ''entity_type'');
            entity_id = integer_field True 1 (get ''entity_id'');
            start_field = choice_field False START_FIELDS (get ''start_field'');
            start = date_field parse_date (get ''start'');
            due = date_field parse_date (get ''due'');
            errors = error_names [(''entity_type'', failed entity_type), (''entity_id'', failed entity_id),
              (''start_field'', failed start_field), (''start'', failed start), (''due'', failed due)] in
        if errors \<noteq> [] then Inl errors
        else case (entity_type, entity_id, start_field, start, due) of
            (Inr (Some (Some et)), Inr (Some (Some i)), Inr sf, Inr st, Inr du) \<Rightarrow>
              Inr (Dict \<lparr>in_entity_type = et, in_entity_id = VInt i,
                in_start_field = (case sf of None \<Rightarrow> VNone | Some None \<Rightarrow> VStr '''' | Some (Some v) \<Rightarrow> v),
                in_start = st, in_due = du\<rparr>)
          | _ \<Rightarrow> Inl [NON_FIELD_ERRORS]))"

text \<open>The value of \<open>bulk_updates\<close> in the request: a list, or anything else.\<close>

datatype bulk_value = NotAList pyval | Items "(string \<times> pyval) list option list"

definition schedule_bulk_apply_dates_validator ::
    "(string \<Rightarrow> date option) \<Rightarrow> pyval option \<Rightarrow> bulk_value option \<Rightarrow> string list + (int \<times> raw_item list)" where
  "schedule_bulk_apply_dates_validator parse_date raw_project_id raw_updates =
     (let project = integer_field True 1 raw_project_id;
          updates = (case raw_updates of
              Some (Items items) \<Rightarrow>
                (let results = map (schedule_bulk_date_update_validator parse_date) items in
                 if list_ex failed results then Inl [''bulk_updates'']
                 else if results = [] then Inl [''bulk_updates'']
                 else Inr (map projr results))
            | _ \<Rightarrow> Inl [''bulk_updates'']);
          errors = error_names [(''project_id'', failed project), (''bulk_updates'', failed updates)] in
      case (errors, project, updates) of
        ([], Inr (Some (Some p)), Inr us) \<Rightarrow> Inr (p, us)
      | _ \<Rightarrow> Inl errors)"

end
