(* ===== verification/Permission_Tables.thy ===== *)
theory Permission_Tables
  imports Prelude
begin

text \<open>
  Which permission every action of every endpoint asks for: the \<open>permissions.py\<close> file of each
  application, one definition per \<open>ResourcePermission\<close> class, over the composable permission
  components of \<open>taiga/base/api/permissions.py\<close>. An attribute \<open><action>_perms\<close> of a class is
  an entry of \<open>action_perms\<close>; a class starts from the attributes of \<open>TaigaResourcePermission\<close>
  and overrides them. The component classes the applications define themselves are
  constructors too; what each checks is in theory \<open>Permissions\<close>.
\<close>

section \<open>Permission codes\<close>

definition ANON_PERMISSIONS :: "string list" where
  "ANON_PERMISSIONS = [
    ''view_project'', ''view_milestones'', ''view_epics'', ''view_us'', ''view_tasks'',
    ''view_issues'', ''view_schedule'', ''view_gantt'', ''view_wiki_pages'', ''view_wiki_links'']"

definition MEMBERS_PERMISSIONS :: "string list" where
  "MEMBERS_PERMISSIONS = [
    ''view_project'', ''view_milestones'', ''add_milestone'', ''modify_milestone'',
    ''delete_milestone'', ''view_epics'', ''add_epic'', ''modify_epic'', ''comment_epic'',
    ''delete_epic'', ''view_us'', ''add_us'', ''modify_us'', ''comment_us'', ''delete_us'',
    ''view_tasks'', ''add_task'', ''modify_task'', ''comment_task'', ''delete_task'',
    ''view_issues'', ''add_issue'', ''modify_issue'', ''comment_issue'', ''delete_issue'',
    ''view_schedule'', ''view_gantt'', ''modify_schedule_links'', ''modify_schedule_dates'',
    ''modify_schedule_color'', ''modify_gantt_list_order'', ''view_wiki_pages'', ''add_wiki_page'',
    ''modify_wiki_page'', ''comment_wiki_page'', ''delete_wiki_page'', ''view_wiki_links'',
    ''add_wiki_link'', ''modify_wiki_link'', ''delete_wiki_link'']"

definition ADMINS_PERMISSIONS :: "string list" where
  "ADMINS_PERMISSIONS = [
    ''modify_project'', ''delete_project'', ''add_member'', ''remove_member'',
    ''admin_project_values'', ''admin_roles'']"

section \<open>Permission components\<close>

text \<open>\<open>a | b\<close>, \<open>a & b\<close> and \<open>~a\<close> of the source build \<open>OrPerm [a, b]\<close>, \<open>AndPerm [a, b]\<close> and \<open>NotPerm a\<close>.\<close>

datatype component =
    AllowAny
  | DenyAll
  | IsAuthenticated
  | IsSuperUser
  | HasProjectPerm string
  | IsProjectAdmin
  | IsObjectOwner
  | CommentAndOrUpdatePerm string string
  | CanLeaveProject
  | IsCommentDeleter
  | IsCommentOwner
  | IsCommentProjectAdmin
  | IsAttachmentOwnerPerm
  | CommentAttachmentPerm
  | RawAttachmentPerm
  | IsContactActivated
  | IsTheSameUser
  | CanRetrieveUser
  | CanUseToken
  | IsWebhookProjectAdmin
  | NotPerm component
  | OrPerm "component list"
  | AndPerm "component list"

record resource_permission =
  enough_perms :: "component option"
  global_perms :: "component option"
  action_perms :: "(string \<times> component) list"

definition ResourcePermission :: resource_permission where
  "ResourcePermission = \<lparr>enough_perms = None, global_perms = None, action_perms = []\<rparr>"

definition TaigaResourcePermission :: resource_permission where
  "TaigaResourcePermission = ResourcePermission\<lparr>enough_perms := Some IsSuperUser\<rparr>"

text \<open>The actions \<open>ResourcePermission\<close> itself declares, with no permission set: nothing more is asked.\<close>

definition BASE_ACTIONS :: "string list" where
  "BASE_ACTIONS = [''retrieve'', ''create'', ''update'', ''destroy'', ''list'']"

text \<open>
  \<open>ResourcePermission.check_permissions\<close> up to the evaluation: the component an action is
  checked with. An action without an attribute of its name is an \<open>AttributeError\<close>.
\<close>

definition permset :: "resource_permission \<Rightarrow> string \<Rightarrow> component res" where
  "permset R action = (case map_of (action_perms R) action of
      Some c \<Rightarrow> Inr c
    | None \<Rightarrow> if action \<in> set BASE_ACTIONS then Inr (AndPerm [])
              else Inl (AttributeError (action @ ''_perms'')))"

definition with_global :: "resource_permission \<Rightarrow> component \<Rightarrow> component" where
  "with_global R c = (case global_perms R of None \<Rightarrow> c | Some g \<Rightarrow> AndPerm [g, c])"

definition with_enough :: "resource_permission \<Rightarrow> component \<Rightarrow> component" where
  "with_enough R c = (case enough_perms R of None \<Rightarrow> c | Some e \<Rightarrow> OrPerm [e, c])"

definition composed :: "resource_permission \<Rightarrow> string \<Rightarrow> component res" where
  "composed R action = (case permset R action of
      Inl e \<Rightarrow> Inl e
    | Inr c \<Rightarrow> Inr (with_enough R (with_global R c)))"

section \<open>Projects\<close>

text \<open>\<open>taiga/projects/permissions.py\<close>\<close>

definition ProjectPermission :: resource_permission where
  "ProjectPermission = TaigaResourcePermission\<lparr>
    action_perms := [
      (''retrieve'', HasProjectPerm ''view_project''),
      (''by_slug'', HasProjectPerm ''view_project''),
      (''create'', IsAuthenticated),
      (''update'', IsProjectAdmin),
      (''partial_update'', IsProjectAdmin),
      (''destroy'', IsProjectAdmin),
      (''modules'', IsProjectAdmin),
      (''list'', AllowAny),
      (''change_logo'', IsProjectAdmin),
      (''remove_logo'', IsProjectAdmin),
      (''stats'', HasProjectPerm ''view_project''),
      (''member_stats'', HasProjectPerm ''view_project''),
      (''issues_stats'', HasProjectPerm ''view_project''),
      (''regenerate_epics_csv_uuid'', IsProjectAdmin),
      (''regenerate_userstories_csv_uuid'', IsProjectAdmin),
      (''regenerate_issues_csv_uuid'', IsProjectAdmin),
      (''regenerate_tasks_csv_uuid'', IsProjectAdmin),
      (''delete_epics_csv_uuid'', IsProjectAdmin),
      (''delete_userstories_csv_uuid'', IsProjectAdmin),
      (''delete_issues_csv_uuid'', IsProjectAdmin),
      (''delete_tasks_csv_uuid'', IsProjectAdmin),
      (''tags'', HasProjectPerm ''view_project''),
      (''tags_colors'', HasProjectPerm ''view_project''),
      (''like'', AndPerm [IsAuthenticated, HasProjectPerm ''view_project'']),
      (''unlike'', AndPerm [IsAuthenticated, HasProjectPerm ''view_project'']),
      (''watch'', AndPerm [IsAuthenticated, HasProjectPerm ''view_project'']),
      (''unwatch'', AndPerm [IsAuthenticated, HasProjectPerm ''view_project'']),
      (''create_template'', IsSuperUser),
      (''leave'', CanLeaveProject),
      (''transfer_validate_token'', AndPerm [IsAuthenticated, HasProjectPerm ''view_project'']),
      (''transfer_request'', IsProjectAdmin),
      (''transfer_start'', IsObjectOwner),
      (''transfer_reject'', AndPerm [IsAuthenticated, HasProjectPerm ''view_project'']),
      (''transfer_accept'', AndPerm [IsAuthenticated, HasProjectPerm ''view_project'']),
      (''create_tag'', IsProjectAdmin),
      (''edit_tag'', IsProjectAdmin),
      (''delete_tag'', IsProjectAdmin),
      (''mix_tags'', IsProjectAdmin),
      (''duplicate'', AndPerm [IsAuthenticated, HasProjectPerm ''view_project''])]\<rparr>"

definition ProjectFansPermission :: resource_permission where
  "ProjectFansPermission = TaigaResourcePermission\<lparr>
    enough_perms := Some (OrPerm [IsProjectAdmin, IsSuperUser]),
    global_perms := None,
    action_perms := [
      (''retrieve'', HasProjectPerm ''view_project''),
      (''list'', HasProjectPerm ''view_project'')]\<rparr>"

definition ProjectWatchersPermission :: resource_permission where
  "ProjectWatchersPermission = TaigaResourcePermission\<lparr>
    enough_perms := Some (OrPerm [IsProjectAdmin, IsSuperUser]),
    global_perms := None,
    action_perms := [
      (''retrieve'', HasProjectPerm ''view_project''),
      (''list'', HasProjectPerm ''view_project'')]\<rparr>"

definition MembershipPermission :: resource_permission where
  "MembershipPermission = TaigaResourcePermission\<lparr>
    action_perms := [
      (''retrieve'', HasProjectPerm ''view_project''),
      (''create'', IsProjectAdmin),
      (''update'', IsProjectAdmin),
      (''partial_update'', IsProjectAdmin),
      (''destroy'', IsProjectAdmin),
      (''list'', AllowAny),
      (''bulk_create'', IsProjectAdmin),
      (''resend_invitation'', IsProjectAdmin)]\<rparr>"

definition EpicStatusPermission :: resource_permission where
  "EpicStatusPermission = TaigaResourcePermission\<lparr>
    action_perms := [
      (''retrieve'', HasProjectPerm ''view_project''),
      (''create'', IsProjectAdmin),
      (''update'', IsProjectAdmin),
      (''partial_update'', IsProjectAdmin),
      (''destroy'', IsProjectAdmin),
      (''list'', AllowAny),
      (''bulk_update_order'', IsProjectAdmin)]\<rparr>"

definition PointsPermission :: resource_permission where
  "PointsPermission = TaigaResourcePermission\<lparr>
    action_perms := [
      (''retrieve'', HasProjectPerm ''view_project''),
      (''create'', IsProjectAdmin),
      (''update'', IsProjectAdmin),
      (''partial_update'', IsProjectAdmin),
      (''destroy'', IsProjectAdmin),
      (''list'', AllowAny),
      (''bulk_update_order'', IsProjectAdmin)]\<rparr>"

definition UserStoryStatusPermission :: resource_permission where
  "UserStoryStatusPermission = TaigaResourcePermission\<lparr>
    action_perms := [
      (''retrieve'', HasProjectPerm ''view_project''),
      (''create'', IsProjectAdmin),
      (''update'', IsProjectAdmin),
      (''partial_update'', IsProjectAdmin),
      (''destroy'', IsProjectAdmin),
      (''list'', AllowAny),
      (''bulk_update_order'', IsProjectAdmin)]\<rparr>"

definition SwimlanePermission :: resource_permission where
  "SwimlanePermission = TaigaResourcePermission\<lparr>
    action_perms := [
      (''retrieve'', HasProjectPerm ''view_project''),
      (''create'', IsProjectAdmin),
      (''update'', IsProjectAdmin),
      (''partial_update'', IsProjectAdmin),
      (''destroy'', IsProjectAdmin),
      (''list'', AllowAny),
      (''bulk_update_order'', IsProjectAdmin)]\<rparr>"

definition SwimlaneUserStoryStatusPermission :: resource_permission where
  "SwimlaneUserStoryStatusPermission = TaigaResourcePermission\<lparr>
    action_perms := [
      (''retrieve'', HasProjectPerm ''view_project''),
      (''create'', DenyAll),
      (''update'', IsProjectAdmin),
      (''partial_update'', IsProjectAdmin),
      (''destroy'', DenyAll),
      (''list'', AllowAny)]\<rparr>"

definition UserStoryDueDatePermission :: resource_permission where
  "UserStoryDueDatePermission = TaigaResourcePermission\<lparr>
    action_perms := [
      (''retrieve'', HasProjectPerm ''view_project''),
      (''create'', IsProjectAdmin),
      (''update'', IsProjectAdmin),
      (''partial_update'', IsProjectAdmin),
      (''destroy'', IsProjectAdmin),
      (''list'', AllowAny),
      (''bulk_update_order'', IsProjectAdmin)]\<rparr>"

definition TaskStatusPermission :: resource_permission where
  "TaskStatusPermission = TaigaResourcePermission\<lparr>
    action_perms := [
      (''retrieve'', HasProjectPerm ''view_project''),
      (''create'', IsProjectAdmin),
      (''update'', IsProjectAdmin),
      (''partial_update'', IsProjectAdmin),
      (''destroy'', IsProjectAdmin),
      (''list'', AllowAny),
      (''bulk_update_order'', IsProjectAdmin)]\<rparr>"

definition TaskDueDatePermission :: resource_permission where
  "TaskDueDatePermission = TaigaResourcePermission\<lparr>
    action_perms := [
      (''retrieve'', HasProjectPerm ''view_project''),
      (''create'', IsProjectAdmin),
      (''update'', IsProjectAdmin),
      (''partial_update'', IsProjectAdmin),
      (''destroy'', IsProjectAdmin),
      (''list'', AllowAny),
      (''bulk_update_order'', IsProjectAdmin)]\<rparr>"

definition SeverityPermission :: resource_permission where
  "SeverityPermission = TaigaResourcePermission\<lparr>
    action_perms := [
      (''retrieve'', HasProjectPerm ''view_project''),
      (''create'', IsProjectAdmin),
      (''update'', IsProjectAdmin),
      (''partial_update'', IsProjectAdmin),
      (''destroy'', IsProjectAdmin),
      (''list'', AllowAny),
      (''bulk_update_order'', IsProjectAdmin)]\<rparr>"

definition PriorityPermission :: resource_permission where
  "PriorityPermission = TaigaResourcePermission\<lparr>
    action_perms := [
      (''retrieve'', HasProjectPerm ''view_project''),
      (''create'', IsProjectAdmin),
      (''update'', IsProjectAdmin),
      (''partial_update'', IsProjectAdmin),
      (''destroy'', IsProjectAdmin),
      (''list'', AllowAny),
      (''bulk_update_order'', IsProjectAdmin)]\<rparr>"

definition IssueStatusPermission :: resource_permission where
  "IssueStatusPermission = TaigaResourcePermission\<lparr>
    action_perms := [
      (''retrieve'', HasProjectPerm ''view_project''),
      (''create'', IsProjectAdmin),
      (''update'', IsProjectAdmin),
      (''partial_update'', IsProjectAdmin),
      (''destroy'', IsProjectAdmin),
      (''list'', AllowAny),
      (''bulk_update_order'', IsProjectAdmin)]\<rparr>"

definition IssueTypePermission :: resource_permission where
  "IssueTypePermission = TaigaResourcePermission\<lparr>
    action_perms := [
      (''retrieve'', HasProjectPerm ''view_project''),
      (''create'', IsProjectAdmin),
      (''update'', IsProjectAdmin),
      (''partial_update'', IsProjectAdmin),
      (''destroy'', IsProjectAdmin),
      (''list'', AllowAny),
      (''bulk_update_order'', IsProjectAdmin)]\<rparr>"

definition IssueDueDatePermission :: resource_permission where
  "IssueDueDatePermission = TaigaResourcePermission\<lparr>
    action_perms := [
      (''retrieve'', HasProjectPerm ''view_project''),
      (''create'', IsProjectAdmin),
      (''update'', IsProjectAdmin),
      (''partial_update'', IsProjectAdmin),
      (''destroy'', IsProjectAdmin),
      (''list'', AllowAny),
      (''bulk_update_order'', IsProjectAdmin)]\<rparr>"

definition ProjectTemplatePermission :: resource_permission where
  "ProjectTemplatePermission = TaigaResourcePermission\<lparr>
    action_perms := [
      (''retrieve'', AllowAny),
      (''create'', IsSuperUser),
      (''update'', IsSuperUser),
      (''partial_update'', IsSuperUser),
      (''destroy'', IsSuperUser),
      (''list'', AllowAny)]\<rparr>"

section \<open>Epics\<close>

text \<open>\<open>taiga/projects/epics/permissions.py\<close>\<close>

definition EpicPermission :: resource_permission where
  "EpicPermission = TaigaResourcePermission\<lparr>
    enough_perms := Some (OrPerm [IsProjectAdmin, IsSuperUser]),
    global_perms := None,
    action_perms := [
      (''retrieve'', HasProjectPerm ''view_epics''),
      (''create'', HasProjectPerm ''add_epic''),
      (''update'', CommentAndOrUpdatePerm ''modify_epic'' ''comment_epic''),
      (''partial_update'', CommentAndOrUpdatePerm ''modify_epic'' ''comment_epic''),
      (''destroy'', HasProjectPerm ''delete_epic''),
      (''list'', AllowAny),
      (''filters_data'', AllowAny),
      (''csv'', AllowAny),
      (''bulk_create'', HasProjectPerm ''add_epic''),
      (''upvote'', AndPerm [IsAuthenticated, HasProjectPerm ''view_epics'']),
      (''downvote'', AndPerm [IsAuthenticated, HasProjectPerm ''view_epics'']),
      (''watch'', AndPerm [IsAuthenticated, HasProjectPerm ''view_epics'']),
      (''unwatch'', AndPerm [IsAuthenticated, HasProjectPerm ''view_epics''])]\<rparr>"

definition EpicRelatedUserStoryPermission :: resource_permission where
  "EpicRelatedUserStoryPermission = TaigaResourcePermission\<lparr>
    enough_perms := Some (OrPerm [IsProjectAdmin, IsSuperUser]),
    global_perms := None,
    action_perms := [
      (''retrieve'', HasProjectPerm ''view_epics''),
      (''create'', HasProjectPerm ''modify_epic''),
      (''update'', HasProjectPerm ''modify_epic''),
      (''partial_update'', HasProjectPerm ''modify_epic''),
      (''destroy'', HasProjectPerm ''modify_epic''),
      (''list'', AllowAny),
      (''bulk_create'', HasProjectPerm ''modify_epic'')]\<rparr>"

definition EpicVotersPermission :: resource_permission where
  "EpicVotersPermission = TaigaResourcePermission\<lparr>
    enough_perms := Some (OrPerm [IsProjectAdmin, IsSuperUser]),
    global_perms := None,
    action_perms := [
      (''retrieve'', HasProjectPerm ''view_epics''),
      (''list'', HasProjectPerm ''view_epics'')]\<rparr>"

definition EpicWatchersPermission :: resource_permission where
  "EpicWatchersPermission = TaigaResourcePermission\<lparr>
    enough_perms := Some (OrPerm [IsProjectAdmin, IsSuperUser]),
    global_perms := None,
    action_perms := [
      (''retrieve'', HasProjectPerm ''view_epics''),
      (''list'', HasProjectPerm ''view_epics'')]\<rparr>"

section \<open>User stories\<close>

text \<open>\<open>taiga/projects/userstories/permissions.py\<close>\<close>

definition UserStoryPermission :: resource_permission where
  "UserStoryPermission = TaigaResourcePermission\<lparr>
    enough_perms := Some (OrPerm [IsProjectAdmin, IsSuperUser]),
    global_perms := None,
    action_perms := [
      (''retrieve'', HasProjectPerm ''view_us''),
      (''by_ref'', HasProjectPerm ''view_us''),
      (''create'', OrPerm [HasProjectPerm ''add_us_to_project'', HasProjectPerm ''add_us'']),
      (''update'', CommentAndOrUpdatePerm ''modify_us'' ''comment_us''),
      (''partial_update'', CommentAndOrUpdatePerm ''modify_us'' ''comment_us''),
      (''destroy'', HasProjectPerm ''delete_us''),
      (''list'', AllowAny),
      (''filters_data'', AllowAny),
      (''csv'', AllowAny),
      (''bulk_create'', AndPerm [IsAuthenticated, OrPerm [HasProjectPerm ''add_us_to_project'', HasProjectPerm ''add_us'']]),
      (''bulk_update_order'', HasProjectPerm ''modify_us''),
      (''bulk_update_milestone'', HasProjectPerm ''modify_us''),
      (''upvote'', AndPerm [IsAuthenticated, HasProjectPerm ''view_us'']),
      (''downvote'', AndPerm [IsAuthenticated, HasProjectPerm ''view_us'']),
      (''watch'', AndPerm [IsAuthenticated, HasProjectPerm ''view_us'']),
      (''unwatch'', AndPerm [IsAuthenticated, HasProjectPerm ''view_us''])]\<rparr>"

definition UserStoryVotersPermission :: resource_permission where
  "UserStoryVotersPermission = TaigaResourcePermission\<lparr>
    enough_perms := Some (OrPerm [IsProjectAdmin, IsSuperUser]),
    global_perms := None,
    action_perms := [
      (''retrieve'', HasProjectPerm ''view_us''),
      (''list'', HasProjectPerm ''view_us'')]\<rparr>"

definition UserStoryWatchersPermission :: resource_permission where
  "UserStoryWatchersPermission = TaigaResourcePermission\<lparr>
    enough_perms := Some (OrPerm [IsProjectAdmin, IsSuperUser]),
    global_perms := None,
    action_perms := [
      (''retrieve'', HasProjectPerm ''view_us''),
      (''list'', HasProjectPerm ''view_us'')]\<rparr>"

section \<open>Tasks\<close>

text \<open>\<open>taiga/projects/tasks/permissions.py\<close>\<close>

definition TaskPermission :: resource_permission where
  "TaskPermission = TaigaResourcePermission\<lparr>
    enough_perms := Some (OrPerm [IsProjectAdmin, IsSuperUser]),
    global_perms := None,
    action_perms := [
      (''retrieve'', HasProjectPerm ''view_tasks''),
      (''create'', HasProjectPerm ''add_task''),
      (''update'', CommentAndOrUpdatePerm ''modify_task'' ''comment_task''),
      (''partial_update'', CommentAndOrUpdatePerm ''modify_task'' ''comment_task''),
      (''destroy'', HasProjectPerm ''delete_task''),
      (''list'', AllowAny),
      (''filters_data'', AllowAny),
      (''csv'', AllowAny),
      (''bulk_create'', HasProjectPerm ''add_task''),
      (''bulk_update_order'', HasProjectPerm ''modify_task''),
      (''bulk_update_milestone'', HasProjectPerm ''modify_task''),
      (''upvote'', AndPerm [IsAuthenticated, HasProjectPerm ''view_tasks'']),
      (''downvote'', AndPerm [IsAuthenticated, HasProjectPerm ''view_tasks'']),
      (''watch'', AndPerm [IsAuthenticated, HasProjectPerm ''view_tasks'']),
      (''unwatch'', AndPerm [IsAuthenticated, HasProjectPerm ''view_tasks'']),
      (''promote_to_us'', AndPerm [IsAuthenticated, HasProjectPerm ''view_tasks''])]\<rparr>"

definition TaskVotersPermission :: resource_permission where
  "TaskVotersPermission = TaigaResourcePermission\<lparr>
    enough_perms := Some (OrPerm [IsProjectAdmin, IsSuperUser]),
    global_perms := None,
    action_perms := [
      (''retrieve'', HasProjectPerm ''view_tasks''),
      (''list'', HasProjectPerm ''view_tasks'')]\<rparr>"

definition TaskWatchersPermission :: resource_permission where
  "TaskWatchersPermission = TaigaResourcePermission\<lparr>
    enough_perms := Some (OrPerm [IsProjectAdmin, IsSuperUser]),
    global_perms := None,
    action_perms := [
      (''retrieve'', HasProjectPerm ''view_tasks''),
      (''list'', HasProjectPerm ''view_tasks'')]\<rparr>"

section \<open>Issues\<close>

text \<open>\<open>taiga/projects/issues/permissions.py\<close>\<close>

definition IssuePermission :: resource_permission where
  "IssuePermission = TaigaResourcePermission\<lparr>
    enough_perms := Some (OrPerm [IsProjectAdmin, IsSuperUser]),
    global_perms := None,
    action_perms := [
      (''retrieve'', HasProjectPerm ''view_issues''),
      (''create'', HasProjectPerm ''add_issue''),
      (''update'', CommentAndOrUpdatePerm ''modify_issue'' ''comment_issue''),
      (''partial_update'', CommentAndOrUpdatePerm ''modify_issue'' ''comment_issue''),
      (''destroy'', HasProjectPerm ''delete_issue''),
      (''list'', AllowAny),
      (''filters_data'', AllowAny),
      (''csv'', AllowAny),
      (''bulk_create'', HasProjectPerm ''add_issue''),
      (''bulk_update_milestone'', HasProjectPerm ''modify_issue''),
      (''delete_comment'', HasProjectPerm ''modify_issue''),
      (''upvote'', AndPerm [IsAuthenticated, HasProjectPerm ''view_issues'']),
      (''downvote'', AndPerm [IsAuthenticated, HasProjectPerm ''view_issues'']),
      (''watch'', AndPerm [IsAuthenticated, HasProjectPerm ''view_issues'']),
      (''unwatch'', AndPerm [IsAuthenticated, HasProjectPerm ''view_issues'']),
      (''promote_to_us'', AndPerm [IsAuthenticated, HasProjectPerm ''add_us''])]\<rparr>"

definition IssueVotersPermission :: resource_permission where
  "IssueVotersPermission = TaigaResourcePermission\<lparr>
    enough_perms := Some (OrPerm [IsProjectAdmin, IsSuperUser]),
    global_perms := None,
    action_perms := [
      (''retrieve'', HasProjectPerm ''view_issues''),
      (''list'', HasProjectPerm ''view_issues'')]\<rparr>"

definition IssueWatchersPermission :: resource_permission where
  "IssueWatchersPermission = TaigaResourcePermission\<lparr>
    enough_perms := Some (OrPerm [IsProjectAdmin, IsSuperUser]),
    global_perms := None,
    action_perms := [
      (''retrieve'', HasProjectPerm ''view_issues''),
      (''list'', HasProjectPerm ''view_issues'')]\<rparr>"

section \<open>Milestones\<close>

text \<open>\<open>taiga/projects/milestones/permissions.py\<close>\<close>

definition MilestonePermission :: resource_permission where
  "MilestonePermission = TaigaResourcePermission\<lparr>
    enough_perms := Some (OrPerm [IsProjectAdmin, IsSuperUser]),
    global_perms := None,
    action_perms := [
      (''retrieve'', HasProjectPerm ''view_milestones''),
      (''create'', HasProjectPerm ''add_milestone''),
      (''update'', HasProjectPerm ''modify_milestone''),
      (''partial_update'', HasProjectPerm ''modify_milestone''),
      (''destroy'', HasProjectPerm ''delete_milestone''),
      (''list'', AllowAny),
      (''stats'', HasProjectPerm ''view_milestones''),
      (''watch'', AndPerm [IsAuthenticated, HasProjectPerm ''view_milestones'']),
      (''unwatch'', AndPerm [IsAuthenticated, HasProjectPerm ''view_milestones'']),
      (''move_related_items'', HasProjectPerm ''modify_milestone''),
      (''move_uss_to_sprint'', HasProjectPerm ''modify_us''),
      (''move_tasks_to_sprint'', HasProjectPerm ''modify_task''),
      (''move_issues_to_sprint'', HasProjectPerm ''modify_issue'')]\<rparr>"

definition MilestoneWatchersPermission :: resource_permission where
  "MilestoneWatchersPermission = TaigaResourcePermission\<lparr>
    enough_perms := Some (OrPerm [IsProjectAdmin, IsSuperUser]),
    global_perms := None,
    action_perms := [
      (''retrieve'', HasProjectPerm ''view_milestones''),
      (''list'', HasProjectPerm ''view_milestones'')]\<rparr>"

section \<open>Wiki\<close>

text \<open>\<open>taiga/projects/wiki/permissions.py\<close>\<close>

definition WikiPagePermission :: resource_permission where
  "WikiPagePermission = TaigaResourcePermission\<lparr>
    enough_perms := Some (OrPerm [IsProjectAdmin, IsSuperUser]),
    global_perms := None,
    action_perms := [
      (''retrieve'', HasProjectPerm ''view_wiki_pages''),
      (''by_slug'', HasProjectPerm ''view_wiki_pages''),
      (''create'', HasProjectPerm ''add_wiki_page''),
      (''update'', CommentAndOrUpdatePerm ''modify_wiki_page'' ''comment_wiki_page''),
      (''partial_update'', CommentAndOrUpdatePerm ''modify_wiki_page'' ''comment_wiki_page''),
      (''destroy'', HasProjectPerm ''delete_wiki_page''),
      (''list'', AllowAny),
      (''render'', AllowAny),
      (''watch'', AndPerm [IsAuthenticated, HasProjectPerm ''view_wiki_pages'']),
      (''unwatch'', AndPerm [IsAuthenticated, HasProjectPerm ''view_wiki_pages''])]\<rparr>"

definition WikiPageWatchersPermission :: resource_permission where
  "WikiPageWatchersPermission = TaigaResourcePermission\<lparr>
    enough_perms := Some (OrPerm [IsProjectAdmin, IsSuperUser]),
    global_perms := None,
    action_perms := [
      (''retrieve'', HasProjectPerm ''view_wiki_pages''),
      (''list'', HasProjectPerm ''view_wiki_pages'')]\<rparr>"

definition WikiLinkPermission :: resource_permission where
  "WikiLinkPermission = TaigaResourcePermission\<lparr>
    enough_perms := Some (OrPerm [IsProjectAdmin, IsSuperUser]),
    global_perms := None,
    action_perms := [
      (''retrieve'', HasProjectPerm ''view_wiki_links''),
      (''create'', HasProjectPerm ''add_wiki_link''),
      (''update'', HasProjectPerm ''modify_wiki_link''),
      (''partial_update'', HasProjectPerm ''modify_wiki_link''),
      (''destroy'', HasProjectPerm ''delete_wiki_link''),
      (''list'', AllowAny),
      (''create_wiki_page'', HasProjectPerm ''add_wiki_page'')]\<rparr>"

section \<open>Custom attributes\<close>

text \<open>\<open>taiga/projects/custom_attributes/permissions.py\<close>\<close>

definition EpicCustomAttributePermission :: resource_permission where
  "EpicCustomAttributePermission = TaigaResourcePermission\<lparr>
    enough_perms := Some (OrPerm [IsProjectAdmin, IsSuperUser]),
    global_perms := None,
    action_perms := [
      (''retrieve'', HasProjectPerm ''view_project''),
      (''create'', IsProjectAdmin),
      (''update'', IsProjectAdmin),
      (''partial_update'', IsProjectAdmin),
      (''destroy'', IsProjectAdmin),
      (''list'', AllowAny),
      (''bulk_update_order'', IsProjectAdmin)]\<rparr>"

definition UserStoryCustomAttributePermission :: resource_permission where
  "UserStoryCustomAttributePermission = TaigaResourcePermission\<lparr>
    enough_perms := Some (OrPerm [IsProjectAdmin, IsSuperUser]),
    global_perms := None,
    action_perms := [
      (''retrieve'', HasProjectPerm ''view_project''),
      (''create'', IsProjectAdmin),
      (''update'', IsProjectAdmin),
      (''partial_update'', IsProjectAdmin),
      (''destroy'', IsProjectAdmin),
      (''list'', AllowAny),
      (''bulk_update_order'', IsProjectAdmin)]\<rparr>"

definition TaskCustomAttributePermission :: resource_permission where
  "TaskCustomAttributePermission = TaigaResourcePermission\<lparr>
    enough_perms := Some (OrPerm [IsProjectAdmin, IsSuperUser]),
    global_perms := None,
    action_perms := [
      (''retrieve'', HasProjectPerm ''view_project''),
      (''create'', IsProjectAdmin),
      (''update'', IsProjectAdmin),
      (''partial_update'', IsProjectAdmin),
      (''destroy'', IsProjectAdmin),
      (''list'', AllowAny),
      (''bulk_update_order'', IsProjectAdmin)]\<rparr>"

definition IssueCustomAttributePermission :: resource_permission where
  "IssueCustomAttributePermission = TaigaResourcePermission\<lparr>
    enough_perms := Some (OrPerm [IsProjectAdmin, IsSuperUser]),
    global_perms := None,
    action_perms := [
      (''retrieve'', HasProjectPerm ''view_project''),
      (''create'', IsProjectAdmin),
      (''update'', IsProjectAdmin),
      (''partial_update'', IsProjectAdmin),
      (''destroy'', IsProjectAdmin),
      (''list'', AllowAny),
      (''bulk_update_order'', IsProjectAdmin)]\<rparr>"

definition EpicCustomAttributesValuesPermission :: resource_permission where
  "EpicCustomAttributesValuesPermission = TaigaResourcePermission\<lparr>
    enough_perms := Some (OrPerm [IsProjectAdmin, IsSuperUser]),
    global_perms := None,
    action_perms := [
      (''retrieve'', HasProjectPerm ''view_us''),
      (''update'', HasProjectPerm ''modify_us''),
      (''partial_update'', HasProjectPerm ''modify_us'')]\<rparr>"

definition UserStoryCustomAttributesValuesPermission :: resource_permission where
  "UserStoryCustomAttributesValuesPermission = TaigaResourcePermission\<lparr>
    enough_perms := Some (OrPerm [IsProjectAdmin, IsSuperUser]),
    global_perms := None,
    action_perms := [
      (''retrieve'', HasProjectPerm ''view_us''),
      (''update'', HasProjectPerm ''modify_us''),
      (''partial_update'', HasProjectPerm ''modify_us'')]\<rparr>"

definition TaskCustomAttributesValuesPermission :: resource_permission where
  "TaskCustomAttributesValuesPermission = TaigaResourcePermission\<lparr>
    enough_perms := Some (OrPerm [IsProjectAdmin, IsSuperUser]),
    global_perms := None,
    action_perms := [
      (''retrieve'', HasProjectPerm ''view_tasks''),
      (''update'', HasProjectPerm ''modify_task''),
      (''partial_update'', HasProjectPerm ''modify_task'')]\<rparr>"

definition IssueCustomAttributesValuesPermission :: resource_permission where
  "IssueCustomAttributesValuesPermission = TaigaResourcePermission\<lparr>
    enough_perms := Some (OrPerm [IsProjectAdmin, IsSuperUser]),
    global_perms := None,
    action_perms := [
      (''retrieve'', HasProjectPerm ''view_issues''),
      (''update'', HasProjectPerm ''modify_issue''),
      (''partial_update'', HasProjectPerm ''modify_issue'')]\<rparr>"

section \<open>Attachments\<close>

text \<open>\<open>taiga/projects/attachments/permissions.py\<close>\<close>

definition EpicAttachmentPermission :: resource_permission where
  "EpicAttachmentPermission = TaigaResourcePermission\<lparr>
    action_perms := [
      (''retrieve'', OrPerm [HasProjectPerm ''view_epics'', IsAttachmentOwnerPerm]),
      (''create'', OrPerm [HasProjectPerm ''modify_epic'', AndPerm [CommentAttachmentPerm, HasProjectPerm ''comment_epic'']]),
      (''update'', OrPerm [HasProjectPerm ''modify_epic'', IsAttachmentOwnerPerm]),
      (''partial_update'', OrPerm [HasProjectPerm ''modify_epic'', IsAttachmentOwnerPerm]),
      (''bulk_update_order'', OrPerm [HasProjectPerm ''modify_epic'', IsAttachmentOwnerPerm]),
      (''destroy'', OrPerm [HasProjectPerm ''modify_epic'', IsAttachmentOwnerPerm]),
      (''list'', AllowAny)]\<rparr>"

definition UserStoryAttachmentPermission :: resource_permission where
  "UserStoryAttachmentPermission = TaigaResourcePermission\<lparr>
    action_perms := [
      (''retrieve'', OrPerm [HasProjectPerm ''view_us'', IsAttachmentOwnerPerm]),
      (''create'', OrPerm [HasProjectPerm ''modify_us'', AndPerm [CommentAttachmentPerm, HasProjectPerm ''comment_us'']]),
      (''update'', OrPerm [HasProjectPerm ''modify_us'', IsAttachmentOwnerPerm]),
      (''partial_update'', OrPerm [HasProjectPerm ''modify_us'', IsAttachmentOwnerPerm]),
      (''bulk_update_order'', OrPerm [HasProjectPerm ''modify_us'', IsAttachmentOwnerPerm]),
      (''destroy'', OrPerm [HasProjectPerm ''modify_us'', IsAttachmentOwnerPerm]),
      (''list'', AllowAny)]\<rparr>"

definition TaskAttachmentPermission :: resource_permission where
  "TaskAttachmentPermission = TaigaResourcePermission\<lparr>
    action_perms := [
      (''retrieve'', OrPerm [HasProjectPerm ''view_tasks'', IsAttachmentOwnerPerm]),
      (''create'', OrPerm [HasProjectPerm ''modify_task'', AndPerm [CommentAttachmentPerm, HasProjectPerm ''comment_task'']]),
      (''update'', OrPerm [HasProjectPerm ''modify_task'', IsAttachmentOwnerPerm]),
      (''partial_update'', OrPerm [HasProjectPerm ''modify_task'', IsAttachmentOwnerPerm]),
      (''bulk_update_order'', OrPerm [HasProjectPerm ''modify_task'', IsAttachmentOwnerPerm]),
      (''destroy'', OrPerm [HasProjectPerm ''modify_task'', IsAttachmentOwnerPerm]),
      (''list'', AllowAny)]\<rparr>"

definition IssueAttachmentPermission :: resource_permission where
  "IssueAttachmentPermission = TaigaResourcePermission\<lparr>
    action_perms := [
      (''retrieve'', OrPerm [HasProjectPerm ''view_issues'', IsAttachmentOwnerPerm]),
      (''create'', OrPerm [HasProjectPerm ''modify_issue'', AndPerm [CommentAttachmentPerm, HasProjectPerm ''comment_issue'']]),
      (''update'', OrPerm [HasProjectPerm ''modify_issue'', IsAttachmentOwnerPerm]),
      (''partial_update'', OrPerm [HasProjectPerm ''modify_issue'', IsAttachmentOwnerPerm]),
      (''bulk_update_order'', OrPerm [HasProjectPerm ''modify_issue'', IsAttachmentOwnerPerm]),
      (''destroy'', OrPerm [HasProjectPerm ''modify_issue'', IsAttachmentOwnerPerm]),
      (''list'', AllowAny)]\<rparr>"

definition WikiAttachmentPermission :: resource_permission where
  "WikiAttachmentPermission = TaigaResourcePermission\<lparr>
    action_perms := [
      (''retrieve'', OrPerm [HasProjectPerm ''view_wiki_pages'', IsAttachmentOwnerPerm]),
      (''create'', OrPerm [HasProjectPerm ''modify_wiki_page'', AndPerm [CommentAttachmentPerm, HasProjectPerm ''comment_wiki_page'']]),
      (''update'', OrPerm [HasProjectPerm ''modify_wiki_page'', IsAttachmentOwnerPerm]),
      (''partial_update'', OrPerm [HasProjectPerm ''modify_wiki_page'', IsAttachmentOwnerPerm]),
      (''bulk_update_order'', OrPerm [HasProjectPerm ''modify_wiki_page'', IsAttachmentOwnerPerm]),
      (''destroy'', OrPerm [HasProjectPerm ''modify_wiki_page'', IsAttachmentOwnerPerm]),
      (''list'', AllowAny)]\<rparr>"

definition RawAttachmentPermission :: resource_permission where
  "RawAttachmentPermission = TaigaResourcePermission\<lparr>
    action_perms := [
      (''retrieve'', RawAttachmentPerm)]\<rparr>"

section \<open>History\<close>

text \<open>\<open>taiga/projects/history/permissions.py\<close>\<close>

definition EpicHistoryPermission :: resource_permission where
  "EpicHistoryPermission = TaigaResourcePermission\<lparr>
    action_perms := [
      (''retrieve'', HasProjectPerm ''view_project''),
      (''edit_comment'', OrPerm [IsCommentProjectAdmin, IsCommentOwner]),
      (''delete_comment'', OrPerm [IsCommentProjectAdmin, IsCommentOwner]),
      (''undelete_comment'', OrPerm [IsCommentProjectAdmin, IsCommentDeleter]),
      (''comment_versions'', OrPerm [IsCommentProjectAdmin, IsCommentOwner])]\<rparr>"

definition UserStoryHistoryPermission :: resource_permission where
  "UserStoryHistoryPermission = TaigaResourcePermission\<lparr>
    action_perms := [
      (''retrieve'', HasProjectPerm ''view_project''),
      (''edit_comment'', OrPerm [IsCommentProjectAdmin, IsCommentOwner]),
      (''delete_comment'', OrPerm [IsCommentProjectAdmin, IsCommentOwner]),
      (''undelete_comment'', OrPerm [IsCommentProjectAdmin, IsCommentDeleter]),
      (''comment_versions'', OrPerm [IsCommentProjectAdmin, IsCommentOwner])]\<rparr>"

definition TaskHistoryPermission :: resource_permission where
  "TaskHistoryPermission = TaigaResourcePermission\<lparr>
    action_perms := [
      (''retrieve'', HasProjectPerm ''view_project''),
      (''edit_comment'', OrPerm [IsCommentProjectAdmin, IsCommentOwner]),
      (''delete_comment'', OrPerm [IsCommentProjectAdmin, IsCommentOwner]),
      (''undelete_comment'', OrPerm [IsCommentProjectAdmin, IsCommentDeleter]),
      (''comment_versions'', OrPerm [IsCommentProjectAdmin, IsCommentOwner])]\<rparr>"

definition IssueHistoryPermission :: resource_permission where
  "IssueHistoryPermission = TaigaResourcePermission\<lparr>
    action_perms := [
      (''retrieve'', HasProjectPerm ''view_project''),
      (''edit_comment'', OrPerm [IsCommentProjectAdmin, IsCommentOwner]),
      (''delete_comment'', OrPerm [IsCommentProjectAdmin, IsCommentOwner]),
      (''undelete_comment'', OrPerm [IsCommentProjectAdmin, IsCommentDeleter]),
      (''comment_versions'', OrPerm [IsCommentProjectAdmin, IsCommentOwner])]\<rparr>"

definition WikiHistoryPermission :: resource_permission where
  "WikiHistoryPermission = TaigaResourcePermission\<lparr>
    action_perms := [
      (''retrieve'', HasProjectPerm ''view_project''),
      (''edit_comment'', OrPerm [IsCommentProjectAdmin, IsCommentOwner]),
      (''delete_comment'', OrPerm [IsCommentProjectAdmin, IsCommentOwner]),
      (''undelete_comment'', OrPerm [IsCommentProjectAdmin, IsCommentDeleter]),
      (''comment_versions'', OrPerm [IsCommentProjectAdmin, IsCommentOwner])]\<rparr>"

section \<open>Schedule\<close>

text \<open>\<open>taiga/projects/schedule/permissions.py\<close>\<close>

definition ScheduleDependencyPermission :: resource_permission where
  "ScheduleDependencyPermission = TaigaResourcePermission\<lparr>
    action_perms := [
      (''retrieve'', IsAuthenticated),
      (''create'', IsAuthenticated),
      (''update'', IsAuthenticated),
      (''partial_update'', IsAuthenticated),
      (''destroy'', IsAuthenticated),
      (''list'', IsAuthenticated),
      (''bulk_apply_dates'', IsAuthenticated)]\<rparr>"

definition ScheduleItemPermission :: resource_permission where
  "ScheduleItemPermission = TaigaResourcePermission\<lparr>
    action_perms := [
      (''list'', IsAuthenticated),
      (''update_item'', IsAuthenticated)]\<rparr>"

section \<open>References\<close>

text \<open>\<open>taiga/projects/references/permissions.py\<close>\<close>

definition ResolverPermission :: resource_permission where
  "ResolverPermission = TaigaResourcePermission\<lparr>
    action_perms := [
      (''list'', HasProjectPerm ''view_project'')]\<rparr>"

section \<open>Notifications\<close>

text \<open>\<open>taiga/projects/notifications/permissions.py\<close>\<close>

definition NotifyPolicyPermission :: resource_permission where
  "NotifyPolicyPermission = TaigaResourcePermission\<lparr>
    action_perms := [
      (''retrieve'', IsAuthenticated),
      (''create'', IsAuthenticated),
      (''update'', IsAuthenticated),
      (''partial_update'', IsAuthenticated),
      (''destroy'', IsAuthenticated),
      (''list'', IsAuthenticated)]\<rparr>"

section \<open>User project settings\<close>

text \<open>\<open>taiga/projects/settings/permissions.py\<close>\<close>

definition UserProjectSettingsPermission :: resource_permission where
  "UserProjectSettingsPermission = TaigaResourcePermission\<lparr>
    action_perms := [
      (''retrieve'', IsAuthenticated),
      (''create'', IsAuthenticated),
      (''update'', IsAuthenticated),
      (''partial_update'', IsAuthenticated),
      (''destroy'', IsAuthenticated),
      (''list'', IsAuthenticated)]\<rparr>"

section \<open>Contact\<close>

text \<open>\<open>taiga/projects/contact/permissions.py\<close>\<close>

definition ContactPermission :: resource_permission where
  "ContactPermission = TaigaResourcePermission\<lparr>
    action_perms := [
      (''create'', IsContactActivated)]\<rparr>"

section \<open>Users\<close>

text \<open>\<open>taiga/users/permissions.py\<close>\<close>

definition UserPermission :: resource_permission where
  "UserPermission = TaigaResourcePermission\<lparr>
    enough_perms := Some IsSuperUser,
    global_perms := None,
    action_perms := [
      (''retrieve'', CanRetrieveUser),
      (''by_username'', CanRetrieveUser),
      (''update'', IsTheSameUser),
      (''partial_update'', IsTheSameUser),
      (''destroy'', IsTheSameUser),
      (''list'', AllowAny),
      (''stats'', AllowAny),
      (''password_recovery'', AllowAny),
      (''change_password_from_recovery'', AllowAny),
      (''change_password'', IsAuthenticated),
      (''change_avatar'', IsAuthenticated),
      (''me'', IsAuthenticated),
      (''remove_avatar'', IsAuthenticated),
      (''change_email'', AllowAny),
      (''contacts'', AllowAny),
      (''liked'', AllowAny),
      (''voted'', AllowAny),
      (''watched'', AllowAny),
      (''send_verification_email'', IsAuthenticated)]\<rparr>"

definition RolesPermission :: resource_permission where
  "RolesPermission = TaigaResourcePermission\<lparr>
    action_perms := [
      (''retrieve'', HasProjectPerm ''view_project''),
      (''create'', IsProjectAdmin),
      (''update'', IsProjectAdmin),
      (''partial_update'', IsProjectAdmin),
      (''destroy'', IsProjectAdmin),
      (''list'', AllowAny)]\<rparr>"

section \<open>Authentication\<close>

text \<open>\<open>taiga/auth/permissions.py\<close>\<close>

definition AuthPermission :: resource_permission where
  "AuthPermission = TaigaResourcePermission\<lparr>
    action_perms := [
      (''get_token'', AllowAny),
      (''refresh_token'', AllowAny),
      (''verify_token'', AllowAny),
      (''register'', AllowAny)]\<rparr>"

section \<open>Statistics\<close>

text \<open>\<open>taiga/stats/permissions.py\<close>\<close>

definition SystemStatsPermission :: resource_permission where
  "SystemStatsPermission = TaigaResourcePermission\<lparr>
    global_perms := Some AllowAny\<rparr>"

definition DiscoverStatsPermission :: resource_permission where
  "DiscoverStatsPermission = TaigaResourcePermission\<lparr>
    global_perms := Some AllowAny\<rparr>"

section \<open>External applications\<close>

text \<open>\<open>taiga/external_apps/permissions.py\<close>\<close>

definition ApplicationPermission :: resource_permission where
  "ApplicationPermission = TaigaResourcePermission\<lparr>
    action_perms := [
      (''retrieve'', IsAuthenticated),
      (''token'', IsAuthenticated),
      (''list'', IsAuthenticated)]\<rparr>"

definition ApplicationTokenPermission :: resource_permission where
  "ApplicationTokenPermission = TaigaResourcePermission\<lparr>
    action_perms := [
      (''retrieve'', AndPerm [IsAuthenticated, CanUseToken]),
      (''by_application'', IsAuthenticated),
      (''create'', IsAuthenticated),
      (''update'', AndPerm [IsAuthenticated, CanUseToken]),
      (''partial_update'', AndPerm [IsAuthenticated, CanUseToken]),
      (''destroy'', AndPerm [IsAuthenticated, CanUseToken]),
      (''list'', IsAuthenticated)]\<rparr>"

section \<open>Feedback\<close>

text \<open>\<open>taiga/feedback/permissions.py\<close>\<close>

definition FeedbackPermission :: resource_permission where
  "FeedbackPermission = TaigaResourcePermission\<lparr>
    action_perms := [
      (''create'', IsAuthenticated)]\<rparr>"

section \<open>Timeline\<close>

text \<open>\<open>taiga/timeline/permissions.py\<close>\<close>

definition UserTimelinePermission :: resource_permission where
  "UserTimelinePermission = TaigaResourcePermission\<lparr>
    enough_perms := Some IsSuperUser,
    global_perms := None,
    action_perms := [
      (''retrieve'', AllowAny)]\<rparr>"

definition ProjectTimelinePermission :: resource_permission where
  "ProjectTimelinePermission = TaigaResourcePermission\<lparr>
    enough_perms := Some (OrPerm [IsProjectAdmin, IsSuperUser]),
    global_perms := None,
    action_perms := [
      (''retrieve'', HasProjectPerm ''view_project'')]\<rparr>"

section \<open>User storage\<close>

text \<open>\<open>taiga/userstorage/permissions.py\<close>\<close>

definition StorageEntriesPermission :: resource_permission where
  "StorageEntriesPermission = TaigaResourcePermission\<lparr>
    enough_perms := Some IsAuthenticated,
    global_perms := Some DenyAll\<rparr>"

section \<open>Importers\<close>

text \<open>\<open>taiga/importers/permissions.py\<close>\<close>

definition ImporterPermission :: resource_permission where
  "ImporterPermission = TaigaResourcePermission\<lparr>
    enough_perms := Some IsAuthenticated,
    global_perms := None,
    action_perms := [
      (''auth_url'', IsAuthenticated),
      (''authorize'', IsAuthenticated),
      (''list_users'', IsAuthenticated),
      (''list_projects'', IsAuthenticated),
      (''import_project'', IsAuthenticated)]\<rparr>"

section \<open>Locales\<close>

text \<open>\<open>taiga/locale/permissions.py\<close>\<close>

definition LocalesPermission :: resource_permission where
  "LocalesPermission = TaigaResourcePermission\<lparr>
    global_perms := Some AllowAny\<rparr>"

section \<open>Webhooks\<close>

text \<open>\<open>taiga/webhooks/permissions.py\<close>\<close>

definition WebhookPermission :: resource_permission where
  "WebhookPermission = TaigaResourcePermission\<lparr>
    action_perms := [
      (''retrieve'', IsProjectAdmin),
      (''create'', IsProjectAdmin),
      (''update'', IsProjectAdmin),
      (''partial_update'', IsProjectAdmin),
      (''destroy'', IsProjectAdmin),
      (''list'', AllowAny),
      (''test'', IsProjectAdmin)]\<rparr>"

definition WebhookLogPermission :: resource_permission where
  "WebhookLogPermission = TaigaResourcePermission\<lparr>
    action_perms := [
      (''retrieve'', IsWebhookProjectAdmin),
      (''list'', AllowAny),
      (''resend'', IsWebhookProjectAdmin)]\<rparr>"

section \<open>Export and import\<close>

text \<open>\<open>taiga/export_import/permissions.py\<close>\<close>

definition ImportExportPermission :: resource_permission where
  "ImportExportPermission = TaigaResourcePermission\<lparr>
    action_perms := [
      (''import_project'', IsAuthenticated),
      (''import_item'', IsProjectAdmin),
      (''export_project'', IsProjectAdmin),
      (''load_dump'', IsAuthenticated)]\<rparr>"

end
