(* ===== verification/Permissions.thy ===== *)
theory Permissions
  imports Permission_Tables
begin

text \<open>
  Users, projects and memberships, the permissions a user has on a project
  (\<open>taiga/permissions/services.py\<close>), which projects a user can see
  (\<open>taiga/base/filters.py\<close>), and the evaluation of permission components
  (\<open>taiga/base/api/permissions.py\<close>, \<open>taiga/permissions/permissions.py\<close> and the components the
  applications define in their own \<open>permissions.py\<close>).
\<close>

section \<open>Stored data\<close>

text \<open>\<open>request.user\<close>: an anonymous user has no id and is never a superuser.\<close>

datatype user = AnonymousUser | User (uid: int) (superuser: bool)

fun user_id :: "user \<Rightarrow> int option" where
  "user_id AnonymousUser = None"
| "user_id (User i _) = Some i"

fun is_authenticated :: "user \<Rightarrow> bool" where
  "is_authenticated AnonymousUser = False"
| "is_authenticated (User _ _) = True"

fun is_superuser :: "user \<Rightarrow> bool" where
  "is_superuser AnonymousUser = False"
| "is_superuser (User _ b) = b"

text \<open>The permission columns are nullable arrays.\<close>

record project =
  pr_id :: int
  pr_owner_id :: "int option"
  pr_is_private :: bool
  pr_anon_permissions :: "string list option"
  pr_public_permissions :: "string list option"
  pr_is_contact_activated :: bool

text \<open>A membership with the permissions of its role; an invitation has no user yet.\<close>

record membership =
  mb_user :: "int option"
  mb_project :: int
  mb_is_admin :: bool
  mb_role_permissions :: "string list option"

text \<open>
  The part of the stored state permissions read. \<open>ac_instances\<close> finds the project of a model
  instance by model name and primary key; \<open>ac_private_user_profiles\<close> is the setting.
\<close>

record access =
  ac_projects :: "project list"
  ac_memberships :: "membership list"
  ac_active_users :: "int list"
  ac_instances :: "((string \<times> string) \<times> project option) list"
  ac_private_user_profiles :: bool

definition find_project :: "access \<Rightarrow> int \<Rightarrow> project option" where
  "find_project ac i = find (\<lambda>p. pr_id p = i) (ac_projects ac)"

section \<open>Memberships\<close>

text \<open>\<open>User._fill_cached_memberships\<close> and \<open>cached_membership_for_project\<close>\<close>

definition fill_cached_memberships :: "access \<Rightarrow> int \<Rightarrow> (int \<rightharpoonup> membership)" where
  "fill_cached_memberships ac i =
     fold (\<lambda>m cache. cache(mb_project m \<mapsto> m)) (filter (\<lambda>m. mb_user m = Some i) (ac_memberships ac)) Map.empty"

definition cached_membership_for_project :: "access \<Rightarrow> int \<Rightarrow> project \<Rightarrow> membership option" where
  "cached_membership_for_project ac i p = fill_cached_memberships ac i (pr_id p)"

text \<open>\<open>Project.cached_memberships\<close> and \<open>cached_memberships_for_user\<close>\<close>

definition cached_memberships :: "access \<Rightarrow> project \<Rightarrow> (int \<rightharpoonup> membership)" where
  "cached_memberships ac p =
     fold (\<lambda>m cache. case mb_user m of None \<Rightarrow> cache | Some i \<Rightarrow> cache(i \<mapsto> m))
       (filter (\<lambda>m. mb_project m = pr_id p \<and> mb_user m \<noteq> None) (ac_memberships ac)) Map.empty"

definition cached_memberships_for_user :: "access \<Rightarrow> project \<Rightarrow> user \<Rightarrow> membership option" where
  "cached_memberships_for_user ac p u =
     (case user_id u of None \<Rightarrow> None | Some i \<Rightarrow> cached_memberships ac p i)"

text \<open>The \<open>cache\<close> argument of the source: take the user's cache or the project's.\<close>

datatype cache = UserCache | ProjectCache

definition get_user_project_membership :: "access \<Rightarrow> user \<Rightarrow> project \<Rightarrow> cache \<Rightarrow> membership option" where
  "get_user_project_membership ac u p c = (case u of
      AnonymousUser \<Rightarrow> None
    | User i _ \<Rightarrow> (case c of
          UserCache \<Rightarrow> cached_membership_for_project ac i p
        | ProjectCache \<Rightarrow> cached_memberships_for_user ac p u))"

section \<open>The permissions of a user on a project\<close>

definition get_membership_permissions :: "membership option \<Rightarrow> string list" where
  "get_membership_permissions mb = (case mb of
      None \<Rightarrow> []
    | Some m \<Rightarrow> (case mb_role_permissions m of None \<Rightarrow> [] | Some ps \<Rightarrow> ps))"

definition or_empty :: "string list option \<Rightarrow> string list" where
  "or_empty ps = (case ps of None \<Rightarrow> [] | Some xs \<Rightarrow> xs)"

definition calculate_permissions ::
    "bool \<Rightarrow> bool \<Rightarrow> bool \<Rightarrow> bool \<Rightarrow> string list \<Rightarrow> string list option \<Rightarrow> string list option \<Rightarrow> string set" where
  "calculate_permissions authenticated super is_member is_admin role_permissions anon_permissions
       public_permissions =
     (let (admins, members, public, anon) =
        (if super then (ADMINS_PERMISSIONS, MEMBERS_PERMISSIONS, [], ANON_PERMISSIONS)
         else if is_member then
           (let (admins, members) = (if is_admin then (ADMINS_PERMISSIONS, MEMBERS_PERMISSIONS) else ([], [])) in
              (admins, members @ role_permissions, or_empty public_permissions, or_empty anon_permissions))
         else if authenticated then ([], [], or_empty public_permissions, or_empty anon_permissions)
         else ([], [], [], or_empty anon_permissions)) in
      set (admins @ members @ public @ anon))"

definition get_user_project_permissions :: "access \<Rightarrow> user \<Rightarrow> project \<Rightarrow> cache \<Rightarrow> string set" where
  "get_user_project_permissions ac u p c =
     (let mb = get_user_project_membership ac u p c;
          is_admin = (case mb of None \<Rightarrow> False | Some m \<Rightarrow> mb_is_admin m) in
      calculate_permissions (is_authenticated u) (is_superuser u) (mb \<noteq> None) is_admin
        (get_membership_permissions mb) (pr_anon_permissions p) (pr_public_permissions p))"

text \<open>The project of an object is \<open>None\<close> for no object and for one without a project.\<close>

definition is_project_owner :: "user \<Rightarrow> project option \<Rightarrow> bool" where
  "is_project_owner u po = (case po of None \<Rightarrow> False | Some p \<Rightarrow> user_id u = pr_owner_id p)"

definition is_project_admin :: "access \<Rightarrow> user \<Rightarrow> project option \<Rightarrow> bool" where
  "is_project_admin ac u po =
     (if is_superuser u then True
      else case po of
          None \<Rightarrow> False
        | Some p \<Rightarrow> (case get_user_project_membership ac u p UserCache of
              None \<Rightarrow> False
            | Some m \<Rightarrow> mb_is_admin m))"

definition user_has_perm :: "access \<Rightarrow> user \<Rightarrow> string \<Rightarrow> project option \<Rightarrow> cache \<Rightarrow> bool" where
  "user_has_perm ac u perm po c =
     (case po of None \<Rightarrow> False | Some p \<Rightarrow> perm \<in> get_user_project_permissions ac u p c)"

definition set_base_permissions_for_project :: "'a project_scheme \<Rightarrow> 'a project_scheme" where
  "set_base_permissions_for_project p =
     (if pr_is_private p then p\<lparr>pr_anon_permissions := Some [], pr_public_permissions := Some []\<rparr>
      else p\<lparr>pr_anon_permissions := Some (remdups (or_empty (pr_anon_permissions p) @ ANON_PERMISSIONS)),
             pr_public_permissions := Some (remdups (or_empty (pr_public_permissions p) @ ANON_PERMISSIONS))\<rparr>)"

text \<open>
  \<open>get_filter_expression_can_view_projects\<close>: the filter, as the condition it puts on a
  project row. A null array contains nothing.
\<close>

definition can_view_filter :: "access \<Rightarrow> user \<Rightarrow> int option \<Rightarrow> project \<Rightarrow> bool" where
  "can_view_filter ac u project_id p = (case u of
      User i True \<Rightarrow> True
    | User i False \<Rightarrow>
        (let mine = filter (\<lambda>m. mb_user m = Some i) (ac_memberships ac);
             mine = (case project_id of
                 None \<Rightarrow> mine
               | Some pid \<Rightarrow> if pid = 0 then mine else filter (\<lambda>m. mb_project m = pid) mine);
             mine = filter (\<lambda>m. ''view_project'' \<in> set (or_empty (mb_role_permissions m)) \<or> mb_is_admin m) mine in
         pr_id p \<in> set (map mb_project mine)
           \<or> ''view_project'' \<in> set (or_empty (pr_public_permissions p)))
    | AnonymousUser \<Rightarrow> ''view_project'' \<in> set (or_empty (pr_anon_permissions p)))"

section \<open>Objects permissions are checked on\<close>

text \<open>
  What the views pass as \<open>obj\<close>: nothing, a project, or an instance of a model, with the
  attributes the components read. \<open>ItemObj\<close> is any model with a project and an owner
  (epics, stories, tasks, issues, wiki pages, milestones); \<open>BareObj\<close> is one with a project
  but no owner (statuses, roles, custom attributes and their values, webhooks). The user a
  history entry stores is a JSON object with the key \<open>pk\<close>, or nothing.
\<close>

datatype obj =
    NoObj
  | ProjectObj project
  | ItemObj "project option" "int option"
  | BareObj "project option"
  | AttachmentObj "project option" "int option" bool "string \<times> string"
  | HistoryEntryObj project "int option" string "int option option" "int option option"
  | UserObj int
  | ApplicationTokenObj int
  | WebhookLogObj project

text \<open>\<open>_get_object_project\<close>\<close>

definition get_object_project :: "obj \<Rightarrow> project option" where
  "get_object_project ob = (case ob of
      NoObj \<Rightarrow> None
    | ProjectObj p \<Rightarrow> Some p
    | ItemObj p _ \<Rightarrow> p
    | BareObj p \<Rightarrow> p
    | AttachmentObj p _ _ _ \<Rightarrow> p
    | HistoryEntryObj p _ _ _ _ \<Rightarrow> Some p
    | UserObj _ \<Rightarrow> None
    | ApplicationTokenObj _ \<Rightarrow> None
    | WebhookLogObj _ \<Rightarrow> None)"

text \<open>\<open>obj.owner\<close>, where the model has it.\<close>

definition obj_owner :: "obj \<Rightarrow> int option res" where
  "obj_owner ob = (case ob of
      ProjectObj p \<Rightarrow> Inr (pr_owner_id p)
    | ItemObj _ ow \<Rightarrow> Inr ow
    | AttachmentObj _ ow _ _ \<Rightarrow> Inr ow
    | HistoryEntryObj _ ow _ _ _ \<Rightarrow> Inr ow
    | _ \<Rightarrow> Inl (AttributeError ''owner''))"

text \<open>One permission check: the stored data, \<open>request.user\<close>, \<open>request.DATA\<close> and the object.\<close>

record check =
  ck_access :: access
  ck_user :: user
  ck_data :: "(string \<times> pyval) list"
  ck_obj :: obj

section \<open>Components\<close>

definition has_project_perm :: "check \<Rightarrow> string \<Rightarrow> bool" where
  "has_project_perm ck perm =
     user_has_perm (ck_access ck) (ck_user ck) perm (get_object_project (ck_obj ck)) UserCache"

definition project_admin_perm :: "check \<Rightarrow> bool" where
  "project_admin_perm ck = is_project_admin (ck_access ck) (ck_user ck) (get_object_project (ck_obj ck))"

definition is_object_owner :: "check \<Rightarrow> bool res" where
  "is_object_owner ck = (case obj_owner (ck_obj ck) of
      Inl e \<Rightarrow> Inl e
    | Inr None \<Rightarrow> Inr False
    | Inr (Some i) \<Rightarrow> Inr (user_id (ck_user ck) = Some i))"

text \<open>
  \<open>CommentAndOrUpdatePerm\<close>: a request that moves the object to another project is checked on
  that project; a request that only comments may do with the permission to comment.
\<close>

definition py_eq_int :: "pyval \<Rightarrow> int option \<Rightarrow> bool" where
  "py_eq_int v i = (case v of
      VInt n \<Rightarrow> i = Some n
    | VBool b \<Rightarrow> i = Some (if b then 1 else 0)
    | _ \<Rightarrow> False)"

definition just_a_comment :: "(string \<times> pyval) list \<Rightarrow> bool" where
  "just_a_comment data \<longleftrightarrow> set (map fst data) - {''version''} = {''comment''}"

definition checked_project :: "check \<Rightarrow> project option res" where
  "checked_project ck =
     (let po = get_object_project (ck_obj ck);
          v = (case map_of (ck_data ck) ''project'' of None \<Rightarrow> VNone | Some v \<Rightarrow> v) in
      if py_truth v \<and> \<not> py_eq_int v (map_option pr_id po) then
        (case py_int v of
           Inl e \<Rightarrow> Inl e
         | Inr i \<Rightarrow> (case find_project (ck_access ck) i of None \<Rightarrow> Inl DoesNotExist | Some p \<Rightarrow> Inr (Some p)))
      else Inr po)"

definition comment_and_or_update :: "check \<Rightarrow> string \<Rightarrow> string \<Rightarrow> bool res" where
  "comment_and_or_update ck update_perm comment_perm =
     (case ck_obj ck of
        NoObj \<Rightarrow> Inr False
      | ProjectObj _ \<Rightarrow> Inl (AttributeError ''project_id'')
      | UserObj _ \<Rightarrow> Inl (AttributeError ''project'')
      | ApplicationTokenObj _ \<Rightarrow> Inl (AttributeError ''project'')
      | WebhookLogObj _ \<Rightarrow> Inl (AttributeError ''project'')
      | _ \<Rightarrow> (case checked_project ck of
          Inl e \<Rightarrow> Inl e
        | Inr po \<Rightarrow>
            if just_a_comment (ck_data ck) \<and> user_has_perm (ck_access ck) (ck_user ck) comment_perm po UserCache
            then Inr True
            else Inr (user_has_perm (ck_access ck) (ck_user ck) update_perm po UserCache)))"

text \<open>\<open>taiga/projects/services/members.py\<close>\<close>

definition project_has_valid_admins :: "access \<Rightarrow> project \<Rightarrow> int option \<Rightarrow> bool" where
  "project_has_valid_admins ac p exclude_user =
     (let admins = filter (\<lambda>m. mb_project m = pr_id p \<and> mb_is_admin m
                      \<and> (case mb_user m of None \<Rightarrow> False | Some i \<Rightarrow> i \<in> set (ac_active_users ac)))
                    (ac_memberships ac);
          admins = (case exclude_user of None \<Rightarrow> admins | Some i \<Rightarrow> filter (\<lambda>m. mb_user m \<noteq> Some i) admins) in
      0 < length admins)"

definition can_user_leave_project :: "access \<Rightarrow> int \<Rightarrow> project \<Rightarrow> bool res" where
  "can_user_leave_project ac i p =
     (case find (\<lambda>m. mb_project m = pr_id p \<and> mb_user m = Some i) (ac_memberships ac) of
        None \<Rightarrow> Inl DoesNotExist
      | Some m \<Rightarrow>
          if \<not> mb_is_admin m then Inr True
          else if pr_owner_id p = Some i then Inr False
          else if \<not> project_has_valid_admins ac p (Some i) then Inr False
          else Inr True)"

text \<open>\<open>CanLeaveProject\<close>: refusing is the exception, not the value \<open>False\<close>.\<close>

definition can_leave :: "check \<Rightarrow> bool res" where
  "can_leave ck = (case ck_obj ck of
      ProjectObj p \<Rightarrow> (case ck_user ck of
          AnonymousUser \<Rightarrow> Inr False
        | User i _ \<Rightarrow> (case can_user_leave_project (ck_access ck) i p of
              Inl e \<Rightarrow> (if e = DoesNotExist then Inr False else Inl e)
            | Inr b \<Rightarrow> if b then Inr True else Inl (PermissionDenied
                ''You can't leave the project if you are the owner or there are no more admins'')))
    | NoObj \<Rightarrow> Inr False
    | _ \<Rightarrow> if is_authenticated (ck_user ck) then Inl (AttributeError ''memberships'') else Inr False)"

text \<open>
  \<open>obj.user and obj.user.get("pk", "not-pk") == request.user.pk\<close>. An entry made without a user
  stores an object whose \<open>pk\<close> is null, \<open>Some None\<close>; the \<open>pk\<close> of an anonymous user is null too.
\<close>

definition json_user_is :: "int option option \<Rightarrow> user \<Rightarrow> bool" where
  "json_user_is j u = (case j of
      None \<Rightarrow> False
    | Some pk \<Rightarrow> pk = user_id u)"

definition is_comment_owner :: "check \<Rightarrow> bool res" where
  "is_comment_owner ck = (case ck_obj ck of
      HistoryEntryObj _ _ _ us _ \<Rightarrow> Inr (json_user_is us (ck_user ck))
    | _ \<Rightarrow> Inl (AttributeError ''user''))"

definition is_comment_deleter :: "check \<Rightarrow> bool res" where
  "is_comment_deleter ck = (case ck_obj ck of
      HistoryEntryObj _ _ _ _ del \<Rightarrow> Inr (json_user_is del (ck_user ck))
    | _ \<Rightarrow> Inl (AttributeError ''delete_comment_user''))"

text \<open>\<open>class_name, pk = key.split(":", 1)\<close>, then the instance of that model.\<close>

definition split_key :: "string \<Rightarrow> (string \<times> string) res" where
  "split_key key = (if CHR '':'' \<in> set key
     then Inr (takeWhile (\<lambda>c. c \<noteq> CHR '':'') key, tl (dropWhile (\<lambda>c. c \<noteq> CHR '':'') key))
     else Inl (ValueError ''not enough values to unpack''))"

definition is_comment_project_admin :: "check \<Rightarrow> bool res" where
  "is_comment_project_admin ck = (case ck_obj ck of
      HistoryEntryObj _ _ key _ _ \<Rightarrow> (case split_key key of
          Inl e \<Rightarrow> Inl e
        | Inr k \<Rightarrow> (case map_of (ac_instances (ck_access ck)) k of
              None \<Rightarrow> Inl DoesNotExist
            | Some po \<Rightarrow> Inr (is_project_admin (ck_access ck) (ck_user ck) po)))
    | _ \<Rightarrow> Inl (AttributeError ''key''))"

definition is_attachment_owner :: "check \<Rightarrow> bool res" where
  "is_attachment_owner ck = (case ck_obj ck of
      NoObj \<Rightarrow> Inr False
    | ob \<Rightarrow> (case obj_owner ob of
          Inl e \<Rightarrow> Inl e
        | Inr None \<Rightarrow> Inr False
        | Inr (Some i) \<Rightarrow> Inr (is_authenticated (ck_user ck) \<and> user_id (ck_user ck) = Some i)))"

definition comment_attachment :: "check \<Rightarrow> bool res" where
  "comment_attachment ck = (case ck_obj ck of
      AttachmentObj _ _ from_comment _ \<Rightarrow> Inr from_comment
    | _ \<Rightarrow> Inl (AttributeError ''from_comment''))"

text \<open>The class \<open>RawAttachmentPerm\<close> delegates to, by the content type of the attachment.\<close>

definition attachment_permission :: "string \<times> string \<Rightarrow> resource_permission option" where
  "attachment_permission content_type =
     (if content_type = (''epics'', ''epic'') then Some EpicAttachmentPermission
      else if content_type = (''userstories'', ''userstory'') then Some UserStoryAttachmentPermission
      else if content_type = (''tasks'', ''task'') then Some TaskAttachmentPermission
      else if content_type = (''issues'', ''issue'') then Some IssueAttachmentPermission
      else if content_type = (''wiki'', ''wikipage'') then Some WikiAttachmentPermission
      else None)"

definition is_contact_activated :: "check \<Rightarrow> bool res" where
  "is_contact_activated ck =
     (if \<not> is_authenticated (ck_user ck) then Inr False
      else case (case ck_obj ck of ProjectObj _ \<Rightarrow> None | ob \<Rightarrow> get_object_project ob) of
          None \<Rightarrow> Inl (AttributeError ''project'')
        | Some p \<Rightarrow>
            if \<not> pr_is_contact_activated p then Inr False
            else if pr_is_private p
              then Inr (cached_memberships_for_user (ck_access ck) p (ck_user ck) \<noteq> None)
            else Inr True)"

text \<open>Objects of the other models are never passed to \<open>IsTheSameUser\<close>; they fail here.\<close>

definition is_the_same_user :: "check \<Rightarrow> bool res" where
  "is_the_same_user ck = (case ck_obj ck of
      NoObj \<Rightarrow> Inr False
    | UserObj i \<Rightarrow> Inr (is_authenticated (ck_user ck) \<and> user_id (ck_user ck) = Some i)
    | _ \<Rightarrow> if is_authenticated (ck_user ck) then Inl (AttributeError ''pk'') else Inr False)"

text \<open>
  \<open>CanRetrieveUser\<close> calls \<open>request.user.is_authenticated()\<close>, which in Django 3.2 is a
  boolean attribute: the call raises \<open>TypeError\<close>.
\<close>

definition can_retrieve_user :: "check \<Rightarrow> bool res" where
  "can_retrieve_user ck =
     (if ac_private_user_profiles (ck_access ck)
      then (case ck_obj ck of NoObj \<Rightarrow> Inr False | _ \<Rightarrow> Inl TypeError)
      else Inr True)"

definition can_use_token :: "check \<Rightarrow> bool res" where
  "can_use_token ck = (case ck_obj ck of
      NoObj \<Rightarrow> Inr False
    | ApplicationTokenObj i \<Rightarrow> Inr (user_id (ck_user ck) = Some i)
    | _ \<Rightarrow> Inl (AttributeError ''user''))"

definition is_webhook_project_admin :: "check \<Rightarrow> bool res" where
  "is_webhook_project_admin ck = (case ck_obj ck of
      WebhookLogObj p \<Rightarrow> Inr (is_project_admin (ck_access ck) (ck_user ck) (Some p))
    | _ \<Rightarrow> Inl (AttributeError ''webhook''))"

section \<open>Evaluation\<close>

text \<open>
  \<open>raws\<close> counts the components that delegate to another class; it bounds the recursion of
  the evaluation.
\<close>

fun raws :: "component \<Rightarrow> nat" where
  "raws RawAttachmentPerm = 1"
| "raws (NotPerm c) = raws c"
| "raws (OrPerm cs) = sum_list (map raws cs)"
| "raws (AndPerm cs) = sum_list (map raws cs)"
| "raws _ = 0"

lemma attachment_permission_raws:
  "attachment_permission ct = Some R \<Longrightarrow> composed R ''retrieve'' = Inr c \<Longrightarrow> raws c = 0"
  by (auto simp: attachment_permission_def composed_def permset_def with_global_def with_enough_def
      EpicAttachmentPermission_def UserStoryAttachmentPermission_def TaskAttachmentPermission_def
      IssueAttachmentPermission_def WikiAttachmentPermission_def TaigaResourcePermission_def
      ResourcePermission_def split: if_splits)

function check_component :: "check \<Rightarrow> component \<Rightarrow> bool res"
  and check_or :: "check \<Rightarrow> component list \<Rightarrow> bool res"
  and check_and :: "check \<Rightarrow> component list \<Rightarrow> bool res" where
  "check_component ck (NotPerm c) = (case check_component ck c of Inl e \<Rightarrow> Inl e | Inr b \<Rightarrow> Inr (\<not> b))"
| "check_component ck (OrPerm cs) = check_or ck cs"
| "check_component ck (AndPerm cs) = check_and ck cs"
| "check_component ck AllowAny = Inr True"
| "check_component ck DenyAll = Inr False"
| "check_component ck IsAuthenticated = Inr (is_authenticated (ck_user ck))"
| "check_component ck IsSuperUser = Inr (is_authenticated (ck_user ck) \<and> is_superuser (ck_user ck))"
| "check_component ck (HasProjectPerm perm) = Inr (has_project_perm ck perm)"
| "check_component ck IsProjectAdmin = Inr (project_admin_perm ck)"
| "check_component ck IsObjectOwner = is_object_owner ck"
| "check_component ck (CommentAndOrUpdatePerm u c) = comment_and_or_update ck u c"
| "check_component ck CanLeaveProject = can_leave ck"
| "check_component ck IsCommentDeleter = is_comment_deleter ck"
| "check_component ck IsCommentOwner = is_comment_owner ck"
| "check_component ck IsCommentProjectAdmin = is_comment_project_admin ck"
| "check_component ck IsAttachmentOwnerPerm = is_attachment_owner ck"
| "check_component ck CommentAttachmentPerm = comment_attachment ck"
| "check_component ck RawAttachmentPerm =
     (case is_attachment_owner ck of
        Inl e \<Rightarrow> Inl e
      | Inr is_owner \<Rightarrow> (case ck_obj ck of
          AttachmentObj _ _ _ content_type \<Rightarrow> (case attachment_permission content_type of
              None \<Rightarrow> Inr False
            | Some R \<Rightarrow> (case composed R ''retrieve'' of
                Inl e \<Rightarrow> Inl e
              | Inr c \<Rightarrow> (case check_component ck c of Inl e \<Rightarrow> Inl e | Inr b \<Rightarrow> Inr (b \<or> is_owner))))
        | _ \<Rightarrow> Inl (AttributeError ''content_type'')))"
| "check_component ck IsContactActivated = is_contact_activated ck"
| "check_component ck IsTheSameUser = is_the_same_user ck"
| "check_component ck CanRetrieveUser = can_retrieve_user ck"
| "check_component ck CanUseToken = can_use_token ck"
| "check_component ck IsWebhookProjectAdmin = is_webhook_project_admin ck"
| "check_or ck [] = Inr False"
| "check_or ck (c # cs) = (case check_component ck c of
      Inl e \<Rightarrow> Inl e
    | Inr b \<Rightarrow> if b then Inr True else check_or ck cs)"
| "check_and ck [] = Inr True"
| "check_and ck (c # cs) = (case check_component ck c of
      Inl e \<Rightarrow> Inl e
    | Inr b \<Rightarrow> if \<not> b then Inr False else check_and ck cs)"
  by pat_completeness auto
termination
  by (relation "measures [
        \<lambda>x. case x of Inl (_, c) \<Rightarrow> raws c | Inr (Inl (_, cs)) \<Rightarrow> sum_list (map raws cs)
                    | Inr (Inr (_, cs)) \<Rightarrow> sum_list (map raws cs),
        \<lambda>x. case x of Inl (_, c) \<Rightarrow> size c | Inr (Inl (_, cs)) \<Rightarrow> size_list size cs
                    | Inr (Inr (_, cs)) \<Rightarrow> size_list size cs]")
    (auto simp: attachment_permission_raws)

text \<open>
  \<open>ResourcePermission.check_permissions\<close>, and \<open>APIView.check_permissions\<close> with
  \<open>permission_denied\<close>: a request nobody authenticated is asked to authenticate.
\<close>

definition resource_check :: "resource_permission \<Rightarrow> check \<Rightarrow> string \<Rightarrow> bool res" where
  "resource_check R ck action = (case composed R action of
      Inl e \<Rightarrow> Inl e
    | Inr c \<Rightarrow> check_component ck c)"

definition permission_denied :: "check \<Rightarrow> exc" where
  "permission_denied ck = (if is_authenticated (ck_user ck) then PermissionDenied '''' else NotAuthenticated)"

definition view_check :: "resource_permission list \<Rightarrow> check \<Rightarrow> string option \<Rightarrow> ('s, unit) eff" where
  "view_check permissions ck action = (case action of
      None \<Rightarrow> raiseE (permission_denied ck)
    | Some a \<Rightarrow> forE permissions (\<lambda>R. case resource_check R ck a of
          Inl e \<Rightarrow> raiseE e
        | Inr b \<Rightarrow> if b then retE () else raiseE (permission_denied ck)))"

text \<open>
  \<open>get_object_or_error\<close> of \<open>taiga/base/api/utils\<close>: the lookup is a function of the state, and
  finds the row the filters select.
\<close>

definition get_object_or_error :: "user \<Rightarrow> ('s \<Rightarrow> 'a option) \<Rightarrow> ('s, 'a) qry" where
  "get_object_or_error u found = (\<lambda>s. case found s of Some x \<Rightarrow> Inr x
     | None \<Rightarrow> if \<not> is_authenticated u then Inl NotAuthenticated else Inl NotFound)"

end
