(* ===== verification/Schedule_Api.thy ===== *)
theory Schedule_Api
  imports Schedule_Model Schedule_Validators Permissions
begin

text \<open>
  The HTTP interface of the schedule application, \<open>taiga/projects/schedule/api.py\<close>: what a
  request may see and change, the endpoints of dependencies (with the create, update,
  retrieve and destroy mixins of \<open>taiga/base/api/mixins.py\<close> they inherit) and of schedule
  items, and how an exception becomes a response. Advisory locks have no effect on one
  request and do not occur.
\<close>

section \<open>Requests and responses\<close>

text \<open>\<open>rq_project\<close> is the query parameter \<open>project\<close>, \<open>VNone\<close> when there is none.\<close>

record request =
  rq_access :: access
  rq_user :: user
  rq_project :: pyval

datatype 'a response = Ok 'a | Created 'a | NoContent | BadResponse "string list"

text \<open>
  \<open>APIView.dispatch\<close> with \<open>handle_exception\<close>: the exceptions of the API become responses, all
  others leave the view (status 500). Neither undoes what was written: \<open>ATOMIC_REQUESTS\<close> is
  not set for the database, and the exception would not reach its transaction.
\<close>

fun exception_status :: "exc \<Rightarrow> int option" where
  "exception_status (WrongArguments _) = Some 400"
| "exception_status (BadRequest _) = Some 400"
| "exception_status (PermissionDenied _) = Some 403"
| "exception_status NotAuthenticated = Some 401"
| "exception_status NotFound = Some 404"
| "exception_status (Blocked _) = Some 451"
| "exception_status _ = None"

fun response_status :: "'a response \<Rightarrow> int" where
  "response_status (Ok _) = 200"
| "response_status (Created _) = 201"
| "response_status NoContent = 204"
| "response_status (BadResponse _) = 400"

definition dispatch :: "(db, 'a response) eff \<Rightarrow> db \<Rightarrow> int \<times> db" where
  "dispatch handler s = (case handler s of
      (Inr r, s') \<Rightarrow> (response_status r, s')
    | (Inl e, s') \<Rightarrow> ((case exception_status e of Some c \<Rightarrow> c | None \<Rightarrow> 500), s'))"

section \<open>Access\<close>

definition MSG_PROJECT_INTEGER :: string where
  "MSG_PROJECT_INTEGER = [CHR 0x27] @ ''project' must be an integer value.''"
definition MSG_PROJECT_REQUIRED :: string where "MSG_PROJECT_REQUIRED = ''Project is required.''"
definition MSG_NO_PROJECT :: string where "MSG_NO_PROJECT = ''The project doesn't exist.''"
definition MSG_NO_ACCESS :: string where
  "MSG_NO_ACCESS = ''You don't have permissions to access this project.''"
definition MSG_NO_PAGES :: string where
  "MSG_NO_PAGES = ''You don't have permissions to access schedule or gantt data.''"
definition MSG_NO_LINKS :: string where
  "MSG_NO_LINKS = ''You don't have permissions to modify schedule dependencies.''"
definition MSG_NO_DATES :: string where
  "MSG_NO_DATES = ''You don't have permissions to modify schedule dates.''"
definition MSG_NO_COLOR :: string where
  "MSG_NO_COLOR = ''You don't have permissions to modify schedule color.''"
definition MSG_NO_POSITION :: string where
  "MSG_NO_POSITION = ''You don't have permissions to modify gantt list order.''"

definition normalize_project_id :: "pyval \<Rightarrow> int option res" where
  "normalize_project_id v = (if v = VNone then Inr None
     else case py_int v of Inr i \<Rightarrow> Inr (Some i) | Inl _ \<Rightarrow> Inl (BadRequest MSG_PROJECT_INTEGER))"

definition user_can_view_project :: "request \<Rightarrow> int \<Rightarrow> bool" where
  "user_can_view_project rq project_id =
     list_ex (\<lambda>p. pr_id p = project_id \<and> can_view_filter (rq_access rq) (rq_user rq) (Some project_id) p)
       (ac_projects (rq_access rq))"

definition user_can :: "request \<Rightarrow> string \<Rightarrow> project \<Rightarrow> bool" where
  "user_can rq perm p = user_has_perm (rq_access rq) (rq_user rq) perm (Some p) UserCache"

definition user_can_view_schedule_pages :: "request \<Rightarrow> project \<Rightarrow> bool" where
  "user_can_view_schedule_pages rq p \<longleftrightarrow> user_can rq ''view_schedule'' p \<or> user_can rq ''view_gantt'' p"

definition user_can_modify_dependencies :: "request \<Rightarrow> project \<Rightarrow> bool" where
  "user_can_modify_dependencies rq = user_can rq ''modify_schedule_links''"

definition user_can_modify_schedule_dates :: "request \<Rightarrow> project \<Rightarrow> bool" where
  "user_can_modify_schedule_dates rq = user_can rq ''modify_schedule_dates''"

definition user_can_modify_schedule_color :: "request \<Rightarrow> project \<Rightarrow> bool" where
  "user_can_modify_schedule_color rq = user_can rq ''modify_schedule_color''"

definition user_can_modify_schedule_position :: "request \<Rightarrow> project \<Rightarrow> bool" where
  "user_can_modify_schedule_position rq = user_can rq ''modify_gantt_list_order''"

text \<open>\<open>ScheduleDependencyViewSet._check_project_access\<close>\<close>

definition dependency_check_access :: "request \<Rightarrow> int option \<Rightarrow> bool \<Rightarrow> bool \<Rightarrow> (db, unit) qry" where
  "dependency_check_access rq project_id for_write for_dates_write =
     (case project_id of
        None \<Rightarrow> raiseQ (WrongArguments MSG_PROJECT_REQUIRED)
      | Some pid \<Rightarrow> (case find_project (rq_access rq) pid of
          None \<Rightarrow> raiseQ (WrongArguments MSG_NO_PROJECT)
        | Some p \<Rightarrow>
            if \<not> user_can_view_project rq pid then raiseQ (PermissionDenied MSG_NO_ACCESS)
            else if \<not> user_can_view_schedule_pages rq p then raiseQ (PermissionDenied MSG_NO_PAGES)
            else if for_write \<and> \<not> user_can_modify_dependencies rq p then raiseQ (PermissionDenied MSG_NO_LINKS)
            else if for_dates_write \<and> \<not> user_can_modify_schedule_dates rq p
              then raiseQ (PermissionDenied MSG_NO_DATES)
            else retQ ()))"

text \<open>\<open>ScheduleItemViewSet._check_project_access\<close>\<close>

definition item_check_access :: "request \<Rightarrow> int option \<Rightarrow> bool \<Rightarrow> bool \<Rightarrow> bool \<Rightarrow> (db, project) qry" where
  "item_check_access rq project_id for_dates_write for_color_write for_position_write =
     (case project_id of
        None \<Rightarrow> raiseQ (WrongArguments MSG_PROJECT_REQUIRED)
      | Some pid \<Rightarrow> (case find_project (rq_access rq) pid of
          None \<Rightarrow> raiseQ (WrongArguments MSG_NO_PROJECT)
        | Some p \<Rightarrow>
            if \<not> user_can_view_project rq pid then raiseQ (PermissionDenied MSG_NO_ACCESS)
            else if \<not> user_can_view_schedule_pages rq p then raiseQ (PermissionDenied MSG_NO_PAGES)
            else if for_dates_write \<and> \<not> user_can_modify_schedule_dates rq p
              then raiseQ (PermissionDenied MSG_NO_DATES)
            else if for_color_write \<and> \<not> user_can_modify_schedule_color rq p
              then raiseQ (PermissionDenied MSG_NO_COLOR)
            else if for_position_write \<and> \<not> user_can_modify_schedule_position rq p
              then raiseQ (PermissionDenied MSG_NO_POSITION)
            else retQ p))"

section \<open>Dependencies\<close>

definition dependency_in_projects :: "db \<Rightarrow> int list \<Rightarrow> dependency \<Rightarrow> bool" where
  "dependency_in_projects s ids d =
     (case (find_schedule_id (d_from_schedule_id d) s, find_schedule_id (d_to_schedule_id d) s) of
        (Some f, Some t) \<Rightarrow> s_project_id f \<in> set ids \<and> s_project_id t \<in> set ids
      | _ \<Rightarrow> False)"

text \<open>\<open>ScheduleDependencyViewSet.get_queryset\<close>\<close>

definition dependency_queryset :: "request \<Rightarrow> (db, dependency list) qry" where
  "dependency_queryset rq =
     bindQ (\<lambda>_. normalize_project_id (rq_project rq)) (\<lambda>requested.
     bindQ (case requested of None \<Rightarrow> retQ () | Some _ \<Rightarrow> dependency_check_access rq requested False False) (\<lambda>_.
       let visible = filter (can_view_filter (rq_access rq) (rq_user rq) requested) (ac_projects (rq_access rq));
           visible = (case requested of None \<Rightarrow> visible | Some pid \<Rightarrow> filter (\<lambda>p. pr_id p = pid) visible);
           visible_project_ids = map pr_id (filter (user_can_view_schedule_pages rq) visible) in
       bindQ (tbl ''dependency'' dependencies) (\<lambda>deps.
       bindQ (tbl ''schedule'' (\<lambda>s. filter (dependency_in_projects s visible_project_ids) deps)) (\<lambda>qs.
         case requested of
           None \<Rightarrow> retQ qs
         | Some pid \<Rightarrow> tbl ''schedule'' (\<lambda>s. filter (dependency_in_projects s [pid]) qs)))))"

text \<open>\<open>GenericAPIView.get_object\<close> and \<open>get_object_or_none\<close>: nobody is told what does not exist.\<close>

definition get_dependency_or_none :: "request \<Rightarrow> int \<Rightarrow> (db, dependency option) qry" where
  "get_dependency_or_none rq pk =
     bindQ (dependency_queryset rq) (\<lambda>qs. case find (\<lambda>d. d_id d = pk) qs of
         None \<Rightarrow> if is_authenticated (rq_user rq) then retQ None else raiseQ NotAuthenticated
       | Some d \<Rightarrow> retQ (Some d))"

text \<open>The permission classes of the view set see an object without a project.\<close>

definition dependency_permission :: "request \<Rightarrow> string \<Rightarrow> bool \<Rightarrow> (db, unit) eff" where
  "dependency_permission rq action found =
     view_check [ScheduleDependencyPermission]
       \<lparr>ck_access = rq_access rq, ck_user = rq_user rq, ck_data = [],
        ck_obj = (if found then BareObj None else NoObj)\<rparr> (Some action)"

text \<open>\<open>PrimaryKeyRelatedField\<close>: a value that names no stored schedule is an error of its field.\<close>

definition schedule_field :: "bool \<Rightarrow> int \<Rightarrow> pyval option \<Rightarrow> (db, int option) qry" where
  "schedule_field partial_update current native =
     (case native of
        None \<Rightarrow> if partial_update then retQ (Some current) else retQ None
      | Some v \<Rightarrow>
          if v = VNone \<or> v = VStr '''' \<or> v = VStr ''None'' then retQ None
          else case py_int v of
              Inl _ \<Rightarrow> retQ None
            | Inr i \<Rightarrow> tbl ''schedule'' (\<lambda>s. if find_schedule_id i s \<noteq> None then Some i else None))"

text \<open>
  \<open>ScheduleDependencyValidator.is_valid\<close>: the two fields, then \<open>full_clean\<close> of the instance; every
  validation error becomes an entry of \<open>validator.errors\<close>.
\<close>

definition dependency_validator ::
    "int option \<Rightarrow> int \<Rightarrow> int \<Rightarrow> bool \<Rightarrow> pyval option \<Rightarrow> pyval option \<Rightarrow> (db, string list + (int \<times> int)) qry" where
  "dependency_validator pk from0 to0 partial_update raw_from raw_to =
     bindQ (schedule_field partial_update from0 raw_from) (\<lambda>f.
     bindQ (schedule_field partial_update to0 raw_to) (\<lambda>t.
       case (f, t) of
         (Some fi, Some ti) \<Rightarrow> (\<lambda>s. case dependency_full_clean pk (Some fi) (Some ti) s of
             Inr _ \<Rightarrow> Inr (Inr (fi, ti))
           | Inl (ValidationError m) \<Rightarrow> Inr (Inl [m])
           | Inl e \<Rightarrow> Inl e)
       | _ \<Rightarrow> retQ (Inl (error_names [(''from_schedule'', f = None), (''to_schedule'', t = None)]))))"

definition schedule_project :: "int \<Rightarrow> (db, int) qry" where
  "schedule_project i = bindQ (tbl ''schedule'' (find_schedule_id i)) (\<lambda>found.
     case found of None \<Rightarrow> raiseQ DoesNotExist | Some r \<Rightarrow> retQ (s_project_id r))"

definition pre_conditions_on_save :: "request \<Rightarrow> int \<Rightarrow> int \<Rightarrow> (db, unit) qry" where
  "pre_conditions_on_save rq f t =
     (if f = 0 \<or> t = 0 then raiseQ (WrongArguments ''Both source and target schedules are required.'')
      else bindQ (schedule_project f) (\<lambda>pf. bindQ (schedule_project t) (\<lambda>pt.
        if pf \<noteq> pt then raiseQ (WrongArguments ''The source and target schedules must belong to the same project.'')
        else dependency_check_access rq (Some pf) True False)))"

definition pre_conditions_on_delete :: "request \<Rightarrow> dependency \<Rightarrow> (db, unit) qry" where
  "pre_conditions_on_delete rq d =
     bindQ (if d_from_schedule_id d = 0 then retQ None
            else bindQ (schedule_project (d_from_schedule_id d)) (\<lambda>p. retQ (Some p)))
       (\<lambda>project_id. dependency_check_access rq project_id True False)"

text \<open>
  \<open>CreateModelMixin.create\<close>; the new row takes the key \<open>new_id\<close>. The second \<open>full_clean\<close> of
  \<open>pre_save\<close> repeats the one of the validator on the same state.
\<close>

definition dependency_create ::
    "request \<Rightarrow> int \<Rightarrow> pyval option \<Rightarrow> pyval option \<Rightarrow> (db, dependency response) eff" where
  "dependency_create rq new_id raw_from raw_to =
     bindE (liftE (dependency_validator None 0 0 False raw_from raw_to)) (\<lambda>valid.
       case valid of
         Inl errors \<Rightarrow> retE (BadResponse errors)
       | Inr (f, t) \<Rightarrow>
           bindE (dependency_permission rq ''create'' True) (\<lambda>_.
           bindE (liftE (pre_conditions_on_save rq f t)) (\<lambda>_.
           bindE (dependency_save new_id None (Some f) (Some t)) (\<lambda>d.
           bindE (liftE (dependency_queryset rq)) (\<lambda>qs.
             case find (\<lambda>x. d_id x = d_id d) qs of
               None \<Rightarrow> raiseE DoesNotExist
             | Some x \<Rightarrow> retE (Created x))))))"

text \<open>\<open>UpdateModelMixin.update\<close> and \<open>partial_update\<close>, in one transaction.\<close>

definition dependency_update ::
    "request \<Rightarrow> int \<Rightarrow> bool \<Rightarrow> pyval option \<Rightarrow> pyval option \<Rightarrow> (db, dependency response) eff" where
  "dependency_update rq pk partial_update raw_from raw_to = atomicE (
     bindE (liftE (get_dependency_or_none rq pk)) (\<lambda>found.
     bindE (dependency_permission rq ''update'' (found \<noteq> None)) (\<lambda>_.
       case found of
         None \<Rightarrow> raiseE NotFound
       | Some d \<Rightarrow>
           bindE (liftE (dependency_validator (Some pk) (d_from_schedule_id d) (d_to_schedule_id d)
                    partial_update raw_from raw_to)) (\<lambda>valid.
             case valid of
               Inl errors \<Rightarrow> retE (BadResponse errors)
             | Inr (f, t) \<Rightarrow>
                 bindE (liftE (pre_conditions_on_save rq f t)) (\<lambda>_.
                 bindE (dependency_save 0 (Some pk) (Some f) (Some t)) (\<lambda>d'.
                 bindE (liftE (dependency_queryset rq)) (\<lambda>qs.
                   case find (\<lambda>x. d_id x = d_id d') qs of
                     None \<Rightarrow> raiseE DoesNotExist
                   | Some x \<Rightarrow> retE (Ok x))))))))"

definition delete_dependency_row :: "int \<Rightarrow> (db, unit) eff" where
  "delete_dependency_row pk = (\<lambda>s.
     if ''dependency'' \<in> set (down s) then (Inl DbError, s)
     else (Inr (), s\<lparr>dependencies := filter (\<lambda>d. d_id d \<noteq> pk) (dependencies s)\<rparr>))"

text \<open>\<open>DestroyModelMixin.destroy\<close>\<close>

definition dependency_destroy :: "request \<Rightarrow> int \<Rightarrow> (db, unit response) eff" where
  "dependency_destroy rq pk = atomicE (
     bindE (liftE (get_dependency_or_none rq pk)) (\<lambda>found.
     bindE (dependency_permission rq ''destroy'' (found \<noteq> None)) (\<lambda>_.
       case found of
         None \<Rightarrow> raiseE NotFound
       | Some d \<Rightarrow>
           bindE (liftE (pre_conditions_on_delete rq d)) (\<lambda>_.
           bindE (delete_dependency_row (d_id d)) (\<lambda>_. retE NoContent)))))"

text \<open>\<open>RetrieveModelMixin.retrieve\<close>\<close>

definition dependency_retrieve :: "request \<Rightarrow> int \<Rightarrow> (db, dependency response) eff" where
  "dependency_retrieve rq pk =
     bindE (liftE (dependency_queryset rq)) (\<lambda>qs. case find (\<lambda>d. d_id d = pk) qs of
         None \<Rightarrow> raiseE NotFound
       | Some d \<Rightarrow> bindE (dependency_permission rq ''retrieve'' True) (\<lambda>_. retE (Ok d)))"

text \<open>\<open>ListModelMixin.list\<close>, before pagination: no permission class is consulted.\<close>

definition dependency_list :: "request \<Rightarrow> (db, dependency list response) eff" where
  "dependency_list rq = bindE (liftE (dependency_queryset rq)) (\<lambda>qs. retE (Ok qs))"

text \<open>\<open>except ValueError as err: raise exc.WrongArguments(str(err))\<close>\<close>

definition value_error_as_wrong_arguments :: "(db, 'a) eff \<Rightarrow> (db, 'a) eff" where
  "value_error_as_wrong_arguments m =
     handleE m (\<lambda>e. case e of ValueError msg \<Rightarrow> Some (raiseE (WrongArguments msg)) | _ \<Rightarrow> None)"

text \<open>The endpoint answers with the number of updates.\<close>

definition bulk_apply_dates ::
    "(int \<Rightarrow> (db, unit) eff) \<Rightarrow> (string \<Rightarrow> date option) \<Rightarrow> request \<Rightarrow> pyval option \<Rightarrow> bulk_value option
     \<Rightarrow> (db, int response) eff" where
  "bulk_apply_dates call parse_date rq raw_project_id raw_updates =
     (case schedule_bulk_apply_dates_validator parse_date raw_project_id raw_updates of
        Inl errors \<Rightarrow> retE (BadResponse errors)
      | Inr (project_id, bulk_updates) \<Rightarrow>
          bindE (liftE (dependency_check_access rq (Some project_id) False True)) (\<lambda>_.
          bindE (value_error_as_wrong_arguments (apply_schedule_dates_in_bulk call (VInt project_id) bulk_updates))
            (\<lambda>normalized_updates. retE (Ok (int (length normalized_updates))))))"

section \<open>Schedule items\<close>

text \<open>\<open>_ENTITY_MODEL_MAP[entity_type]\<close> and the entity of that model in the project.\<close>

definition resolve_entity :: "pyval \<Rightarrow> int \<Rightarrow> int \<Rightarrow> (db, unit) qry" where
  "resolve_entity entity_type entity_id project_id =
     (let found = (\<lambda>b. if b then retQ () else raiseQ (WrongArguments ''Entity not found in the given project.'')) in
      if entity_type = VStr TYPE_EPIC then
        bindQ (tbl ''epic'' (\<lambda>s. \<exists>e \<in> set (epics s). e_id e = entity_id \<and> e_project_id e = project_id)) found
      else if entity_type = VStr TYPE_USERSTORY then
        bindQ (tbl ''userstory'' (\<lambda>s. \<exists>u \<in> set (userstories s). us_id u = entity_id \<and> us_project_id u = project_id)) found
      else if entity_type = VStr TYPE_TASK then
        bindQ (tbl ''task'' (\<lambda>s. \<exists>t \<in> set (tasks s). t_id t = entity_id \<and> t_project_id t = project_id)) found
      else if (case entity_type of VContainer _ \<Rightarrow> True | _ \<Rightarrow> False) then raiseQ TypeError
      else raiseQ KeyError)"

text \<open>What \<open>ScheduleItemSerializer\<close> shows: the schedule and the position in its group, if it has one.\<close>

definition schedule_item :: "schedule \<Rightarrow> (db, schedule \<times> int option) qry" where
  "schedule_item r = bindQ (tbl ''item_order'' (find_order_item (s_id r))) (\<lambda>item.
     retQ (r, map_option oi_position item))"

fun mapQ :: "'a list \<Rightarrow> ('a \<Rightarrow> ('s, 'b) qry) \<Rightarrow> ('s, 'b list) qry" where
  "mapQ [] f = retQ []"
| "mapQ (x # xs) f = bindQ (f x) (\<lambda>y. bindQ (mapQ xs f) (\<lambda>ys. retQ (y # ys)))"

definition schedule_item_list :: "request \<Rightarrow> (db, (schedule \<times> int option) list response) eff" where
  "schedule_item_list rq =
     bindE (liftE (\<lambda>_. normalize_project_id (rq_project rq))) (\<lambda>project_id.
     bindE (liftE (item_check_access rq project_id False False False)) (\<lambda>_.
     bindE (liftE (tbl ''schedule'' (\<lambda>s. sort_key (\<lambda>r. (s_entity_type r, s_entity_id r))
                     (filter (\<lambda>r. Some (s_project_id r) = project_id) (schedules s))))) (\<lambda>rows.
     bindE (liftE (mapQ rows schedule_item)) (\<lambda>items. retE (Ok items)))))"

definition build_schedule_date_updates :: "item_update \<Rightarrow> raw_item list" where
  "build_schedule_date_updates iu =
     (let base = \<lparr>in_entity_type = iu_entity_type iu, in_entity_id = VInt (iu_entity_id iu),
                  in_start_field = VNone, in_start = None, in_due = None\<rparr>;
          updates =
            (case iu_estimated_start iu of None \<Rightarrow> []
             | Some d \<Rightarrow> [base\<lparr>in_start_field := VStr ''estimated_start'', in_start := Some d\<rparr>]) @
            (case iu_actual_start iu of None \<Rightarrow> []
             | Some d \<Rightarrow> [base\<lparr>in_start_field := VStr ''actual_start'', in_start := Some d\<rparr>]);
          updates = (case iu_due_date iu of
              None \<Rightarrow> updates
            | Some d \<Rightarrow> (case updates of [] \<Rightarrow> [base\<lparr>in_due := Some d\<rparr>] | u # us \<Rightarrow> u\<lparr>in_due := Some d\<rparr> # us)) in
      map Dict updates)"

text \<open>\<open>entity_type\<close> as the services take it; the entity was resolved, so it is a string.\<close>

definition type_name :: "pyval \<Rightarrow> string" where
  "type_name v = (case v of VStr str \<Rightarrow> str | _ \<Rightarrow> '''')"

definition update_dates :: "(int \<Rightarrow> (db, unit) eff) \<Rightarrow> item_update \<Rightarrow> (db, unit) eff" where
  "update_dates call iu = value_error_as_wrong_arguments
     (forE (build_schedule_date_updates iu) (\<lambda>date_update.
        bindE (apply_schedule_dates_in_bulk call (VInt (iu_project iu)) [date_update]) (\<lambda>_. retE ())))"

definition update_color :: "item_update \<Rightarrow> (db, unit) eff" where
  "update_color iu = (case iu_color iu of
      None \<Rightarrow> retE ()
    | Some color \<Rightarrow> value_error_as_wrong_arguments
        (bindE (update_schedule_color (type_name (iu_entity_type iu)) (iu_entity_id iu) (VInt (iu_project iu)) color)
           (\<lambda>_. retE ())))"

definition update_position :: "item_update \<Rightarrow> (db, unit) eff" where
  "update_position iu = (case iu_position iu of
      None \<Rightarrow> retE ()
    | Some position \<Rightarrow>
        bindE (upsert_schedule (type_name (iu_entity_type iu)) (iu_entity_id iu) (iu_project iu) no_values) (\<lambda>_.
        bindE (set_schedule_item_order_position (type_name (iu_entity_type iu)) (iu_entity_id iu)
                 (case position of None \<Rightarrow> VNone | Some i \<Rightarrow> VInt i)) (\<lambda>_. retE ())))"

text \<open>\<open>_serialize_schedule_item\<close>: an empty object when there is no schedule.\<close>

definition serialize_schedule_item :: "string \<Rightarrow> int \<Rightarrow> (db, (schedule \<times> int option) option) qry" where
  "serialize_schedule_item entity_type entity_id =
     bindQ (tbl ''schedule'' (find_schedule entity_type entity_id)) (\<lambda>found.
       case found of
         None \<Rightarrow> retQ None
       | Some r \<Rightarrow> bindQ (schedule_item r) (\<lambda>item. retQ (Some item)))"

definition update_schedule_item_from_data ::
    "(int \<Rightarrow> (db, unit) eff) \<Rightarrow> request \<Rightarrow> item_update \<Rightarrow> (db, (schedule \<times> int option) option) eff" where
  "update_schedule_item_from_data call rq iu =
     bindE (liftE (item_check_access rq (Some (iu_project iu))
        (iu_due_date iu \<noteq> None \<or> iu_estimated_start iu \<noteq> None \<or> iu_actual_start iu \<noteq> None)
        (iu_color iu \<noteq> None) (iu_position iu \<noteq> None))) (\<lambda>_.
     bindE (liftE (resolve_entity (iu_entity_type iu) (iu_entity_id iu) (iu_project iu))) (\<lambda>_.
     bindE (update_dates call iu) (\<lambda>_.
     bindE (update_color iu) (\<lambda>_.
     bindE (update_position iu) (\<lambda>_.
       liftE (serialize_schedule_item (type_name (iu_entity_type iu)) (iu_entity_id iu)))))))"

definition update_item ::
    "(int \<Rightarrow> (db, unit) eff) \<Rightarrow> (string \<Rightarrow> date option) \<Rightarrow> (pyval \<Rightarrow> string) \<Rightarrow> request \<Rightarrow> (string \<times> pyval) list
     \<Rightarrow> (db, (schedule \<times> int option) option response) eff" where
  "update_item call parse_date str_of rq data =
     (case schedule_item_update_validator parse_date str_of data of
        Inl errors \<Rightarrow> retE (BadResponse errors)
      | Inr iu \<Rightarrow> bindE (update_schedule_item_from_data call rq iu) (\<lambda>item. retE (Ok item)))"

end
