(* ===== verification/Permission_Facts.thy ===== *)
theory Permission_Facts
  imports Permissions
begin

text \<open>
  Facts about permissions: what the membership caches hold, the permission set of each kind
  of user, that superusers pass every check, and the demand a component makes of a user,
  read off its structure.
\<close>

section \<open>Memberships\<close>

text \<open>\<open>unique_together = ("user", "project")\<close>, for the memberships that have a user.\<close>

definition memberships_ok :: "access \<Rightarrow> bool" where
  "memberships_ok ac \<longleftrightarrow>
     distinct (map (\<lambda>m. (mb_user m, mb_project m)) (filter (\<lambda>m. mb_user m \<noteq> None) (ac_memberships ac)))"

definition membership_of :: "access \<Rightarrow> int \<Rightarrow> project \<Rightarrow> membership option" where
  "membership_of ac i p = find (\<lambda>m. mb_user m = Some i \<and> mb_project m = pr_id p) (ac_memberships ac)"

text \<open>A dictionary filled from a list with unique keys holds the entry with that key.\<close>

lemma fold_upd_notin:
  "x \<notin> k ` set ms \<Longrightarrow> fold (\<lambda>m c. c(k m \<mapsto> m)) ms c0 x = c0 x"
  by (induction ms arbitrary: c0) auto

lemma fold_upd_find:
  "distinct (map k ms) \<Longrightarrow> fold (\<lambda>m c. c(k m \<mapsto> m)) ms c0 x =
     (case find (\<lambda>m. k m = x) ms of None \<Rightarrow> c0 x | Some m \<Rightarrow> Some m)"
proof (induction ms arbitrary: c0)
  case (Cons a ms)
  show ?case
  proof (cases "k a = x")
    case True
    then have "x \<notin> k ` set ms" using Cons.prems by auto
    then have "fold (\<lambda>m c. c(k m \<mapsto> m)) ms (c0(k a \<mapsto> a)) x = (c0(k a \<mapsto> a)) x"
      by (rule fold_upd_notin)
    then show ?thesis using True by (simp only: fold_simps comp_apply find.simps if_True) simp
  next
    case False
    then show ?thesis using Cons.prems Cons.IH[of "c0(k a \<mapsto> a)"] by (simp split: option.split)
  qed
qed simp

lemma find_filter: "find P (filter Q xs) = find (\<lambda>x. Q x \<and> P x) xs"
  by (induction xs) auto

lemma find_cong_pred: "(\<And>x. P x = Q x) \<Longrightarrow> find P xs = find Q xs"
  by (induction xs) auto

lemma distinct_map_filter_sub:
  "distinct (map f (filter P xs)) \<Longrightarrow> (\<And>x. Q x \<Longrightarrow> P x) \<Longrightarrow> distinct (map f (filter Q xs))"
  by (induction xs) (auto split: if_splits)

lemma user_memberships_distinct:
  assumes "memberships_ok ac"
  shows "distinct (map mb_project (filter (\<lambda>m. mb_user m = Some i) (ac_memberships ac)))"
proof -
  have "distinct (map (\<lambda>m. (mb_user m, mb_project m)) (filter (\<lambda>m. mb_user m = Some i) (ac_memberships ac)))"
    using assms unfolding memberships_ok_def by (rule distinct_map_filter_sub) simp
  then show ?thesis by (auto simp: distinct_map inj_on_def)
qed

lemma project_memberships_distinct:
  assumes "memberships_ok ac"
  shows "distinct (map (\<lambda>m. the (mb_user m))
    (filter (\<lambda>m. mb_project m = pr_id p \<and> mb_user m \<noteq> None) (ac_memberships ac)))"
proof -
  have "distinct (map (\<lambda>m. (mb_user m, mb_project m))
    (filter (\<lambda>m. mb_project m = pr_id p \<and> mb_user m \<noteq> None) (ac_memberships ac)))"
    using assms unfolding memberships_ok_def by (rule distinct_map_filter_sub) simp
  then show ?thesis by (auto simp: distinct_map inj_on_def)
qed

lemma user_cache_is_membership:
  "memberships_ok ac \<Longrightarrow> cached_membership_for_project ac i p = membership_of ac i p"
  by (auto simp: cached_membership_for_project_def fill_cached_memberships_def membership_of_def
      fold_upd_find user_memberships_distinct find_filter split: option.split)

lemma cached_memberships_fold:
  "cached_memberships ac p = fold (\<lambda>m c. c(the (mb_user m) \<mapsto> m))
     (filter (\<lambda>m. mb_project m = pr_id p \<and> mb_user m \<noteq> None) (ac_memberships ac)) Map.empty"
  unfolding cached_memberships_def by (rule fold_cong) (auto split: option.split)

lemma project_cache_is_membership:
  assumes "memberships_ok ac"
  shows "cached_memberships_for_user ac p (User i b) = membership_of ac i p"
proof -
  have "find (\<lambda>m. (mb_project m = pr_id p \<and> mb_user m \<noteq> None) \<and> the (mb_user m) = i) (ac_memberships ac)
      = membership_of ac i p"
    unfolding membership_of_def by (rule find_cong_pred) auto
  then show ?thesis
    by (simp add: cached_memberships_for_user_def cached_memberships_fold find_filter
        fold_upd_find[OF project_memberships_distinct[OF assms]] del: not_None_eq split: option.split)
qed

lemma user_project_membership:
  "memberships_ok ac \<Longrightarrow> get_user_project_membership ac (User i b) p c = membership_of ac i p"
  by (cases c) (simp_all add: get_user_project_membership_def user_cache_is_membership
      project_cache_is_membership)

text \<open>Without a membership row there is no membership in any cache, unique rows or not.\<close>

lemma fold_upd_mem: "fold (\<lambda>m c. c(k m \<mapsto> m)) ms c0 x = Some m \<Longrightarrow> c0 x = Some m \<or> (m \<in> set ms \<and> k m = x)"
  by (induction ms arbitrary: c0) (force split: if_splits)+

lemma user_membership_row:
  "get_user_project_membership ac (User i b) p c = Some m \<Longrightarrow>
     m \<in> set (ac_memberships ac) \<and> mb_user m = Some i \<and> mb_project m = pr_id p"
  by (cases c) (auto simp: get_user_project_membership_def cached_membership_for_project_def
      fill_cached_memberships_def cached_memberships_for_user_def cached_memberships_fold
      dest!: fold_upd_mem)

section \<open>Permission sets\<close>

definition is_member :: "access \<Rightarrow> user \<Rightarrow> project \<Rightarrow> bool" where
  "is_member ac u p \<longleftrightarrow> (\<exists>m \<in> set (ac_memberships ac).
      user_id u \<noteq> None \<and> mb_user m = user_id u \<and> mb_project m = pr_id p)"

lemma not_member_no_membership:
  "\<not> is_member ac u p \<Longrightarrow> get_user_project_membership ac u p c = None"
proof (cases u)
  case AnonymousUser
  then show ?thesis by (simp add: get_user_project_membership_def)
next
  case (User i b)
  assume "\<not> is_member ac u p"
  then show ?thesis
    using user_membership_row[of ac i b p c] User
    by (cases "get_user_project_membership ac u p c") (auto simp: is_member_def)
qed

lemma permissions_superuser:
  "is_superuser u \<Longrightarrow> get_user_project_permissions ac u p c =
     set ADMINS_PERMISSIONS \<union> set MEMBERS_PERMISSIONS \<union> set ANON_PERMISSIONS"
  by (auto simp: get_user_project_permissions_def calculate_permissions_def Let_def)

lemma permissions_outsider:
  "\<not> is_superuser u \<Longrightarrow> \<not> is_member ac u p \<Longrightarrow> get_user_project_permissions ac u p c =
     set (or_empty (pr_anon_permissions p))
       \<union> (if is_authenticated u then set (or_empty (pr_public_permissions p)) else {})"
  by (auto simp: get_user_project_permissions_def calculate_permissions_def not_member_no_membership
      Let_def)

lemma permissions_member:
  "get_user_project_membership ac (User i False) p c = Some m \<Longrightarrow>
     get_user_project_permissions ac (User i False) p c =
       (if mb_is_admin m then set ADMINS_PERMISSIONS \<union> set MEMBERS_PERMISSIONS else {})
       \<union> set (or_empty (mb_role_permissions m)) \<union> set (or_empty (pr_public_permissions p))
       \<union> set (or_empty (pr_anon_permissions p))"
  by (auto simp: get_user_project_permissions_def calculate_permissions_def Let_def
      get_membership_permissions_def or_empty_def split: option.split)

lemma admin_is_member:
  "\<not> is_superuser u \<Longrightarrow> is_project_admin ac u (Some p) \<Longrightarrow> is_member ac u p"
  using not_member_no_membership[of ac u p UserCache]
  by (auto simp: is_project_admin_def split: option.splits)

section \<open>The demand of a component\<close>

text \<open>
  \<open>demands W c\<close>: whoever passes \<open>c\<close> is a superuser, an administrator of the object's project,
  or holds a permission of \<open>W\<close>. Components with an exception of their own (ownership, say)
  make no demand.
\<close>

fun demands :: "(string \<Rightarrow> bool) \<Rightarrow> component \<Rightarrow> bool" where
  "demands W (HasProjectPerm perm) = W perm"
| "demands W IsProjectAdmin = True"
| "demands W IsSuperUser = True"
| "demands W DenyAll = True"
| "demands W (CommentAndOrUpdatePerm u c) = (W u \<and> W c)"
| "demands W (OrPerm cs) = list_all (demands W) cs"
| "demands W (AndPerm cs) = list_ex (demands W) cs"
| "demands W _ = False"

definition entitled :: "(string \<Rightarrow> bool) \<Rightarrow> check \<Rightarrow> bool" where
  "entitled W ck \<longleftrightarrow> is_superuser (ck_user ck) \<or> project_admin_perm ck
     \<or> (\<exists>perm po. W perm \<and> user_has_perm (ck_access ck) (ck_user ck) perm po UserCache
          \<and> (po = get_object_project (ck_obj ck) \<or> checked_project ck = Inr po))"

lemma comment_update_entitled:
  "comment_and_or_update ck u c = Inr True \<Longrightarrow> W u \<Longrightarrow> W c \<Longrightarrow> entitled W ck"
  unfolding comment_and_or_update_def entitled_def
  by (auto split: obj.splits sum.splits if_splits)

lemma entitled_if_passes:
  "check_component ck c = Inr True \<Longrightarrow> demands W c \<Longrightarrow> entitled W ck"
  "check_or ck cs = Inr True \<Longrightarrow> list_all (demands W) cs \<Longrightarrow> entitled W ck"
  "check_and ck cs = Inr True \<Longrightarrow> list_ex (demands W) cs \<Longrightarrow> entitled W ck"
proof (induction ck c and ck cs and ck cs rule: check_component_check_or_check_and.induct)
  case (8 ck perm)
  then show ?case by (auto simp: entitled_def has_project_perm_def)
next
  case (11 ck u c)
  then show ?case using comment_update_entitled by auto
qed (auto simp: entitled_def split: sum.splits if_splits)

lemma resource_entitled:
  assumes "resource_check R ck a = Inr True" and "composed R a = Inr c" and "demands W c"
  shows "entitled W ck"
  using assms entitled_if_passes(1) by (auto simp: resource_check_def)

text \<open>A superuser passes whatever is enough for a superuser.\<close>

fun enough_for_superuser :: "component \<Rightarrow> bool" where
  "enough_for_superuser IsSuperUser = True"
| "enough_for_superuser IsAuthenticated = True"
| "enough_for_superuser IsProjectAdmin = True"
| "enough_for_superuser (OrPerm (c # cs)) = enough_for_superuser c"
| "enough_for_superuser _ = False"

lemma superuser_enough:
  "enough_for_superuser c \<Longrightarrow> ck_user ck = User i True \<Longrightarrow> check_component ck c = Inr True"
  by (induction c rule: enough_for_superuser.induct)
    (auto simp: project_admin_perm_def is_project_admin_def)

section \<open>The check of a view\<close>

lemma view_check_ok:
  "view_check [R] ck (Some a) s = (r, s') \<longleftrightarrow>
     s' = s \<and> r = (case resource_check R ck a of Inl e \<Rightarrow> Inl e
                   | Inr b \<Rightarrow> if b then Inr () else Inl (permission_denied ck))"
  by (auto simp: view_check_def bindE_apply retE_apply raiseE_apply split: sum.splits)

end
