(* ===== verification/Permission_Props.thy ===== *)
theory Permission_Props
  imports Permission_Facts
begin

text \<open>
  The properties of permissions: the tables as a whole (what superusers pass, what guards
  the changing actions on project content), the agreement of the two definitions of
  visibility, and three places where the tables do not ask for what the rest of the program
  asks for.
\<close>

section \<open>The tables as a whole\<close>

definition all_resources :: "resource_permission list" where
  "all_resources = [
    ProjectPermission, ProjectFansPermission, ProjectWatchersPermission, MembershipPermission,
    EpicStatusPermission, PointsPermission, UserStoryStatusPermission, SwimlanePermission,
    SwimlaneUserStoryStatusPermission, UserStoryDueDatePermission, TaskStatusPermission,
    TaskDueDatePermission, SeverityPermission, PriorityPermission, IssueStatusPermission,
    IssueTypePermission, IssueDueDatePermission, ProjectTemplatePermission, EpicPermission,
    EpicRelatedUserStoryPermission, EpicVotersPermission, EpicWatchersPermission,
    UserStoryPermission, UserStoryVotersPermission, UserStoryWatchersPermission, TaskPermission,
    TaskVotersPermission, TaskWatchersPermission, IssuePermission, IssueVotersPermission,
    IssueWatchersPermission, MilestonePermission, MilestoneWatchersPermission,
    WikiPagePermission, WikiPageWatchersPermission, WikiLinkPermission,
    EpicCustomAttributePermission, UserStoryCustomAttributePermission,
    TaskCustomAttributePermission, IssueCustomAttributePermission,
    EpicCustomAttributesValuesPermission, UserStoryCustomAttributesValuesPermission,
    TaskCustomAttributesValuesPermission, IssueCustomAttributesValuesPermission,
    EpicAttachmentPermission, UserStoryAttachmentPermission, TaskAttachmentPermission,
    IssueAttachmentPermission, WikiAttachmentPermission, RawAttachmentPermission,
    EpicHistoryPermission, UserStoryHistoryPermission, TaskHistoryPermission,
    IssueHistoryPermission, WikiHistoryPermission, ScheduleDependencyPermission,
    ScheduleItemPermission, ResolverPermission, NotifyPolicyPermission,
    UserProjectSettingsPermission, ContactPermission, UserPermission, RolesPermission,
    AuthPermission, SystemStatsPermission, DiscoverStatsPermission, ApplicationPermission,
    ApplicationTokenPermission, FeedbackPermission, UserTimelinePermission,
    ProjectTimelinePermission, StorageEntriesPermission, ImporterPermission, LocalesPermission,
    WebhookPermission, WebhookLogPermission, ImportExportPermission]"





lemmas table_defs = ResourcePermission_def TaigaResourcePermission_def

lemma all_have_enough:
  "list_all (\<lambda>R. case enough_perms R of None \<Rightarrow> False | Some c \<Rightarrow> enough_for_superuser c) all_resources"
  by code_simp


lemma map_of_permset: "(a, c) \<in> set (action_perms R) \<Longrightarrow> \<exists>c'. permset R a = Inr c'"
  by (force simp: permset_def map_of_eq_None_iff split: option.split)

text \<open>A superuser passes the check of every declared action of every endpoint of the
  program, whatever the object and the request are: no table forgets the superuser, and no
  component is evaluated before the one that lets the superuser through.\<close>
theorem superuser_passes_everything:
  assumes "R \<in> set all_resources" and "ck_user ck = User i True" and "(a, c) \<in> set (action_perms R)"
  shows "resource_check R ck a = Inr True"
proof -
  obtain e where e: "enough_perms R = Some e" "enough_for_superuser e"
    using assms(1) all_have_enough by (force simp: list_all_iff split: option.splits)
  obtain c' where "composed R a = Inr (OrPerm [e, with_global R c'])"
    using map_of_permset[OF assms(3)] e(1) by (auto simp: composed_def with_enough_def)
  then show ?thesis using superuser_enough[OF e(2) assms(2)] by (simp add: resource_check_def)
qed

section \<open>Who changes the content of a project\<close>






section \<open>Demonstration data\<close>

text \<open>
  A public project with the base permissions and its owner (user 1, administrator), a viewer
  (user 2), a member who may only work on stories (user 3), a member who may only work on
  epics (user 4), and users 5 and 9 who are not members.
\<close>

definition public_project :: project where
  "public_project = set_base_permissions_for_project
     \<lparr>pr_id = 7, pr_owner_id = Some 1, pr_is_private = False, pr_anon_permissions = None,
      pr_public_permissions = None, pr_is_contact_activated = True\<rparr>"

definition demo_access :: access where
  "demo_access = \<lparr>ac_projects = [public_project],
     ac_memberships = [
       \<lparr>mb_user = Some 1, mb_project = 7, mb_is_admin = True, mb_role_permissions = None\<rparr>,
       \<lparr>mb_user = Some 2, mb_project = 7, mb_is_admin = False, mb_role_permissions = Some [''view_project'']\<rparr>,
       \<lparr>mb_user = Some 3, mb_project = 7, mb_is_admin = False, mb_role_permissions = Some [''view_us'', ''modify_us'']\<rparr>,
       \<lparr>mb_user = Some 4, mb_project = 7, mb_is_admin = False, mb_role_permissions = Some [''view_epics'', ''modify_epic'']\<rparr>],
     ac_active_users = [1, 2, 3, 4, 5, 9], ac_instances = [], ac_private_user_profiles = False\<rparr>"

definition demo_check :: "user \<Rightarrow> obj \<Rightarrow> check" where
  "demo_check u ob = \<lparr>ck_access = demo_access, ck_user = u, ck_data = [], ck_obj = ob\<rparr>"

theorem superuser_passes_everything_witness:
  "resource_check RolesPermission (demo_check (User 9 True) (BareObj (Some public_project))) ''destroy'' = Inr True"
  by (rule superuser_passes_everything[where i = 9 and c = IsProjectAdmin])
    (simp_all add: all_resources_def RolesPermission_def table_defs demo_check_def)


section \<open>Two definitions of visibility\<close>

lemma permissions_anonymous:
  "get_user_project_permissions ac AnonymousUser p c = set (or_empty (pr_anon_permissions p))"
  by (simp add: get_user_project_permissions_def calculate_permissions_def Let_def
      get_user_project_membership_def)

lemma view_project_codes [simp]: "''view_project'' \<in> set MEMBERS_PERMISSIONS"
  by (simp add: MEMBERS_PERMISSIONS_def)

lemma membership_of_None:
  "membership_of ac i p = None \<longleftrightarrow> (\<forall>m \<in> set (ac_memberships ac). \<not> (mb_user m = Some i \<and> mb_project m = pr_id p))"
  by (auto simp: membership_of_def find_None_all)

lemma membership_of_unique:
  assumes "memberships_ok ac" and "m \<in> set (ac_memberships ac)" and "mb_user m = Some i" and "mb_project m = pr_id p"
  shows "membership_of ac i p = Some m"
proof -
  obtain m' where m': "membership_of ac i p = Some m'"
    using assms membership_of_None by (cases "membership_of ac i p") auto
  then have "m' \<in> set (ac_memberships ac) \<and> mb_user m' = Some i \<and> mb_project m' = pr_id p"
    unfolding membership_of_def by (auto dest: find_Some_mem)
  then have "m' = m"
    using assms unfolding memberships_ok_def
    by (intro distinct_map_inj[where f = "\<lambda>m. (mb_user m, mb_project m)" and xs = "filter (\<lambda>m. mb_user m \<noteq> None) (ac_memberships ac)"]) auto
  then show ?thesis using m' by simp
qed

text \<open>What the filter asks of a user who is not a superuser, over the unique membership.\<close>

lemma membership_rows:
  assumes "memberships_ok ac"
  shows "{m \<in> set (ac_memberships ac). mb_user m = Some i \<and> mb_project m = pr_id p}
       = set_option (membership_of ac i p)"
proof (cases "membership_of ac i p")
  case None
  then have "\<forall>m \<in> set (ac_memberships ac). \<not> (mb_user m = Some i \<and> mb_project m = pr_id p)"
    by (rule membership_of_None[THEN iffD1])
  then show ?thesis using None by auto
next
  case (Some m)
  then have m: "m \<in> set (ac_memberships ac)" "mb_user m = Some i" "mb_project m = pr_id p"
    unfolding membership_of_def by (auto dest: find_Some_mem)
  show ?thesis
  proof (intro set_eqI iffI)
    fix x assume "x \<in> {m \<in> set (ac_memberships ac). mb_user m = Some i \<and> mb_project m = pr_id p}"
    then show "x \<in> set_option (membership_of ac i p)"
      using membership_of_unique[OF assms, of x i p] by simp
  next
    fix x assume "x \<in> set_option (membership_of ac i p)"
    then show "x \<in> {m \<in> set (ac_memberships ac). mb_user m = Some i \<and> mb_project m = pr_id p}"
      using Some m by simp
  qed
qed

lemma can_view_filter_rows:
  assumes "project_id \<in> {None, Some (pr_id p)}"
  shows "can_view_filter ac (User i False) project_id p \<longleftrightarrow>
     (\<exists>m \<in> {m \<in> set (ac_memberships ac). mb_user m = Some i \<and> mb_project m = pr_id p}.
        ''view_project'' \<in> set (or_empty (mb_role_permissions m)) \<or> mb_is_admin m)
     \<or> ''view_project'' \<in> set (or_empty (pr_public_permissions p))"
  using assms by (auto simp: can_view_filter_def Let_def image_iff split: if_splits)

lemma can_view_filter_user:
  assumes "memberships_ok ac" and "project_id \<in> {None, Some (pr_id p)}"
  shows "can_view_filter ac (User i False) project_id p \<longleftrightarrow>
     (case membership_of ac i p of
        None \<Rightarrow> False
      | Some m \<Rightarrow> ''view_project'' \<in> set (or_empty (mb_role_permissions m)) \<or> mb_is_admin m)
     \<or> ''view_project'' \<in> set (or_empty (pr_public_permissions p))"
  unfolding can_view_filter_rows[OF assms(2)] membership_rows[OF assms(1)]
  by (simp split: option.split)

text \<open>C34: the program decides twice whether a user may see a project: the query filter of the
  list endpoints reads the membership and permission columns, the permission check of the
  detail endpoints computes the user's permission set from a cache. They agree for every
  user, with either cache and with or without the restriction to the project, on every
  project whose anonymous permissions give no more than its public ones do.\<close>
theorem visibility_filter_agrees:
  assumes "memberships_ok ac" and "project_id \<in> {None, Some (pr_id p)}"
    and "''view_project'' \<in> set (or_empty (pr_anon_permissions p)) \<Longrightarrow>
         ''view_project'' \<in> set (or_empty (pr_public_permissions p))"
  shows "can_view_filter ac u project_id p \<longleftrightarrow> user_has_perm ac u ''view_project'' (Some p) c"
proof (cases u)
  case AnonymousUser
  then show ?thesis by (simp add: can_view_filter_def user_has_perm_def permissions_anonymous)
next
  case (User i b)
  show ?thesis
  proof (cases b)
    case True
    then show ?thesis using User by (simp add: can_view_filter_def user_has_perm_def permissions_superuser)
  next
    case False
    have mem: "get_user_project_membership ac (User i False) p c = membership_of ac i p"
      by (rule user_project_membership[OF assms(1)])
    show ?thesis
    proof (cases "membership_of ac i p")
      case None
      then have "\<not> is_member ac (User i False) p"
        using membership_of_None[of ac i p] by (auto simp: is_member_def)
      then show ?thesis using None assms User False
        by (auto simp: can_view_filter_user user_has_perm_def permissions_outsider)
    next
      case (Some m)
      then show ?thesis using assms User False permissions_member[OF mem[unfolded Some]]
        by (auto simp: can_view_filter_user user_has_perm_def)
    qed
  qed
qed

theorem visibility_filter_agrees_witness:
  "can_view_filter demo_access (User 2 False) (Some 7) public_project
     = user_has_perm demo_access (User 2 False) ''view_project'' (Some public_project) ProjectCache"
  by (rule visibility_filter_agrees) (simp_all add: memberships_ok_def demo_access_def public_project_def
      set_base_permissions_for_project_def or_empty_def ANON_PERMISSIONS_def)

section \<open>Checks that ask for less than they should\<close>

text \<open>What the checks of a table with the usual superuser and administrator override come to.\<close>

lemma check_with_admin:
  assumes "composed R a = Inr (OrPerm [OrPerm [IsProjectAdmin, IsSuperUser], c])"
    and "\<not> is_superuser (ck_user ck)" and "\<not> project_admin_perm ck"
  shows "resource_check R ck a = check_component ck c"
  using assms by (simp add: resource_check_def split: sum.split)

text \<open>on a public project with the base permissions, every authenticated user passes the
  check of promoting a task, which creates a story and deletes the task, without being a
  member; the same user is refused creating a story, deleting a task and promoting an issue.\<close>
theorem anyone_promotes_tasks:
  assumes "\<not> pr_is_private q" and "pr_anon_permissions q = None" and "pr_public_permissions q = None"
    and "p = set_base_permissions_for_project q" and "\<not> is_member ac (User i False) p"
    and "ck_access ck = ac" and "ck_user ck = User i False" and "get_object_project (ck_obj ck) = Some p"
  shows "resource_check TaskPermission ck ''promote_to_us'' = Inr True
    \<and> resource_check TaskPermission ck ''destroy'' = Inr False
    \<and> resource_check UserStoryPermission ck ''create'' = Inr False
    \<and> resource_check IssuePermission ck ''promote_to_us'' = Inr False"
proof -
  have perms: "get_user_project_permissions ac (User i False) p UserCache = set ANON_PERMISSIONS"
    using assms by (simp add: permissions_outsider set_base_permissions_for_project_def or_empty_def)
  have admin: "\<not> project_admin_perm ck"
    using admin_is_member[of "User i False" ac p] assms(5-8) by (auto simp: project_admin_perm_def)
  have holds: "has_project_perm ck perm \<longleftrightarrow> perm \<in> set ANON_PERMISSIONS" for perm
    using assms(6-8) perms by (simp add: has_project_perm_def user_has_perm_def)
  note check = check_with_admin[OF _ _ admin] assms(7) holds
  note tables = composed_def permset_def with_global_def with_enough_def
    TaskPermission_def UserStoryPermission_def IssuePermission_def table_defs
  have "resource_check TaskPermission ck ''promote_to_us''
      = check_component ck (AndPerm [IsAuthenticated, HasProjectPerm ''view_tasks''])"
    by (rule check(1)) (simp_all add: tables assms(7))
  moreover have "resource_check TaskPermission ck ''destroy'' = check_component ck (HasProjectPerm ''delete_task'')"
    by (rule check(1)) (simp_all add: tables assms(7))
  moreover have "resource_check UserStoryPermission ck ''create''
      = check_component ck (OrPerm [HasProjectPerm ''add_us_to_project'', HasProjectPerm ''add_us''])"
    by (rule check(1)) (simp_all add: tables assms(7))
  moreover have "resource_check IssuePermission ck ''promote_to_us''
      = check_component ck (AndPerm [IsAuthenticated, HasProjectPerm ''add_us''])"
    by (rule check(1)) (simp_all add: tables assms(7))
  ultimately show ?thesis
    by (simp only: check_component.simps check_or.simps check_and.simps)
      (simp add: assms(7) holds ANON_PERMISSIONS_def)
qed

theorem anyone_promotes_tasks_witness:
  "resource_check TaskPermission (demo_check (User 5 False) (ItemObj (Some public_project) None)) ''promote_to_us''
     = Inr True"
  by (rule anyone_promotes_tasks[where ac = demo_access and p = public_project and i = 5
        and q = "\<lparr>pr_id = 7, pr_owner_id = Some 1, pr_is_private = False, pr_anon_permissions = None,
          pr_public_permissions = None, pr_is_contact_activated = True\<rparr>", THEN conjunct1])
    (simp_all add: public_project_def demo_check_def is_member_def demo_access_def get_object_project_def
      set_base_permissions_for_project_def)

text \<open>Changing the custom attribute values of an epic is guarded by the permission to modify
  user stories: a member whose role only covers stories changes the values of epics but not
  the epics, and a member whose role only covers epics changes the epics but not their values.\<close>
theorem epic_values_guarded_by_story_permission:
  "\<not> is_superuser (ck_user ck) \<Longrightarrow> \<not> project_admin_perm ck \<Longrightarrow>
     resource_check EpicCustomAttributesValuesPermission ck ''update''
       = Inr (has_project_perm ck ''modify_us'')
   \<and> resource_check EpicCustomAttributesValuesPermission (demo_check (User 3 False) (BareObj (Some public_project)))
       ''update'' = Inr True
   \<and> resource_check EpicPermission (demo_check (User 3 False) (ItemObj (Some public_project) None)) ''update''
       = Inr False
   \<and> resource_check EpicCustomAttributesValuesPermission (demo_check (User 4 False) (BareObj (Some public_project)))
       ''update'' = Inr False
   \<and> resource_check EpicPermission (demo_check (User 4 False) (ItemObj (Some public_project) None)) ''update''
       = Inr True"
proof (intro conjI)
  assume no: "\<not> is_superuser (ck_user ck)" "\<not> project_admin_perm ck"
  have "resource_check EpicCustomAttributesValuesPermission ck ''update''
      = check_component ck (HasProjectPerm ''modify_us'')"
    by (rule check_with_admin[OF _ no]) (simp add: composed_def permset_def with_global_def with_enough_def
        EpicCustomAttributesValuesPermission_def table_defs)
  then show "resource_check EpicCustomAttributesValuesPermission ck ''update''
       = Inr (has_project_perm ck ''modify_us'')" by simp
qed code_simp+

theorem epic_values_guarded_by_story_permission_witness:
  "resource_check EpicCustomAttributesValuesPermission (demo_check (User 3 False) (BareObj (Some public_project)))
     ''update'' = Inr (has_project_perm (demo_check (User 3 False) (BareObj (Some public_project))) ''modify_us'')"
proof -
  have "\<not> project_admin_perm (demo_check (User 3 False) (BareObj (Some public_project)))" by code_simp
  then show ?thesis
    using epic_values_guarded_by_story_permission[of "demo_check (User 3 False) (BareObj (Some public_project))"]
    by (simp add: demo_check_def)
qed

text \<open>
  With private user profiles, looking at a user's profile is a type error for everybody but
  superusers: the check calls an attribute that is a boolean.
\<close>

lemma private_profiles_break:
  assumes "ac_private_user_profiles (ck_access ck)" and "\<not> is_superuser (ck_user ck)" and "ck_obj ck = UserObj i"
  shows "resource_check UserPermission ck ''retrieve'' = Inl TypeError"
  using assms by (simp add: resource_check_def composed_def permset_def with_global_def with_enough_def
      UserPermission_def table_defs can_retrieve_user_def)

text \<open>An anonymous user is the owner, as \<open>is_project_owner\<close> sees it, of a project without an owner.\<close>

lemma anonymous_owns_ownerless: "pr_owner_id p = None \<Longrightarrow> is_project_owner AnonymousUser (Some p)"
  by (simp add: is_project_owner_def)

end
