(* ===== verification/Schedule_Api_Props.thy ===== *)
theory Schedule_Api_Props
  imports Schedule_Api Schedule_System Permission_Props
begin

text \<open>
  The properties of the HTTP interface: what a request must be allowed to do before it changes
  or reads anything, what its validators let through, and where the endpoints let through
  more than they mean to.
\<close>

section \<open>Access checks\<close>

definition sees_schedule :: "request \<Rightarrow> int \<Rightarrow> project \<Rightarrow> bool" where
  "sees_schedule rq pid p \<longleftrightarrow> find_project (rq_access rq) pid = Some p
     \<and> user_can_view_project rq pid \<and> user_can_view_schedule_pages rq p"

lemma dependency_check_ok:
  "dependency_check_access rq project_id w dw s = Inr x \<longleftrightarrow>
     (\<exists>pid p. project_id = Some pid \<and> sees_schedule rq pid p
        \<and> (w \<longrightarrow> user_can_modify_dependencies rq p) \<and> (dw \<longrightarrow> user_can_modify_schedule_dates rq p))"
  by (auto simp: dependency_check_access_def sees_schedule_def split: option.splits)

lemma item_check_ok:
  "item_check_access rq project_id dw cw pw s = Inr p \<longleftrightarrow>
     (\<exists>pid. project_id = Some pid \<and> sees_schedule rq pid p \<and> (dw \<longrightarrow> user_can_modify_schedule_dates rq p)
        \<and> (cw \<longrightarrow> user_can_modify_schedule_color rq p) \<and> (pw \<longrightarrow> user_can_modify_schedule_position rq p))"
  by (auto simp: item_check_access_def sees_schedule_def split: option.splits)

text \<open>An effect that starts with a failing query leaves the state as it was.\<close>

lemma lift_guard: "bindE (liftE q) f s = (r, s') \<Longrightarrow> s' \<noteq> s \<or> (\<exists>y. r = Inr y) \<Longrightarrow> \<exists>x. q s = Inr x \<and> f x s = (r, s')"
  by (auto simp: bindE_lift split: sum.splits)

section \<open>Writing\<close>

definition iu_dates :: "item_update \<Rightarrow> bool" where
  "iu_dates iu \<longleftrightarrow> iu_due_date iu \<noteq> None \<or> iu_estimated_start iu \<noteq> None \<or> iu_actual_start iu \<noteq> None"

text \<open>C35: an update of a schedule item that succeeds, or that changes anything at all, was made by
  a user who sees the project and its schedule, and who has for each group of fields in the
  request (dates, color, position) the permission to change it; and the item it names is of
  the project. A refused request leaves everything as it was.\<close>
theorem update_item_authorised:
  assumes "update_item call parse_date str_of rq data s = (r, s')"
    and "s' \<noteq> s \<or> (\<exists>item. r = Inr (Ok item))"
  shows "\<exists>iu p. schedule_item_update_validator parse_date str_of data = Inr iu
    \<and> sees_schedule rq (iu_project iu) p
    \<and> (iu_dates iu \<longrightarrow> user_can_modify_schedule_dates rq p)
    \<and> (iu_color iu \<noteq> None \<longrightarrow> user_can_modify_schedule_color rq p)
    \<and> (iu_position iu \<noteq> None \<longrightarrow> user_can_modify_schedule_position rq p)
    \<and> resolve_entity (iu_entity_type iu) (iu_entity_id iu) (iu_project iu) s = Inr ()"
proof (cases "schedule_item_update_validator parse_date str_of data")
  case (Inl errors)
  then show ?thesis using assms by (auto simp: update_item_def retE_apply)
next
  case (Inr iu)
  obtain r' where run: "update_schedule_item_from_data call rq iu s = (r', s')"
    and ok: "s' \<noteq> s \<or> (\<exists>y. r' = Inr y)"
    using assms Inr by (cases "update_schedule_item_from_data call rq iu s")
      (auto simp: update_item_def bindE_apply retE_apply split: sum.splits)
  obtain p where p: "item_check_access rq (Some (iu_project iu)) (iu_dates iu) (iu_color iu \<noteq> None)
       (iu_position iu \<noteq> None) s = Inr p"
    and rest: "bindE (liftE (resolve_entity (iu_entity_type iu) (iu_entity_id iu) (iu_project iu))) (\<lambda>_.
       bindE (update_dates call iu) (\<lambda>_. bindE (update_color iu) (\<lambda>_. bindE (update_position iu) (\<lambda>_.
         liftE (serialize_schedule_item (type_name (iu_entity_type iu)) (iu_entity_id iu)))))) s = (r', s')"
    using lift_guard[OF run[unfolded update_schedule_item_from_data_def] ok] unfolding iu_dates_def by blast
  have "resolve_entity (iu_entity_type iu) (iu_entity_id iu) (iu_project iu) s = Inr ()"
    using lift_guard[OF rest ok] by auto
  then show ?thesis using Inr p by (auto simp: item_check_ok)
qed

lemma schedule_permission_authenticated:
  assumes "dependency_permission rq a found s = (Inr u, s')"
    and "a \<in> {''retrieve'', ''create'', ''update'', ''destroy''}"
  shows "is_authenticated (rq_user rq) \<and> s' = s"
proof -
  have "composed ScheduleDependencyPermission a = Inr (OrPerm [IsSuperUser, IsAuthenticated])"
    using assms(2) by (auto simp: composed_def permset_def with_enough_def with_global_def
        ScheduleDependencyPermission_def table_defs)
  then show ?thesis using assms(1) unfolding dependency_permission_def
    by (auto simp: view_check_ok resource_check_def split: if_splits)
qed

text \<open>An effect that starts with a permission check goes on only for an authenticated user.\<close>

lemma permission_guard:
  assumes "bindE (dependency_permission rq a found) f s = (r, s')" and "s' \<noteq> s \<or> (\<exists>y. r = Inr y)"
    and "a \<in> {''retrieve'', ''create'', ''update'', ''destroy''}"
  shows "is_authenticated (rq_user rq) \<and> f () s = (r, s')"
proof -
  obtain x t where perm: "dependency_permission rq a found s = (x, t)" by (cases "dependency_permission rq a found s")
  show ?thesis
  proof (cases x)
    case (Inl e)
    then have "t = s" using perm by (auto simp: dependency_permission_def view_check_ok)
    then show ?thesis using assms(1,2) perm Inl by (auto simp: bindE_err)
  next
    case (Inr u)
    then show ?thesis
      using schedule_permission_authenticated[OF perm[unfolded Inr] assms(3)] assms(1) perm
      by (simp add: bindE_ok)
  qed
qed

lemma atomic_guard: "atomicE m s = (r, s') \<Longrightarrow> s' \<noteq> s \<or> (\<exists>y. r = Inr y) \<Longrightarrow> m s = (r, s')"
  by (auto simp: atomicE_apply split: prod.splits sum.splits)

definition may_link :: "request \<Rightarrow> int \<Rightarrow> int \<Rightarrow> db \<Rightarrow> bool" where
  "may_link rq f t s \<longleftrightarrow> is_authenticated (rq_user rq) \<and> (\<exists>rf rt p.
      find_schedule_id f s = Some rf \<and> find_schedule_id t s = Some rt
      \<and> s_project_id rf = s_project_id rt \<and> sees_schedule rq (s_project_id rf) p
      \<and> user_can_modify_dependencies rq p)"

lemma pre_save_ok:
  "pre_conditions_on_save rq f t s = Inr x \<Longrightarrow> is_authenticated (rq_user rq) \<Longrightarrow> may_link rq f t s"
  by (auto simp: pre_conditions_on_save_def schedule_project_def bindQ_Inr dependency_check_ok may_link_def
      tbl_apply split: if_splits option.splits)

text \<open>What an endpoint may see of a dependency: both its schedules are of visible projects.\<close>

definition may_see :: "request \<Rightarrow> dependency \<Rightarrow> db \<Rightarrow> bool" where
  "may_see rq d s \<longleftrightarrow> (\<exists>rf rt. find_schedule_id (d_from_schedule_id d) s = Some rf
      \<and> find_schedule_id (d_to_schedule_id d) s = Some rt
      \<and> (\<forall>r \<in> {rf, rt}. \<exists>p \<in> set (ac_projects (rq_access rq)). pr_id p = s_project_id r
           \<and> (\<exists>pid. can_view_filter (rq_access rq) (rq_user rq) pid p) \<and> user_can_view_schedule_pages rq p))"

lemma in_projects_may_see:
  assumes "dependency_in_projects s (map pr_id (filter P (filter Q (ac_projects (rq_access rq))))) d"
    and "\<And>p. P p \<Longrightarrow> user_can_view_schedule_pages rq p"
    and "\<And>p. Q p \<Longrightarrow> \<exists>pid. can_view_filter (rq_access rq) (rq_user rq) pid p"
  shows "may_see rq d s"
  using assms unfolding dependency_in_projects_def may_see_def
  by (auto split: option.splits)

lemma queryset_ok:
  assumes "dependency_queryset rq s = Inr qs" and "d \<in> set qs"
  shows "d \<in> set (dependencies s) \<and> may_see rq d s"
proof -
  let ?ids = "\<lambda>requested vis. map pr_id (filter (user_can_view_schedule_pages rq)
      (filter vis (ac_projects (rq_access rq))))"
  obtain requested vis where d: "d \<in> set (dependencies s)" "dependency_in_projects s (?ids requested vis) d"
    and vis: "\<And>p. vis p \<Longrightarrow> \<exists>pid. can_view_filter (rq_access rq) (rq_user rq) pid p"
  proof (cases "normalize_project_id (rq_project rq)")
    case (Inl e)
    then show thesis using assms(1) by (simp add: dependency_queryset_def bindQ_apply)
  next
    case (Inr requested)
    show thesis
    proof (cases requested)
      case None
      show thesis
        by (rule that[of "can_view_filter (rq_access rq) (rq_user rq) None"])
          (use assms Inr None in \<open>auto simp: dependency_queryset_def bindQ_apply Let_def tbl_apply split: if_splits\<close>)
    next
      case (Some pid)
      show thesis
        by (rule that[of "\<lambda>p. can_view_filter (rq_access rq) (rq_user rq) (Some pid) p \<and> pr_id p = pid"])
          (use assms Inr Some in \<open>auto simp: dependency_queryset_def bindQ_apply Let_def tbl_apply
             split: if_splits sum.splits\<close>)
    qed
  qed
  show ?thesis using d(1) in_projects_may_see[OF d(2) _ vis] by simp
qed

lemma found_ok:
  "get_dependency_or_none rq pk s = Inr (Some d) \<Longrightarrow> d \<in> set (dependencies s) \<and> d_id d = pk \<and> may_see rq d s"
proof -
  assume "get_dependency_or_none rq pk s = Inr (Some d)"
  then obtain qs where "dependency_queryset rq s = Inr qs" and "find (\<lambda>d. d_id d = pk) qs = Some d"
    unfolding get_dependency_or_none_def bindQ_Inr by (auto split: option.splits if_splits)
  then show ?thesis using queryset_ok[of rq s qs d] find_Some_mem[of "\<lambda>d. d_id d = pk" qs d] by simp
qed

lemma save_new_ok:
  "dependency_save n None (Some f) (Some t) s = (r, s') \<Longrightarrow> s' = s \<or>
     s' = s\<lparr>dependencies := dependencies s @ [\<lparr>d_id = n, d_from_schedule_id = f, d_to_schedule_id = t\<rparr>]\<rparr>"
  by (auto simp: dependency_save_def bindE_lift Let_def split: sum.splits)

lemma save_old_ok:
  "dependency_save n (Some pk) (Some f) (Some t) s = (r, s') \<Longrightarrow> s' = s \<or>
     s' = s\<lparr>dependencies := upd_where (\<lambda>x. d_id x = pk) (\<lambda>_. \<lparr>d_id = pk, d_from_schedule_id = f,
             d_to_schedule_id = t\<rparr>) (dependencies s)\<rparr>"
  by (auto simp: dependency_save_def bindE_lift Let_def split: sum.splits)

text \<open>What follows the save only reads.\<close>

lemma save_then_read:
  assumes "bindE (dependency_save n pk f t) (\<lambda>d. bindE (liftE (dependency_queryset rq)) (\<lambda>qs.
      case find (\<lambda>x. d_id x = d_id d) qs of None \<Rightarrow> raiseE DoesNotExist | Some x \<Rightarrow> retE (h x))) s = (r, s')"
  shows "\<exists>r'. dependency_save n pk f t s = (r', s')"
  using assms by (cases "dependency_save n pk f t s")
    (auto simp: bindE_apply retE_apply raiseE_apply split: sum.splits option.splits)

lemma create_run:
  assumes "dependency_create rq n raw_from raw_to s = (r, s')" and "s' \<noteq> s \<or> (\<exists>d. r = Inr (Created d))"
  shows "\<exists>f t. may_link rq f t s \<and> (s' = s \<or>
    s' = s\<lparr>dependencies := dependencies s @ [\<lparr>d_id = n, d_from_schedule_id = f, d_to_schedule_id = t\<rparr>]\<rparr>)"
proof -
  have ok: "s' \<noteq> s \<or> (\<exists>y. r = Inr y)" using assms(2) by blast
  obtain v where v: "dependency_validator None 0 0 False raw_from raw_to s = Inr v"
    and run: "(case v of Inl errors \<Rightarrow> retE (BadResponse errors) | Inr (f, t) \<Rightarrow>
           bindE (dependency_permission rq ''create'' True) (\<lambda>_. bindE (liftE (pre_conditions_on_save rq f t)) (\<lambda>_.
           bindE (dependency_save n None (Some f) (Some t)) (\<lambda>d. bindE (liftE (dependency_queryset rq)) (\<lambda>qs.
             case find (\<lambda>x. d_id x = d_id d) qs of None \<Rightarrow> raiseE DoesNotExist | Some x \<Rightarrow> retE (Created x)))))) s
         = (r, s')"
    using lift_guard[OF assms(1)[unfolded dependency_create_def] ok] by blast
  then obtain f t where "v = Inr (f, t)" using assms(2) by (cases v) (auto simp: retE_apply)
  note run = run[unfolded this sum.case prod.case]
  note perm = permission_guard[OF run ok] 
  then have auth: "is_authenticated (rq_user rq)" by simp
  obtain x where "pre_conditions_on_save rq f t s = Inr x"
    and save: "bindE (dependency_save n None (Some f) (Some t)) (\<lambda>d. bindE (liftE (dependency_queryset rq)) (\<lambda>qs.
             case find (\<lambda>x. d_id x = d_id d) qs of None \<Rightarrow> raiseE DoesNotExist | Some x \<Rightarrow> retE (Created x))) s
         = (r, s')"
    using lift_guard[OF conjunct2[OF perm] ok] by auto
  then show ?thesis using pre_save_ok[OF _ auth] save_then_read[OF save] save_new_ok by blast
qed

lemma update_run:
  assumes "dependency_update rq pk partial_update raw_from raw_to s = (r, s')" and "s' \<noteq> s \<or> (\<exists>d. r = Inr (Ok d))"
  shows "\<exists>d f t. d \<in> set (dependencies s) \<and> d_id d = pk \<and> may_see rq d s \<and> may_link rq f t s \<and> (s' = s \<or>
    s' = s\<lparr>dependencies := upd_where (\<lambda>x. d_id x = pk) (\<lambda>_. \<lparr>d_id = pk, d_from_schedule_id = f,
             d_to_schedule_id = t\<rparr>) (dependencies s)\<rparr>)"
proof -
  have ok: "s' \<noteq> s \<or> (\<exists>y. r = Inr y)" using assms(2) by blast
  note body = atomic_guard[OF assms(1)[unfolded dependency_update_def] ok]
  obtain found where found: "get_dependency_or_none rq pk s = Inr found" and run: "bindE (dependency_permission rq ''update'' (found \<noteq> None)) (\<lambda>_.
       case found of
         None \<Rightarrow> raiseE NotFound
       | Some d \<Rightarrow>
           bindE (liftE (dependency_validator (Some pk) (d_from_schedule_id d) (d_to_schedule_id d)
                    partial_update raw_from raw_to)) (\<lambda>valid.
             case valid of
               Inl errors \<Rightarrow> retE (BadResponse errors)
             | Inr (f, t) \<Rightarrow>
                 bindE (liftE (pre_conditions_on_save rq f t)) (\<lambda>_.
                 bindE (dependency_save 0 (Some pk) (Some f) (Some t)) (\<lambda>d'.
                 bindE (liftE (dependency_queryset rq)) (\<lambda>qs.
                   case find (\<lambda>x. d_id x = d_id d') qs of
                     None \<Rightarrow> raiseE DoesNotExist
                   | Some x \<Rightarrow> retE (Ok x)))))) s = (r, s')"
    using lift_guard[OF body ok] by blast
  note perm = permission_guard[OF run ok]
  then have auth: "is_authenticated (rq_user rq)" by simp
  from perm ok obtain d where d: "found = Some d" by (cases found) (auto simp: raiseE_apply)
  note inner = conjunct2[OF perm, simplified, unfolded d option.case]
  obtain v where run2: "(case v of Inl errors \<Rightarrow> retE (BadResponse errors) | Inr (f, t) \<Rightarrow>
                 bindE (liftE (pre_conditions_on_save rq f t)) (\<lambda>_.
                 bindE (dependency_save 0 (Some pk) (Some f) (Some t)) (\<lambda>d'.
                 bindE (liftE (dependency_queryset rq)) (\<lambda>qs.
                   case find (\<lambda>x. d_id x = d_id d') qs of
                     None \<Rightarrow> raiseE DoesNotExist
                   | Some x \<Rightarrow> retE (Ok x))))) s = (r, s')"
    using lift_guard[OF inner ok] by blast
  then obtain f t where v: "v = Inr (f, t)" using assms(2) by (cases v) (auto simp: retE_apply)
  obtain x where "pre_conditions_on_save rq f t s = Inr x"
    and save: "bindE (dependency_save 0 (Some pk) (Some f) (Some t)) (\<lambda>d'. bindE (liftE (dependency_queryset rq)) (\<lambda>qs.
             case find (\<lambda>x. d_id x = d_id d') qs of None \<Rightarrow> raiseE DoesNotExist | Some x \<Rightarrow> retE (Ok x))) s
         = (r, s')"
    using lift_guard[OF run2[unfolded v sum.case prod.case] ok] by blast
  then show ?thesis
    using pre_save_ok[OF _ auth] save_then_read[OF save] save_old_ok found_ok[OF found[unfolded d]] by blast
qed

lemma destroy_run:
  assumes "dependency_destroy rq pk s = (r, s')" and "s' \<noteq> s \<or> (\<exists>y. r = Inr y)"
  shows "\<exists>d rf p. d \<in> set (dependencies s) \<and> d_id d = pk \<and> may_see rq d s
    \<and> find_schedule_id (d_from_schedule_id d) s = Some rf \<and> sees_schedule rq (s_project_id rf) p
    \<and> user_can_modify_dependencies rq p \<and> is_authenticated (rq_user rq)
    \<and> s' = s\<lparr>dependencies := filter (\<lambda>d. d_id d \<noteq> pk) (dependencies s)\<rparr>"
proof -
  note body = atomic_guard[OF assms(1)[unfolded dependency_destroy_def] assms(2)]
  obtain found where found: "get_dependency_or_none rq pk s = Inr found"
    and run: "bindE (dependency_permission rq ''destroy'' (found \<noteq> None)) (\<lambda>_.
       case found of None \<Rightarrow> raiseE NotFound | Some d \<Rightarrow>
         bindE (liftE (pre_conditions_on_delete rq d)) (\<lambda>_.
           bindE (delete_dependency_row (d_id d)) (\<lambda>_. retE NoContent))) s = (r, s')"
    using lift_guard[OF body assms(2)] by blast
  note perm = permission_guard[OF run assms(2)]
  from perm assms(2) obtain d where d: "found = Some d" by (cases found) (auto simp: raiseE_apply)
  obtain x where pre: "pre_conditions_on_delete rq d s = Inr x"
    and del: "bindE (delete_dependency_row (d_id d)) (\<lambda>_. retE NoContent) s = (r, s')"
    using lift_guard[OF conjunct2[OF perm, simplified, unfolded d option.case] assms(2)] by blast
  have "\<exists>rf p. find_schedule_id (d_from_schedule_id d) s = Some rf \<and> sees_schedule rq (s_project_id rf) p
      \<and> user_can_modify_dependencies rq p"
    using pre by (auto simp: pre_conditions_on_delete_def schedule_project_def bindQ_Inr dependency_check_ok
        tbl_apply split: if_splits option.splits)
  moreover have "s' = s\<lparr>dependencies := filter (\<lambda>d. d_id d \<noteq> pk) (dependencies s)\<rparr>"
    using del assms(2) found_ok[OF found[unfolded d]]
    by (auto simp: delete_dependency_row_def bindE_apply retE_apply split: if_splits)
  ultimately show ?thesis using found_ok[OF found[unfolded d]] conjunct1[OF perm] by blast
qed

text \<open>C36: the endpoints of dependencies change nothing but what they say, and only for authenticated
  users who may: creating adds one row and updating rewrites the row of its key, between two
  schedules of one project that the user sees and whose links the user may modify; an update
  also needs the old dependency to be visible, but asks for no permission in the project it
  leaves (see \<open>dependency_update_takes_foreign\<close>); deleting removes the row of
  its key, in a project whose links the user may modify.\<close>
theorem dependency_writes_authorised:
  "(dependency_create rq n raw_from raw_to s = (r1, s1) \<longrightarrow> s1 = s \<or> (\<exists>f t. may_link rq f t s
      \<and> s1 = s\<lparr>dependencies := dependencies s @ [\<lparr>d_id = n, d_from_schedule_id = f, d_to_schedule_id = t\<rparr>]\<rparr>))
   \<and> (dependency_update rq pk partial_update raw_from raw_to s = (r2, s2) \<longrightarrow> s2 = s \<or> (\<exists>d f t.
        d \<in> set (dependencies s) \<and> d_id d = pk \<and> may_see rq d s \<and> may_link rq f t s
      \<and> s2 = s\<lparr>dependencies := upd_where (\<lambda>x. d_id x = pk) (\<lambda>_. \<lparr>d_id = pk, d_from_schedule_id = f,
             d_to_schedule_id = t\<rparr>) (dependencies s)\<rparr>))
   \<and> (dependency_destroy rq pk s = (r3, s3) \<longrightarrow> s3 = s \<or> (\<exists>d rf p.
        d \<in> set (dependencies s) \<and> d_id d = pk \<and> may_see rq d s
      \<and> find_schedule_id (d_from_schedule_id d) s = Some rf \<and> sees_schedule rq (s_project_id rf) p
      \<and> user_can_modify_dependencies rq p \<and> is_authenticated (rq_user rq)
      \<and> s3 = s\<lparr>dependencies := filter (\<lambda>d. d_id d \<noteq> pk) (dependencies s)\<rparr>))"
  using create_run[of rq n raw_from raw_to s r1 s1] update_run[of rq pk partial_update raw_from raw_to s r2 s2]
    destroy_run[of rq pk s r3 s3]
  by (intro conjI impI) blast+

section \<open>Reading\<close>

text \<open>C37: reading discloses only what the user may see: every dependency a list or a detail request
  answers with joins schedules of projects the user can view and whose schedule or gantt
  pages are open to the user; a list of schedule items is answered only for such a project
  and holds only schedules of it; and reading changes nothing.\<close>
theorem reads_authorised:
  "(dependency_list rq s = (r1, s1) \<longrightarrow> s1 = s \<and> (\<forall>qs. r1 = Inr (Ok qs) \<longrightarrow>
        (\<forall>d \<in> set qs. d \<in> set (dependencies s) \<and> may_see rq d s)))
   \<and> (dependency_retrieve rq pk s = (r2, s2) \<longrightarrow> s2 = s \<and> (\<forall>d. r2 = Inr (Ok d) \<longrightarrow>
        d \<in> set (dependencies s) \<and> d_id d = pk \<and> may_see rq d s \<and> is_authenticated (rq_user rq)))
   \<and> (schedule_item_list rq s = (r3, s3) \<longrightarrow> s3 = s \<and> (\<forall>items. r3 = Inr (Ok items) \<longrightarrow>
        (\<exists>pid p. sees_schedule rq pid p \<and> (\<forall>(r, pos) \<in> set items. r \<in> set (schedules s) \<and> s_project_id r = pid))))"
proof (intro conjI impI)
  assume "dependency_list rq s = (r1, s1)"
  then show "s1 = s" and "\<forall>qs. r1 = Inr (Ok qs) \<longrightarrow> (\<forall>d \<in> set qs. d \<in> set (dependencies s) \<and> may_see rq d s)"
    using queryset_ok[of rq s] by (auto simp: dependency_list_def bindE_lift retE_apply split: sum.splits)
next
  assume run: "dependency_retrieve rq pk s = (r2, s2)"
  have perm: "\<exists>x. dependency_permission rq ''retrieve'' True s = (x, s)"
    by (cases "dependency_permission rq ''retrieve'' True s") (auto simp: dependency_permission_def view_check_ok)
  then show "s2 = s"
    using run by (auto simp: dependency_retrieve_def bindE_lift bindE_apply retE_apply raiseE_apply
        split: sum.splits option.splits)
  show "\<forall>d. r2 = Inr (Ok d) \<longrightarrow> d \<in> set (dependencies s) \<and> d_id d = pk \<and> may_see rq d s \<and> is_authenticated (rq_user rq)"
  proof (intro allI impI)
    fix d assume r2: "r2 = Inr (Ok d)"
    obtain qs where qs: "dependency_queryset rq s = Inr qs" and rest: "(case find (\<lambda>d. d_id d = pk) qs of
         None \<Rightarrow> raiseE NotFound
       | Some d \<Rightarrow> bindE (dependency_permission rq ''retrieve'' True) (\<lambda>_. retE (Ok d))) s = (r2, s2)"
      using lift_guard[OF run[unfolded dependency_retrieve_def]] r2 by blast
    then obtain d' where d': "find (\<lambda>d. d_id d = pk) qs = Some d'"
      using r2 by (cases "find (\<lambda>d. d_id d = pk) qs") (auto simp: raiseE_apply)
    note perm = permission_guard[OF rest[unfolded d' option.case]]
    have "is_authenticated (rq_user rq)" "d' = d" using perm r2 by (auto simp: retE_apply)
    then show "d \<in> set (dependencies s) \<and> d_id d = pk \<and> may_see rq d s \<and> is_authenticated (rq_user rq)"
      using queryset_ok[OF qs, of d'] find_Some_mem[OF d'] by simp
  qed
next
  have keep: "mapQ rows schedule_item s = Inr items \<Longrightarrow> map fst items = rows" for rows items
    by (induction rows arbitrary: items) (auto simp: bindQ_Inr schedule_item_def)
  assume run: "schedule_item_list rq s = (r3, s3)"
  then show "s3 = s"
    by (auto simp: schedule_item_list_def bindE_lift retE_apply split: sum.splits)
  show "\<forall>items. r3 = Inr (Ok items) \<longrightarrow>
        (\<exists>pid p. sees_schedule rq pid p \<and> (\<forall>(r, pos) \<in> set items. r \<in> set (schedules s) \<and> s_project_id r = pid))"
  proof (intro allI impI)
    fix items assume "r3 = Inr (Ok items)"
    then obtain project_id p where p: "item_check_access rq project_id False False False s = Inr p"
      and items: "mapQ (sort_key (\<lambda>r. (s_entity_type r, s_entity_id r))
         (filter (\<lambda>r. Some (s_project_id r) = project_id) (schedules s))) schedule_item s = Inr items"
      using run by (auto simp: schedule_item_list_def bindE_lift retE_apply tbl_apply split: sum.splits if_splits)
    obtain pid where pid: "project_id = Some pid" "sees_schedule rq pid p" using p by (auto simp: item_check_ok)
    have "fst ` set items = set (filter (\<lambda>r. s_project_id r = pid) (schedules s))"
      using arg_cong[OF keep[OF items], of set] pid(1) by simp
    then show "\<exists>pid p. sees_schedule rq pid p \<and> (\<forall>(r, pos) \<in> set items. r \<in> set (schedules s) \<and> s_project_id r = pid)"
      using pid(2) by (intro exI[of _ pid] exI[of _ p]) force
  qed
qed

section \<open>Demonstration requests\<close>

text \<open>
  Two private projects over the demonstration data. User 1 administers project 1, user 2 may
  change dates there, user 3 only looks at project 1 and may modify the links of project 2.
\<close>

definition private_project :: "int \<Rightarrow> project" where
  "private_project i = set_base_permissions_for_project
     \<lparr>pr_id = i, pr_owner_id = Some 1, pr_is_private = True, pr_anon_permissions = None,
      pr_public_permissions = None, pr_is_contact_activated = True\<rparr>"

definition mk_membership :: "int \<Rightarrow> int \<Rightarrow> bool \<Rightarrow> string list \<Rightarrow> membership" where
  "mk_membership i p admin perms = \<lparr>mb_user = Some i, mb_project = p, mb_is_admin = admin,
     mb_role_permissions = Some perms\<rparr>"

definition schedule_access :: access where
  "schedule_access = \<lparr>ac_projects = [private_project 1, private_project 2],
     ac_memberships = [mk_membership 1 1 True [],
       mk_membership 2 1 False [''view_project'', ''view_schedule'', ''modify_schedule_dates''],
       mk_membership 3 1 False [''view_project'', ''view_schedule''],
       mk_membership 3 2 False [''view_project'', ''view_schedule'', ''modify_schedule_links'']],
     ac_active_users = [1, 2, 3], ac_instances = [], ac_private_user_profiles = False\<rparr>"

definition demo_request_of :: "int \<Rightarrow> request" where
  "demo_request_of i = \<lparr>rq_access = schedule_access, rq_user = User i False, rq_project = VNone\<rparr>"

definition no_text :: "pyval \<Rightarrow> string" where "no_text v = ''''"

definition demo_date :: "string \<Rightarrow> date option" where
  "demo_date = map_of [(''0001-01-05'', 5), (''0001-01-14'', 14)]"

definition task_31 :: "(string \<times> pyval) list" where
  "task_31 = [(''project'', VInt 1), (''entity_type'', VStr ''task''), (''entity_id'', VInt 31)]"

lemma update_item_authorised_run:
  "fst (update_item (propagate 9) demo_date no_text (demo_request_of 2)
      (task_31 @ [(''estimated_start'', VStr ''0001-01-14'')]) demo_db) \<noteq> Inl KeyError
   \<and> (case fst (update_item (propagate 9) demo_date no_text (demo_request_of 2)
      (task_31 @ [(''estimated_start'', VStr ''0001-01-14'')]) demo_db) of Inr (Ok item) \<Rightarrow> True | _ \<Rightarrow> False)"
  by code_simp

theorem update_item_authorised_witness:
  "\<exists>p. sees_schedule (demo_request_of 2) 1 p \<and> user_can_modify_schedule_dates (demo_request_of 2) p"
proof -
  obtain r s' where run: "update_item (propagate 9) demo_date no_text (demo_request_of 2)
      (task_31 @ [(''estimated_start'', VStr ''0001-01-14'')]) demo_db = (r, s')"
    by (cases "update_item (propagate 9) demo_date no_text (demo_request_of 2)
      (task_31 @ [(''estimated_start'', VStr ''0001-01-14'')]) demo_db")
  then have ok: "s' \<noteq> demo_db \<or> (\<exists>item. r = Inr (Ok item))"
    using update_item_authorised_run by (auto split: sum.splits response.splits)
  have "schedule_item_update_validator demo_date no_text (task_31 @ [(''estimated_start'', VStr ''0001-01-14'')])
     = Inr \<lparr>iu_project = 1, iu_entity_type = VStr ''task'', iu_entity_id = 31, iu_position = None, iu_color = None,
        iu_due_date = None, iu_estimated_start = Some (Some 14), iu_actual_start = None\<rparr>"
    by code_simp
  then show ?thesis using update_item_authorised[OF run ok] by (auto simp: iu_dates_def)
qed

text \<open>C38: the endpoint of bulk date changes is all or nothing: it answers with success only a user
  who sees the project and its schedule and may change its dates, and with any other status,
  whatever went wrong, it has changed nothing.\<close>
theorem bulk_endpoint_all_or_nothing:
  assumes "dispatch (bulk_apply_dates call parse_date rq raw_project_id raw_updates) s = (status, s')"
  shows "(status = 200 \<longrightarrow> (\<exists>pid items p. schedule_bulk_apply_dates_validator parse_date raw_project_id raw_updates
             = Inr (pid, items) \<and> sees_schedule rq pid p \<and> user_can_modify_schedule_dates rq p))
       \<and> (status \<noteq> 200 \<longrightarrow> s' = s)"
proof (cases "schedule_bulk_apply_dates_validator parse_date raw_project_id raw_updates")
  case (Inl errors)
  then show ?thesis using assms by (simp add: dispatch_def bulk_apply_dates_def retE_apply)
next
  case (Inr v)
  obtain pid items where v: "v = (pid, items)" by (cases v)
  have keep: "snd (apply_schedule_dates_in_bulk call (VInt pid) items s) = s"
    if "fst (apply_schedule_dates_in_bulk call (VInt pid) items s) = Inl e" for e
    using that unfolding apply_schedule_dates_in_bulk_def
    by (auto simp: bindE_apply atomicE_apply retE_apply raiseE_apply split: sum.splits if_splits prod.splits)
  show ?thesis
  proof (cases "dependency_check_access rq (Some pid) False True s")
    case (Inl e)
    then have "e \<in> {WrongArguments MSG_NO_PROJECT, PermissionDenied MSG_NO_ACCESS, PermissionDenied MSG_NO_PAGES,
        PermissionDenied MSG_NO_DATES}"
      by (auto simp: dependency_check_access_def split: option.splits if_splits)
    then show ?thesis using assms Inl Inr v by (auto simp: dispatch_def bulk_apply_dates_def bindE_lift)
  next
    case check: (Inr u)
    then show ?thesis
      using assms Inr v keep dependency_check_ok[of rq "Some pid" False True s u]
      by (cases "apply_schedule_dates_in_bulk call (VInt pid) items s")
        (auto simp: dispatch_def bulk_apply_dates_def bindE_lift bindE_apply value_error_as_wrong_arguments_def
          handleE_apply retE_apply raiseE_apply split: sum.splits exc.splits option.splits)
  qed
qed

definition demo_bulk :: "bulk_value option" where
  "demo_bulk = Some (Items [Some [(''entity_type'', VStr ''task''), (''entity_id'', VInt 31),
     (''start'', VStr ''0001-01-14'')]])"

theorem bulk_endpoint_all_or_nothing_witness:
  "\<exists>p. sees_schedule (demo_request_of 2) 1 p \<and> user_can_modify_schedule_dates (demo_request_of 2) p"
proof -
  obtain st s' where run: "dispatch (bulk_apply_dates (propagate 9) demo_date (demo_request_of 2) (Some (VInt 1))
      demo_bulk) demo_db = (st, s')" by (cases "dispatch (bulk_apply_dates (propagate 9) demo_date
      (demo_request_of 2) (Some (VInt 1)) demo_bulk) demo_db")
  have "fst (dispatch (bulk_apply_dates (propagate 9) demo_date (demo_request_of 2) (Some (VInt 1))
      demo_bulk) demo_db) = 200" by code_simp
  then have "st = 200" using run by simp
  moreover have "map_sum id fst (schedule_bulk_apply_dates_validator demo_date (Some (VInt 1)) demo_bulk) = Inr 1"
    by code_simp
  ultimately show ?thesis using bulk_endpoint_all_or_nothing[OF run] by auto
qed

section \<open>What the validators let through\<close>

lemma field_from_native_ok:
  "field_from_native required from_native run native = Inr (Some (Some x)) \<Longrightarrow> run x = None"
  "field_from_native True from_native run native = Inr y \<Longrightarrow> \<exists>x. y = Some (Some x)"
  by (auto simp: field_from_native_def split: option.splits sum.splits if_splits)

lemma integer_field_ok:
  "integer_field required limit native = Inr (Some (Some i)) \<Longrightarrow> limit \<le> i"
  unfolding integer_field_def by (drule field_from_native_ok(1)) (simp add: min_value_def split: if_splits)

lemma choice_field_ok:
  "choice_field required choices native = Inr (Some (Some v)) \<Longrightarrow>
     v \<in> VStr ` set choices \<or> v = VInt 0 \<or> v = VBool False"
  unfolding choice_field_def field_from_native_def choice_from_native_def
  by (cases native; cases v) (auto simp: py_truth_def empty_value_def split: if_splits)

lemma failed_iff: "\<not> failed x \<longleftrightarrow> (\<exists>y. x = Inr y)"
  by (cases x) auto

lemma collect_ok:
  assumes "collect_item_update project entity_type entity_id position color due_date estimated_start actual_start
     = Inr iu"
  shows "\<exists>p et i. project = Inr (Some (Some p)) \<and> entity_type = Inr (Some (Some et)) \<and> entity_id = Inr (Some (Some i))
    \<and> position = Inr (iu_position iu) \<and> color = Inr (iu_color iu) \<and> due_date = Inr (iu_due_date iu)
    \<and> estimated_start = Inr (iu_estimated_start iu) \<and> actual_start = Inr (iu_actual_start iu)
    \<and> iu_project iu = p \<and> iu_entity_type iu = et \<and> iu_entity_id iu = i
    \<and> \<not> (iu_position iu = None \<and> iu_color iu = None \<and> iu_due_date iu = None \<and> iu_estimated_start iu = None
          \<and> iu_actual_start iu = None)"
proof -
  have good: "\<not> failed project \<and> \<not> failed entity_type \<and> \<not> failed entity_id \<and> \<not> failed position
      \<and> \<not> failed color \<and> \<not> failed due_date \<and> \<not> failed estimated_start \<and> \<not> failed actual_start"
  proof (rule ccontr)
    assume "\<not> ?thesis"
    then have "error_names [(''project'', failed project), (''entity_type'', failed entity_type),
            (''entity_id'', failed entity_id), (''position'', failed position), (''color'', failed color),
            (''due_date'', failed due_date), (''estimated_start'', failed estimated_start),
            (''actual_start'', failed actual_start)] \<noteq> []"
      unfolding error_names_def by (simp only: filter.simps snd_conv map_is_Nil_conv split: if_split) blast
    then show False using assms unfolding collect_item_update_def Let_def by (simp only: if_True simp_thms) simp
  qed
  then have none: "error_names [(''project'', failed project), (''entity_type'', failed entity_type),
            (''entity_id'', failed entity_id), (''position'', failed position), (''color'', failed color),
            (''due_date'', failed due_date), (''estimated_start'', failed estimated_start),
            (''actual_start'', failed actual_start)] = []"
    by (simp add: error_names_def)
  note parts = good[unfolded failed_iff]
  obtain p0 et0 i0 pos c du es ac where r: "project = Inr p0" "entity_type = Inr et0" "entity_id = Inr i0"
    "position = Inr pos" "color = Inr c" "due_date = Inr du" "estimated_start = Inr es" "actual_start = Inr ac"
    using parts by (elim conjE exE) (rule that)
  note run = assms[unfolded collect_item_update_def Let_def none, simplified, unfolded r, simplified]
  show ?thesis
    using run unfolding r by (auto split: option.splits if_splits)
qed

text \<open>C39: what the validator of item updates accepts has a project and an entity id of at least 1,
  an entity type that is one of the three types or a zero or false, which the choice field
  does not look up, a position that is null or at least 1 when one is given, and at least one
  field to change; each field is present in the result exactly when it is in the request. (The
  two gaps, the false type and the null position, reach the services and crash them: see
  \<open>zero_entity_type_fails\<close> and \<open>null_position_fails\<close>.)\<close>
theorem item_update_validator_sound:
  assumes "schedule_item_update_validator parse_date str_of data = Inr iu"
  shows "1 \<le> iu_project iu \<and> 1 \<le> iu_entity_id iu
    \<and> (iu_entity_type iu \<in> VStr ` set ENTITY_TYPES \<or> iu_entity_type iu \<in> {VInt 0, VBool False})
    \<and> (\<forall>i. iu_position iu = Some (Some i) \<longrightarrow> 1 \<le> i)
    \<and> (iu_dates iu \<or> iu_color iu \<noteq> None \<or> iu_position iu \<noteq> None)
    \<and> (iu_color iu = None \<longleftrightarrow> map_of data ''color'' = None)
    \<and> (iu_position iu = None \<longleftrightarrow> map_of data ''position'' = None)
    \<and> (iu_due_date iu = None \<longleftrightarrow> map_of data ''due_date'' = None)
    \<and> (iu_estimated_start iu = None \<longleftrightarrow> map_of data ''estimated_start'' = None)
    \<and> (iu_actual_start iu = None \<longleftrightarrow> map_of data ''actual_start'' = None)"
proof -
  obtain p et i where p: "integer_field True 1 (map_of data ''project'') = Inr (Some (Some p))"
    and et: "choice_field True ENTITY_TYPES (map_of data ''entity_type'') = Inr (Some (Some et))"
    and i: "integer_field True 1 (map_of data ''entity_id'') = Inr (Some (Some i))"
    and pos: "integer_field False 1 (map_of data ''position'') = Inr (iu_position iu)"
    and c: "char_field str_of (map_of data ''color'') = Inr (iu_color iu)"
    and du: "date_field parse_date (map_of data ''due_date'') = Inr (iu_due_date iu)"
    and es: "date_field parse_date (map_of data ''estimated_start'') = Inr (iu_estimated_start iu)"
    and ac: "date_field parse_date (map_of data ''actual_start'') = Inr (iu_actual_start iu)"
    and iu: "iu_project iu = p" "iu_entity_type iu = et" "iu_entity_id iu = i"
      "\<not> (iu_position iu = None \<and> iu_color iu = None \<and> iu_due_date iu = None \<and> iu_estimated_start iu = None
          \<and> iu_actual_start iu = None)"
    using collect_ok[OF assms[unfolded schedule_item_update_validator_def Let_def]] by blast
  have absent: "integer_field False 1 native = Inr y \<Longrightarrow> (y = None) = (native = None)" for native y
    by (auto simp: integer_field_def field_from_native_def split: option.splits sum.splits if_splits)
  have absent_date: "date_field parse_date native = Inr y \<Longrightarrow> (y = None) = (native = None)" for native y
    by (auto simp: date_field_def field_from_native_def split: option.splits sum.splits if_splits)
  have absent_color: "char_field str_of native = Inr y \<Longrightarrow> (y = None) = (native = None)" for native y
    by (auto simp: char_field_def split: option.splits)
  show ?thesis
  proof (intro conjI)
    show "1 \<le> iu_project iu" "1 \<le> iu_entity_id iu"
      using integer_field_ok[OF p] integer_field_ok[OF i] iu by simp_all
    show "iu_entity_type iu \<in> VStr ` set ENTITY_TYPES \<or> iu_entity_type iu \<in> {VInt 0, VBool False}"
      using choice_field_ok[OF et] iu(2) by blast
    show "\<forall>i. iu_position iu = Some (Some i) \<longrightarrow> 1 \<le> i"
      using integer_field_ok pos by metis
    show "iu_dates iu \<or> iu_color iu \<noteq> None \<or> iu_position iu \<noteq> None"
      using iu(4) unfolding iu_dates_def by argo
  qed (rule absent[OF pos] absent_date[OF du] absent_date[OF es] absent_date[OF ac] absent_color[OF c])+
qed

theorem item_update_validator_sound_witness:
  "\<exists>iu. schedule_item_update_validator demo_date no_text (task_31 @ [(''position'', VStr ''2'')]) = Inr iu
     \<and> iu_position iu = Some (Some 2) \<and> 1 \<le> iu_entity_id iu"
proof -
  have run: "schedule_item_update_validator demo_date no_text (task_31 @ [(''position'', VStr ''2'')])
     = Inr \<lparr>iu_project = 1, iu_entity_type = VStr ''task'', iu_entity_id = 31, iu_position = Some (Some 2),
        iu_color = None, iu_due_date = None, iu_estimated_start = None, iu_actual_start = None\<rparr>"
    by code_simp
  show ?thesis using item_update_validator_sound[OF run] run by auto
qed

section \<open>What the endpoints let through\<close>

definition task_31_two_starts :: "(string \<times> pyval) list" where
  "task_31_two_starts = task_31 @ [(''estimated_start'', VStr ''0001-01-14''), (''actual_start'', VStr ''0001-01-05'')]"

text \<open>A refused update of a schedule item can have been carried out in part. The dates are
  applied one field at a time, each in its own transaction: here the estimated start is
  accepted, the actual start is refused because it comes before the end of a source, the
  answer is status 400, and the estimated start stays changed.\<close>
theorem refused_update_changes_dates:
  "case dispatch (update_item (propagate 9) demo_date no_text (demo_request_of 2) task_31_two_starts) demo_db of
     (status, s') \<Rightarrow> status = 400
       \<and> map_option s_estimated_start (find_schedule TYPE_TASK 31 demo_db) = Some (Some 13)
       \<and> map_option s_estimated_start (find_schedule TYPE_TASK 31 s') = Some (Some 14)"
  by code_simp

definition two_projects :: db where
  "two_projects = demo_db\<lparr>
     schedules := schedules demo_db @
       [(mk_schedule 6 TYPE_TASK 50 (Some 1) (Some 2))\<lparr>s_project_id := 2\<rparr>,
        (mk_schedule 7 TYPE_TASK 51 (Some 3) (Some 4))\<lparr>s_project_id := 2\<rparr>]\<rparr>"

text \<open>The dependencies a request without the parameter \<open>project\<close> works on.\<close>

definition shown :: "request \<Rightarrow> db \<Rightarrow> dependency \<Rightarrow> bool" where
  "shown rq s = dependency_in_projects s (map pr_id (filter (user_can_view_schedule_pages rq)
     (filter (can_view_filter (rq_access rq) (rq_user rq) None) (ac_projects (rq_access rq)))))"

lemma queryset_shown:
  "available s \<Longrightarrow> rq_project rq = VNone \<Longrightarrow> dependency_queryset rq s = Inr (filter (shown rq s) (dependencies s))"
  by (simp add: dependency_queryset_def normalize_project_id_def bindQ_apply shown_def)

lemma found_shown:
  assumes "available s" and "rq_project rq = VNone" and "distinct (map d_id (dependencies s))"
    and "d \<in> set (dependencies s)" and "shown rq s d"
  shows "find (\<lambda>x. d_id x = d_id d) (filter (shown rq s) (dependencies s)) = Some d"
    and "get_dependency_or_none rq (d_id d) s = Inr (Some d)"
proof -
  have "distinct (map d_id (filter (shown rq s) (dependencies s)))" using assms(3) by (rule distinct_map_filter)
  from find_unique[OF this, of d] show found: "find (\<lambda>x. d_id x = d_id d) (filter (shown rq s) (dependencies s)) = Some d"
    using assms(4,5) by simp
  then show "get_dependency_or_none rq (d_id d) s = Inr (Some d)"
    by (simp add: get_dependency_or_none_def bindQ_apply queryset_shown[OF assms(1,2)])
qed

lemma permission_passed:
  assumes "is_authenticated (rq_user rq)" and "a \<in> {''update'', ''destroy''}"
  shows "dependency_permission rq a True s = (Inr (), s)"
proof -
  have "composed ScheduleDependencyPermission a = Inr (OrPerm [IsSuperUser, IsAuthenticated])"
    using assms(2) by (auto simp: composed_def permset_def with_enough_def with_global_def
        ScheduleDependencyPermission_def table_defs)
  then show ?thesis using assms(1) unfolding dependency_permission_def
    by (simp add: view_check_ok resource_check_def)
qed

text \<open>C40: updating a dependency only asks for the permission in the project of the new schedules.
  Let an authenticated user see a dependency, and have the permission to modify the links of a
  project with two schedules a valid dependency could join. An update of the dependency to
  these two schedules is carried out, whatever project it was of, so it is taken out of that
  project; a user who may not modify the links there is refused to delete it.\<close>
theorem dependency_update_takes_foreign:
  assumes "available s" and "rq_project rq = VNone" and "distinct (map d_id (dependencies s))"
    and "d \<in> set (dependencies s)" and "shown rq s d" and "may_link rq f t s" and "f \<noteq> 0" and "t \<noteq> 0"
    and "dependency_full_clean (Some (d_id d)) (Some f) (Some t) s = Inr ()"
    and "shown rq s \<lparr>d_id = d_id d, d_from_schedule_id = f, d_to_schedule_id = t\<rparr>"
  shows "dispatch (dependency_update rq (d_id d) partial_update (Some (VInt f)) (Some (VInt t))) s
       = (200, s\<lparr>dependencies := map (\<lambda>x. if d_id x = d_id d
            then \<lparr>d_id = d_id d, d_from_schedule_id = f, d_to_schedule_id = t\<rparr> else x) (dependencies s)\<rparr>)
    \<and> ((\<exists>rf p. d_from_schedule_id d \<noteq> 0 \<and> find_schedule_id (d_from_schedule_id d) s = Some rf
          \<and> find_project (rq_access rq) (s_project_id rf) = Some p \<and> \<not> user_can_modify_dependencies rq p)
       \<longrightarrow> dispatch (dependency_destroy rq (d_id d)) s = (403, s))"
proof (intro conjI impI)
  let ?d = "\<lparr>d_id = d_id d, d_from_schedule_id = f, d_to_schedule_id = t\<rparr>"
  let ?s = "s\<lparr>dependencies := map (\<lambda>x. if d_id x = d_id d then ?d else x) (dependencies s)\<rparr>"
  have auth: "is_authenticated (rq_user rq)" using assms(6) by (simp add: may_link_def)
  note found = found_shown(2)[OF assms(1-5)]
  have ends: "find_schedule_id f s \<noteq> None" "find_schedule_id t s \<noteq> None" using assms(6) by (auto simp: may_link_def)
  have valid: "dependency_validator (Some (d_id d)) (d_from_schedule_id d) (d_to_schedule_id d) partial_update
      (Some (VInt f)) (Some (VInt t)) s = Inr (Inr (f, t))"
    using assms(1,9) ends by (simp add: dependency_validator_def schedule_field_def bindQ_apply py_int_def)
  have pre: "pre_conditions_on_save rq f t s = Inr ()"
    using assms(1,6-8) by (auto simp: pre_conditions_on_save_def schedule_project_def bindQ_apply may_link_def
        dependency_check_ok)
  have save: "dependency_save 0 (Some (d_id d)) (Some f) (Some t) s = (Inr ?d, ?s)"
    using assms(9) by (simp add: dependency_save_def bindE_lift Let_def upd_where_def)
  have shown: "shown rq ?s = shown rq s" by (rule ext) (simp add: shown_def dependency_in_projects_def find_schedule_id_def)
  have "find (\<lambda>x. d_id x = d_id ?d) (filter (shown rq ?s) (dependencies ?s)) = Some ?d"
  proof (rule found_shown(1)[OF _ assms(2)])
    have "map d_id (dependencies ?s) = map d_id (dependencies s)" by (simp add: comp_def)
    then show "distinct (map d_id (dependencies ?s))" using assms(3) by (simp only:)
    show "?d \<in> set (dependencies ?s)" using assms(4) by force
  qed (use assms(1,10) shown in \<open>simp_all add: available_def\<close>)
  moreover have "available ?s" using assms(1) by (simp add: available_def)
  ultimately have read: "dependency_queryset rq ?s = Inr (filter (shown rq ?s) (dependencies ?s))
      \<and> find (\<lambda>x. d_id x = d_id d) (filter (shown rq ?s) (dependencies ?s)) = Some ?d"
    using queryset_shown[OF _ assms(2), of ?s] by simp
  have "dependency_update rq (d_id d) partial_update (Some (VInt f)) (Some (VInt t)) s = (Inr (Ok ?d), ?s)"
    unfolding dependency_update_def
    by (simp add: atomicE_apply bindE_lift found bindE_apply permission_passed[OF auth, of "''update''"] valid pre
        save conjunct1[OF read] conjunct2[OF read, simplified] retE_apply)
  then show "dispatch (dependency_update rq (d_id d) partial_update (Some (VInt f)) (Some (VInt t))) s = (200, ?s)"
    by (simp add: dispatch_def)
  assume "\<exists>rf p. d_from_schedule_id d \<noteq> 0 \<and> find_schedule_id (d_from_schedule_id d) s = Some rf
          \<and> find_project (rq_access rq) (s_project_id rf) = Some p \<and> \<not> user_can_modify_dependencies rq p"
  then obtain rf p where p: "d_from_schedule_id d \<noteq> 0" "find_schedule_id (d_from_schedule_id d) s = Some rf"
    "find_project (rq_access rq) (s_project_id rf) = Some p" "\<not> user_can_modify_dependencies rq p" by blast
  have "\<exists>m. pre_conditions_on_delete rq d s = Inl (PermissionDenied m)"
    using assms(1) p by (cases "user_can_view_project rq (s_project_id rf)"; cases "user_can_view_schedule_pages rq p")
      (simp_all add: pre_conditions_on_delete_def schedule_project_def bindQ_apply dependency_check_access_def)
  then obtain m where "pre_conditions_on_delete rq d s = Inl (PermissionDenied m)" by blast
  then have "dependency_destroy rq (d_id d) s = (Inl (PermissionDenied m), s)"
    unfolding dependency_destroy_def
    by (simp add: atomicE_apply bindE_lift found bindE_apply permission_passed[OF auth, of "''destroy''"])
  then show "dispatch (dependency_destroy rq (d_id d)) s = (403, s)" by (simp add: dispatch_def)
qed

theorem dependency_update_takes_foreign_witness:
  "dispatch (dependency_destroy (demo_request_of 3) 1) two_projects = (403, two_projects)
   \<and> fst (dispatch (dependency_update (demo_request_of 3) 1 False (Some (VInt 6)) (Some (VInt 7))) two_projects) = 200"
proof -
  let ?d = "\<lparr>d_id = 1, d_from_schedule_id = 2, d_to_schedule_id = 3\<rparr>"
  have shown: "shown (demo_request_of 3) two_projects ?d"
    "shown (demo_request_of 3) two_projects \<lparr>d_id = d_id ?d, d_from_schedule_id = 6, d_to_schedule_id = 7\<rparr>" by code_simp+
  have clean: "dependency_full_clean (Some (d_id ?d)) (Some 6) (Some 7) two_projects = Inr ()" by code_simp
  have rows: "distinct (map d_id (dependencies two_projects))" "?d \<in> set (dependencies two_projects)" by code_simp+
  have rights: "find_schedule_id 6 two_projects = Some ((mk_schedule 6 TYPE_TASK 50 (Some 1) (Some 2))\<lparr>s_project_id := 2\<rparr>)"
    "find_schedule_id 7 two_projects = Some ((mk_schedule 7 TYPE_TASK 51 (Some 3) (Some 4))\<lparr>s_project_id := 2\<rparr>)"
    "find_project (rq_access (demo_request_of 3)) 2 = Some (private_project 2)"
    "user_can_view_project (demo_request_of 3) 2" "user_can_view_schedule_pages (demo_request_of 3) (private_project 2)"
    "user_can_modify_dependencies (demo_request_of 3) (private_project 2)" by code_simp+
  have link: "may_link (demo_request_of 3) 6 7 two_projects"
    using rights unfolding may_link_def sees_schedule_def by (simp add: demo_request_of_def)
  have foreign: "find_schedule_id (d_from_schedule_id ?d) two_projects
      = Some (mk_schedule 2 TYPE_USERSTORY 20 (Some 10) (Some 15))"
    "find_project (rq_access (demo_request_of 3)) 1 = Some (private_project 1)"
    "\<not> user_can_modify_dependencies (demo_request_of 3) (private_project 1)" by code_simp+
  have "available two_projects" using demo_available by (simp add: two_projects_def available_def)
  from dependency_update_takes_foreign[OF this _ rows shown(1) link _ _ clean shown(2), of False] foreign
  show ?thesis by (simp add: demo_request_of_def)
qed

text \<open>
  The view set of schedule items declares that listing needs an authenticated user, but
  nothing evaluates its permission classes: on a public project everybody gets the list.
\<close>

definition anonymous_request :: request where
  "anonymous_request = \<lparr>rq_access = schedule_access\<lparr>ac_projects := [public_project\<lparr>pr_id := 1\<rparr>]\<rparr>,
     rq_user = AnonymousUser, rq_project = VStr ''1''\<rparr>"

lemma schedule_list_needs_no_login:
  "fst (dispatch (schedule_item_list anonymous_request) demo_db) = 200
   \<and> resource_check ScheduleItemPermission \<lparr>ck_access = rq_access anonymous_request, ck_user = AnonymousUser,
       ck_data = [], ck_obj = NoObj\<rparr> ''list'' = Inr False"
  by (intro conjI; code_simp)

text \<open>
  A position of \<open>null\<close> passes the validator and is an unhandled \<open>ValueError\<close> of the service; an
  entity type of \<open>0\<close> passes the choice field and is an unhandled \<open>KeyError\<close>.
\<close>

lemma null_position_fails:
  "dispatch (update_item (propagate 9) demo_date no_text (demo_request_of 1) (task_31 @ [(''position'', VNone)])) demo_db
     = (500, demo_db)"
  by code_simp

lemma zero_entity_type_fails:
  "fst (update_item (propagate 9) demo_date no_text (demo_request_of 1)
     [(''project'', VInt 1), (''entity_type'', VInt 0), (''entity_id'', VInt 31), (''color'', VStr ''red'')] demo_db)
     = Inl KeyError"
  by code_simp

text \<open>Witnesses that need the two projects: user 3 links two schedules of project 2, and lists it.\<close>

theorem dependency_writes_authorised_witness:
  "\<exists>f t. may_link (demo_request_of 3) f t two_projects"
proof -
  obtain r s' where run: "dependency_create (demo_request_of 3) 9 (Some (VInt 6)) (Some (VInt 7)) two_projects = (r, s')"
    by (cases "dependency_create (demo_request_of 3) 9 (Some (VInt 6)) (Some (VInt 7)) two_projects")
  have "length (dependencies (snd (dependency_create (demo_request_of 3) 9 (Some (VInt 6)) (Some (VInt 7)) two_projects)))
      = 3" by code_simp
  moreover have "length (dependencies two_projects) = 2" by code_simp
  ultimately have "s' \<noteq> two_projects" using run by auto
  then show ?thesis
    using dependency_writes_authorised[THEN conjunct1, rule_format, OF run] by blast
qed

theorem reads_authorised_witness:
  "\<exists>d \<in> set (dependencies two_projects). d_id d = 1 \<and> may_see (demo_request_of 3) d two_projects"
proof -
  obtain r s' where run: "dependency_list (demo_request_of 3) two_projects = (r, s')"
    by (cases "dependency_list (demo_request_of 3) two_projects")
  have "fst (dependency_list (demo_request_of 3) two_projects) = Inr (Ok (dependencies two_projects))"
    by code_simp
  then have "r = Inr (Ok (dependencies two_projects))" using run by simp
  then have "\<forall>d \<in> set (dependencies two_projects). may_see (demo_request_of 3) d two_projects"
    using reads_authorised[THEN conjunct1, rule_format, OF run] by blast
  moreover have "\<exists>d \<in> set (dependencies two_projects). d_id d = 1" by code_simp
  ultimately show ?thesis by blast
qed

end
