(* ===== verification/Board.thy ===== *)
theory Board
  imports Prelude
begin

text \<open>
  Opening and closing of user stories and milestones: the calculations of
  \<open>userstories/services.py\<close> and \<open>milestones/services.py\<close>, and the signal handlers of user
  stories, tasks, issues and statuses that keep the stored flags up to date when an item is
  saved or deleted. A saved model instance is a value of \<open>object\<close>: the columns in memory, and
  the attributes \<open>prev\<close> and \<open>_importing\<close> the handlers use. Columns no handler reads (texts,
  tags, modification dates, points) are left out.
\<close>

section \<open>Rows and instances\<close>

record story =
  st_id :: int
  st_project_id :: int
  st_milestone_id :: "int option"
  st_status_id :: "int option"
  st_swimlane_id :: "int option"
  st_is_closed :: bool
  st_finish_date :: "int option"
  st_backlog_order :: int
  st_sprint_order :: int
  st_kanban_order :: int

record btask =
  tk_id :: int
  tk_project_id :: int
  tk_user_story_id :: "int option"
  tk_milestone_id :: "int option"
  tk_status_id :: "int option"
  tk_finished_date :: "int option"
  tk_us_order :: int
  tk_taskboard_order :: int

record issue =
  is_id :: int
  is_project_id :: int
  is_milestone_id :: "int option"
  is_status_id :: "int option"
  is_finished_date :: "int option"

record milestone =
  ms_id :: int
  ms_project_id :: int
  ms_closed :: bool

text \<open>The columns of the three tables of statuses that matter here: id and \<open>is_closed\<close>.\<close>

type_synonym statuses = "(int \<times> bool) list"

record project_defaults =
  default_us_status :: "int option"
  default_task_status :: "int option"
  default_issue_status :: "int option"

text \<open>
  The stored state, with the clock, the calls of \<open>take_snapshot\<close> and the realtime events
  (content type, ids, project) so far.
\<close>

record board =
  stories :: "story list"
  btasks :: "btask list"
  issues :: "issue list"
  milestones :: "milestone list"
  us_statuses :: statuses
  task_statuses :: statuses
  issue_statuses :: statuses
  defaults :: "int \<Rightarrow> project_defaults"
  now :: int
  snapshots :: "(string \<times> int) list"
  sent :: "(string \<times> int list \<times> int) list"

record 'row object =
  row :: 'row
  prev :: "'row option"
  importing :: bool

datatype save_fields = All_Fields | Update_Fields

definition find_story :: "int \<Rightarrow> board \<Rightarrow> story option" where
  "find_story i b = find (\<lambda>r. st_id r = i) (stories b)"

definition find_milestone :: "int \<Rightarrow> board \<Rightarrow> milestone option" where
  "find_milestone i b = find (\<lambda>r. ms_id r = i) (milestones b)"

definition find_btask :: "int \<Rightarrow> board \<Rightarrow> btask option" where
  "find_btask i b = find (\<lambda>r. tk_id r = i) (btasks b)"

definition find_issue :: "int \<Rightarrow> board \<Rightarrow> issue option" where
  "find_issue i b = find (\<lambda>r. is_id r = i) (issues b)"

text \<open>Following a foreign key, or \<open>get\<close>, on a row that is gone raises \<open>DoesNotExist\<close>.\<close>

definition get_row :: "(board \<Rightarrow> 'row option) \<Rightarrow> (board, 'row) qry" where
  "get_row q = (\<lambda>b. case q b of None \<Rightarrow> Inl DoesNotExist | Some r \<Rightarrow> Inr r)"

definition loaded :: "'row \<Rightarrow> 'row object" where
  "loaded r = \<lparr>row = r, prev = None, importing = False\<rparr>"

definition update_rows :: "('row \<Rightarrow> int) \<Rightarrow> int \<Rightarrow> ('row \<Rightarrow> 'row) \<Rightarrow> 'row list \<Rightarrow> 'row list" where
  "update_rows key i f = map (\<lambda>r. if key r = i then f r else r)"

section \<open>The calculations\<close>

definition status_is_closed :: "statuses \<Rightarrow> int option \<Rightarrow> bool" where
  "status_is_closed rows status = (case status of None \<Rightarrow> False | Some i \<Rightarrow> map_of rows i = Some True)"

definition task_is_closed :: "btask \<Rightarrow> board \<Rightarrow> bool" where
  "task_is_closed t b = status_is_closed (task_statuses b) (tk_status_id t)"

definition issue_is_closed :: "issue \<Rightarrow> board \<Rightarrow> bool" where
  "issue_is_closed i b = status_is_closed (issue_statuses b) (is_status_id i)"

definition tasks_of_story :: "int \<Rightarrow> board \<Rightarrow> btask list" where
  "tasks_of_story i b = filter (\<lambda>t. tk_user_story_id t = Some i) (btasks b)"

definition calculate_userstory_is_closed :: "story \<Rightarrow> board \<Rightarrow> bool" where
  "calculate_userstory_is_closed us b =
     (if st_status_id us = None then False
      else if tasks_of_story (st_id us) b = [] then status_is_closed (us_statuses b) (st_status_id us)
      else list_all (\<lambda>t. task_is_closed t b) (tasks_of_story (st_id us) b))"

definition stories_of_milestone :: "int \<Rightarrow> board \<Rightarrow> story list" where
  "stories_of_milestone m b = filter (\<lambda>r. st_milestone_id r = Some m) (stories b)"

definition lone_tasks_of_milestone :: "int \<Rightarrow> board \<Rightarrow> btask list" where
  "lone_tasks_of_milestone m b = filter (\<lambda>t. tk_milestone_id t = Some m \<and> tk_user_story_id t = None) (btasks b)"

definition issues_of_milestone :: "int \<Rightarrow> board \<Rightarrow> issue list" where
  "issues_of_milestone m b = filter (\<lambda>r. is_milestone_id r = Some m) (issues b)"

definition calculate_milestone_is_closed :: "int \<Rightarrow> board \<Rightarrow> bool" where
  "calculate_milestone_is_closed m b =
     (let all_us_closed = list_all st_is_closed (stories_of_milestone m b);
          all_tasks_closed = list_all (\<lambda>t. task_is_closed t b) (lone_tasks_of_milestone m b);
          all_issues_closed = list_all (\<lambda>i. issue_is_closed i b) (issues_of_milestone m b);
          uss_check = length (stories_of_milestone m b) > 0
            \<and> all_tasks_closed \<and> all_us_closed \<and> all_issues_closed;
          tasks_check = length (lone_tasks_of_milestone m b) > 0
            \<and> all_tasks_closed \<and> all_issues_closed \<and> all_us_closed;
          issues_check = length (issues_of_milestone m b) > 0
            \<and> all_issues_closed \<and> all_tasks_closed \<and> all_us_closed
      in uss_check \<or> issues_check \<or> tasks_check)"

section \<open>Milestones\<close>

definition close_milestone :: "int \<Rightarrow> board \<Rightarrow> board" where
  "close_milestone m b =
     b\<lparr>milestones := update_rows ms_id m (\<lambda>r. if \<not> ms_closed r then r\<lparr>ms_closed := True\<rparr> else r) (milestones b)\<rparr>"

definition open_milestone :: "int \<Rightarrow> board \<Rightarrow> board" where
  "open_milestone m b =
     b\<lparr>milestones := update_rows ms_id m (\<lambda>r. if ms_closed r then r\<lparr>ms_closed := False\<rparr> else r) (milestones b)\<rparr>"

text \<open>
  \<open>_recalculate_is_closed_for_milestone\<close>, which the handlers repeat. The milestone object is read
  when the handler follows the key; an object read before has the flag the database had
  then, and writing or not writing it comes out the same, as both follow one calculation.
\<close>

definition recalculate_is_closed_for_milestone :: "int \<Rightarrow> (board, unit) eff" where
  "recalculate_is_closed_for_milestone m =
     bindE (liftE (get_row (find_milestone m))) (\<lambda>_ b.
       (Inr (), if calculate_milestone_is_closed m b then close_milestone m b else open_milestone m b))"

text \<open>The second half of every handler: the milestone of the instance, and the one it left.\<close>

definition try_to_close_or_open_milestones :: "int option \<Rightarrow> int option \<Rightarrow> (board, unit) eff" where
  "try_to_close_or_open_milestones milestone_id prev_milestone_id =
     bindE (case milestone_id of None \<Rightarrow> retE () | Some m \<Rightarrow> recalculate_is_closed_for_milestone m) (\<lambda>_.
     case prev_milestone_id of None \<Rightarrow> retE ()
     | Some m \<Rightarrow> if prev_milestone_id \<noteq> milestone_id then recalculate_is_closed_for_milestone m else retE ())"

text \<open>After a deletion a milestone is only closed, never opened; a missing one is ignored.\<close>

definition try_to_close_milestone :: "int option \<Rightarrow> (board, unit) eff" where
  "try_to_close_milestone milestone_id = (case milestone_id of None \<Rightarrow> retE ()
     | Some m \<Rightarrow> (\<lambda>b. (Inr (), if find_milestone m b \<noteq> None \<and> calculate_milestone_is_closed m b
                             then close_milestone m b else b)))"

section \<open>Saving user stories\<close>

definition set_story :: "save_fields \<Rightarrow> story \<Rightarrow> story \<Rightarrow> story" where
  "set_story which new old = (case which of All_Fields \<Rightarrow> new
     | Update_Fields \<Rightarrow> old\<lparr>st_is_closed := st_is_closed new, st_finish_date := st_finish_date new\<rparr>)"

definition write_story :: "save_fields \<Rightarrow> story \<Rightarrow> board \<Rightarrow> board" where
  "write_story which new b = b\<lparr>stories := update_rows st_id (st_id new) (set_story which new) (stories b)\<rparr>"

type_synonym story_save = "story object \<Rightarrow> (board, story object) eff"

text \<open>\<open>close_userstory\<close> and \<open>open_userstory\<close> return the instance they changed, and their result;
  their argument is the \<open>us.save(update_fields=...)\<close> they call.\<close>

definition close_userstory :: "story_save \<Rightarrow> story object \<Rightarrow> (board, story object \<times> bool) eff" where
  "close_userstory save us =
     (if \<not> st_is_closed (row us) then (\<lambda>b.
        bindE (save (us\<lparr>row := (row us)\<lparr>st_is_closed := True, st_finish_date := Some (now b)\<rparr>\<rparr>))
          (\<lambda>us. retE (us, True)) b)
      else retE (us, False))"

definition open_userstory :: "story_save \<Rightarrow> story object \<Rightarrow> (board, story object \<times> bool) eff" where
  "open_userstory save us =
     (if st_is_closed (row us) then
        bindE (save (us\<lparr>row := (row us)\<lparr>st_is_closed := False, st_finish_date := None\<rparr>\<rparr>))
          (\<lambda>us. retE (us, True))
      else retE (us, False))"

definition close_or_open_userstory :: "story_save \<Rightarrow> story object \<Rightarrow> (board, story object \<times> bool) eff" where
  "close_or_open_userstory save us =
     (\<lambda>b. if calculate_userstory_is_closed (row us) b then close_userstory save us b else open_userstory save us b)"

text \<open>\<open>cached_prev_us\<close>, at \<open>pre_save\<close> of an instance that has an id.\<close>

definition cached_prev_us :: "story object \<Rightarrow> (board, story object) qry" where
  "cached_prev_us us = bindQ (get_row (find_story (st_id (row us)))) (\<lambda>r. retQ (us\<lparr>prev := Some r\<rparr>))"

text \<open>
  The tasks are a lazy query that excludes the milestone of the story; it is evaluated by the
  update, and again by the loop after it.
\<close>

definition tasks_elsewhere :: "story \<Rightarrow> board \<Rightarrow> btask list" where
  "tasks_elsewhere us b =
     filter (\<lambda>t. tk_user_story_id t = Some (st_id us) \<and> tk_milestone_id t \<noteq> st_milestone_id us) (btasks b)"

definition note_snapshot :: "string \<Rightarrow> int \<Rightarrow> board \<Rightarrow> board" where
  "note_snapshot typename i b = b\<lparr>snapshots := snapshots b @ [(typename, i)]\<rparr>"

definition update_milestone_of_tasks_when_edit_us :: "bool \<Rightarrow> story object \<Rightarrow> board \<Rightarrow> board" where
  "update_milestone_of_tasks_when_edit_us created us b =
     (if created then b
      else let moved = map tk_id (tasks_elsewhere (row us) b);
               b = b\<lparr>btasks := map (\<lambda>t. if tk_id t \<in> set moved
                     then t\<lparr>tk_milestone_id := st_milestone_id (row us)\<rparr> else t) (btasks b)\<rparr>
           in fold (\<lambda>t. note_snapshot ''tasks.task'' (tk_id t)) (tasks_elsewhere (row us) b) b)"

definition try_to_close_or_open_us_and_milestone_when_create_or_edit_us ::
    "story_save \<Rightarrow> story object \<Rightarrow> (board, story object) eff" where
  "try_to_close_or_open_us_and_milestone_when_create_or_edit_us save us =
     (if importing us then retE us
      else bindE (close_or_open_userstory save us) (\<lambda>(us, _).
           bindE (try_to_close_or_open_milestones (st_milestone_id (row us))
                   (case prev us of None \<Rightarrow> None | Some r \<Rightarrow> st_milestone_id r)) (\<lambda>_.
           retE us)))"

text \<open>
  The \<open>post_save\<close> handlers that \<open>userstories/apps.py\<close> connects, in its order. Other applications
  connect handlers to the same signal; those of the schedule (\<open>schedule/signals.py:
  _userstory_post_save\<close>) run after these, at every save, nested ones included. They read and
  write no column of this state, their model is \<open>userstory_post_save\<close> of the schedule theories.
  They can raise, and then the rest of the save, and of the saves around it, does not happen:
  the definitions here are the saves in which the handlers of the other applications return.
\<close>

definition userstory_save_handlers :: "story_save \<Rightarrow> bool \<Rightarrow> story object \<Rightarrow> (board, story object) eff" where
  "userstory_save_handlers save created us =
     (\<lambda>b. try_to_close_or_open_us_and_milestone_when_create_or_edit_us save us
            (update_milestone_of_tasks_when_edit_us created us b))"

definition with_default_us_status :: "story object \<Rightarrow> board \<Rightarrow> story object" where
  "with_default_us_status us b = (if st_status_id (row us) = None
     then us\<lparr>row := (row us)\<lparr>st_status_id := default_us_status (defaults b (st_project_id (row us)))\<rparr>\<rparr> else us)"

text \<open>
  \<open>UserStory.save\<close> of a stored story, with these handlers of \<open>userstories/apps.py\<close>. The handlers
  save the story again; the first argument bounds these nested saves, at the bound Python
  raises \<open>RecursionError\<close>.
\<close>

fun save_userstory :: "nat \<Rightarrow> save_fields \<Rightarrow> story_save" where
  "save_userstory 0 which us = raiseE RecursionError"
| "save_userstory (Suc depth) which us = (\<lambda>b.
     bindE (liftE (cached_prev_us (with_default_us_status us b))) (\<lambda>us b.
       userstory_save_handlers (save_userstory depth Update_Fields) False us (write_story which (row us) b)) b)"

definition create_userstory :: "nat \<Rightarrow> story_save" where
  "create_userstory depth us = (\<lambda>b.
     let us = with_default_us_status us b;
         us = us\<lparr>row := (row us)\<lparr>st_id := Max (insert 0 (set (map st_id (stories b)))) + 1\<rparr>, prev := None\<rparr> in
     userstory_save_handlers (save_userstory depth Update_Fields) True us (b\<lparr>stories := stories b @ [row us]\<rparr>))"

text \<open>Deleting a story deletes its tasks; the handlers of tasks are disconnected meanwhile.\<close>

definition delete_userstory :: "story object \<Rightarrow> (board, unit) eff" where
  "delete_userstory us = (\<lambda>b.
     let b = b\<lparr>stories := filter (\<lambda>r. st_id r \<noteq> st_id (row us)) (stories b),
               btasks := filter (\<lambda>t. tk_user_story_id t \<noteq> Some (st_id (row us))) (btasks b)\<rparr> in
     if importing us then retE () b else try_to_close_milestone (st_milestone_id (row us)) b)"

definition recalculate_is_closed_for_userstory_and_its_milestone :: "nat \<Rightarrow> story object \<Rightarrow> (board, unit) eff" where
  "recalculate_is_closed_for_userstory_and_its_milestone depth us =
     bindE (close_or_open_userstory (save_userstory depth Update_Fields) us) (\<lambda>(us, has_changed).
     case st_milestone_id (row us) of
       Some m \<Rightarrow> if has_changed then recalculate_is_closed_for_milestone m else retE ()
     | None \<Rightarrow> retE ())"

section \<open>Saving tasks\<close>

text \<open>The handlers of tasks and statuses load a story and close or open it.\<close>

definition close_or_open_loaded_userstory :: "nat \<Rightarrow> story \<Rightarrow> (board, unit) eff" where
  "close_or_open_loaded_userstory depth r =
     bindE (close_or_open_userstory (save_userstory depth Update_Fields) (loaded r)) (\<lambda>_. retE ())"

definition close_or_open_stored_userstory :: "nat \<Rightarrow> int \<Rightarrow> (board, unit) eff" where
  "close_or_open_stored_userstory depth i =
     bindE (liftE (get_row (find_story i))) (close_or_open_loaded_userstory depth)"

definition set_finished_date_when_edit_task :: "btask \<Rightarrow> board \<Rightarrow> btask" where
  "set_finished_date_when_edit_task t b =
     (if tk_status_id t = None then t
      else if task_is_closed t b \<and> tk_finished_date t = None then t\<lparr>tk_finished_date := Some (now b)\<rparr>
      else if \<not> task_is_closed t b \<and> tk_finished_date t \<noteq> None then t\<lparr>tk_finished_date := None\<rparr>
      else t)"

definition try_to_close_or_open_us_when_create_or_edit_task :: "nat \<Rightarrow> btask object \<Rightarrow> (board, unit) eff" where
  "try_to_close_or_open_us_when_create_or_edit_task depth t =
     bindE (case tk_user_story_id (row t) of None \<Rightarrow> retE ()
       | Some i \<Rightarrow> close_or_open_stored_userstory depth i) (\<lambda>_.
     case prev t of None \<Rightarrow> retE ()
     | Some r \<Rightarrow> (case tk_user_story_id r of None \<Rightarrow> retE ()
        | Some i \<Rightarrow> if tk_user_story_id r \<noteq> tk_user_story_id (row t)
                    then close_or_open_stored_userstory depth i else retE ()))"

definition task_post_save_handlers :: "nat \<Rightarrow> btask object \<Rightarrow> (board, unit) eff" where
  "task_post_save_handlers depth t =
     bindE (try_to_close_or_open_us_when_create_or_edit_task depth t) (\<lambda>_.
     try_to_close_or_open_milestones (tk_milestone_id (row t))
       (case prev t of None \<Rightarrow> None | Some r \<Rightarrow> tk_milestone_id r))"

definition with_default_task_status :: "btask \<Rightarrow> board \<Rightarrow> btask" where
  "with_default_task_status t b = (if tk_status_id t = None
     then t\<lparr>tk_status_id := default_task_status (defaults b (tk_project_id t))\<rparr> else t)"

definition save_btask :: "nat \<Rightarrow> btask \<Rightarrow> (board, unit) eff" where
  "save_btask depth t = (\<lambda>b.
     let t = set_finished_date_when_edit_task (with_default_task_status t b) b in
     bindE (liftE (get_row (find_btask (tk_id t)))) (\<lambda>r b.
       task_post_save_handlers depth \<lparr>row = t, prev = Some r, importing = False\<rparr>
         (b\<lparr>btasks := update_rows tk_id (tk_id t) (\<lambda>_. t) (btasks b)\<rparr>)) b)"

definition create_btask :: "nat \<Rightarrow> btask \<Rightarrow> (board, unit) eff" where
  "create_btask depth t = (\<lambda>b.
     let t = set_finished_date_when_edit_task (with_default_task_status t b) b;
         t = t\<lparr>tk_id := Max (insert 0 (set (map tk_id (btasks b)))) + 1\<rparr> in
     task_post_save_handlers depth (loaded t) (b\<lparr>btasks := btasks b @ [t]\<rparr>))"

text \<open>The handler of a deletion ignores a story or milestone that no longer exists.\<close>

definition delete_btask :: "nat \<Rightarrow> btask \<Rightarrow> (board, unit) eff" where
  "delete_btask depth t = (\<lambda>b.
     bindE (case tk_user_story_id t of None \<Rightarrow> retE ()
       | Some i \<Rightarrow> handleE (close_or_open_stored_userstory depth i)
                    (\<lambda>e. if e = DoesNotExist then Some (retE ()) else None)) (\<lambda>_.
     try_to_close_milestone (tk_milestone_id t)) (b\<lparr>btasks := filter (\<lambda>r. tk_id r \<noteq> tk_id t) (btasks b)\<rparr>))"

section \<open>Saving issues\<close>

definition set_finished_date_when_edit_issue :: "issue \<Rightarrow> board \<Rightarrow> issue" where
  "set_finished_date_when_edit_issue i b =
     (if is_status_id i = None then i
      else if issue_is_closed i b \<and> is_finished_date i = None then i\<lparr>is_finished_date := Some (now b)\<rparr>
      else if \<not> issue_is_closed i b \<and> is_finished_date i \<noteq> None then i\<lparr>is_finished_date := None\<rparr>
      else i)"

definition with_default_issue_status :: "issue \<Rightarrow> board \<Rightarrow> issue" where
  "with_default_issue_status i b = (if is_status_id i = None
     then i\<lparr>is_status_id := default_issue_status (defaults b (is_project_id i))\<rparr> else i)"

definition try_to_close_or_open_milestone_when_create_or_edit_issue :: "issue object \<Rightarrow> (board, unit) eff" where
  "try_to_close_or_open_milestone_when_create_or_edit_issue i =
     (if importing i then retE ()
      else try_to_close_or_open_milestones (is_milestone_id (row i))
             (case prev i of None \<Rightarrow> None | Some r \<Rightarrow> is_milestone_id r))"

definition save_issue :: "issue object \<Rightarrow> (board, unit) eff" where
  "save_issue i = (\<lambda>b.
     bindE (liftE (get_row (find_issue (is_id (row i))))) (\<lambda>r b.
       let new = set_finished_date_when_edit_issue (with_default_issue_status (row i) b) b in
       try_to_close_or_open_milestone_when_create_or_edit_issue (i\<lparr>row := new, prev := Some r\<rparr>)
         (b\<lparr>issues := update_rows is_id (is_id new) (\<lambda>_. new) (issues b)\<rparr>)) b)"

definition create_issue :: "issue object \<Rightarrow> (board, unit) eff" where
  "create_issue i = (\<lambda>b.
     let new = set_finished_date_when_edit_issue (with_default_issue_status (row i) b) b;
         new = new\<lparr>is_id := Max (insert 0 (set (map is_id (issues b)))) + 1\<rparr> in
     try_to_close_or_open_milestone_when_create_or_edit_issue (i\<lparr>row := new, prev := None\<rparr>)
       (b\<lparr>issues := issues b @ [new]\<rparr>))"

definition delete_issue :: "issue object \<Rightarrow> (board, unit) eff" where
  "delete_issue i = (\<lambda>b.
     let b = b\<lparr>issues := filter (\<lambda>r. is_id r \<noteq> is_id (row i)) (issues b)\<rparr> in
     if importing i then retE () b else try_to_close_milestone (is_milestone_id (row i)) b)"

section \<open>Editing a status\<close>

definition set_status :: "int \<Rightarrow> bool \<Rightarrow> statuses \<Rightarrow> statuses" where
  "set_status i closed = map (\<lambda>(j, c). if j = i then (j, closed) else (j, c))"

definition try_to_close_or_open_user_stories_when_edit_us_status :: "nat \<Rightarrow> int \<Rightarrow> (board, unit) eff" where
  "try_to_close_or_open_user_stories_when_edit_us_status depth status = (\<lambda>b.
     forE (filter (\<lambda>r. st_status_id r = Some status) (stories b)) (close_or_open_loaded_userstory depth) b)"

definition save_us_status :: "nat \<Rightarrow> int \<Rightarrow> bool \<Rightarrow> (board, unit) eff" where
  "save_us_status depth status closed = (\<lambda>b.
     try_to_close_or_open_user_stories_when_edit_us_status depth status
       (b\<lparr>us_statuses := set_status status closed (us_statuses b)\<rparr>))"

definition try_to_close_or_open_user_stories_when_edit_task_status :: "nat \<Rightarrow> int \<Rightarrow> (board, unit) eff" where
  "try_to_close_or_open_user_stories_when_edit_task_status depth status = (\<lambda>b.
     forE (filter (\<lambda>r. list_ex (\<lambda>t. tk_status_id t = Some status) (tasks_of_story (st_id r) b)) (stories b))
       (close_or_open_loaded_userstory depth) b)"

definition save_task_status :: "nat \<Rightarrow> int \<Rightarrow> bool \<Rightarrow> (board, unit) eff" where
  "save_task_status depth status closed = (\<lambda>b.
     try_to_close_or_open_user_stories_when_edit_task_status depth status
       (b\<lparr>task_statuses := set_status status closed (task_statuses b)\<rparr>))"

text \<open>Saving an issue status has no handler.\<close>

definition save_issue_status :: "int \<Rightarrow> bool \<Rightarrow> (board, unit) eff" where
  "save_issue_status status closed = (\<lambda>b.
     (Inr (), b\<lparr>issue_statuses := set_status status closed (issue_statuses b)\<rparr>))"

end
