(* ===== verification/Board_Facts.thy ===== *)
theory Board_Facts
  imports Board
begin

text \<open>
  Facts about opening and closing: what the calculations say, the states in which every
  stored flag is right, and how one story or milestone is brought up to date.
\<close>

section \<open>What the calculations depend on\<close>

definition task_flags :: "int \<Rightarrow> board \<Rightarrow> bool set" where
  "task_flags i b = {task_is_closed t b | t. t \<in> set (btasks b) \<and> tk_user_story_id t = Some i}"

definition contents :: "int \<Rightarrow> board \<Rightarrow> bool set" where
  "contents m b = {st_is_closed r | r. r \<in> set (stories b) \<and> st_milestone_id r = Some m}
     \<union> {task_is_closed t b | t. t \<in> set (btasks b) \<and> tk_milestone_id t = Some m \<and> tk_user_story_id t = None}
     \<union> {issue_is_closed i b | i. i \<in> set (issues b) \<and> is_milestone_id i = Some m}"

lemma all_true: "A = {True} \<longleftrightarrow> A \<noteq> {} \<and> (\<forall>x \<in> A. x)"
  by (cases "A = {}") auto

lemma calculate_userstory_iff:
  "calculate_userstory_is_closed us b \<longleftrightarrow> st_status_id us \<noteq> None \<and>
     (if task_flags (st_id us) b = {} then status_is_closed (us_statuses b) (st_status_id us)
      else task_flags (st_id us) b = {True})"
proof -
  have "task_flags (st_id us) b = (\<lambda>t. task_is_closed t b) ` set (tasks_of_story (st_id us) b)"
    by (auto simp: task_flags_def tasks_of_story_def)
  then show ?thesis
    by (cases "tasks_of_story (st_id us) b") (auto simp: calculate_userstory_is_closed_def list_all_iff)
qed

text \<open>A milestone is closed when it holds anything and everything in it is closed.\<close>

lemma calculate_milestone_iff: "calculate_milestone_is_closed m b \<longleftrightarrow> contents m b = {True}"
proof -
  have "contents m b = st_is_closed ` set (stories_of_milestone m b)
      \<union> (\<lambda>t. task_is_closed t b) ` set (lone_tasks_of_milestone m b)
      \<union> (\<lambda>i. issue_is_closed i b) ` set (issues_of_milestone m b)"
    by (auto simp: contents_def stories_of_milestone_def lone_tasks_of_milestone_def issues_of_milestone_def)
  then have "contents m b = {True} \<longleftrightarrow>
      (stories_of_milestone m b \<noteq> [] \<or> lone_tasks_of_milestone m b \<noteq> [] \<or> issues_of_milestone m b \<noteq> [])
      \<and> list_all st_is_closed (stories_of_milestone m b)
      \<and> list_all (\<lambda>t. task_is_closed t b) (lone_tasks_of_milestone m b)
      \<and> list_all (\<lambda>i. issue_is_closed i b) (issues_of_milestone m b)"
    unfolding all_true by (simp add: list_all_iff ball_Un conj_assoc)
  then show ?thesis
    unfolding calculate_milestone_is_closed_def Let_def length_greater_0_conv by argo
qed

lemma calculate_userstory_cong:
  "st_id us = st_id us' \<Longrightarrow> st_status_id us = st_status_id us' \<Longrightarrow> us_statuses b = us_statuses b' \<Longrightarrow>
     task_flags (st_id us) b = task_flags (st_id us) b' \<Longrightarrow>
     calculate_userstory_is_closed us b = calculate_userstory_is_closed us' b'"
  by (simp add: calculate_userstory_iff)

lemma calculate_milestone_cong:
  "contents m b = contents m b' \<Longrightarrow> calculate_milestone_is_closed m b = calculate_milestone_is_closed m b'"
  by (simp add: calculate_milestone_iff)

section \<open>Well-formed boards, and boards whose flags are right\<close>

definition board_wf :: "board \<Rightarrow> bool" where
  "board_wf b \<longleftrightarrow> distinct (map st_id (stories b)) \<and> distinct (map tk_id (btasks b))
     \<and> distinct (map is_id (issues b)) \<and> distinct (map ms_id (milestones b))
     \<and> (\<forall>r \<in> set (stories b). \<forall>m. st_milestone_id r = Some m \<longrightarrow> m \<in> ms_id ` set (milestones b))
     \<and> (\<forall>t \<in> set (btasks b). \<forall>m. tk_milestone_id t = Some m \<longrightarrow> m \<in> ms_id ` set (milestones b))
     \<and> (\<forall>t \<in> set (btasks b). \<forall>i. tk_user_story_id t = Some i \<longrightarrow> i \<in> st_id ` set (stories b))
     \<and> (\<forall>r \<in> set (issues b). \<forall>m. is_milestone_id r = Some m \<longrightarrow> m \<in> ms_id ` set (milestones b))"

text \<open>
  The flags are right, the exceptions being the stories in \<open>X\<close> and the milestones in \<open>Y\<close>. An
  empty milestone may be open or closed: emptying a closed one does not open it.
\<close>

definition stories_right :: "int set \<Rightarrow> board \<Rightarrow> bool" where
  "stories_right X b \<longleftrightarrow> (\<forall>r \<in> set (stories b). st_id r \<notin> X \<longrightarrow> st_is_closed r = calculate_userstory_is_closed r b)"

definition milestones_right :: "int set \<Rightarrow> board \<Rightarrow> bool" where
  "milestones_right Y b \<longleftrightarrow> (\<forall>m \<in> set (milestones b). ms_id m \<notin> Y \<longrightarrow> contents (ms_id m) b \<noteq> {} \<longrightarrow>
     ms_closed m = calculate_milestone_is_closed (ms_id m) b)"

lemma stories_right_mono: "stories_right X b \<Longrightarrow> X \<subseteq> X' \<Longrightarrow> stories_right X' b"
  by (auto simp: stories_right_def)

lemma milestones_right_mono: "milestones_right Y b \<Longrightarrow> Y \<subseteq> Y' \<Longrightarrow> milestones_right Y' b"
  by (auto simp: milestones_right_def)

lemma find_key: "i \<in> key ` set rs \<Longrightarrow> \<exists>r. find (\<lambda>r. key r = i) rs = Some r"
  by (induction rs) auto

lemma find_storyD: "find_story i b = Some r \<Longrightarrow> r \<in> set (stories b) \<and> st_id r = i"
  by (auto simp: find_story_def find_Some_iff)

lemma find_story_mem: "i \<in> st_id ` set (stories b) \<Longrightarrow> \<exists>r. find_story i b = Some r"
  unfolding find_story_def by (rule find_key)

lemma find_milestone_mem: "m \<in> ms_id ` set (milestones b) \<Longrightarrow> \<exists>r. find_milestone m b = Some r"
  unfolding find_milestone_def by (rule find_key)

lemma find_story_eq: "distinct (map st_id (stories b)) \<Longrightarrow> r \<in> set (stories b) \<Longrightarrow> find_story (st_id r) b = Some r"
proof -
  assume d: "distinct (map st_id (stories b))" and r: "r \<in> set (stories b)"
  obtain r' where f: "find_story (st_id r) b = Some r'" using find_story_mem r by blast
  then show ?thesis using find_storyD[OF f] d r by (metis distinct_map inj_onD)
qed

lemma find_task_mem: "i \<in> tk_id ` set (btasks b) \<Longrightarrow> \<exists>r. find_btask i b = Some r"
  unfolding find_btask_def by (rule find_key)

lemma find_taskD: "find_btask i b = Some r \<Longrightarrow> r \<in> set (btasks b) \<and> tk_id r = i"
  by (auto simp: find_btask_def find_Some_iff)

lemma find_issue_mem: "i \<in> is_id ` set (issues b) \<Longrightarrow> \<exists>r. find_issue i b = Some r"
  unfolding find_issue_def by (rule find_key)

lemma find_issueD: "find_issue i b = Some r \<Longrightarrow> r \<in> set (issues b) \<and> is_id r = i"
  by (auto simp: find_issue_def find_Some_iff)

lemma map_key_update_rows: "(\<And>r. key r = i \<Longrightarrow> key (f r) = i) \<Longrightarrow> map key (update_rows key i f rs) = map key rs"
  by (induction rs) (auto simp: update_rows_def)

lemma key_update_rows: "(\<And>r. key r = i \<Longrightarrow> key (f r) = i) \<Longrightarrow> key ` set (update_rows key i f rs) = key ` set rs"
  by (metis list.set_map map_key_update_rows)

lemma set_update_rows: "set (update_rows key i f rs) = (\<lambda>r. if key r = i then f r else r) ` set rs"
  by (simp add: update_rows_def)

section \<open>Recalculating a milestone\<close>

definition recalculated :: "int \<Rightarrow> board \<Rightarrow> board" where
  "recalculated m b = (if calculate_milestone_is_closed m b then close_milestone m b else open_milestone m b)"

lemma recalculated_eq:
  "recalculated m b =
     b\<lparr>milestones := update_rows ms_id m (\<lambda>r. r\<lparr>ms_closed := calculate_milestone_is_closed m b\<rparr>) (milestones b)\<rparr>"
proof -
  have set: "(\<lambda>r. if \<not> ms_closed r then r\<lparr>ms_closed := True\<rparr> else r) = (\<lambda>r :: milestone. r\<lparr>ms_closed := True\<rparr>)"
       "(\<lambda>r. if ms_closed r then r\<lparr>ms_closed := False\<rparr> else r) = (\<lambda>r :: milestone. r\<lparr>ms_closed := False\<rparr>)"
    by (rule ext, case_tac r, simp)+
  show ?thesis
    unfolding recalculated_def close_milestone_def open_milestone_def set by simp
qed

lemma recalculate_run:
  "m \<in> ms_id ` set (milestones b) \<Longrightarrow> recalculate_is_closed_for_milestone m b = (Inr (), recalculated m b)"
  using find_milestone_mem[of m b]
  by (auto simp: recalculate_is_closed_for_milestone_def bindE_lift get_row_def recalculated_def)

text \<open>What recalculating, closing and opening milestones leaves alone.\<close>

definition same_items :: "board \<Rightarrow> board \<Rightarrow> bool" where
  "same_items b b' \<longleftrightarrow> stories b' = stories b \<and> btasks b' = btasks b \<and> issues b' = issues b
     \<and> us_statuses b' = us_statuses b \<and> task_statuses b' = task_statuses b \<and> issue_statuses b' = issue_statuses b
     \<and> defaults b' = defaults b \<and> now b' = now b \<and> snapshots b' = snapshots b
     \<and> map ms_id (milestones b') = map ms_id (milestones b)"

interpretation same_items: effect_preorder same_items
  by unfold_locales (auto simp: same_items_def)

lemma same_items_calc:
  assumes "same_items b b'"
  shows "calculate_userstory_is_closed us b' = calculate_userstory_is_closed us b"
    and "calculate_milestone_is_closed m b' = calculate_milestone_is_closed m b"
    and "board_wf b' = board_wf b" and "stories_right X b' = stories_right X b"
    and "find_story i b' = find_story i b" and "contents m b' = contents m b"
proof -
  have ms: "ms_id ` set (milestones b') = ms_id ` set (milestones b)"
    using assms by (metis list.set_map same_items_def)
  have "task_flags i b' = task_flags i b" for i
    using assms by (simp add: same_items_def task_flags_def task_is_closed_def)
  then show c: "calculate_userstory_is_closed us b' = calculate_userstory_is_closed us b" for us
    using assms by (intro calculate_userstory_cong) (simp_all add: same_items_def)
  show "contents m b' = contents m b"
    using assms by (simp add: same_items_def contents_def task_is_closed_def issue_is_closed_def)
  then show "calculate_milestone_is_closed m b' = calculate_milestone_is_closed m b"
    by (rule calculate_milestone_cong)
  show "board_wf b' = board_wf b" using assms ms by (simp add: board_wf_def same_items_def)
  show "stories_right X b' = stories_right X b" using assms c by (simp add: stories_right_def same_items_def)
  show "find_story i b' = find_story i b" using assms by (simp add: find_story_def same_items_def)
qed

lemma recalculated_same: "same_items b (recalculated m b)"
  unfolding same_items_def recalculated_eq by (simp add: map_key_update_rows)

lemma recalculated_right:
  assumes "milestones_right Y b"
  shows "milestones_right (Y - {m}) (recalculated m b)"
  unfolding milestones_right_def same_items_calc(2,6)[OF recalculated_same]
  using assms by (auto simp: recalculated_eq set_update_rows milestones_right_def)

section \<open>Closing or opening one story\<close>

definition set_closed :: "bool \<Rightarrow> int \<Rightarrow> story \<Rightarrow> story" where
  "set_closed c t r = r\<lparr>st_is_closed := c, st_finish_date := if c then Some t else None\<rparr>"

lemma set_closed_sel [simp]:
  "st_id (set_closed c t r) = st_id r" "st_project_id (set_closed c t r) = st_project_id r"
  "st_milestone_id (set_closed c t r) = st_milestone_id r" "st_status_id (set_closed c t r) = st_status_id r"
  "st_swimlane_id (set_closed c t r) = st_swimlane_id r" "st_is_closed (set_closed c t r) = c"
  "st_kanban_order (set_closed c t r) = st_kanban_order r"
  by (simp_all add: set_closed_def)

text \<open>The tasks of a story follow its milestone; the loop over the lazy query finds nothing left.\<close>

definition follow_milestone :: "int \<Rightarrow> int option \<Rightarrow> board \<Rightarrow> board" where
  "follow_milestone i m b =
     b\<lparr>btasks := map (\<lambda>t. if tk_user_story_id t = Some i then t\<lparr>tk_milestone_id := m\<rparr> else t) (btasks b)\<rparr>"

lemma milestone_unchanged: "tk_milestone_id t = m \<Longrightarrow> t\<lparr>tk_milestone_id := m\<rparr> = (t :: btask)"
  by (cases t) simp

lemma update_milestone_of_tasks_eq:
  assumes "distinct (map tk_id (btasks b))"
  shows "update_milestone_of_tasks_when_edit_us False us b
       = follow_milestone (st_id (row us)) (st_milestone_id (row us)) b"
proof -
  have key: "tk_id t \<in> set (map tk_id (tasks_elsewhere (row us) b)) \<longleftrightarrow>
      tk_user_story_id t = Some (st_id (row us)) \<and> tk_milestone_id t \<noteq> st_milestone_id (row us)"
    if "t \<in> set (btasks b)" for t
    using assms that by (auto simp: tasks_elsewhere_def distinct_map dest: inj_onD)
  have eq: "map (\<lambda>t. if tk_id t \<in> set (map tk_id (tasks_elsewhere (row us) b))
        then t\<lparr>tk_milestone_id := st_milestone_id (row us)\<rparr> else t) (btasks b)
      = map (\<lambda>t. if tk_user_story_id t = Some (st_id (row us))
        then t\<lparr>tk_milestone_id := st_milestone_id (row us)\<rparr> else t) (btasks b)"
  proof (rule map_cong[OF HOL.refl])
    fix t assume "t \<in> set (btasks b)"
    then show "(if tk_id t \<in> set (map tk_id (tasks_elsewhere (row us) b))
        then t\<lparr>tk_milestone_id := st_milestone_id (row us)\<rparr> else t)
      = (if tk_user_story_id t = Some (st_id (row us)) then t\<lparr>tk_milestone_id := st_milestone_id (row us)\<rparr> else t)"
      by (simp only: key) (auto simp: milestone_unchanged)
  qed
  have "tasks_elsewhere (row us) (follow_milestone (st_id (row us)) (st_milestone_id (row us)) b) = []"
    by (auto simp: tasks_elsewhere_def follow_milestone_def filter_empty_conv)
  then show ?thesis
    unfolding update_milestone_of_tasks_when_edit_us_def Let_def eq
    by (simp add: follow_milestone_def)
qed

lemma follow_same [simp]:
  "stories (follow_milestone i m b) = stories b" "issues (follow_milestone i m b) = issues b"
  "milestones (follow_milestone i m b) = milestones b" "us_statuses (follow_milestone i m b) = us_statuses b"
  "task_statuses (follow_milestone i m b) = task_statuses b" "issue_statuses (follow_milestone i m b) = issue_statuses b"
  "defaults (follow_milestone i m b) = defaults b" "now (follow_milestone i m b) = now b"
  by (simp_all add: follow_milestone_def)

lemma compr_image:
  assumes "\<And>t. g (f t) = g t" and "\<And>t. P (f t) = P t"
  shows "{g t | t. t \<in> f ` S \<and> P t} = {g t | t. t \<in> S \<and> P t}"
proof (intro subset_antisym subsetI)
  fix y assume "y \<in> {g t | t. t \<in> f ` S \<and> P t}"
  then obtain x where "y = g (f x)" "x \<in> S" "P (f x)" by blast
  then show "y \<in> {g t | t. t \<in> S \<and> P t}" unfolding assms by blast
next
  fix y assume "y \<in> {g t | t. t \<in> S \<and> P t}"
  then obtain x where "y = g (f x)" "x \<in> S" "P (f x)" unfolding assms by blast
  then show "y \<in> {g t | t. t \<in> f ` S \<and> P t}" by blast
qed

lemma set_follow: "set (btasks (follow_milestone i m b))
    = (\<lambda>t. if tk_user_story_id t = Some i then t\<lparr>tk_milestone_id := m\<rparr> else t) ` set (btasks b)"
  by (simp add: follow_milestone_def)

lemma follow_flags [simp]: "task_flags j (follow_milestone i m b) = task_flags j b"
  unfolding task_flags_def set_follow task_is_closed_def follow_same by (rule compr_image) simp_all

lemma follow_contents [simp]: "contents n (follow_milestone i m b) = contents n b"
proof -
  have "{task_is_closed t (follow_milestone i m b) | t. t \<in> set (btasks (follow_milestone i m b))
      \<and> tk_milestone_id t = Some n \<and> tk_user_story_id t = None}
    = {task_is_closed t b | t. t \<in> set (btasks b) \<and> tk_milestone_id t = Some n \<and> tk_user_story_id t = None}"
    unfolding set_follow task_is_closed_def follow_same by (rule compr_image) auto
  then show ?thesis by (simp add: contents_def issue_is_closed_def)
qed

lemma follow_calc [simp]:
  "calculate_userstory_is_closed us (follow_milestone i m b) = calculate_userstory_is_closed us b"
  "calculate_milestone_is_closed n (follow_milestone i m b) = calculate_milestone_is_closed n b"
  by (simp_all add: calculate_userstory_iff calculate_milestone_iff)

lemma write_same [simp]:
  "btasks (write_story f r b) = btasks b" "issues (write_story f r b) = issues b"
  "milestones (write_story f r b) = milestones b" "us_statuses (write_story f r b) = us_statuses b"
  "task_statuses (write_story f r b) = task_statuses b" "issue_statuses (write_story f r b) = issue_statuses b"
  "defaults (write_story f r b) = defaults b" "now (write_story f r b) = now b"
  by (simp_all add: write_story_def)

lemma write_flags [simp]: "task_flags j (write_story f r b) = task_flags j b"
  by (simp add: task_flags_def task_is_closed_def)

lemma write_calc [simp]:
  "calculate_userstory_is_closed us (write_story f r b) = calculate_userstory_is_closed us b"
  by (simp add: calculate_userstory_iff)

lemma calculate_set_closed [simp]:
  "calculate_userstory_is_closed (set_closed c t r) b = calculate_userstory_is_closed r b"
  by (simp add: calculate_userstory_iff)

definition recalculated_opt :: "int option \<Rightarrow> board \<Rightarrow> board" where
  "recalculated_opt m b = (case m of None \<Rightarrow> b | Some m \<Rightarrow> recalculated m b)"

lemma recalculated_opt_same: "same_items b (recalculated_opt m b)"
  by (simp add: recalculated_opt_def recalculated_same same_items.refl split: option.split)

lemma recalculated_opt_right:
  "milestones_right Y b \<Longrightarrow> milestones_right (Y - set_option m) (recalculated_opt m b)"
  by (auto simp: recalculated_opt_def recalculated_right split: option.split)

lemma try_milestones_run:
  assumes "\<And>m. p = Some m \<or> q = Some m \<Longrightarrow> m \<in> ms_id ` set (milestones b)"
  shows "try_to_close_or_open_milestones p q b
       = (Inr (), recalculated_opt (if q \<noteq> p then q else None) (recalculated_opt p b))"
proof -
  have "ms_id ` set (milestones (recalculated_opt p b)) = ms_id ` set (milestones b)"
    using recalculated_opt_same[of b p] by (metis list.set_map same_items_def)
  then show ?thesis
    using assms
    by (auto simp: try_to_close_or_open_milestones_def recalculated_opt_def bindE_apply retE_apply recalculate_run
        split: option.split)
qed

text \<open>The board after a story was found to have the wrong flag, and after looking at one.\<close>

definition flipped :: "story \<Rightarrow> board \<Rightarrow> board" where
  "flipped r b = recalculated_opt (st_milestone_id r)
     (follow_milestone (st_id r) (st_milestone_id r)
       (write_story Update_Fields (set_closed (calculate_userstory_is_closed r b) (now b) r) b))"

definition settled :: "story \<Rightarrow> board \<Rightarrow> board" where
  "settled r b = (if st_is_closed r = calculate_userstory_is_closed r b then b else flipped r b)"

lemma default_status_unchanged:
  assumes "st_status_id (row us) = None \<Longrightarrow> default_us_status (defaults b (st_project_id (row us))) = None"
  shows "with_default_us_status us b = us"
proof (cases "st_status_id (row us)")
  case None
  have "(row us)\<lparr>st_status_id := None\<rparr> = row us" using None by (cases "row us") simp
  then show ?thesis using assms None by (simp add: with_default_us_status_def)
qed (simp add: with_default_us_status_def)

lemma close_or_open_run:
  assumes "distinct (map tk_id (btasks b))" and "find_story (st_id r) b = Some r0"
    and "st_milestone_id r0 = st_milestone_id r"
    and ms: "\<And>m. st_milestone_id r = Some m \<Longrightarrow> m \<in> ms_id ` set (milestones b)"
    and status: "st_status_id r = None \<Longrightarrow> st_is_closed r \<Longrightarrow> default_us_status (defaults b (st_project_id r)) = None"
    and us: "row us = r" "\<not> importing us"
  shows "close_or_open_userstory (save_userstory (Suc (Suc d)) Update_Fields) us b =
    (let c = calculate_userstory_is_closed r b in
     if st_is_closed r = c then (Inr (us, False), b)
     else (Inr (us\<lparr>row := set_closed c (now b) r, prev := Some r0\<rparr>, True), flipped r b))"
proof (cases "st_is_closed r = calculate_userstory_is_closed r b")
  case True
  then show ?thesis
    by (simp add: close_or_open_userstory_def close_userstory_def open_userstory_def us retE_apply)
next
  case False
  let ?c = "calculate_userstory_is_closed r b"
  let ?us = "us\<lparr>row := set_closed ?c (now b) r\<rparr>"
  let ?us' = "?us\<lparr>prev := Some r0\<rparr>"
  let ?b = "follow_milestone (st_id r) (st_milestone_id r) (write_story Update_Fields (set_closed ?c (now b) r) b)"
  have "st_status_id r = None \<Longrightarrow> st_is_closed r" using False by (simp add: calculate_userstory_iff)
  then have default: "with_default_us_status ?us b = ?us"
    using status by (intro default_status_unchanged) simp
  have prev: "cached_prev_us ?us b = Inr ?us'"
    by (simp add: cached_prev_us_def bindQ_apply get_row_def assms(2))
  have c: "calculate_userstory_is_closed (set_closed ?c (now b) r) ?b = ?c"
    by simp
  have again: "close_or_open_userstory save ?us' ?b = (Inr (?us', False), ?b)" for save
    using c by (simp add: close_or_open_userstory_def close_userstory_def open_userstory_def retE_apply)
  have ms': "try_to_close_or_open_milestones (st_milestone_id r) (st_milestone_id r0) ?b
      = (Inr (), recalculated_opt (st_milestone_id r) ?b)"
    using try_milestones_run[of "st_milestone_id r" "st_milestone_id r0" ?b] ms assms(3)
    by (simp add: recalculated_opt_def)
  have "save_userstory (Suc (Suc d)) Update_Fields ?us b = (Inr ?us', flipped r b)"
    using again ms' us(2) assms(1,3)
    by (simp add: default prev bindE_lift userstory_save_handlers_def update_milestone_of_tasks_eq
        try_to_close_or_open_us_and_milestone_when_create_or_edit_us_def bindE_apply retE_apply
        flipped_def recalculated_opt_def)
  then show ?thesis
    using False us(1)
    by (cases "calculate_userstory_is_closed r b")
      (simp_all add: close_or_open_userstory_def close_userstory_def open_userstory_def bindE_apply retE_apply
        set_closed_def)
qed

section \<open>What bringing a story up to date changes\<close>

text \<open>Only the flags and finish dates, and the milestones of the tasks of a story.\<close>

definition bare_story :: "story \<Rightarrow> story" where
  "bare_story r = r\<lparr>st_is_closed := False, st_finish_date := None\<rparr>"

definition bare_task :: "btask \<Rightarrow> btask" where
  "bare_task t = (if tk_user_story_id t = None then t else t\<lparr>tk_milestone_id := None\<rparr>)"

definition bare_milestone :: "milestone \<Rightarrow> milestone" where
  "bare_milestone m = m\<lparr>ms_closed := False\<rparr>"

lemma bare_sel [simp]:
  "st_id (bare_story r) = st_id r" "st_milestone_id (bare_story r) = st_milestone_id r"
  "st_status_id (bare_story r) = st_status_id r" "st_project_id (bare_story r) = st_project_id r"
  "tk_id (bare_task t) = tk_id t" "tk_user_story_id (bare_task t) = tk_user_story_id t"
  "tk_status_id (bare_task t) = tk_status_id t" "ms_id (bare_milestone m) = ms_id m"
  "bare_story (set_closed c n r) = bare_story r" "bare_milestone (m\<lparr>ms_closed := c\<rparr>) = bare_milestone m"
  "tk_user_story_id t = Some i \<Longrightarrow> bare_task (t\<lparr>tk_milestone_id := x\<rparr>) = bare_task t"
  by (simp_all add: bare_story_def bare_task_def bare_milestone_def set_closed_def)

definition flags_only :: "board \<Rightarrow> board \<Rightarrow> bool" where
  "flags_only b b' \<longleftrightarrow>
     map bare_story (stories b') = map bare_story (stories b)
   \<and> map bare_task (btasks b') = map bare_task (btasks b)
   \<and> map bare_milestone (milestones b') = map bare_milestone (milestones b)
   \<and> issues b' = issues b \<and> us_statuses b' = us_statuses b \<and> task_statuses b' = task_statuses b
   \<and> issue_statuses b' = issue_statuses b \<and> defaults b' = defaults b \<and> now b' = now b \<and> snapshots b' = snapshots b"

interpretation flags_only: effect_preorder flags_only
  by unfold_locales (auto simp: flags_only_def)

lemma flags_only_recalculated: "flags_only b (recalculated_opt m b)"
  by (cases m) (simp_all add: recalculated_opt_def recalculated_eq flags_only_def update_rows_def)

lemma follow_snapshots [simp]: "snapshots (follow_milestone i m b) = snapshots b"
  by (simp add: follow_milestone_def)

lemma write_snapshots [simp]: "snapshots (write_story f r b) = snapshots b"
  by (simp add: write_story_def)

lemma flags_only_follow: "flags_only b (follow_milestone i m b)"
proof -
  have "map bare_task (btasks (follow_milestone i m b)) = map bare_task (btasks b)"
    by (simp add: follow_milestone_def)
  then show ?thesis by (simp add: flags_only_def)
qed

lemma write_unique:
  assumes "distinct (map st_id (stories b))" and "find_story (st_id r) b = Some r"
  shows "stories (write_story Update_Fields (set_closed c t r) b)
       = map (\<lambda>q. if st_id q = st_id r then set_closed c t q else q) (stories b)"
    and "q \<in> set (stories b) \<Longrightarrow> st_id q = st_id r \<Longrightarrow> q = r"
proof -
  show "stories (write_story Update_Fields (set_closed c t r) b)
       = map (\<lambda>q. if st_id q = st_id r then set_closed c t q else q) (stories b)"
    by (simp add: write_story_def update_rows_def set_story_def set_closed_def)
  show "q \<in> set (stories b) \<Longrightarrow> st_id q = st_id r \<Longrightarrow> q = r"
    using find_story_eq[OF assms(1)] assms(2) option.inject by metis
qed

lemma flags_only_flipped:
  assumes "distinct (map st_id (stories b))" and "find_story (st_id r) b = Some r"
  shows "flags_only b (flipped r b)"
proof -
  have "map bare_story (stories (write_story Update_Fields (set_closed c t r) b)) = map bare_story (stories b)" for c t
    unfolding write_unique(1)[OF assms] by simp
  then have "flags_only b (write_story Update_Fields (set_closed c t r) b)" for c t
    by (simp add: flags_only_def)
  then show ?thesis
    unfolding flipped_def by (meson flags_only.trans flags_only_follow flags_only_recalculated)
qed

lemma map_bare:
  "map st_id (map bare_story rs) = map st_id rs" "map ms_id (map bare_milestone ms) = map ms_id ms"
  "map tk_id (map bare_task ts) = map tk_id ts"
  by simp_all

lemma flags_only_keys:
  assumes "flags_only b b'"
  shows "map st_id (stories b') = map st_id (stories b)" and "map ms_id (milestones b') = map ms_id (milestones b)"
    and "map tk_id (btasks b') = map tk_id (btasks b)"
  using assms map_bare by (metis flags_only_def)+

lemma flipped_stories:
  assumes "distinct (map st_id (stories b))" and "find_story (st_id r) b = Some r"
  shows "stories (flipped r b)
       = map (\<lambda>q. if st_id q = st_id r then set_closed (calculate_userstory_is_closed r b) (now b) q else q) (stories b)"
proof -
  have "stories (recalculated_opt m b') = stories b'" for m b'
    using recalculated_opt_same[of b' m] by (simp add: same_items_def)
  then show ?thesis by (simp add: flipped_def write_unique(1)[OF assms])
qed

lemma flipped_calc [simp]:
  "calculate_userstory_is_closed q (flipped r b) = calculate_userstory_is_closed q b"
  unfolding flipped_def same_items_calc(1)[OF recalculated_opt_same] by simp

lemma flipped_stories_right:
  assumes "distinct (map st_id (stories b))" and "find_story (st_id r) b = Some r" and "stories_right X b"
  shows "stories_right (X - {st_id r}) (flipped r b)"
  unfolding stories_right_def flipped_stories[OF assms(1,2)]
proof (intro ballI impI)
  fix q assume q: "q \<in> set (map (\<lambda>q. if st_id q = st_id r then set_closed (calculate_userstory_is_closed r b) (now b) q else q) (stories b))"
    and X: "st_id q \<notin> X - {st_id r}"
  then obtain q0 where q0: "q0 \<in> set (stories b)"
      "q = (if st_id q0 = st_id r then set_closed (calculate_userstory_is_closed r b) (now b) q0 else q0)" by auto
  show "st_is_closed q = calculate_userstory_is_closed q (flipped r b)"
  proof (cases "st_id q0 = st_id r")
    case True
    then have "q0 = r" using write_unique(2)[OF assms(1,2)] q0 by blast
    then show ?thesis using q0 by simp
  next
    case False
    then show ?thesis using q0 X assms(3) by (simp add: stories_right_def)
  qed
qed

lemma write_contents:
  assumes "distinct (map st_id (stories b))" and "find_story (st_id r) b = Some r" and "st_milestone_id r \<noteq> Some m"
  shows "contents m (write_story Update_Fields (set_closed c t r) b) = contents m b"
proof -
  let ?b = "write_story Update_Fields (set_closed c t r) b"
  have 1: "st_milestone_id q \<noteq> Some m" if "q \<in> set (stories b)" "st_id q = st_id r" for q
    using write_unique(2)[OF assms(1,2) that] assms(3) by simp
  have "q \<in> set (stories ?b) \<and> st_milestone_id q = Some m \<longleftrightarrow> q \<in> set (stories b) \<and> st_milestone_id q = Some m" for q
    unfolding write_unique(1)[OF assms(1,2)] using 1 by (fastforce split: if_splits)
  then show ?thesis by (simp add: contents_def task_is_closed_def issue_is_closed_def)
qed

lemma flipped_milestones_right:
  assumes "distinct (map st_id (stories b))" and "find_story (st_id r) b = Some r" and "milestones_right Y b"
  shows "milestones_right (Y - set_option (st_milestone_id r)) (flipped r b)"
proof -
  let ?b = "write_story Update_Fields (set_closed (calculate_userstory_is_closed r b) (now b) r) b"
  have "milestones_right (Y \<union> set_option (st_milestone_id r)) ?b"
    using assms(3) write_contents[OF assms(1,2)]
    by (auto simp: milestones_right_def calculate_milestone_iff)
  then have "milestones_right (Y \<union> set_option (st_milestone_id r)) (follow_milestone (st_id r) (st_milestone_id r) ?b)"
    by (simp add: milestones_right_def)
  from recalculated_opt_right[OF this, of "st_milestone_id r"] show ?thesis
    unfolding flipped_def by (rule milestones_right_mono) blast
qed

lemma settled_right:
  assumes "distinct (map st_id (stories b))" and "find_story (st_id r) b = Some r"
  shows "stories_right X b \<Longrightarrow> stories_right (X - {st_id r}) (settled r b)"
    and "milestones_right Y b \<Longrightarrow> milestones_right Y (settled r b)"
    and "flags_only b (settled r b)"
proof -
  show "stories_right (X - {st_id r}) (settled r b)" if X: "stories_right X b"
  proof (cases "st_is_closed r = calculate_userstory_is_closed r b")
    case True
    then show ?thesis
      using X write_unique(2)[OF assms] by (auto simp: settled_def stories_right_def)
  qed (use flipped_stories_right[OF assms X] in \<open>simp add: settled_def\<close>)
  show "milestones_right Y b \<Longrightarrow> milestones_right Y (settled r b)"
    using flipped_milestones_right[OF assms, of Y] milestones_right_mono by (auto simp: settled_def)
  show "flags_only b (settled r b)"
    using flags_only_flipped[OF assms] flags_only.refl by (simp add: settled_def)
qed

section \<open>Looking at a stored story\<close>

definition settled_id :: "int \<Rightarrow> board \<Rightarrow> board" where
  "settled_id i b = (case find_story i b of None \<Rightarrow> b | Some r \<Rightarrow> settled r b)"

definition statusless_open :: "board \<Rightarrow> bool" where
  "statusless_open b \<longleftrightarrow> (\<forall>r \<in> set (stories b). st_status_id r = None \<longrightarrow> \<not> st_is_closed r)"

lemma stories_right_statusless: "stories_right {} b \<Longrightarrow> statusless_open b"
  by (auto simp: stories_right_def statusless_open_def calculate_userstory_iff)

definition milestone_exists :: "board \<Rightarrow> int option \<Rightarrow> bool" where
  "milestone_exists b m \<longleftrightarrow> set_option m \<subseteq> ms_id ` set (milestones b)"

lemma flags_only_exists: "flags_only b b' \<Longrightarrow> milestone_exists b' m = milestone_exists b m"
  unfolding milestone_exists_def by (metis flags_only_keys(2) list.set_map)

lemma wf_flags_only:
  assumes "board_wf b" and "flags_only b b'"
    and "\<And>t m. t \<in> set (btasks b') \<Longrightarrow> tk_milestone_id t = Some m \<Longrightarrow> m \<in> ms_id ` set (milestones b)"
  shows "board_wf b'"
proof -
  note keys = flags_only_keys[OF assms(2)]
  have sets: "st_id ` set (stories b') = st_id ` set (stories b)" "ms_id ` set (milestones b') = ms_id ` set (milestones b)"
    using keys by (metis list.set_map)+
  have bare: "bare_story ` set (stories b') = bare_story ` set (stories b)" "bare_task ` set (btasks b') = bare_task ` set (btasks b)"
    using assms(2) unfolding flags_only_def by (metis list.set_map)+
  have 1: "\<exists>r' \<in> set (stories b). st_milestone_id r = st_milestone_id r'" if "r \<in> set (stories b')" for r
    using bare(1) that by (metis bare_sel(2) image_iff)
  have 2: "\<exists>t' \<in> set (btasks b). tk_user_story_id t = tk_user_story_id t'" if "t \<in> set (btasks b')" for t
    using bare(2) that by (metis bare_sel(6) image_iff)
  have 3: "st_milestone_id r = Some m \<Longrightarrow> m \<in> ms_id ` set (milestones b)" if "r \<in> set (stories b')" for r m
    using 1[OF that] assms(1) unfolding board_wf_def by metis
  have 4: "tk_user_story_id t = Some i \<Longrightarrow> i \<in> st_id ` set (stories b)" if "t \<in> set (btasks b')" for t i
    using 2[OF that] assms(1) unfolding board_wf_def by metis
  have 5: "issues b' = issues b" using assms(2) by (simp add: flags_only_def)
  show ?thesis
    using assms(1) unfolding board_wf_def keys sets 5 using 3 4 assms(3) by blast
qed

lemma flipped_wf:
  assumes "board_wf b" and "find_story (st_id r) b = Some r"
  shows "board_wf (flipped r b)"
proof (rule wf_flags_only[OF assms(1)])
  have d: "distinct (map st_id (stories b))" using assms(1) by (simp add: board_wf_def)
  show "flags_only b (flipped r b)" by (rule flags_only_flipped[OF d assms(2)])
  have tasks: "btasks (flipped r b) = btasks (follow_milestone (st_id r) (st_milestone_id r) b)"
    using recalculated_opt_same by (simp add: flipped_def same_items_def follow_milestone_def)
  fix t m assume t: "t \<in> set (btasks (flipped r b))" "tk_milestone_id t = Some m"
  then have "st_milestone_id r = Some m \<or> t \<in> set (btasks b)"
    unfolding tasks set_follow by (auto split: if_splits)
  then show "m \<in> ms_id ` set (milestones b)"
    using assms(1) t(2) find_storyD[OF assms(2)] by (auto simp: board_wf_def)
qed

lemma settled_wf: "board_wf b \<Longrightarrow> find_story (st_id r) b = Some r \<Longrightarrow> board_wf (settled r b)"
  by (simp add: settled_def flipped_wf)

lemma settled_statusless:
  assumes "distinct (map st_id (stories b))" and "find_story (st_id r) b = Some r" and "statusless_open b"
  shows "statusless_open (settled r b)"
proof (cases "st_is_closed r = calculate_userstory_is_closed r b")
  case True
  then show ?thesis using assms(3) by (simp add: settled_def)
next
  case False
  have "\<not> calculate_userstory_is_closed r b" if "st_status_id q = None" "q \<in> set (stories b)" "st_id q = st_id r" for q
    using that write_unique(2)[OF assms(1,2) that(2,3)] by (simp add: calculate_userstory_iff)
  then show ?thesis
    using False assms(3)
    by (auto simp: settled_def statusless_open_def flipped_stories[OF assms(1,2)])
qed

lemma wf_distinct: "board_wf b \<Longrightarrow> distinct (map st_id (stories b))"
  by (simp add: board_wf_def)

lemma settled_id_right:
  assumes "board_wf b"
  shows "board_wf (settled_id i b)" and "flags_only b (settled_id i b)"
    and "stories_right X b \<Longrightarrow> i \<in> st_id ` set (stories b) \<Longrightarrow> stories_right (X - {i}) (settled_id i b)"
    and "milestones_right Y b \<Longrightarrow> milestones_right Y (settled_id i b)"
    and "statusless_open b \<Longrightarrow> statusless_open (settled_id i b)"
proof -
  have found: "find_story (st_id r) b = Some r" "st_id r = i" if "find_story i b = Some r" for r
    using that find_storyD[OF that] by auto
  note d = wf_distinct[OF assms]
  show "board_wf (settled_id i b)"
    using found(1) settled_wf[OF assms] assms by (simp add: settled_id_def split: option.split)
  show "flags_only b (settled_id i b)"
    using found(1) settled_right(3)[OF d] flags_only.refl by (simp add: settled_id_def split: option.split)
  show "milestones_right Y b \<Longrightarrow> milestones_right Y (settled_id i b)"
    using found(1) settled_right(2)[OF d] by (simp add: settled_id_def split: option.split)
  show "statusless_open b \<Longrightarrow> statusless_open (settled_id i b)"
    using found(1) settled_statusless[OF d] by (simp add: settled_id_def split: option.split)
  show "stories_right (X - {i}) (settled_id i b)" if "stories_right X b" "i \<in> st_id ` set (stories b)"
    using find_story_mem[OF that(2)] found settled_right(1)[OF d _ that(1)] by (auto simp: settled_id_def)
qed

lemma loaded_run:
  assumes "board_wf b" and "statusless_open b" and "find_story (st_id r) b = Some r"
  shows "close_or_open_loaded_userstory (Suc (Suc d)) r b = (Inr (), settled r b)"
proof -
  have r: "r \<in> set (stories b)" using find_storyD[OF assms(3)] by simp
  have "close_or_open_userstory (save_userstory (Suc (Suc d)) Update_Fields) (loaded r) b =
    (let c = calculate_userstory_is_closed r b in
     if st_is_closed r = c then (Inr (loaded r, False), b)
     else (Inr (loaded r\<lparr>row := set_closed c (now b) r, prev := Some r\<rparr>, True), flipped r b))"
    by (rule close_or_open_run[OF _ assms(3)])
      (use assms(1,2) r in \<open>auto simp: board_wf_def statusless_open_def loaded_def\<close>)
  then show ?thesis
    by (simp add: close_or_open_loaded_userstory_def bindE_apply retE_apply settled_def Let_def)
qed

lemma stored_run:
  assumes "board_wf b" and "statusless_open b" and "i \<in> st_id ` set (stories b)"
  shows "close_or_open_stored_userstory (Suc (Suc d)) i b = (Inr (), settled_id i b)"
proof -
  obtain r where r: "find_story i b = Some r" using find_story_mem[OF assms(3)] by blast
  then have "find_story (st_id r) b = Some r" using find_storyD[OF r] by simp
  from loaded_run[OF assms(1,2) this] show ?thesis
    by (simp add: close_or_open_stored_userstory_def bindE_lift get_row_def r settled_id_def)
qed

end
