(* ===== verification/Board_Steps.thy ===== *)
theory Board_Steps
  imports Board_Facts
begin

text \<open>
  Every save, deletion and status change as a whole: each first changes one row, which leaves
  the flags of the story and milestones concerned possibly wrong, and its handlers then put
  these right. The step relation at the end collects the operations.
\<close>

section \<open>Changing one row\<close>

lemma set_replace:
  assumes "distinct (map key rs)" and "old \<in> set rs" and "key old = i"
  shows "set (update_rows key i (\<lambda>_. new) rs) = insert new (set rs - {old})"
proof -
  have "key r = i \<longleftrightarrow> r = old" if "r \<in> set rs" for r
    using assms that by (metis distinct_map inj_onD)
  then have "set (update_rows key i (\<lambda>_. new) rs) = (\<lambda>r. if r = old then new else r) ` set rs"
    unfolding set_update_rows by (intro image_cong) simp_all
  then show ?thesis using assms(2) by auto
qed

lemma compr_eq: "(\<And>x. x \<in> A \<and> P x \<longleftrightarrow> x \<in> B \<and> P x) \<Longrightarrow> {g x | x. x \<in> A \<and> P x} = {g x | x. x \<in> B \<and> P x}"
  by auto

lemma distinct_replace: "key new = i \<Longrightarrow> map key (update_rows key i (\<lambda>_. new) rs) = map key rs"
  by (rule map_key_update_rows) simp

lemma keys_replace: "key new = i \<Longrightarrow> key ` set (update_rows key i (\<lambda>_. new) rs) = key ` set rs"
  by (rule key_update_rows) simp

lemma right_cong:
  assumes "\<And>i. i \<notin> X' \<Longrightarrow> task_flags i b' = task_flags i b" and "us_statuses b' = us_statuses b"
    and "\<And>r. r \<in> set (stories b') \<Longrightarrow> st_id r \<notin> X' \<Longrightarrow> r \<in> set (stories b)" and "X \<subseteq> X'"
  shows "stories_right X b \<Longrightarrow> stories_right X' b'"
  using assms unfolding stories_right_def calculate_userstory_iff by (metis subsetD)

lemma milestones_cong:
  assumes "\<And>m. m \<notin> Y' \<Longrightarrow> contents m b' = contents m b" and "milestones b' = milestones b" and "Y \<subseteq> Y'"
  shows "milestones_right Y b \<Longrightarrow> milestones_right Y' b'"
  using assms unfolding milestones_right_def calculate_milestone_iff by (metis subsetD)

text \<open>The two final steps of most operations.\<close>

lemma recalculate_both:
  assumes "milestones_right Y b" and "Y \<subseteq> set_option p \<union> set_option q"
    and "b' = recalculated_opt (if q \<noteq> p then q else None) (recalculated_opt p b)"
  shows "milestones_right {} b'" and "same_items b b'"
proof -
  have "milestones_right (Y - set_option p - set_option (if q \<noteq> p then q else None)) b'"
    unfolding assms(3) by (intro recalculated_opt_right assms(1))
  then show "milestones_right {} b'" by (rule milestones_right_mono) (use assms(2) in auto)
  show "same_items b b'"
    unfolding assms(3) by (meson recalculated_opt_same same_items.trans)
qed

definition board_ok :: "board \<Rightarrow> bool" where
  "board_ok b \<longleftrightarrow> board_wf b \<and> stories_right {} b \<and> milestones_right {} b"

lemma same_items_ok: "same_items b b' \<Longrightarrow> board_wf b \<Longrightarrow> stories_right {} b \<Longrightarrow> milestones_right {} b' \<Longrightarrow> board_ok b'"
  by (simp add: board_ok_def same_items_calc)

lemma existsD: "milestone_exists b m \<Longrightarrow> m = Some x \<Longrightarrow> x \<in> ms_id ` set (milestones b)"
  by (simp add: milestone_exists_def)

section \<open>User stories\<close>

lemma write_all:
  assumes wf: "board_wf b" and old: "find_story (st_id r) b = Some old" and ex: "milestone_exists b (st_milestone_id r)"
  shows "board_wf (write_story All_Fields r b)" and "find_story (st_id r) (write_story All_Fields r b) = Some r"
    and "stories_right {} b \<Longrightarrow> stories_right {st_id r} (write_story All_Fields r b)"
    and "milestones_right {} b \<Longrightarrow>
           milestones_right (set_option (st_milestone_id old) \<union> set_option (st_milestone_id r)) (write_story All_Fields r b)"
proof -
  let ?b = "write_story All_Fields r b"
  have old': "old \<in> set (stories b)" "st_id old = st_id r" using find_storyD[OF old] by auto
  have all: "set_story All_Fields r = (\<lambda>_. r)" by (rule ext) (simp add: set_story_def)
  have set: "set (stories ?b) = insert r (set (stories b) - {old})"
    unfolding write_story_def by (simp add: all, rule set_replace[OF wf_distinct[OF wf] old'])
  have keys: "map st_id (stories ?b) = map st_id (stories b)"
    by (simp add: write_story_def all distinct_replace)
  then have keyset: "st_id ` set (stories ?b) = st_id ` set (stories b)" by (metis list.set_map)
  have "\<forall>q \<in> set (stories ?b). \<forall>m. st_milestone_id q = Some m \<longrightarrow> m \<in> ms_id ` set (milestones b)"
    using wf ex by (auto simp: set milestone_exists_def board_wf_def)
  then show "board_wf ?b"
    using wf unfolding board_wf_def keys keyset by simp
  then have d: "distinct (map st_id (stories ?b))" by (rule wf_distinct)
  show "find_story (st_id r) ?b = Some r" by (rule find_story_eq[OF d]) (simp add: set)
  show "stories_right {} b \<Longrightarrow> stories_right {st_id r} ?b"
    by (rule right_cong[where X = "{}" and b = b]) (auto simp: set)
  show "milestones_right {} b \<Longrightarrow>
      milestones_right (set_option (st_milestone_id old) \<union> set_option (st_milestone_id r)) ?b"
  proof (rule milestones_cong[where Y = "{}" and b = b])
    fix m assume m: "m \<notin> set_option (st_milestone_id old) \<union> set_option (st_milestone_id r)"
    have "{st_is_closed q | q. q \<in> set (stories ?b) \<and> st_milestone_id q = Some m}
        = {st_is_closed q | q. q \<in> set (stories b) \<and> st_milestone_id q = Some m}"
      by (rule compr_eq) (use m old' in \<open>auto simp: set\<close>)
    then show "contents m ?b = contents m b"
      by (simp add: contents_def task_is_closed_def issue_is_closed_def)
  qed auto
qed

lemma follow_wf:
  assumes "board_wf b" and "milestone_exists b m"
  shows "board_wf (follow_milestone i m b)"
proof (rule wf_flags_only[OF assms(1) flags_only_follow])
  fix t n assume "t \<in> set (btasks (follow_milestone i m b))" "tk_milestone_id t = Some n"
  then have "m = Some n \<or> t \<in> set (btasks b)" unfolding set_follow by (auto split: if_splits)
  then show "n \<in> ms_id ` set (milestones b)"
    using assms \<open>tk_milestone_id t = Some n\<close> by (auto simp: milestone_exists_def board_wf_def)
qed

text \<open>What a save does to a story: the row is stored with the calculated flag.\<close>

definition saved_row :: "story \<Rightarrow> board \<Rightarrow> story" where
  "saved_row r b = (let c = calculate_userstory_is_closed r b in if st_is_closed r = c then r else set_closed c (now b) r)"

text \<open>
  The handlers after a save, in full. When the flag of the story was right, its milestone and
  the one it left are recomputed. When it was not, the nested save has stored the new row as
  \<open>prev\<close>, and only the milestone of the story is recomputed.
\<close>

lemma find_other_row:
  "i \<noteq> m \<Longrightarrow> (\<And>r. key (f r) = key r) \<Longrightarrow> find (\<lambda>r. key r = m) (update_rows key i f rs) = find (\<lambda>r. key r = m) rs"
  by (induction rs) (auto simp: update_rows_def)

lemma find_milestone_recalculated:
  "q \<noteq> Some m \<Longrightarrow> find_milestone m (recalculated_opt q b) = find_milestone m b"
  by (cases q) (simp_all add: find_milestone_def recalculated_opt_def recalculated_eq find_other_row)

lemma post_save_core:
  assumes wf: "board_wf b" and row: "find_story (st_id r) b = Some r"
    and us: "row us = r" "\<not> importing us" and default: "st_status_id r = None \<Longrightarrow> default_us_status (defaults b (st_project_id r)) = None"
    and S: "stories_right {st_id r} b"
    and M: "milestones_right Y b"
    and pm: "pm = (case prev us of None \<Rightarrow> None | Some q \<Rightarrow> st_milestone_id q)" "milestone_exists b pm"
  obtains us' b' where
    "userstory_save_handlers (save_userstory (Suc (Suc d)) Update_Fields) created us b = (Inr us', b')"
    "row us' = saved_row r b" "board_wf b'" "stories_right {} b'"
    "milestones_right (Y - set_option (st_milestone_id r)
       - (if st_is_closed r = calculate_userstory_is_closed r b then set_option pm else {})) b'"
    "st_is_closed r \<noteq> calculate_userstory_is_closed r b \<Longrightarrow>
       \<forall>m. st_milestone_id r \<noteq> Some m \<longrightarrow> find_milestone m b' = find_milestone m b"
    "flags_only b b'" "stories b' = map (\<lambda>q. if st_id q = st_id r then saved_row r b else q) (stories b)"
proof -
  let ?b = "update_milestone_of_tasks_when_edit_us created us b"
  have ex: "milestone_exists b (st_milestone_id r)"
    using wf find_storyD[OF row] by (auto simp: board_wf_def milestone_exists_def)
  have b: "?b = b \<or> ?b = follow_milestone (st_id r) (st_milestone_id r) b"
  proof (cases created)
    case False
    have "distinct (map tk_id (btasks b))" using wf by (simp add: board_wf_def)
    from update_milestone_of_tasks_eq[OF this, of us] show ?thesis using False us(1) by simp
  qed (simp add: update_milestone_of_tasks_when_edit_us_def)
  have b1: "board_wf ?b" "find_story (st_id r) ?b = Some r" "stories_right {st_id r} ?b" "milestones_right Y ?b"
      "milestone_exists ?b = milestone_exists b" "defaults ?b = defaults b" "stories ?b = stories b" "now ?b = now b"
      "calculate_userstory_is_closed r ?b = calculate_userstory_is_closed r b" "flags_only b ?b"
    using b wf row S M follow_wf[OF wf ex, of "st_id r"] flags_only.refl flags_only_follow
    by (auto simp: find_story_def stories_right_def milestones_right_def milestone_exists_def fun_eq_iff)
  have tk: "distinct (map tk_id (btasks ?b))" using b1(1) by (simp add: board_wf_def)
  note run = close_or_open_run[OF tk b1(2) HOL.refl _ _ us, of d]
  have close: "close_or_open_userstory (save_userstory (Suc (Suc d)) Update_Fields) us ?b =
    (let c = calculate_userstory_is_closed r b in
     if st_is_closed r = c then (Inr (us, False), ?b)
     else (Inr (us\<lparr>row := set_closed c (now b) r, prev := Some r\<rparr>, True), flipped r ?b))"
    unfolding b1(9)[symmetric] b1(8)[symmetric]
    by (rule run) (use ex default in \<open>simp_all add: milestone_exists_def b1(5)[symmetric] b1(6)\<close>)
  let ?b2 = "settled r ?b"
  note d1 = wf_distinct[OF b1(1)]
  have b2: "board_wf ?b2" "stories_right {} ?b2" "milestones_right Y ?b2" "flags_only ?b ?b2"
    using settled_wf[OF b1(1,2)] settled_right(1)[OF d1 b1(2,3)] settled_right(2)[OF d1 b1(2,4)]
      settled_right(3)[OF d1 b1(2)] by simp_all
  have st2: "stories ?b2 = map (\<lambda>q. if st_id q = st_id r then saved_row r b else q) (stories b)"
  proof -
    have "(if st_id q = st_id r then r else q) = q" "st_id q = st_id r \<Longrightarrow> set_closed c t q = set_closed c t r"
      if "q \<in> set (stories b)" for q c t
      using write_unique(2)[OF wf_distinct[OF wf] row that] by metis+
    then show ?thesis
      by (auto simp: settled_def saved_row_def Let_def flipped_stories[OF d1 b1(2)] b1(7,8,9)
          intro!: map_idI[symmetric] cong: if_cong)
  qed
  let ?us = "if st_is_closed r = calculate_userstory_is_closed r b then us
    else us\<lparr>row := set_closed (calculate_userstory_is_closed r b) (now b) r, prev := Some r\<rparr>"
  let ?q = "case prev ?us of None \<Rightarrow> None | Some q \<Rightarrow> st_milestone_id q"
  let ?b3 = "recalculated_opt (if ?q \<noteq> st_milestone_id r then ?q else None) (recalculated_opt (st_milestone_id r) ?b2)"
  have ms: "m \<in> ms_id ` set (milestones ?b2)" if "st_milestone_id r = Some m \<or> ?q = Some m" for m
  proof -
    have "milestone_exists ?b2 (st_milestone_id r)" "milestone_exists ?b2 pm"
      using ex pm(2) flags_only_exists[OF b2(4)] b1(5) by simp_all
    then show ?thesis using that pm(1) by (auto simp: milestone_exists_def split: if_splits)
  qed
  have recalc: "try_to_close_or_open_milestones (st_milestone_id r) ?q ?b2 = (Inr (), ?b3)"
    by (rule try_milestones_run[OF ms])
  have fin: "milestones_right (Y - set_option (st_milestone_id r) - set_option (if ?q \<noteq> st_milestone_id r then ?q else None)) ?b3"
      "same_items ?b2 ?b3"
    by (intro recalculated_opt_right b2(3)) (meson recalculated_opt_same same_items.trans)
  have rows: "find_milestone m ?b3 = find_milestone m b"
    if "st_is_closed r \<noteq> calculate_userstory_is_closed r b" "st_milestone_id r \<noteq> Some m" for m
  proof -
    have "find_milestone m ?b2 = find_milestone m ?b"
      using that b1(9) by (simp add: settled_def flipped_def find_milestone_recalculated)
        (simp add: find_milestone_def follow_milestone_def write_story_def)
    moreover have "find_milestone m ?b = find_milestone m b" using b by (auto simp: find_milestone_def follow_milestone_def)
    ultimately show ?thesis using that by (simp add: find_milestone_recalculated recalculated_opt_def[of None])
  qed
  have "userstory_save_handlers (save_userstory (Suc (Suc d)) Update_Fields) created us b = (Inr ?us, ?b3)"
    using close recalc us
    by (cases "st_is_closed r = calculate_userstory_is_closed r b")
      (simp_all add: userstory_save_handlers_def try_to_close_or_open_us_and_milestone_when_create_or_edit_us_def
        bindE_apply retE_apply settled_def b1(9))
  moreover have "row ?us = saved_row r b" using us by (simp add: saved_row_def)
  moreover have "board_wf ?b3" "stories_right {} ?b3" using b2(1,2) by (simp_all add: same_items_calc[OF fin(2)])
  moreover have "milestones_right (Y - set_option (st_milestone_id r)
       - (if st_is_closed r = calculate_userstory_is_closed r b then set_option pm else {})) ?b3"
    by (rule milestones_right_mono[OF fin(1)]) (use pm(1) in \<open>auto split: if_splits\<close>)
  moreover have "flags_only b ?b3"
    by (meson b1(10) b2(4) flags_only.trans flags_only_recalculated)
  moreover have "stories ?b3 = map (\<lambda>q. if st_id q = st_id r then saved_row r b else q) (stories b)"
    using fin(2) st2 by (simp add: same_items_def)
  ultimately show thesis using rows by (intro that) simp_all
qed

lemma post_save_run:
  assumes wf: "board_wf b" and row: "find_story (st_id r) b = Some r"
    and us: "row us = r" "\<not> importing us" and default: "st_status_id r = None \<Longrightarrow> default_us_status (defaults b (st_project_id r)) = None"
    and S: "stories_right {st_id r} b"
    and M: "milestones_right Y b" and Y: "Y \<subseteq> set_option (st_milestone_id r) \<union> set_option pm"
    and pm: "pm = (case prev us of None \<Rightarrow> None | Some q \<Rightarrow> st_milestone_id q)" "milestone_exists b pm"
    and cond: "st_is_closed r = calculate_userstory_is_closed r b \<or> Y \<subseteq> set_option (st_milestone_id r)"
  obtains us' b' where
    "userstory_save_handlers (save_userstory (Suc (Suc d)) Update_Fields) created us b = (Inr us', b')"
    "row us' = saved_row r b" "board_ok b'" "flags_only b b'" "stories b' = map (\<lambda>q. if st_id q = st_id r then saved_row r b else q) (stories b)"
proof (rule post_save_core[OF wf row us default S M pm, of d created])
  fix us' b' assume res: "userstory_save_handlers (save_userstory (Suc (Suc d)) Update_Fields) created us b = (Inr us', b')"
    "row us' = saved_row r b" "board_wf b'" "stories_right {} b'" "flags_only b b'"
    "stories b' = map (\<lambda>q. if st_id q = st_id r then saved_row r b else q) (stories b)"
    and M': "milestones_right (Y - set_option (st_milestone_id r)
       - (if st_is_closed r = calculate_userstory_is_closed r b then set_option pm else {})) b'"
  have "milestones_right {} b'" by (rule milestones_right_mono[OF M']) (use Y cond in \<open>auto split: if_splits\<close>)
  then show thesis using res by (intro that) (simp_all add: board_ok_def)
qed

text \<open>The story as \<open>UserStory.save\<close> stores it, before the handlers.\<close>

definition defaulted :: "story \<Rightarrow> board \<Rightarrow> story" where
  "defaulted r b = row (with_default_us_status (loaded r) b)"

lemma row_with_default: "row (with_default_us_status us b) = defaulted (row us) b"
  by (simp add: defaulted_def with_default_us_status_def loaded_def)

lemma with_default_sel [simp]:
  "importing (with_default_us_status us b) = importing us" "st_id (defaulted r b) = st_id r"
  "st_milestone_id (defaulted r b) = st_milestone_id r" "st_is_closed (defaulted r b) = st_is_closed r"
  "st_project_id (defaulted r b) = st_project_id r"
  by (simp_all add: with_default_us_status_def defaulted_def loaded_def)

lemma defaulted_status:
  "st_status_id (defaulted r b) = None \<Longrightarrow> default_us_status (defaults b (st_project_id r)) = None"
  by (simp add: defaulted_def with_default_us_status_def loaded_def split: if_splits)

lemma save_userstory_run:
  assumes ok: "board_ok b" and us: "\<not> importing us" and old: "find_story (st_id (row us)) b = Some old"
    and ex: "milestone_exists b (st_milestone_id (row us))"
    and cond: "st_milestone_id old = st_milestone_id (row us)
      \<or> st_is_closed (row us) = calculate_userstory_is_closed (defaulted (row us) b) b"
  obtains us' b' where
    "save_userstory (Suc (Suc (Suc d))) All_Fields us b = (Inr us', b')"
    "row us' = saved_row (defaulted (row us) b) b" "board_ok b'"
    "flags_only (write_story All_Fields (defaulted (row us) b) b) b'"
    "find_story (st_id (row us)) b' = Some (row us')"
proof -
  let ?r = "defaulted (row us) b"
  let ?b = "write_story All_Fields ?r b"
  let ?us = "(with_default_us_status us b)\<lparr>prev := Some old\<rparr>"
  have wf: "board_wf b" "stories_right {} b" "milestones_right {} b" using ok by (simp_all add: board_ok_def)
  have old': "find_story (st_id ?r) b = Some old" and ex': "milestone_exists b (st_milestone_id ?r)"
    using old ex by simp_all
  note w = write_all[OF wf(1) old' ex']
  have exb: "milestone_exists ?b = milestone_exists b" by (rule ext) (simp add: milestone_exists_def)
  have exo: "milestone_exists ?b (st_milestone_id old)"
    using wf(1) find_storyD[OF old] unfolding exb by (auto simp: board_wf_def milestone_exists_def)
  have prev: "cached_prev_us (with_default_us_status us b) b = Inr ?us"
    by (simp add: cached_prev_us_def bindQ_apply get_row_def row_with_default old)
  have run: "save_userstory (Suc (Suc (Suc d))) All_Fields us b
      = userstory_save_handlers (save_userstory (Suc (Suc d)) Update_Fields) False ?us ?b"
    by (simp only: save_userstory.simps bindE_lift prev sum.case) (simp add: row_with_default)
  have saved: "saved_row ?r ?b = saved_row ?r b" by (simp add: saved_row_def Let_def)
  show thesis
  proof (rule post_save_run[OF w(1,2) _ _ _ w(3)[OF wf(2)] w(4)[OF wf(3)], where us = ?us and d = d
      and pm = "st_milestone_id old" and created = False])
    show "row ?us = ?r" by (simp add: row_with_default)
    show "st_is_closed ?r = calculate_userstory_is_closed ?r ?b
      \<or> set_option (st_milestone_id old) \<union> set_option (st_milestone_id ?r) \<subseteq> set_option (st_milestone_id ?r)"
      using cond by auto
    fix us' b' assume res: "userstory_save_handlers (save_userstory (Suc (Suc d)) Update_Fields) False ?us ?b = (Inr us', b')"
      "row us' = saved_row ?r ?b" "board_ok b'" "flags_only ?b b'"
      "stories b' = map (\<lambda>q. if st_id q = st_id ?r then saved_row ?r ?b else q) (stories ?b)"
    have d: "distinct (map st_id (stories b'))" using res(3) by (simp add: board_ok_def wf_distinct)
    have "st_id (saved_row ?r b) = st_id (row us)" by (simp add: saved_row_def Let_def)
    moreover have "saved_row ?r b \<in> set (stories b')"
      using find_storyD[OF w(2)] res(5) by (auto simp: saved)
    ultimately have "find_story (st_id (row us)) b' = Some (saved_row ?r b)"
      using find_story_eq[OF d] by metis
    then show thesis
      using that[of us' b'] run res saved by simp
  qed (use us exo defaulted_status in \<open>auto simp: write_story_def\<close>)
qed

text \<open>When one milestone may be wrong, all are right when its row fits.\<close>

lemma last_milestone_right:
  assumes "board_wf b" and "find_milestone m b = Some r" and "milestones_right {m} b"
  shows "milestones_right {} b \<longleftrightarrow> (contents m b \<noteq> {} \<longrightarrow> ms_closed r = calculate_milestone_is_closed m b)"
proof -
  have row: "r \<in> set (milestones b)" "ms_id r = m" using assms(2) by (auto simp: find_milestone_def find_Some_iff)
  have "distinct (map ms_id (milestones b))" using assms(1) by (simp add: board_wf_def)
  then have only: "q = r" if "q \<in> set (milestones b)" "ms_id q = m" for q
    using that row by (simp add: distinct_map inj_on_def)
  show ?thesis
  proof
    assume "milestones_right {} b"
    then show "contents m b \<noteq> {} \<longrightarrow> ms_closed r = calculate_milestone_is_closed m b"
      using row by (auto simp: milestones_right_def)
  next
    assume h: "contents m b \<noteq> {} \<longrightarrow> ms_closed r = calculate_milestone_is_closed m b"
    show "milestones_right {} b"
      unfolding milestones_right_def
    proof (intro ballI impI)
      fix q assume q: "q \<in> set (milestones b)" "contents (ms_id q) b \<noteq> {}"
      show "ms_closed q = calculate_milestone_is_closed (ms_id q) b"
        using only[OF q(1)] h q(2) assms(3) q(1) by (cases "ms_id q = m") (auto simp: milestones_right_def)
    qed
  qed
qed

text \<open>A save that moves the story out of a milestone and flips its flag leaves that milestone alone.\<close>

lemma save_moving_and_flipping_run:
  assumes ok: "board_ok b" and us: "\<not> importing us" and old: "find_story (st_id (row us)) b = Some old"
    and ex: "milestone_exists b (st_milestone_id (row us))"
    and moved: "st_milestone_id old = Some m" "st_milestone_id (row us) \<noteq> Some m"
    and flip: "st_is_closed (row us) \<noteq> calculate_userstory_is_closed (defaulted (row us) b) b"
  obtains us' b' where
    "save_userstory (Suc (Suc (Suc d))) All_Fields us b = (Inr us', b')"
    "row us' = saved_row (defaulted (row us) b) b" "board_wf b'" "stories_right {} b'" "milestones_right {m} b'"
    "find_milestone m b' = find_milestone m b"
proof -
  let ?r = "defaulted (row us) b"
  let ?b = "write_story All_Fields ?r b"
  let ?us = "(with_default_us_status us b)\<lparr>prev := Some old\<rparr>"
  have wf: "board_wf b" "stories_right {} b" "milestones_right {} b" using ok by (simp_all add: board_ok_def)
  have old': "find_story (st_id ?r) b = Some old" and ex': "milestone_exists b (st_milestone_id ?r)"
    using old ex by simp_all
  note w = write_all[OF wf(1) old' ex']
  have exo: "milestone_exists ?b (st_milestone_id old)"
    using wf(1) find_storyD[OF old] by (auto simp: board_wf_def milestone_exists_def)
  have prev: "cached_prev_us (with_default_us_status us b) b = Inr ?us"
    by (simp add: cached_prev_us_def bindQ_apply get_row_def row_with_default old)
  have run: "save_userstory (Suc (Suc (Suc d))) All_Fields us b
      = userstory_save_handlers (save_userstory (Suc (Suc d)) Update_Fields) False ?us ?b"
    by (simp only: save_userstory.simps bindE_lift prev sum.case) (simp add: row_with_default)
  have saved: "saved_row ?r ?b = saved_row ?r b" by (simp add: saved_row_def Let_def)
  show thesis
  proof (rule post_save_core[OF w(1,2) _ _ _ w(3)[OF wf(2)] w(4)[OF wf(3)], where us = ?us and d = d
      and pm = "st_milestone_id old" and created = False])
    show "row ?us = ?r" by (simp add: row_with_default)
    fix us' b' assume res: "userstory_save_handlers (save_userstory (Suc (Suc d)) Update_Fields) False ?us ?b = (Inr us', b')"
      "row us' = saved_row ?r ?b" "board_wf b'" "stories_right {} b'"
      and M: "milestones_right (set_option (st_milestone_id old) \<union> set_option (st_milestone_id ?r) - set_option (st_milestone_id ?r)
         - (if st_is_closed ?r = calculate_userstory_is_closed ?r ?b then set_option (st_milestone_id old) else {})) b'"
      and keeps: "st_is_closed ?r \<noteq> calculate_userstory_is_closed ?r ?b \<Longrightarrow>
         \<forall>m. st_milestone_id ?r \<noteq> Some m \<longrightarrow> find_milestone m b' = find_milestone m ?b"
    have "milestones_right {m} b'" by (rule milestones_right_mono[OF M]) (use moved in auto)
    moreover have "find_milestone m ?b = find_milestone m b" by (simp add: find_milestone_def write_story_def)
    ultimately show thesis using that[of us' b'] run res saved keeps flip moved by simp
  qed (use us exo defaulted_status in \<open>auto simp: write_story_def\<close>)
qed

section \<open>Tasks\<close>

definition stored_task :: "btask \<Rightarrow> board \<Rightarrow> btask" where
  "stored_task t b = set_finished_date_when_edit_task (with_default_task_status t b) b"

lemma stored_task_sel [simp]:
  "tk_id (stored_task t b) = tk_id t" "tk_user_story_id (stored_task t b) = tk_user_story_id t"
  "tk_milestone_id (stored_task t b) = tk_milestone_id t"
  by (simp_all add: stored_task_def set_finished_date_when_edit_task_def with_default_task_status_def)

lemma task_handlers_run:
  assumes wf: "board_wf b" and st: "statusless_open b"
    and X: "stories_right X b" "X \<subseteq> set_option (tk_user_story_id (row t)) \<union> set_option pu"
    and Y: "milestones_right Y b" "Y \<subseteq> set_option (tk_milestone_id (row t)) \<union> set_option pm"
    and us: "set_option (tk_user_story_id (row t)) \<subseteq> st_id ` set (stories b)" "set_option pu \<subseteq> st_id ` set (stories b)"
    and ms: "milestone_exists b (tk_milestone_id (row t))" "milestone_exists b pm"
    and prev: "pu = (case prev t of None \<Rightarrow> None | Some r \<Rightarrow> tk_user_story_id r)"
      "pm = (case prev t of None \<Rightarrow> None | Some r \<Rightarrow> tk_milestone_id r)"
  obtains b' where "task_post_save_handlers (Suc (Suc d)) t b = (Inr (), b')" "board_ok b'" "flags_only b b'"
proof -
  let ?u = "tk_user_story_id (row t)" and ?m = "tk_milestone_id (row t)"
  define opt where "opt i b = (case i of None \<Rightarrow> b | Some i \<Rightarrow> settled_id i b)" for i :: "int option" and b
  have opt: "board_wf (opt i c) \<and> statusless_open (opt i c) \<and> flags_only c (opt i c)
      \<and> (stories_right Z c \<longrightarrow> stories_right (Z - set_option i) (opt i c))
      \<and> (milestones_right Y c \<longrightarrow> milestones_right Y (opt i c))
      \<and> (case i of None \<Rightarrow> retE () | Some i \<Rightarrow> close_or_open_stored_userstory (Suc (Suc d)) i) c = (Inr (), opt i c)"
    if "board_wf c" "statusless_open c" "set_option i \<subseteq> st_id ` set (stories c)" for i c Z
    using that settled_id_right[OF that(1)] stored_run[OF that(1,2)] flags_only.refl
    by (cases i) (simp_all add: opt_def retE_apply)
  let ?b1 = "opt ?u b"
  note o1 = opt[OF wf st us(1), of X]
  let ?i = "if pu \<noteq> ?u then pu else None"
  have keys: "st_id ` set (stories ?b1) = st_id ` set (stories b)"
    using o1 flags_only_keys(1) by (metis list.set_map)
  have "set_option ?i \<subseteq> st_id ` set (stories ?b1)" using us(2) keys by auto
  note o2 = opt[OF conjunct1[OF o1] conjunct1[OF conjunct2[OF o1]] this, of "X - set_option ?u"]
  let ?b2 = "opt ?i ?b1"
  have "stories_right (X - set_option ?u - set_option ?i) ?b2" using o1 o2 X(1) by blast
  then have S: "stories_right {} ?b2" by (rule stories_right_mono) (use X(2) in auto)
  have M: "milestones_right Y ?b2" using o1 o2 Y(1) by blast
  have F: "flags_only b ?b2" using o1 o2 flags_only.trans by blast
  have us_run: "try_to_close_or_open_us_when_create_or_edit_task (Suc (Suc d)) t b = (Inr (), ?b2)"
  proof -
    have run: "(case prev t of None \<Rightarrow> retE ()
     | Some r \<Rightarrow> (case tk_user_story_id r of None \<Rightarrow> retE ()
        | Some i \<Rightarrow> if tk_user_story_id r \<noteq> tk_user_story_id (row t)
                    then close_or_open_stored_userstory (Suc (Suc d)) i else retE ())) ?b1 = (Inr (), ?b2)"
      using o2 prev(1) by (auto simp: retE_apply opt_def split: option.splits if_splits)
    show ?thesis
      unfolding try_to_close_or_open_us_when_create_or_edit_task_def
      using o1 run by (simp add: bindE_apply)
  qed
  let ?b3 = "recalculated_opt (if pm \<noteq> ?m then pm else None) (recalculated_opt ?m ?b2)"
  have "m \<in> ms_id ` set (milestones ?b2)" if "?m = Some m \<or> pm = Some m" for m
  proof -
    have "milestone_exists ?b2 ?m" "milestone_exists ?b2 pm"
      using ms by (simp_all add: flags_only_exists[OF F])
    then show ?thesis using that by (auto simp: milestone_exists_def)
  qed
  from try_milestones_run[OF this]
  have "task_post_save_handlers (Suc (Suc d)) t b = (Inr (), ?b3)"
    using us_run prev(2) by (simp add: task_post_save_handlers_def bindE_apply)
  moreover note fin = recalculate_both[OF M Y(2) HOL.refl]
  then have "board_ok ?b3" using same_items_ok[OF fin(2) _ S fin(1)] o2 by blast
  moreover have "flags_only b ?b3" by (meson F flags_only.trans flags_only_recalculated)
  ultimately show thesis by (rule that)
qed

text \<open>Replacing, adding and removing task rows: \<open>C\<close> are the rows that differ.\<close>

lemma change_tasks:
  assumes same: "\<forall>t. t \<notin> C \<longrightarrow> (t \<in> set ts \<longleftrightarrow> t \<in> set (btasks b))" and b: "b' = b\<lparr>btasks := ts\<rparr>"
  shows "stories_right {} b \<Longrightarrow> stories_right (\<Union>t \<in> C. set_option (tk_user_story_id t)) b'"
    and "milestones_right {} b \<Longrightarrow>
      milestones_right (\<Union>t \<in> C. if tk_user_story_id t = None then set_option (tk_milestone_id t) else {}) b'"
    and "statusless_open b \<Longrightarrow> statusless_open b'"
proof -
  show "statusless_open b \<Longrightarrow> statusless_open b'" by (simp add: statusless_open_def b)
  show "stories_right {} b \<Longrightarrow> stories_right (\<Union>t \<in> C. set_option (tk_user_story_id t)) b'"
  proof (rule right_cong[where X = "{}" and b = b])
    fix i assume i: "i \<notin> (\<Union>t \<in> C. set_option (tk_user_story_id t))"
    have "{task_is_closed t b | t. t \<in> set ts \<and> tk_user_story_id t = Some i}
        = {task_is_closed t b | t. t \<in> set (btasks b) \<and> tk_user_story_id t = Some i}"
      by (rule compr_eq) (use i same in force)
    then show "task_flags i b' = task_flags i b" by (simp add: task_flags_def task_is_closed_def b)
  qed (simp_all add: b)
  show "milestones_right {} b \<Longrightarrow>
      milestones_right (\<Union>t \<in> C. if tk_user_story_id t = None then set_option (tk_milestone_id t) else {}) b'"
  proof (rule milestones_cong[where Y = "{}" and b = b])
    fix m assume m: "m \<notin> (\<Union>t \<in> C. if tk_user_story_id t = None then set_option (tk_milestone_id t) else {})"
    have "{task_is_closed t b | t. t \<in> set ts \<and> tk_milestone_id t = Some m \<and> tk_user_story_id t = None}
        = {task_is_closed t b | t. t \<in> set (btasks b) \<and> tk_milestone_id t = Some m \<and> tk_user_story_id t = None}"
      by (rule compr_eq) (use m same in force)
    then show "contents m b' = contents m b" by (simp add: contents_def task_is_closed_def issue_is_closed_def b)
  qed (simp_all add: b)
qed

lemma wf_change_tasks:
  assumes "board_wf b" and "distinct (map tk_id ts)"
    and "\<And>t. t \<in> set ts \<Longrightarrow> t \<in> set (btasks b) \<or> milestone_exists b (tk_milestone_id t)
           \<and> set_option (tk_user_story_id t) \<subseteq> st_id ` set (stories b)"
  shows "board_wf (b\<lparr>btasks := ts\<rparr>)"
proof -
  have "\<forall>t \<in> set ts. \<forall>m. tk_milestone_id t = Some m \<longrightarrow> m \<in> ms_id ` set (milestones b)"
    using assms(1,3) by (fastforce simp: board_wf_def milestone_exists_def)
  moreover have "\<forall>t \<in> set ts. \<forall>i. tk_user_story_id t = Some i \<longrightarrow> i \<in> st_id ` set (stories b)"
    using assms(1,3) by (fastforce simp: board_wf_def)
  ultimately show ?thesis using assms(1,2) by (simp add: board_wf_def)
qed

definition task_fits :: "btask \<Rightarrow> board \<Rightarrow> bool" where
  "task_fits t b \<longleftrightarrow> milestone_exists b (tk_milestone_id t) \<and> set_option (tk_user_story_id t) \<subseteq> st_id ` set (stories b)"

lemma save_btask_run:
  assumes ok: "board_ok b" and old: "find_btask (tk_id t) b = Some old" and fits: "task_fits t b"
  obtains b' where "save_btask (Suc (Suc d)) t b = (Inr (), b')" "board_ok b'"
    "flags_only (b\<lparr>btasks := update_rows tk_id (tk_id t) (\<lambda>_. stored_task t b) (btasks b)\<rparr>) b'"
proof -
  let ?t = "stored_task t b"
  let ?ts = "update_rows tk_id (tk_id t) (\<lambda>_. ?t) (btasks b)"
  let ?b = "b\<lparr>btasks := ?ts\<rparr>"
  have wf: "board_wf b" "stories_right {} b" "milestones_right {} b" using ok by (simp_all add: board_ok_def)
  have old': "old \<in> set (btasks b)" "tk_id old = tk_id t" using find_taskD[OF old] by auto
  have d: "distinct (map tk_id (btasks b))" using wf(1) by (simp add: board_wf_def)
  note set = set_replace[OF d old', of ?t]
  have wf': "board_wf ?b"
    by (rule wf_change_tasks[OF wf(1)])
      (use fits d in \<open>auto simp: set task_fits_def distinct_replace\<close>)
  have same: "\<forall>x. x \<notin> {?t, old} \<longrightarrow> (x \<in> set ?ts \<longleftrightarrow> x \<in> set (btasks b))" by (simp add: set)
  note ch = change_tasks[where C = "{?t, old}", OF same HOL.refl]
  have run: "save_btask (Suc (Suc d)) t b
      = task_post_save_handlers (Suc (Suc d)) \<lparr>row = ?t, prev = Some old, importing = False\<rparr> ?b"
    by (simp add: save_btask_def Let_def bindE_lift get_row_def old flip: stored_task_def)
  have oldfits: "task_fits old b" using wf(1) old' by (auto simp: task_fits_def board_wf_def milestone_exists_def)
  show thesis
    by (rule task_handlers_run[OF wf' ch(3)[OF stories_right_statusless[OF wf(2)]] ch(1)[OF wf(2)] _ ch(2)[OF wf(3)] _ _ _ _ _ HOL.refl HOL.refl,
          where d = d and t = "\<lparr>row = ?t, prev = Some old, importing = False\<rparr>"])
      (use that run fits oldfits in \<open>auto simp: task_fits_def milestone_exists_def split: if_splits\<close>)
qed

lemma fresh_id: "Max (insert 0 (set (map key rs))) + (1 :: int) \<notin> key ` set rs"
proof
  assume "Max (insert 0 (set (map key rs))) + 1 \<in> key ` set rs"
  then have "Max (insert 0 (set (map key rs))) + 1 \<le> Max (insert 0 (set (map key rs)))"
    by (intro Max_ge) auto
  then show False by simp
qed

lemma create_btask_run:
  assumes ok: "board_ok b" and fits: "task_fits t b"
  obtains b' where "create_btask (Suc (Suc d)) t b = (Inr (), b')" "board_ok b'"
proof -
  define i where "i = Max (insert 0 (set (map tk_id (btasks b)))) + 1"
  let ?t = "(stored_task t b)\<lparr>tk_id := i\<rparr>"
  let ?b = "b\<lparr>btasks := btasks b @ [?t]\<rparr>"
  have wf: "board_wf b" "stories_right {} b" "milestones_right {} b" using ok by (simp_all add: board_ok_def)
  have i: "i \<notin> tk_id ` set (btasks b)" unfolding i_def by (rule fresh_id)
  have wf': "board_wf ?b"
    by (rule wf_change_tasks[OF wf(1)])
      (use fits wf(1) i in \<open>auto simp: task_fits_def board_wf_def\<close>)
  have same: "\<forall>x. x \<notin> {?t} \<longrightarrow> (x \<in> set (btasks b @ [?t]) \<longleftrightarrow> x \<in> set (btasks b))" by simp
  note ch = change_tasks[where C = "{?t}", OF same HOL.refl]
  have run: "create_btask (Suc (Suc d)) t b = task_post_save_handlers (Suc (Suc d)) (loaded ?t) ?b"
    by (simp add: create_btask_def Let_def i_def flip: stored_task_def)
  show thesis
    by (rule task_handlers_run[OF wf' ch(3)[OF stories_right_statusless[OF wf(2)]] ch(1)[OF wf(2)] _ ch(2)[OF wf(3)] _ _ _ _ _ HOL.refl HOL.refl,
          where d = d and t = "loaded ?t"])
      (use that run fits in \<open>auto simp: loaded_def task_fits_def milestone_exists_def split: if_splits\<close>)
qed

section \<open>Deletions\<close>

text \<open>A milestone marked closed has nothing open in it.\<close>

definition closed_sound :: "int \<Rightarrow> board \<Rightarrow> bool" where
  "closed_sound m b \<longleftrightarrow> (\<forall>q \<in> set (milestones b). ms_id q = m \<longrightarrow> ms_closed q \<longrightarrow> False \<notin> contents m b)"

lemma closed_soundI:
  assumes "milestones_right {} b" and "contents m b' \<subseteq> contents m b" and "milestones b' = milestones b"
  shows "closed_sound m b'"
  using assms by (auto simp: closed_sound_def milestones_right_def calculate_milestone_iff)

lemma settled_sound:
  assumes d: "distinct (map st_id (stories b))" and r: "find_story (st_id r) b = Some r" and s: "closed_sound m b"
  shows "closed_sound m (settled r b)"
proof (cases "st_is_closed r = calculate_userstory_is_closed r b")
  case False
  let ?w = "write_story Update_Fields (set_closed (calculate_userstory_is_closed r b) (now b) r) b"
  let ?f = "follow_milestone (st_id r) (st_milestone_id r) ?w"
  show ?thesis
  proof (cases "st_milestone_id r = Some m")
    case True
    have "milestones_right (UNIV - {m}) (flipped r b)"
      using recalculated_right[of UNIV ?f m] True
      by (simp add: flipped_def recalculated_opt_def milestones_right_def)
    then show ?thesis
      using False by (auto simp: settled_def closed_sound_def milestones_right_def calculate_milestone_iff)
  next
    case other: False
    have "contents m (flipped r b) = contents m b"
      unfolding flipped_def same_items_calc(6)[OF recalculated_opt_same] follow_contents
      by (rule write_contents[OF d r other])
    moreover have "q \<in> set (milestones b)" if "q \<in> set (milestones (flipped r b))" "ms_id q = m" for q
      using that other
      by (auto simp: flipped_def recalculated_opt_def recalculated_eq set_update_rows split: option.splits if_splits)
    ultimately show ?thesis
      using s False by (auto simp: settled_def closed_sound_def)
  qed
qed (use s in \<open>simp add: settled_def\<close>)

lemma settled_id_sound:
  assumes "board_wf b" and "closed_sound m b"
  shows "closed_sound m (settled_id i b)"
proof (cases "find_story i b")
  case (Some r)
  then have "find_story (st_id r) b = Some r" using find_storyD[OF Some] by simp
  from settled_sound[OF wf_distinct[OF assms(1)] this assms(2)] show ?thesis by (simp add: settled_id_def Some)
qed (use assms(2) in \<open>simp add: settled_id_def\<close>)

lemma try_to_close_run:
  assumes wf: "board_wf b" "stories_right {} b" and M: "milestones_right Y b" "Y \<subseteq> set_option m"
    and sound: "\<And>x. m = Some x \<Longrightarrow> closed_sound x b"
  obtains b' where "try_to_close_milestone m b = (Inr (), b')" "board_ok b'" "same_items b b'"
proof (cases m)
  case None
  then show ?thesis
    using that[of b] wf M by (simp add: try_to_close_milestone_def retE_apply board_ok_def same_items.refl)
next
  case (Some x)
  show ?thesis
  proof (cases "find_milestone x b \<noteq> None \<and> calculate_milestone_is_closed x b")
    case True
    then have b': "close_milestone x b = recalculated x b" by (simp add: recalculated_def)
    have "milestones_right {} (recalculated x b)"
      using recalculated_right[OF M(1), of x] M(2) Some by (auto elim!: milestones_right_mono)
    then show ?thesis
      using that[of "recalculated x b"] Some True b' same_items_ok[OF recalculated_same wf]
      by (simp add: try_to_close_milestone_def recalculated_same)
  next
    case False
    have "ms_closed q = calculate_milestone_is_closed x b"
      if "q \<in> set (milestones b)" "ms_id q = x" "contents x b \<noteq> {}" for q
    proof -
      have "find_milestone x b \<noteq> None" using find_milestone_mem[of x b] that by auto
      then have "contents x b \<noteq> {True}" using False by (simp add: calculate_milestone_iff)
      then show ?thesis
        using sound[OF Some] that all_true[of "contents x b"] by (auto simp: closed_sound_def calculate_milestone_iff)
    qed
    then have "milestones_right {} b" using M Some unfolding milestones_right_def by fast
    then show ?thesis
      using that[of b] Some False wf by (auto simp: try_to_close_milestone_def board_ok_def same_items.refl)
  qed
qed

lemma delete_btask_run:
  assumes ok: "board_ok b" and t: "t \<in> set (btasks b)"
  obtains b' where "delete_btask (Suc (Suc d)) t b = (Inr (), b')" "board_ok b'"
proof -
  let ?ts = "filter (\<lambda>r. tk_id r \<noteq> tk_id t) (btasks b)"
  let ?b = "b\<lparr>btasks := ?ts\<rparr>"
  let ?b1 = "case tk_user_story_id t of None \<Rightarrow> ?b | Some i \<Rightarrow> settled_id i ?b"
  have wf: "board_wf b" "stories_right {} b" "milestones_right {} b" using ok by (simp_all add: board_ok_def)
  have wf': "board_wf ?b"
    by (rule wf_change_tasks[OF wf(1)]) (use wf(1) in \<open>auto simp: board_wf_def distinct_map_filter\<close>)
  have same: "\<forall>x. x \<notin> {x. tk_id x = tk_id t \<and> x \<in> set (btasks b)} \<longrightarrow> (x \<in> set ?ts \<longleftrightarrow> x \<in> set (btasks b))" by auto
  have one: "x = t" if "tk_id x = tk_id t" "x \<in> set (btasks b)" for x
    using that t wf(1) by (auto simp: board_wf_def distinct_map dest: inj_onD)
  then have "{x. tk_id x = tk_id t \<and> x \<in> set (btasks b)} = {t}" using t by blast
  note ch = change_tasks[where C = "{t}", OF same[unfolded this] HOL.refl]
  have S: "stories_right (set_option (tk_user_story_id t)) ?b" using ch(1)[OF wf(2)] by simp
  have M: "milestones_right (set_option (tk_milestone_id t)) ?b"
    using ch(2)[OF wf(3)] by (auto elim!: milestones_right_mono split: if_splits)
  have st: "statusless_open ?b" by (rule ch(3)[OF stories_right_statusless[OF wf(2)]])
  have sound: "closed_sound m ?b" for m
    by (rule closed_soundI[OF wf(3)]) (auto simp: contents_def task_is_closed_def issue_is_closed_def)
  have us: "set_option (tk_user_story_id t) \<subseteq> st_id ` set (stories ?b)"
    using wf(1) t by (auto simp: board_wf_def)
  have b1: "board_wf ?b1 \<and> stories_right {} ?b1 \<and> milestones_right (set_option (tk_milestone_id t)) ?b1 \<and> closed_sound m ?b1" for m
  proof (cases "tk_user_story_id t")
    case (Some i)
    then have i: "i \<in> st_id ` set (stories ?b)" using us by simp
    show ?thesis
      using settled_id_right(1)[OF wf', of i] settled_id_right(3)[OF wf' S i] settled_id_right(4)[OF wf' M, of i]
        settled_id_sound[OF wf' sound, of m i]
      by (simp add: Some)
  qed (use S M wf' sound in simp)
  have run: "(case tk_user_story_id t of None \<Rightarrow> retE ()
       | Some i \<Rightarrow> handleE (close_or_open_stored_userstory (Suc (Suc d)) i)
                    (\<lambda>e. if e = DoesNotExist then Some (retE ()) else None)) ?b = (Inr (), ?b1)"
    using stored_run[OF wf' st, of _ d] us by (auto simp: retE_apply handleE_apply split: option.split)
  obtain b' where "try_to_close_milestone (tk_milestone_id t) ?b1 = (Inr (), b')" "board_ok b'"
    using try_to_close_run[of ?b1 "set_option (tk_milestone_id t)" "tk_milestone_id t"] b1 by blast
  then show thesis
    using that[of b'] run by (simp add: delete_btask_def bindE_apply)
qed

lemma delete_userstory_run:
  assumes ok: "board_ok b" and us: "row us \<in> set (stories b)" "\<not> importing us"
  obtains b' where "delete_userstory us b = (Inr (), b')" "board_ok b'"
    "st_id (row us) \<notin> st_id ` set (stories b')" "\<forall>t \<in> set (btasks b'). tk_user_story_id t \<noteq> Some (st_id (row us))"
proof -
  let ?i = "st_id (row us)"
  let ?b = "b\<lparr>stories := filter (\<lambda>r. st_id r \<noteq> ?i) (stories b),
               btasks := filter (\<lambda>t. tk_user_story_id t \<noteq> Some ?i) (btasks b)\<rparr>"
  have wf: "board_wf b" "stories_right {} b" "milestones_right {} b" using ok by (simp_all add: board_ok_def)
  have "\<forall>t \<in> set (btasks ?b). \<forall>i. tk_user_story_id t = Some i \<longrightarrow> i \<in> st_id ` set (stories ?b)"
    using wf(1) by (fastforce simp: board_wf_def)
  then have wf': "board_wf ?b" using wf(1) by (auto simp: board_wf_def distinct_map_filter)
  have flags: "task_flags i ?b = task_flags i b" if "i \<noteq> ?i" for i
    using that by (auto simp: task_flags_def task_is_closed_def)
  have S: "stories_right {} ?b"
    using wf(2) flags by (auto simp: stories_right_def calculate_userstory_iff)
  have one: "r = row us" if "r \<in> set (stories b)" "st_id r = ?i" for r
    using that us(1) wf(1) by (auto simp: board_wf_def distinct_map dest: inj_onD)
  have M: "milestones_right (set_option (st_milestone_id (row us))) ?b"
  proof (rule milestones_cong[where Y = "{}" and b = b, OF _ _ _ wf(3)])
    fix m assume m: "m \<notin> set_option (st_milestone_id (row us))"
    have "{st_is_closed q | q. q \<in> set (stories ?b) \<and> st_milestone_id q = Some m}
        = {st_is_closed q | q. q \<in> set (stories b) \<and> st_milestone_id q = Some m}"
      by (rule compr_eq) (use m one in auto)
    moreover have "{task_is_closed t b | t. t \<in> set (btasks ?b) \<and> tk_milestone_id t = Some m \<and> tk_user_story_id t = None}
        = {task_is_closed t b | t. t \<in> set (btasks b) \<and> tk_milestone_id t = Some m \<and> tk_user_story_id t = None}"
      by (rule compr_eq) auto
    ultimately show "contents m ?b = contents m b"
      by (simp add: contents_def task_is_closed_def issue_is_closed_def)
  qed simp_all
  have sound: "closed_sound m ?b" for m
    by (rule closed_soundI[OF wf(3)]) (auto simp: contents_def task_is_closed_def issue_is_closed_def)
  obtain b' where b': "try_to_close_milestone (st_milestone_id (row us)) ?b = (Inr (), b')" "board_ok b'" "same_items ?b b'"
    using try_to_close_run[OF wf' S M order_refl sound] by blast
  have rows: "stories b' = stories ?b" "btasks b' = btasks ?b" using b'(3) by (simp_all add: same_items_def)
  show thesis
  proof (rule that[OF _ b'(2)])
    show "delete_userstory us b = (Inr (), b')" using b'(1) us(2) by (simp add: delete_userstory_def Let_def)
    show "?i \<notin> st_id ` set (stories b')" unfolding rows(1) by auto
    show "\<forall>t \<in> set (btasks b'). tk_user_story_id t \<noteq> Some ?i" unfolding rows(2) by simp
  qed
qed

lemma create_userstory_run:
  assumes ok: "board_ok b" and us: "\<not> importing us" and ex: "milestone_exists b (st_milestone_id (row us))"
  obtains us' b' where "create_userstory (Suc (Suc d)) us b = (Inr us', b')" "board_ok b'"
proof -
  define i where "i = Max (insert 0 (set (map st_id (stories b)))) + 1"
  let ?r = "(defaulted (row us) b)\<lparr>st_id := i\<rparr>"
  let ?us = "(with_default_us_status us b)\<lparr>row := ?r, prev := None\<rparr>"
  let ?b = "b\<lparr>stories := stories b @ [?r]\<rparr>"
  have wf: "board_wf b" "stories_right {} b" "milestones_right {} b" using ok by (simp_all add: board_ok_def)
  have i: "i \<notin> st_id ` set (stories b)" unfolding i_def by (rule fresh_id)
  have wf': "board_wf ?b" using wf(1) i ex by (auto simp: board_wf_def milestone_exists_def)
  have S: "stories_right {i} ?b"
    by (rule right_cong[where X = "{}" and b = b, OF _ _ _ _ wf(2)]) (auto simp: task_flags_def task_is_closed_def)
  have M: "milestones_right (set_option (st_milestone_id ?r)) ?b"
    by (rule milestones_cong[where Y = "{}" and b = b, OF _ _ _ wf(3)])
      (auto simp: contents_def task_is_closed_def issue_is_closed_def)
  have f: "find_story (st_id ?r) ?b = Some ?r"
    by (rule find_story_eq[OF wf_distinct[OF wf']]) simp
  have run: "create_userstory (Suc (Suc d)) us b
      = userstory_save_handlers (save_userstory (Suc (Suc d)) Update_Fields) True ?us ?b"
    by (simp add: create_userstory_def Let_def i_def row_with_default)
  have S': "stories_right {st_id ?r} ?b" using S by simp
  show thesis
    by (rule post_save_run[OF wf' f _ _ _ S' M, where us = ?us and d = d and pm = None and created = True])
      (use that run us defaulted_status in \<open>auto simp: milestone_exists_def\<close>)
qed

section \<open>Issues\<close>

lemma change_issues:
  assumes same: "\<forall>t. t \<notin> C \<longrightarrow> (t \<in> set xs \<longleftrightarrow> t \<in> set (issues b))" and b: "b' = b\<lparr>issues := xs\<rparr>"
  shows "stories_right X b \<Longrightarrow> stories_right X b'"
    and "milestones_right {} b \<Longrightarrow> milestones_right (\<Union>t \<in> C. set_option (is_milestone_id t)) b'"
proof -
  show "stories_right X b \<Longrightarrow> stories_right X b'"
    by (rule right_cong) (simp_all add: b task_flags_def task_is_closed_def)
  show "milestones_right {} b \<Longrightarrow> milestones_right (\<Union>t \<in> C. set_option (is_milestone_id t)) b'"
  proof (rule milestones_cong[where Y = "{}" and b = b])
    fix m assume m: "m \<notin> (\<Union>t \<in> C. set_option (is_milestone_id t))"
    have "{issue_is_closed t b | t. t \<in> set xs \<and> is_milestone_id t = Some m}
        = {issue_is_closed t b | t. t \<in> set (issues b) \<and> is_milestone_id t = Some m}"
      by (rule compr_eq) (use m same in force)
    then show "contents m b' = contents m b" by (simp add: contents_def task_is_closed_def issue_is_closed_def b)
  qed (simp_all add: b)
qed

lemma wf_change_issues:
  assumes "board_wf b" and "distinct (map is_id xs)"
    and "\<And>t. t \<in> set xs \<Longrightarrow> t \<in> set (issues b) \<or> milestone_exists b (is_milestone_id t)"
  shows "board_wf (b\<lparr>issues := xs\<rparr>)"
proof -
  have "\<forall>t \<in> set xs. \<forall>m. is_milestone_id t = Some m \<longrightarrow> m \<in> ms_id ` set (milestones b)"
    using assms(1,3) by (fastforce simp: board_wf_def milestone_exists_def)
  then show ?thesis using assms(1,2) by (simp add: board_wf_def)
qed

lemma issue_handlers_run:
  assumes wf: "board_wf b" "stories_right {} b"
    and M: "milestones_right Y b" "Y \<subseteq> set_option (is_milestone_id (row i)) \<union> set_option pm"
    and ms: "milestone_exists b (is_milestone_id (row i))" "milestone_exists b pm"
    and pm: "pm = (case prev i of None \<Rightarrow> None | Some r \<Rightarrow> is_milestone_id r)" and i: "\<not> importing i"
  obtains b' where "try_to_close_or_open_milestone_when_create_or_edit_issue i b = (Inr (), b')" "board_ok b'" "same_items b b'"
proof -
  let ?m = "is_milestone_id (row i)"
  let ?b = "recalculated_opt (if pm \<noteq> ?m then pm else None) (recalculated_opt ?m b)"
  have "m \<in> ms_id ` set (milestones b)" if "?m = Some m \<or> pm = Some m" for m
    using that ms by (auto simp: milestone_exists_def)
  from try_milestones_run[OF this]
  have run: "try_to_close_or_open_milestone_when_create_or_edit_issue i b = (Inr (), ?b)"
    using i pm by (simp add: try_to_close_or_open_milestone_when_create_or_edit_issue_def)
  note fin = recalculate_both[OF M HOL.refl]
  from that[OF run same_items_ok[OF fin(2) wf fin(1)] fin(2)] show thesis .
qed

definition stored_issue :: "issue \<Rightarrow> board \<Rightarrow> issue" where
  "stored_issue i b = set_finished_date_when_edit_issue (with_default_issue_status i b) b"

lemma stored_issue_sel [simp]:
  "is_id (stored_issue t b) = is_id t" "is_milestone_id (stored_issue t b) = is_milestone_id t"
  by (simp_all add: stored_issue_def set_finished_date_when_edit_issue_def with_default_issue_status_def)

lemma save_issue_run:
  assumes ok: "board_ok b" and old: "find_issue (is_id (row i)) b = Some old" and i: "\<not> importing i"
    and ex: "milestone_exists b (is_milestone_id (row i))"
  obtains b' where "save_issue i b = (Inr (), b')" "board_ok b'"
    "same_items (b\<lparr>issues := update_rows is_id (is_id (row i)) (\<lambda>_. stored_issue (row i) b) (issues b)\<rparr>) b'"
proof -
  let ?t = "stored_issue (row i) b"
  let ?ts = "update_rows is_id (is_id (row i)) (\<lambda>_. ?t) (issues b)"
  let ?b = "b\<lparr>issues := ?ts\<rparr>"
  have wf: "board_wf b" "stories_right {} b" "milestones_right {} b" using ok by (simp_all add: board_ok_def)
  have old': "old \<in> set (issues b)" "is_id old = is_id (row i)" using find_issueD[OF old] by auto
  have d: "distinct (map is_id (issues b))" using wf(1) by (simp add: board_wf_def)
  note set = set_replace[OF d old', of ?t]
  have wf': "board_wf ?b"
    by (rule wf_change_issues[OF wf(1)]) (use ex d in \<open>auto simp: set distinct_replace\<close>)
  have same: "\<forall>x. x \<notin> {?t, old} \<longrightarrow> (x \<in> set ?ts \<longleftrightarrow> x \<in> set (issues b))" by (simp add: set)
  note ch = change_issues[where C = "{?t, old}", OF same HOL.refl]
  have oldex: "milestone_exists b (is_milestone_id old)" using wf(1) old' by (auto simp: board_wf_def milestone_exists_def)
  have run: "save_issue i b
      = try_to_close_or_open_milestone_when_create_or_edit_issue (i\<lparr>row := ?t, prev := Some old\<rparr>) ?b"
    by (simp add: save_issue_def Let_def bindE_lift get_row_def old flip: stored_issue_def)
  show thesis
    by (rule issue_handlers_run[OF wf' ch(1)[OF wf(2)] ch(2)[OF wf(3)] _ _ _ HOL.refl, where i = "i\<lparr>row := ?t, prev := Some old\<rparr>"])
      (use that run ex oldex i in \<open>auto simp: milestone_exists_def\<close>)
qed

lemma create_issue_run:
  assumes ok: "board_ok b" and i: "\<not> importing i" and ex: "milestone_exists b (is_milestone_id (row i))"
  obtains b' where "create_issue i b = (Inr (), b')" "board_ok b'"
proof -
  define n where "n = Max (insert 0 (set (map is_id (issues b)))) + 1"
  let ?t = "(stored_issue (row i) b)\<lparr>is_id := n\<rparr>"
  let ?b = "b\<lparr>issues := issues b @ [?t]\<rparr>"
  have wf: "board_wf b" "stories_right {} b" "milestones_right {} b" using ok by (simp_all add: board_ok_def)
  have n: "n \<notin> is_id ` set (issues b)" unfolding n_def by (rule fresh_id)
  have wf': "board_wf ?b"
    by (rule wf_change_issues[OF wf(1)]) (use wf(1) ex n in \<open>auto simp: board_wf_def\<close>)
  have same: "\<forall>x. x \<notin> {?t} \<longrightarrow> (x \<in> set (issues b @ [?t]) \<longleftrightarrow> x \<in> set (issues b))" by simp
  note ch = change_issues[where C = "{?t}", OF same HOL.refl]
  have run: "create_issue i b = try_to_close_or_open_milestone_when_create_or_edit_issue (i\<lparr>row := ?t, prev := None\<rparr>) ?b"
    by (simp add: create_issue_def Let_def n_def flip: stored_issue_def)
  show thesis
    by (rule issue_handlers_run[OF wf' ch(1)[OF wf(2)] ch(2)[OF wf(3)] _ _ _ HOL.refl, where i = "i\<lparr>row := ?t, prev := None\<rparr>"])
      (use that run ex i in \<open>auto simp: milestone_exists_def\<close>)
qed

lemma delete_issue_run:
  assumes ok: "board_ok b" and i: "row i \<in> set (issues b)" "\<not> importing i"
  obtains b' where "delete_issue i b = (Inr (), b')" "board_ok b'"
proof -
  let ?xs = "filter (\<lambda>r. is_id r \<noteq> is_id (row i)) (issues b)"
  let ?b = "b\<lparr>issues := ?xs\<rparr>"
  have wf: "board_wf b" "stories_right {} b" "milestones_right {} b" using ok by (simp_all add: board_ok_def)
  have wf': "board_wf ?b"
    by (rule wf_change_issues[OF wf(1)]) (use wf(1) in \<open>auto simp: board_wf_def distinct_map_filter\<close>)
  have "x = row i" if "x \<in> set (issues b)" "is_id x = is_id (row i)" for x
    using that i(1) wf(1) by (auto simp: board_wf_def distinct_map dest: inj_onD)
  then have same: "\<forall>x. x \<notin> {row i} \<longrightarrow> (x \<in> set ?xs \<longleftrightarrow> x \<in> set (issues b))" by auto
  note ch = change_issues[where C = "{row i}", OF same HOL.refl]
  have sound: "closed_sound m ?b" for m
    by (rule closed_soundI[OF wf(3)]) (auto simp: contents_def task_is_closed_def issue_is_closed_def)
  have M: "milestones_right (set_option (is_milestone_id (row i))) ?b" using ch(2)[OF wf(3)] by simp
  obtain b' where "try_to_close_milestone (is_milestone_id (row i)) ?b = (Inr (), b')" "board_ok b'"
    using try_to_close_run[OF wf' ch(1)[OF wf(2)] M order_refl sound] by blast
  then show thesis using that[of b'] i(2) by (simp add: delete_issue_def Let_def)
qed

section \<open>Statuses\<close>

lemma settled_keeps_row:
  assumes "distinct (map st_id (stories b))" and "find_story (st_id r) b = Some r"
    and "find_story (st_id q) b = Some q" and "st_id q \<noteq> st_id r"
  shows "find_story (st_id q) (settled r b) = Some q"
proof (cases "st_is_closed r = calculate_userstory_is_closed r b")
  case False
  have d: "distinct (map st_id (stories (flipped r b)))"
    using flags_only_keys(1)[OF flags_only_flipped[OF assms(1,2)]] assms(1) by simp
  have "q \<in> set (stories (flipped r b))"
    using find_storyD[OF assms(3)] assms(4) by (force simp: flipped_stories[OF assms(1,2)])
  from find_story_eq[OF d this] show ?thesis using False by (simp add: settled_def)
qed (use assms(3) in \<open>simp add: settled_def\<close>)

text \<open>
  A loop over loaded stories whose body brings each of them up to date: every handler and
  service that runs over stories has a body of this kind.
\<close>

locale settling =
  fixes body :: "story \<Rightarrow> (board, unit) eff"
    and changes :: "board \<Rightarrow> board \<Rightarrow> bool"
  assumes changes_refl: "changes b b"
    and changes_trans: "changes b c \<Longrightarrow> changes c d \<Longrightarrow> changes b d"
    and body: "board_wf b \<Longrightarrow> statusless_open b \<Longrightarrow> find_story (st_id r) b = Some r \<Longrightarrow>
      \<exists>b'. body r b = (Inr (), b') \<and> board_wf b' \<and> statusless_open b' \<and> changes b b'
        \<and> (\<forall>X. stories_right X b \<longrightarrow> stories_right (X - {st_id r}) b')
        \<and> (\<forall>Y. milestones_right Y b \<longrightarrow> milestones_right Y b')
        \<and> (\<forall>q. st_id q \<noteq> st_id r \<longrightarrow> find_story (st_id q) b = Some q \<longrightarrow> find_story (st_id q) b' = Some q)"
begin

lemma settles_all:
  assumes "board_wf b" and "statusless_open b" and "stories_right X b" and "milestones_right Y b"
    and "distinct (map st_id rs)" and "\<forall>r \<in> set rs. find_story (st_id r) b = Some r"
  shows "\<exists>b'. forE rs body b = (Inr (), b') \<and> board_wf b' \<and> statusless_open b'
    \<and> stories_right (X - st_id ` set rs) b' \<and> milestones_right Y b' \<and> changes b b'"
  using assms
proof (induction rs arbitrary: b X)
  case Nil
  then show ?case by (simp add: retE_apply changes_refl)
next
  case (Cons r rs)
  have "find_story (st_id r) b = Some r" using Cons.prems(6) by simp
  from body[OF Cons.prems(1,2) this] obtain c where c: "body r b = (Inr (), c)" "board_wf c" "statusless_open c"
      "changes b c" "stories_right (X - {st_id r}) c" "milestones_right Y c"
      "\<And>q. st_id q \<noteq> st_id r \<Longrightarrow> find_story (st_id q) b = Some q \<Longrightarrow> find_story (st_id q) c = Some q"
    using Cons.prems(3,4) by blast
  have rows: "\<forall>q \<in> set rs. find_story (st_id q) c = Some q"
  proof
    fix q assume q: "q \<in> set rs"
    then have "st_id q \<noteq> st_id r" using Cons.prems(5) by (metis distinct.simps(2) image_eqI list.set_map list.simps(9))
    then show "find_story (st_id q) c = Some q" using c(7) Cons.prems(6) q by simp
  qed
  have "distinct (map st_id rs)" using Cons.prems(5) by simp
  from Cons.IH[OF c(2,3,5,6) this rows] obtain b' where b': "forE rs body c = (Inr (), b')" "board_wf b'"
    "statusless_open b'" "stories_right (X - {st_id r} - st_id ` set rs) b'" "milestones_right Y b'" "changes c b'" by blast
  have "X - {st_id r} - st_id ` set rs = X - st_id ` set (r # rs)" by auto
  then show ?case using b' c(1,4) changes_trans by (auto simp: bindE_apply)
qed

end

interpretation closing: settling "close_or_open_loaded_userstory (Suc (Suc depth))" flags_only for depth
proof unfold_locales
  fix b r assume b: "board_wf b" "statusless_open b" "find_story (st_id r) b = Some r"
  note d = wf_distinct[OF b(1)]
  show "\<exists>b'. close_or_open_loaded_userstory (Suc (Suc depth)) r b = (Inr (), b') \<and> board_wf b' \<and> statusless_open b'
      \<and> flags_only b b' \<and> (\<forall>X. stories_right X b \<longrightarrow> stories_right (X - {st_id r}) b')
      \<and> (\<forall>Y. milestones_right Y b \<longrightarrow> milestones_right Y b')
      \<and> (\<forall>q. st_id q \<noteq> st_id r \<longrightarrow> find_story (st_id q) b = Some q \<longrightarrow> find_story (st_id q) b' = Some q)"
    using loaded_run[OF b] settled_wf[OF b(1,3)] settled_statusless[OF d b(3,2)] settled_right[OF d b(3)]
      settled_keeps_row[OF d b(3)] by blast
qed (auto intro: flags_only.refl flags_only.trans)

lemmas close_or_open_all_run = closing.settles_all

lemma status_set_other: "s \<noteq> Some i \<Longrightarrow> status_is_closed (set_status i c rows) s = status_is_closed rows s"
proof (cases s)
  case (Some j)
  assume "s \<noteq> Some i"
  then have "map_of (set_status i c rows) j = map_of rows j"
    by (induction rows) (auto simp: set_status_def Some)
  then show ?thesis by (simp add: status_is_closed_def Some)
qed (simp add: status_is_closed_def)

lemma distinct_filter_stories: "board_wf b \<Longrightarrow> distinct (map st_id (filter P (stories b)))"
  by (simp add: board_wf_def distinct_map_filter)

lemma filter_found: "board_wf b \<Longrightarrow> \<forall>r \<in> set (filter P (stories b)). find_story (st_id r) b = Some r"
  by (simp add: find_story_eq wf_distinct)

lemma save_us_status_run:
  assumes ok: "board_ok b"
  obtains b' where "save_us_status (Suc (Suc d)) status c b = (Inr (), b')" "board_ok b'"
    "flags_only (b\<lparr>us_statuses := set_status status c (us_statuses b)\<rparr>) b'"
proof -
  let ?b = "b\<lparr>us_statuses := set_status status c (us_statuses b)\<rparr>"
  let ?rs = "filter (\<lambda>r. st_status_id r = Some status) (stories ?b)"
  have wf: "board_wf ?b" "statusless_open ?b" "milestones_right {} ?b"
    using ok stories_right_statusless
    by (auto simp: board_ok_def board_wf_def statusless_open_def milestones_right_def calculate_milestone_iff
        contents_def task_is_closed_def issue_is_closed_def)
  have S: "stories_right (st_id ` set ?rs) ?b"
    unfolding stories_right_def
  proof (intro ballI impI)
    fix r assume r: "r \<in> set (stories ?b)" "st_id r \<notin> st_id ` set ?rs"
    then have "st_status_id r \<noteq> Some status" by auto
    moreover have "task_flags (st_id r) ?b = task_flags (st_id r) b" by (simp add: task_flags_def task_is_closed_def)
    ultimately show "st_is_closed r = calculate_userstory_is_closed r ?b"
      using ok r(1) status_set_other[of "st_status_id r" status c "us_statuses b"]
      by (simp add: board_ok_def stories_right_def calculate_userstory_iff)
  qed
  from close_or_open_all_run[OF wf(1,2) S wf(3) distinct_filter_stories[OF wf(1), where P = "\<lambda>r. st_status_id r = Some status"] filter_found[OF wf(1)], where depth = d]
  obtain b' where b': "forE ?rs (close_or_open_loaded_userstory (Suc (Suc d))) ?b = (Inr (), b')" "board_wf b'"
      "stories_right {} b'" "milestones_right {} b'" "flags_only ?b b'" unfolding Diff_cancel by blast
  show thesis
    by (rule that[of b'])
      (use b' in \<open>simp_all add: save_us_status_def try_to_close_or_open_user_stories_when_edit_us_status_def board_ok_def\<close>)
qed

text \<open>After a task status was edited, milestones that hold tasks without a story may be wrong.\<close>

definition lone_task_milestones :: "int \<Rightarrow> board \<Rightarrow> int set" where
  "lone_task_milestones status b = {m. \<exists>t \<in> set (btasks b). tk_status_id t = Some status
     \<and> tk_user_story_id t = None \<and> tk_milestone_id t = Some m}"

lemma save_task_status_run:
  assumes ok: "board_ok b"
  obtains b' where "save_task_status (Suc (Suc d)) status c b = (Inr (), b')" "board_wf b'"
    "stories_right {} b'" "milestones_right (lone_task_milestones status b) b'"
    "flags_only (b\<lparr>task_statuses := set_status status c (task_statuses b)\<rparr>) b'"
proof -
  let ?b = "b\<lparr>task_statuses := set_status status c (task_statuses b)\<rparr>"
  let ?P = "\<lambda>r. list_ex (\<lambda>t. tk_status_id t = Some status) (tasks_of_story (st_id r) ?b)"
  let ?rs = "filter ?P (stories ?b)"
  have wf: "board_wf ?b" "statusless_open ?b"
    using ok stories_right_statusless by (auto simp: board_ok_def board_wf_def statusless_open_def)
  have same: "task_is_closed t ?b = task_is_closed t b" if "tk_status_id t \<noteq> Some status" for t
    using status_set_other[OF that] by (simp add: task_is_closed_def)
  have M: "milestones_right (lone_task_milestones status b) ?b"
  proof (rule milestones_cong[where Y = "{}" and b = b])
    fix m assume m: "m \<notin> lone_task_milestones status b"
    have "{task_is_closed t ?b | t. t \<in> set (btasks b) \<and> tk_milestone_id t = Some m \<and> tk_user_story_id t = None}
        = {task_is_closed t b | t. t \<in> set (btasks b) \<and> tk_milestone_id t = Some m \<and> tk_user_story_id t = None}"
      by (rule Collect_cong) (use same m in \<open>force simp: lone_task_milestones_def\<close>)
    then show "contents m ?b = contents m b" by (simp add: contents_def issue_is_closed_def)
  qed (use ok in \<open>simp_all add: board_ok_def\<close>)
  have S: "stories_right (st_id ` set ?rs) ?b"
    unfolding stories_right_def
  proof (intro ballI impI)
    fix r assume r: "r \<in> set (stories ?b)" "st_id r \<notin> st_id ` set ?rs"
    then have no: "\<not> ?P r" by auto
    have "task_flags (st_id r) ?b = task_flags (st_id r) b"
      unfolding task_flags_def
      by (rule Collect_cong) (use no same in \<open>force simp: list_ex_iff tasks_of_story_def\<close>)
    then show "st_is_closed r = calculate_userstory_is_closed r ?b"
      using ok r(1) by (simp add: board_ok_def stories_right_def calculate_userstory_iff)
  qed
  from close_or_open_all_run[OF wf(1,2) S M distinct_filter_stories[OF wf(1), where P = ?P] filter_found[OF wf(1)], where depth = d]
  obtain b' where b': "forE ?rs (close_or_open_loaded_userstory (Suc (Suc d))) ?b = (Inr (), b')" "board_wf b'"
      "stories_right {} b'" "milestones_right (lone_task_milestones status b) b'" "flags_only ?b b'" unfolding Diff_cancel by blast
  show thesis
    by (rule that[of b'])
      (use b' in \<open>simp_all add: save_task_status_def try_to_close_or_open_user_stories_when_edit_task_status_def\<close>)
qed

end
