(* ===== verification/Order_Updates.thy ===== *)
theory Order_Updates
  imports Prelude
begin

text \<open>
  Manual ordering, \<open>taiga/projects/services/bulk_update_order.py: apply_order_updates\<close>: given the
  order of all elements of a list and the new orders of some, the function shifts the others
  out of the way. The dictionaries of the source are association lists with distinct keys,
  in insertion order. The lemmas follow one element through the shifts; the properties of
  the whole are at the end.
\<close>

section \<open>The code\<close>

type_synonym orders = "(int \<times> int) list"

definition order_of :: "orders \<Rightarrow> int \<Rightarrow> int" where
  "order_of d i = the (map_of d i)"

definition put_order :: "int \<Rightarrow> int \<Rightarrow> orders \<Rightarrow> orders" where
  "put_order i order d = (if i \<in> fst ` set d
     then map (\<lambda>(j, old). if j = i then (j, order) else (j, old)) d else d @ [(i, order)])"

text \<open>Whether the element at \<open>order\<close> makes room for one moving from \<open>old_order\<close> to \<open>new_order\<close>.\<close>

definition makes_room :: "int \<Rightarrow> int \<Rightarrow> int \<Rightarrow> bool" where
  "makes_room new_order old_order order \<longleftrightarrow>
     (new_order \<le> old_order \<and> order \<ge> new_order \<and> order < old_order)
   \<or> (new_order \<ge> old_order \<and> order \<ge> new_order)"

definition shift_for :: "int \<times> int \<Rightarrow> orders \<Rightarrow> orders" where
  "shift_for new d = (case new of (i, new_order) \<Rightarrow>
     map (\<lambda>(j, order). if makes_room new_order (order_of d i) order then (j, order + 1) else (j, order)) d)"

definition shifted_ids :: "int \<times> int \<Rightarrow> orders \<Rightarrow> int list" where
  "shifted_ids new d = (case new of (i, new_order) \<Rightarrow>
     map fst (filter (\<lambda>(j, order). makes_room new_order (order_of d i) order) d))"

text \<open>The loop over the new orders; the second component are the \<open>updated_order_ids\<close>.\<close>

fun shift_all :: "orders \<Rightarrow> orders \<Rightarrow> int list \<Rightarrow> orders \<times> int list" where
  "shift_all [] d updated = (d, updated)"
| "shift_all (new # news) d updated = shift_all news (shift_for new d) (shifted_ids new d @ updated)"

text \<open>Overwriting the orders specified.\<close>

fun overwrite_all :: "orders \<Rightarrow> orders \<Rightarrow> int list \<Rightarrow> orders \<times> int list" where
  "overwrite_all [] d updated = (d, updated)"
| "overwrite_all ((i, order) # news) d updated =
     (if order_of d i \<noteq> order then overwrite_all news (put_order i order d) (i # updated)
      else overwrite_all news d updated)"

text \<open>The function changes \<open>base_orders\<close> in place; the model returns what it leaves there.\<close>

definition apply_order_updates :: "orders \<Rightarrow> orders \<Rightarrow> bool \<Rightarrow> orders" where
  "apply_order_updates base_orders new_orders remove_equal_original =
     (let valid_orders = filter (\<lambda>(i, _). i \<in> fst ` set base_orders) new_orders;
          (shifted, updated) = shift_all (sort_key snd valid_orders) base_orders [];
          (final, updated) = overwrite_all valid_orders shifted updated;
          changed = filter (\<lambda>(i, _). i \<in> set updated) final in
      if remove_equal_original
      then filter (\<lambda>(i, order). order_of base_orders i \<noteq> order) changed
      else changed)"

section \<open>One element through the shifts\<close>

definition shift1 :: "int \<Rightarrow> int \<Rightarrow> int \<Rightarrow> int" where
  "shift1 new_order old_order order = (if makes_room new_order old_order order then order + 1 else order)"

lemma shift1_mono: "x \<le> y \<Longrightarrow> shift1 n o' x \<le> shift1 n o' y"
  by (auto simp: shift1_def makes_room_def)

lemma shift1_ge: "x \<le> shift1 n o' x"
  by (simp add: shift1_def)

text \<open>Away from the old place of the moved element the shift is injective and avoids the new place.\<close>

lemma shift1_strict: "x < y \<Longrightarrow> y \<noteq> o' \<Longrightarrow> shift1 n o' x < shift1 n o' y"
  by (auto simp: shift1_def makes_room_def)

lemma shift1_avoids: "x \<noteq> o' \<Longrightarrow> shift1 n o' x \<noteq> n"
  by (auto simp: shift1_def makes_room_def)

lemma shift1_keeps_avoiding: "x \<noteq> m \<Longrightarrow> m \<le> n \<Longrightarrow> shift1 n o' x \<noteq> m \<or> m = n"
  by (auto simp: shift1_def makes_room_def)

lemma keys_shift_for [simp]: "map fst (shift_for new d) = map fst d"
  by (cases new) (auto simp: shift_for_def split_beta)

lemma order_of_map_key:
  "i \<in> fst ` set d \<Longrightarrow> order_of (map (\<lambda>(j, order). (j, f j order)) d) i = f i (order_of d i)"
  by (induction d) (auto simp: order_of_def)

lemmas order_of_map = order_of_map_key[where f = "\<lambda>_. f" for f]

lemma order_of_shift:
  "j \<in> fst ` set d \<Longrightarrow> order_of (shift_for (i, n) d) j = shift1 n (order_of d i) (order_of d j)"
proof -
  assume j: "j \<in> fst ` set d"
  have "shift_for (i, n) d = map (\<lambda>(j, order). (j, shift1 n (order_of d i) order)) d"
    by (auto simp: shift_for_def shift1_def)
  then show ?thesis by (simp add: order_of_map[OF j])
qed

lemma set_keys_shift [simp]: "fst ` set (shift_for new d) = fst ` set d"
  using keys_shift_for[of new d] by (metis list.set_map)

lemma keys_shift_all: "map fst (fst (shift_all news d u)) = map fst d"
  by (induction news arbitrary: d u) simp_all

lemma set_keys_shift_all [simp]: "fst ` set (fst (shift_all news d u)) = fst ` set d"
  using keys_shift_all[of news d u] by (metis list.set_map)

lemma shift_all_mono:
  "x \<in> fst ` set d \<Longrightarrow> y \<in> fst ` set d \<Longrightarrow> order_of d x \<le> order_of d y \<Longrightarrow>
     order_of (fst (shift_all news d u)) x \<le> order_of (fst (shift_all news d u)) y"
proof (induction news arbitrary: d u)
  case (Cons new news)
  obtain i n where new: "new = (i, n)" by (cases new)
  have "order_of (shift_for new d) x \<le> order_of (shift_for new d) y"
    using Cons.prems by (simp add: new order_of_shift shift1_mono)
  then show ?case using Cons.IH[of "shift_for new d" "shifted_ids new d @ u"] Cons.prems by simp
qed simp

lemma shift_all_ge:
  "x \<in> fst ` set d \<Longrightarrow> order_of d x \<le> order_of (fst (shift_all news d u)) x"
proof (induction news arbitrary: d u)
  case (Cons new news)
  obtain i n where new: "new = (i, n)" by (cases new)
  have "order_of d x \<le> order_of (shift_for new d) x"
    using Cons.prems by (simp add: new order_of_shift shift1_ge)
  also have "\<dots> \<le> order_of (fst (shift_all news (shift_for new d) (shifted_ids new d @ u))) x"
    by (rule Cons.IH) (use Cons.prems in simp)
  finally show ?case by simp
qed simp

text \<open>
  The elements that do not move: as long as their orders, and those of the elements still to
  be moved, differ, they stay strictly ordered, and none of them takes a requested order.
\<close>

lemma shift_all_strict:
  assumes "distinct (map fst news)" and "fst ` set news \<subseteq> fst ` set d" and "rest \<subseteq> fst ` set d"
    and "rest \<inter> fst ` set news = {}" and "inj_on (order_of d) (rest \<union> fst ` set news)"
    and "x \<in> rest" and "y \<in> rest" and "order_of d x < order_of d y"
  shows "order_of (fst (shift_all news d u)) x < order_of (fst (shift_all news d u)) y"
  using assms
proof (induction news arbitrary: d u)
  case (Cons new news)
  obtain i n where new: "new = (i, n)" by (cases new)
  let ?d = "shift_for new d"
  let ?live = "rest \<union> fst ` set news"
  have mem: "?live \<subseteq> fst ` set d" using Cons.prems(2,3) by auto
  have old: "order_of d z \<noteq> order_of d i" if "z \<in> ?live" for z
  proof
    assume "order_of d z = order_of d i"
    then have "z = i" using Cons.prems(5) that by (auto simp: new inj_on_def)
    then show False using that Cons.prems(1,4) new by auto
  qed
  have strict: "order_of ?d a < order_of ?d b" if "a \<in> ?live" "b \<in> ?live" "order_of d a < order_of d b" for a b
  proof -
    have "a \<in> fst ` set d" "b \<in> fst ` set d" using that mem by blast+
    then show ?thesis using that(3) old[OF that(2)] by (simp add: new order_of_shift shift1_strict)
  qed
  have "inj_on (order_of ?d) ?live"
  proof (rule inj_onI)
    fix a b assume ab: "a \<in> ?live" "b \<in> ?live" "order_of ?d a = order_of ?d b"
    then have "order_of d a = order_of d b" using strict[of a b] strict[of b a] by (metis less_irrefl neqE)
    then show "a = b" using Cons.prems(5) ab(1,2) by (auto simp: inj_on_def)
  qed
  moreover have "order_of ?d x < order_of ?d y" using strict Cons.prems(6-8) by blast
  ultimately show ?case
    using Cons.IH[of ?d "shifted_ids new d @ u"] Cons.prems by auto
qed simp

text \<open>With the new orders in ascending order, what does not move keeps clear of all of them.\<close>

lemma shift_all_avoids:
  assumes "distinct (map fst news)" and "fst ` set news \<subseteq> fst ` set d" and "rest \<subseteq> fst ` set d"
    and "rest \<inter> fst ` set news = {}" and "inj_on (order_of d) (rest \<union> fst ` set news)"
    and "sorted (map snd news)" and "x \<in> rest"
    and "m \<in> snd ` set news \<or> (order_of d x \<noteq> m \<and> (\<forall>n \<in> snd ` set news. m \<le> n))"
  shows "order_of (fst (shift_all news d u)) x \<noteq> m"
  using assms
proof (induction news arbitrary: d u)
  case (Cons new news)
  obtain i n where new: "new = (i, n)" by (cases new)
  let ?d = "shift_for new d"
  have x: "x \<in> fst ` set d" "x \<noteq> i" using Cons.prems(3,4,7) by (auto simp: new)
  have old: "order_of d z \<noteq> order_of d i" if "z \<in> rest \<union> fst ` set news" for z
  proof
    assume "order_of d z = order_of d i"
    moreover have "i \<in> rest \<union> fst ` set (new # news)" "z \<in> rest \<union> fst ` set (new # news)"
      using that by (auto simp: new)
    ultimately have "z = i" using inj_onD[OF Cons.prems(5)] by metis
    then show False using that Cons.prems(1,4) by (auto simp: new)
  qed
  have at: "order_of ?d x = shift1 n (order_of d i) (order_of d x)" using x by (simp add: new order_of_shift)
  have inj: "inj_on (order_of ?d) (rest \<union> fst ` set news)"
  proof (rule inj_onI)
    fix a b assume ab: "a \<in> rest \<union> fst ` set news" "b \<in> rest \<union> fst ` set news" "order_of ?d a = order_of ?d b"
    have mem: "a \<in> fst ` set d" "b \<in> fst ` set d" using ab Cons.prems(2,3) by auto
    have "order_of d a = order_of d b"
      using ab(3) mem shift1_strict[OF _ old[OF ab(2)], of "order_of d a" n]
        shift1_strict[OF _ old[OF ab(1)], of "order_of d b" n]
      unfolding new order_of_shift[OF mem(1)] order_of_shift[OF mem(2)] by linarith
    then show "a = b" using inj_onD[OF Cons.prems(5), of a b] ab(1,2) by auto
  qed
  have rest: "m \<in> snd ` set news \<or> (order_of ?d x \<noteq> m \<and> (\<forall>n \<in> snd ` set news. m \<le> n))"
  proof (cases "m \<in> snd ` set news")
    case False
    have n: "\<forall>n' \<in> snd ` set news. n \<le> n'" using Cons.prems(6) by (auto simp: new)
    show ?thesis
    proof (cases "m = n")
      case True
      then show ?thesis using n at shift1_avoids[OF old, of x n] Cons.prems(7) by simp
    next
      case neq: False
      then have "order_of d x \<noteq> m" "\<forall>n' \<in> snd ` set (new # news). m \<le> n'"
        using Cons.prems(8) False by (auto simp: new)
      then show ?thesis
        using neq at shift1_keeps_avoiding[of "order_of d x" m n "order_of d i"] by (simp add: new)
    qed
  qed simp
  have prems: "distinct (map fst news)" "fst ` set news \<subseteq> fst ` set ?d" "rest \<subseteq> fst ` set ?d"
      "rest \<inter> fst ` set news = {}" "sorted (map snd news)"
    using Cons.prems(1-4,6) by auto
  show ?case using Cons.IH[OF prems(1-4) inj prems(5) Cons.prems(7) rest] by simp
qed simp

section \<open>Overwriting and removing\<close>

lemma keys_put [simp]: "i \<in> fst ` set d \<Longrightarrow> map fst (put_order i n d) = map fst d"
  by (auto simp: put_order_def split_beta)

lemma order_of_put:
  "i \<in> fst ` set d \<Longrightarrow> j \<in> fst ` set d \<Longrightarrow> order_of (put_order i n d) j = (if j = i then n else order_of d j)"
proof -
  assume "i \<in> fst ` set d" and j: "j \<in> fst ` set d"
  then have "put_order i n d = map (\<lambda>(j, old). (j, if j = i then n else old)) d"
    by (auto simp: put_order_def)
  then show ?thesis by (simp add: order_of_map_key[OF j, of "\<lambda>j old. if j = i then n else old"])
qed

lemma set_keys_put [simp]: "i \<in> fst ` set d \<Longrightarrow> fst ` set (put_order i n d) = fst ` set d"
  using keys_put[of i d n] by (metis list.set_map)

lemma keys_overwrite: "fst ` set news \<subseteq> fst ` set d \<Longrightarrow> map fst (fst (overwrite_all news d u)) = map fst d"
  by (induction news d u rule: overwrite_all.induct) auto

lemma order_of_overwrite:
  "distinct (map fst news) \<Longrightarrow> fst ` set news \<subseteq> fst ` set d \<Longrightarrow> j \<in> fst ` set d \<Longrightarrow>
     order_of (fst (overwrite_all news d u)) j = (case map_of news j of Some n \<Rightarrow> n | None \<Rightarrow> order_of d j)"
proof (induction news d u rule: overwrite_all.induct)
  case (2 i n news d u)
  have i: "map_of news i = None" "i \<in> fst ` set d" using 2(3,4) by (simp_all add: map_of_eq_None_iff)
  show ?case
  proof (cases "order_of d i \<noteq> n")
    case True
    then have "order_of (fst (overwrite_all ((i, n) # news) d u)) j
        = (case map_of news j of Some n \<Rightarrow> n | None \<Rightarrow> order_of (put_order i n d) j)"
      using 2(1)[OF True] 2(3-5) i by simp
    then show ?thesis using i 2(5) by (simp add: order_of_put split: option.split)
  qed (use 2 i in \<open>auto split: option.split\<close>)
qed simp

lemma updated_mono: "set u \<subseteq> set (snd (overwrite_all news d u))"
  by (induction news d u rule: overwrite_all.induct) auto

lemma shift_updated_mono: "set u \<subseteq> set (snd (shift_all news d u))"
  by (induction news d u rule: shift_all.induct) (auto simp: subset_iff)

text \<open>What no loop marked as updated has its order still.\<close>

lemma shift_unmarked:
  "j \<in> fst ` set d \<Longrightarrow> distinct (map fst d) \<Longrightarrow> j \<notin> set (snd (shift_all news d u)) \<Longrightarrow>
     order_of (fst (shift_all news d u)) j = order_of d j"
proof (induction news arbitrary: d u)
  case (Cons new news)
  obtain i n where new: "new = (i, n)" by (cases new)
  have "j \<notin> set (shifted_ids new d)"
    using Cons.prems(3) shift_updated_mono[of "shifted_ids new d @ u" news "shift_for new d"] by auto
  moreover have "(j, order_of d j) \<in> set d"
    using Cons.prems(1,2) by (auto simp: order_of_def)
  ultimately have "\<not> makes_room n (order_of d i) (order_of d j)"
    unfolding new shifted_ids_def by force
  then have "order_of (shift_for new d) j = order_of d j"
    using Cons.prems(1) by (simp add: new order_of_shift shift1_def)
  moreover have "order_of (fst (shift_all news (shift_for new d) (shifted_ids new d @ u))) j
      = order_of (shift_for new d) j"
    by (rule Cons.IH) (use Cons.prems in simp_all)
  ultimately show ?case by simp
qed simp

lemma overwrite_unmarked:
  "j \<in> fst ` set d \<Longrightarrow> fst ` set news \<subseteq> fst ` set d \<Longrightarrow> j \<notin> set (snd (overwrite_all news d u)) \<Longrightarrow>
     order_of (fst (overwrite_all news d u)) j = order_of d j \<and> j \<notin> set u"
proof (induction news d u rule: overwrite_all.induct)
  case (2 i n news d u)
  show ?case
  proof (cases "order_of d i \<noteq> n")
    case True
    then show ?thesis using 2 updated_mono[of "i # u" news "put_order i n d"] by (auto simp: order_of_put)
  qed (use 2 in simp)
qed simp

section \<open>The order every element ends with\<close>

text \<open>The order after a run: what the result says, and the old one for the elements it leaves out.\<close>

definition ending_order :: "orders \<Rightarrow> orders \<Rightarrow> int \<Rightarrow> int" where
  "ending_order base result i = (case map_of result i of Some order \<Rightarrow> order | None \<Rightarrow> order_of base i)"

lemma map_of_filter_distinct:
  assumes "distinct (map fst xs)"
  shows "map_of (filter P xs) k =
     (case map_of xs k of Some order \<Rightarrow> if P (k, order) then Some order else None | None \<Rightarrow> None)"
  using assms
proof (induction xs)
  case (Cons x xs)
  obtain a v where x: "x = (a, v)" by (cases x)
  show ?case
  proof (cases "k = a")
    case True
    then have "map_of xs k = None" using Cons.prems by (simp add: x map_of_eq_None_iff)
    then show ?thesis using Cons True by (simp add: x)
  qed (use Cons in \<open>simp add: x\<close>)
qed simp

definition valid_orders :: "orders \<Rightarrow> orders \<Rightarrow> orders" where
  "valid_orders base new = filter (\<lambda>(i, _). i \<in> fst ` set base) new"

lemma keys_valid: "fst ` set (valid_orders base new) = fst ` set new \<inter> fst ` set base"
  by (force simp: valid_orders_def)

lemma distinct_valid: "distinct (map fst new) \<Longrightarrow> distinct (map fst (valid_orders base new))"
  unfolding valid_orders_def by (induction new) auto

lemma map_of_valid:
  "distinct (map fst new) \<Longrightarrow> i \<in> fst ` set base \<Longrightarrow> map_of (valid_orders base new) i = map_of new i"
  by (simp add: valid_orders_def map_of_filter_distinct split: option.split)

definition after_shifts :: "orders \<Rightarrow> orders \<Rightarrow> orders" where
  "after_shifts base new = fst (shift_all (sort_key snd (valid_orders base new)) base [])"

lemma keys_after_shifts: "fst ` set (after_shifts base new) = fst ` set base"
  by (simp add: after_shifts_def)

lemma ending_order_eq:
  assumes base: "distinct (map fst base)" and new: "distinct (map fst new)" and i: "i \<in> fst ` set base"
  shows "ending_order base (apply_order_updates base new rm) i
       = (case map_of new i of Some order \<Rightarrow> order | None \<Rightarrow> order_of (after_shifts base new) i)"
proof -
  let ?v = "valid_orders base new"
  obtain shifted marked where sh: "shift_all (sort_key snd ?v) base [] = (shifted, marked)" by fastforce
  obtain final updated where fi: "overwrite_all ?v shifted marked = (final, updated)" by fastforce
  have keys: "map fst shifted = map fst base" "fst ` set shifted = fst ` set base"
    using keys_shift_all[of "sort_key snd ?v" base "[]"] set_keys_shift_all[of "sort_key snd ?v" base "[]"] sh by simp_all
  have sub: "fst ` set ?v \<subseteq> fst ` set shifted" by (simp add: keys keys_valid)
  have fkeys: "map fst final = map fst base" using keys_overwrite[OF sub, of marked] fi keys by simp
  have order: "order_of final i = (case map_of new i of Some order \<Rightarrow> order | None \<Rightarrow> order_of shifted i)"
    using order_of_overwrite[OF distinct_valid[OF new] sub, of i marked] fi i keys map_of_valid[OF new i] by simp
  have at: "map_of final i = Some (order_of final i)"
  proof -
    have "i \<in> fst ` set final" using i arg_cong[OF fkeys, of set] by simp
    then show ?thesis by (auto simp: order_of_def weak_map_of_SomeI)
  qed
  have unmarked: "order_of final i = order_of base i" if "i \<notin> set updated"
  proof -
    have u: "order_of final i = order_of shifted i" "i \<notin> set marked"
      using overwrite_unmarked[OF _ sub, of i marked] that fi i keys by simp_all
    then show ?thesis using shift_unmarked[OF i base, of "sort_key snd ?v" "[]"] sh by simp
  qed
  have "apply_order_updates base new rm = (let changed = filter (\<lambda>(i, _). i \<in> set updated) final in
      if rm then filter (\<lambda>(i, order). order_of base i \<noteq> order) changed else changed)"
    by (simp add: apply_order_updates_def valid_orders_def[symmetric] sh fi)
  then have "ending_order base (apply_order_updates base new rm) i = order_of final i"
    using base fkeys at unmarked
    by (auto simp: ending_order_def Let_def map_of_filter_distinct distinct_map_filter split: option.split)
  moreover have "after_shifts base new = shifted" by (simp add: after_shifts_def sh)
  ultimately show ?thesis using order by (simp only:)
qed

lemma keys_apply_order_updates: "fst ` set (apply_order_updates base new rm) \<subseteq> fst ` set base"
proof -
  let ?v = "valid_orders base new"
  obtain shifted marked where sh: "shift_all (sort_key snd ?v) base [] = (shifted, marked)" by fastforce
  obtain final updated where fi: "overwrite_all ?v shifted marked = (final, updated)" by fastforce
  have keys: "map fst shifted = map fst base" "fst ` set shifted = fst ` set base"
    using keys_shift_all[of "sort_key snd ?v" base "[]"] set_keys_shift_all[of "sort_key snd ?v" base "[]"] sh by simp_all
  have sub: "fst ` set ?v \<subseteq> fst ` set shifted" by (simp add: keys keys_valid)
  have "map fst final = map fst base" using keys_overwrite[OF sub, of marked] fi keys by simp
  then have "fst ` set final = fst ` set base" by (metis list.set_map)
  then show ?thesis by (auto simp: apply_order_updates_def valid_orders_def[symmetric] sh fi Let_def)
qed

lemma ending_order_distinct:
  assumes base: "distinct (map fst base)" and new: "distinct (map fst new)"
    and orders: "inj_on (order_of base) (fst ` set base)"
    and i: "i \<in> fst ` set base - fst ` set new" and j: "j \<in> fst ` set base - fst ` set new"
  shows "order_of base i < order_of base j \<Longrightarrow>
      order_of (after_shifts base new) i < order_of (after_shifts base new) j"
    and "m \<in> snd ` set (valid_orders base new) \<Longrightarrow> order_of (after_shifts base new) i \<noteq> m"
proof -
  let ?news = "sort_key snd (valid_orders base new)"
  let ?rest = "fst ` set base - fst ` set new"
  have news: "distinct (map fst ?news)" "fst ` set ?news \<subseteq> fst ` set base" "?rest \<inter> fst ` set ?news = {}"
      "inj_on (order_of base) (?rest \<union> fst ` set ?news)" "sorted (map snd ?news)"
    using distinct_valid[OF new, of base] keys_valid[of base new] inj_on_subset[OF orders]
    by (auto simp: distinct_map sorted_sort_key)
  show "order_of base i < order_of base j \<Longrightarrow>
      order_of (after_shifts base new) i < order_of (after_shifts base new) j"
    using shift_all_strict[OF news(1,2) _ news(3,4) i j] by (auto simp: after_shifts_def)
  show "m \<in> snd ` set (valid_orders base new) \<Longrightarrow> order_of (after_shifts base new) i \<noteq> m"
    using shift_all_avoids[OF news(1,2) _ news(3,4,5) i] by (auto simp: after_shifts_def)
qed

text \<open>Two elements share a place only when they did before or two requests share one.\<close>

lemma ending_order_inj:
  assumes base: "distinct (map fst base)" and new: "distinct (map fst new)"
    and orders: "inj_on (order_of base) (fst ` set base)"
    and requests: "inj_on (order_of new) (fst ` set base \<inter> fst ` set new)"
  shows "inj_on (ending_order base (apply_order_updates base new rm)) (fst ` set base)"
proof (rule inj_onI)
  let ?ids = "fst ` set base"
  let ?ending = "ending_order base (apply_order_updates base new rm)"
  let ?after = "order_of (after_shifts base new)"
  note eq = ending_order_eq[OF base new] and strict = ending_order_distinct[OF base new orders]
  have other: "?ending i = ?after i" if "i \<in> ?ids - fst ` set new" for i
    using that by (simp add: eq map_of_eq_None_iff[THEN iffD2])
  have req: "?ending i = order_of new i \<and> ?ending i \<in> snd ` set (valid_orders base new)"
    if i: "i \<in> ?ids" and i_new: "i \<in> fst ` set new" for i
  proof -
    obtain order where order: "(i, order) \<in> set new" using i_new by force
    then have "map_of new i = Some order" using new by simp
    moreover have "order \<in> snd ` set (valid_orders base new)"
      using order i by (force simp: valid_orders_def)
    ultimately show ?thesis using i by (simp add: eq order_of_def)
  qed
  have apart: "?ending i \<noteq> ?ending j"
    if i: "i \<in> ?ids" "i \<in> fst ` set new" and j: "j \<in> ?ids" "j \<notin> fst ` set new" for i j
  proof -
    have j': "j \<in> ?ids - fst ` set new" using j by blast
    show ?thesis using strict(2)[OF j' j', of "?ending i"] req[OF i] unfolding other[OF j'] by metis
  qed
  fix i j assume ij: "i \<in> ?ids" "j \<in> ?ids" "?ending i = ?ending j"
  show "i = j"
  proof (cases "i \<in> fst ` set new \<or> j \<in> fst ` set new")
    case True
    then have "i \<in> fst ` set new" "j \<in> fst ` set new" using apart[of i j] apart[of j i] ij by metis+
    then show ?thesis using req[of i] req[of j] ij inj_onD[OF requests] by simp
  next
    case False
    then have i: "i \<in> ?ids - fst ` set new" and j: "j \<in> ?ids - fst ` set new" using ij by blast+
    have "?after i = ?after j" using ij(3) unfolding other[OF i] other[OF j] .
    then have "order_of base i = order_of base j" using strict(1)[OF i j] strict(1)[OF j i] by linarith
    then show ?thesis using ij inj_onD[OF orders] by simp
  qed
qed

section \<open>The specification of the shifts\<close>

text \<open>
  One request, an element and the order it is to have, as a function on the orders of all
  elements: those from the new order on move up by one, but, when the element moves towards
  the front, only those before the place it leaves.
\<close>

definition make_room_for :: "int \<times> int \<Rightarrow> (int \<Rightarrow> int) \<Rightarrow> int \<Rightarrow> int" where
  "make_room_for request orders j = (case request of (i, n) \<Rightarrow>
     if n \<le> orders j \<and> (orders i \<le> n \<or> orders j < orders i) then orders j + 1 else orders j)"

lemma shift_all_eq_fold:
  "fst ` set news \<subseteq> fst ` set d \<Longrightarrow> (\<And>k. k \<in> fst ` set d \<Longrightarrow> order_of d k = f k) \<Longrightarrow> j \<in> fst ` set d \<Longrightarrow>
     order_of (fst (shift_all news d u)) j = fold make_room_for news f j"
proof (induction news arbitrary: d u f)
  case (Cons new news)
  obtain i n where new: "new = (i, n)" by (cases new)
  have "order_of (shift_for new d) k = make_room_for new f k" if "k \<in> fst ` set d" for k
    using that Cons.prems(1) Cons.prems(2)[of k] Cons.prems(2)[of i]
    by (auto simp: new order_of_shift make_room_for_def shift1_def makes_room_def)
  then show ?case using Cons.IH[of "shift_for new d" "make_room_for new f" "shifted_ids new d @ u"] Cons.prems by simp
qed simp

lemma ending_order_others:
  assumes "distinct (map fst base)" and "distinct (map fst new)" and "i \<in> fst ` set base - fst ` set new"
  shows "ending_order base (apply_order_updates base new rm) i
       = fold make_room_for (sort_key snd (valid_orders base new)) (order_of base) i"
proof -
  have "map_of new i = None" using assms(3) by (simp add: map_of_eq_None_iff)
  moreover have "order_of (after_shifts base new) i
      = fold make_room_for (sort_key snd (valid_orders base new)) (order_of base) i"
    unfolding after_shifts_def by (rule shift_all_eq_fold) (use assms(3) in \<open>auto simp: keys_valid\<close>)
  ultimately show ?thesis using assms by (simp add: ending_order_eq)
qed

text \<open>What the function returns: every element with another order, and nothing else when asked so.\<close>

lemma keys_returned:
  assumes base: "distinct (map fst base)"
  shows "distinct (map fst (apply_order_updates base new rm))"
    and "rm \<Longrightarrow> (i, order) \<in> set (apply_order_updates base new rm) \<Longrightarrow> order \<noteq> order_of base i"
proof -
  let ?v = "valid_orders base new"
  obtain shifted marked where sh: "shift_all (sort_key snd ?v) base [] = (shifted, marked)" by fastforce
  obtain final updated where fi: "overwrite_all ?v shifted marked = (final, updated)" by fastforce
  have keys: "map fst shifted = map fst base" "fst ` set shifted = fst ` set base"
    using keys_shift_all[of "sort_key snd ?v" base "[]"] set_keys_shift_all[of "sort_key snd ?v" base "[]"] sh by simp_all
  have sub: "fst ` set ?v \<subseteq> fst ` set shifted" by (simp add: keys keys_valid)
  have "distinct (map fst final)" using keys_overwrite[OF sub, of marked] fi keys base by simp
  then show "distinct (map fst (apply_order_updates base new rm))"
    by (simp add: apply_order_updates_def valid_orders_def[symmetric] sh fi Let_def distinct_map_filter)
  show "rm \<Longrightarrow> (i, order) \<in> set (apply_order_updates base new rm) \<Longrightarrow> order \<noteq> order_of base i"
    by (auto simp: apply_order_updates_def valid_orders_def[symmetric] sh fi Let_def)
qed

lemma changed_returned:
  assumes base: "distinct (map fst base)"
  shows "i \<in> fst ` set base \<Longrightarrow> ending_order base (apply_order_updates base new rm) i \<noteq> order_of base i \<Longrightarrow>
      i \<in> fst ` set (apply_order_updates base new rm)"
    and "rm \<Longrightarrow> i \<in> fst ` set (apply_order_updates base new rm) \<Longrightarrow>
      ending_order base (apply_order_updates base new rm) i \<noteq> order_of base i"
proof -
  let ?r = "apply_order_updates base new rm"
  show "ending_order base ?r i \<noteq> order_of base i \<Longrightarrow> i \<in> fst ` set ?r"
    by (auto simp: ending_order_def map_of_eq_None_iff split: option.splits dest: map_of_SomeD intro: rev_image_eqI)
  assume rm: "rm" and "i \<in> fst ` set ?r"
  then obtain order where order: "(i, order) \<in> set ?r" by force
  then have "ending_order base ?r i = order" using keys_returned(1)[OF base] by (simp add: ending_order_def)
  then show "ending_order base ?r i \<noteq> order_of base i" using keys_returned(2)[OF base rm order] by simp
qed

section \<open>Properties\<close>

text \<open>C6: Reordering does what its callers rely on. Every element of the list that was given an
  order ends with exactly that order. The others make room for one request after the other,
  by ascending requested order: a request moves up by one the elements from the requested
  order on, and when the element moves towards the front only those before the place it
  leaves; every other element keeps its order (written out for a single request, and as the
  composition of the single steps for several). So no other element moves down, and the
  others stay in the order they were in. When the old orders are pairwise different and so
  are the requested ones, all orders are pairwise different afterwards. The result names
  every element whose order changed, each once, and with \<open>remove_equal_original\<close> exactly
  those. Requested elements that are not in the list are ignored.\<close>

theorem apply_order_updates_correct:
  assumes "distinct (map fst base)" and "distinct (map fst new)"
  shows "let result = apply_order_updates base new rm;
             ending = ending_order base result;
             old = order_of base;
             ids = fst ` set base; others = ids - fst ` set new in
      (\<forall>i \<in> ids. \<forall>order. (i, order) \<in> set new \<longrightarrow> ending i = order)
    \<and> (\<forall>i \<in> others. ending i = fold make_room_for (sort_key snd (valid_orders base new)) old i)
    \<and> (\<forall>k n. new = [(k, n)] \<and> k \<in> ids \<longrightarrow> (\<forall>i \<in> others.
          ending i = (if n \<le> old i \<and> (old k \<le> n \<or> old i < old k) then old i + 1 else old i)))
    \<and> (\<forall>i \<in> others. old i \<le> ending i)
    \<and> (\<forall>i \<in> others. \<forall>j \<in> others. old i \<le> old j \<longrightarrow> ending i \<le> ending j)
    \<and> (inj_on old ids \<and> inj_on (order_of new) (ids \<inter> fst ` set new) \<longrightarrow> inj_on ending ids)
    \<and> distinct (map fst result) \<and> {i \<in> ids. ending i \<noteq> old i} \<subseteq> fst ` set result \<and> fst ` set result \<subseteq> ids
    \<and> (rm \<longrightarrow> fst ` set result = {i \<in> ids. ending i \<noteq> old i})"
proof -
  let ?ids = "fst ` set base"
  let ?ending = "ending_order base (apply_order_updates base new rm)"
  let ?after = "order_of (after_shifts base new)"
  have requested: "?ending i = order" if "i \<in> ?ids" "(i, order) \<in> set new" for i order
    using that assms(2) by (simp add: ending_order_eq[OF assms])
  have other: "?ending i = ?after i" if "i \<in> ?ids - fst ` set new" for i
    using that by (simp add: ending_order_eq[OF assms] map_of_eq_None_iff[THEN iffD2])
  have grows: "order_of base i \<le> ?after i" if "i \<in> ?ids" for i
    using shift_all_ge[OF that] by (simp add: after_shifts_def)
  have mono: "?after i \<le> ?after j" if "i \<in> ?ids" "j \<in> ?ids" "order_of base i \<le> order_of base j" for i j
    using shift_all_mono[OF that] by (simp add: after_shifts_def)
  have one: "?ending i = (if n \<le> order_of base i \<and> (order_of base k \<le> n \<or> order_of base i < order_of base k)
      then order_of base i + 1 else order_of base i)"
    if "new = [(k, n)]" "k \<in> ?ids" "i \<in> ?ids - fst ` set new" for k n i
    using that(1,2) ending_order_others[OF assms that(3)] by (simp add: valid_orders_def make_room_for_def)
  have changed: "{i \<in> ?ids. ?ending i \<noteq> order_of base i} \<subseteq> fst ` set (apply_order_updates base new rm)"
    using changed_returned(1)[OF assms(1)] by (intro subsetI) simp
  have exact: "rm \<longrightarrow> fst ` set (apply_order_updates base new rm) = {i \<in> ?ids. ?ending i \<noteq> order_of base i}"
  proof (intro impI equalityI changed subsetI CollectI conjI)
    fix i assume rm: "rm" and i: "i \<in> fst ` set (apply_order_updates base new rm)"
    show "i \<in> ?ids" using i keys_apply_order_updates by (rule rev_subsetD)
    show "?ending i \<noteq> order_of base i" using rm i by (rule changed_returned(2)[OF assms(1)])
  qed
  show ?thesis
    unfolding Let_def
  proof (intro conjI)
    show "\<forall>i \<in> ?ids - fst ` set new. order_of base i \<le> ?ending i" using other grows by simp
    show "\<forall>i \<in> ?ids - fst ` set new. \<forall>j \<in> ?ids - fst ` set new. order_of base i \<le> order_of base j
        \<longrightarrow> ?ending i \<le> ?ending j" using other mono by simp
    show "\<forall>i \<in> ?ids. \<forall>order. (i, order) \<in> set new \<longrightarrow> ?ending i = order" using requested by simp
    show "\<forall>i \<in> ?ids - fst ` set new. ?ending i
        = fold make_room_for (sort_key snd (valid_orders base new)) (order_of base) i"
      using ending_order_others[OF assms] by simp
    show "inj_on (order_of base) ?ids \<and> inj_on (order_of new) (?ids \<inter> fst ` set new) \<longrightarrow> inj_on ?ending ?ids"
      using ending_order_inj[OF assms] by simp
  qed (use one in simp, rule keys_returned(1)[OF assms(1)], rule changed, rule keys_apply_order_updates, rule exact)
qed

theorem apply_order_updates_correct_witness:
  "let base = [(1, 1), (2, 2), (3, 3), (4, 4), (5, 5)]; result = apply_order_updates base [(4, 2), (9, 7)] True in
     result = [(2, 3), (3, 4), (4, 2)] \<and> inj_on (ending_order base result) {1, 2, 3, 4, 5}"
proof -
  have "apply_order_updates [(1, 1), (2, 2), (3, 3), (4, 4), (5, 5)] [(4, 2), (9, 7)] True = [(2, 3), (3, 4), (4, 2)]"
    by code_simp
  then show ?thesis
    using apply_order_updates_correct[of "[(1, 1), (2, 2), (3, 3), (4, 4), (5, 5)]" "[(4, 2), (9, 7)]" True]
    by (simp add: Let_def order_of_def ending_order_def)
qed

end
