(* ===== verification/Board_Order.thy ===== *)
theory Board_Order
  imports Board_Steps Order_Updates
begin

text \<open>
  Moving items on the backlog, the kanban board and the taskboard: the bulk services of
  \<open>userstories/services.py\<close>, \<open>tasks/services.py\<close>, \<open>epics/services.py\<close> and \<open>milestones/services.py\<close>,
  and the validators of the two requests that move stories next to another one. The two
  services that move stories place them by numbering the rest of the column anew; the
  others shift by \<open>apply_order_updates\<close>. Updates deferred to the commit of the transaction
  are made where they are requested, as nothing reads the columns in between.
\<close>

section \<open>Columns and updates\<close>

datatype us_order_field = Backlog_Order | Sprint_Order | Kanban_Order

fun get_order :: "us_order_field \<Rightarrow> story \<Rightarrow> int" where
  "get_order Backlog_Order r = st_backlog_order r"
| "get_order Sprint_Order r = st_sprint_order r"
| "get_order Kanban_Order r = st_kanban_order r"

fun put_story_order :: "us_order_field \<Rightarrow> int \<Rightarrow> story \<Rightarrow> story" where
  "put_story_order Backlog_Order n r = r\<lparr>st_backlog_order := n\<rparr>"
| "put_story_order Sprint_Order n r = r\<lparr>st_sprint_order := n\<rparr>"
| "put_story_order Kanban_Order n r = r\<lparr>st_kanban_order := n\<rparr>"

text \<open>An update joined to a list of values; ids without a row have no effect.\<close>

definition update_story_orders :: "us_order_field \<Rightarrow> orders \<Rightarrow> board \<Rightarrow> board" where
  "update_story_orders field values b = b\<lparr>stories := map (\<lambda>r. case map_of values (st_id r) of
     Some n \<Rightarrow> put_story_order field n r | None \<Rightarrow> r) (stories b)\<rparr>"

datatype task_order_field = Us_Order | Taskboard_Order

fun get_task_order :: "task_order_field \<Rightarrow> btask \<Rightarrow> int" where
  "get_task_order Us_Order t = tk_us_order t"
| "get_task_order Taskboard_Order t = tk_taskboard_order t"

fun put_task_order :: "task_order_field \<Rightarrow> int \<Rightarrow> btask \<Rightarrow> btask" where
  "put_task_order Us_Order n t = t\<lparr>tk_us_order := n\<rparr>"
| "put_task_order Taskboard_Order n t = t\<lparr>tk_taskboard_order := n\<rparr>"

definition update_task_orders :: "task_order_field \<Rightarrow> orders \<Rightarrow> board \<Rightarrow> board" where
  "update_task_orders field values b = b\<lparr>btasks := map (\<lambda>t. case map_of values (tk_id t) of
     Some n \<Rightarrow> put_task_order field n t | None \<Rightarrow> t) (btasks b)\<rparr>"

definition emit_for_ids :: "int list \<Rightarrow> string \<Rightarrow> int \<Rightarrow> board \<Rightarrow> board" where
  "emit_for_ids ids content_type project b = b\<lparr>sent := sent b @ [(content_type, ids, project)]\<rparr>"

text \<open>A dictionary built from pairs: a repeated key keeps its place and takes the last value.\<close>

definition dict_of :: "orders \<Rightarrow> orders" where
  "dict_of ps = fold (\<lambda>(i, n). put_order i n) ps []"

section \<open>Shifting\<close>

definition update_userstories_order_in_bulk ::
    "orders \<Rightarrow> us_order_field \<Rightarrow> int \<Rightarrow> int option \<Rightarrow> int option \<Rightarrow> board \<Rightarrow> orders \<times> board" where
  "update_userstories_order_in_bulk bulk_data field project status milestone b =
     (let user_stories = filter (\<lambda>r. st_project_id r = project
            \<and> (status \<noteq> None \<longrightarrow> st_status_id r = status)
            \<and> (milestone \<noteq> None \<longrightarrow> st_milestone_id r = milestone)) (stories b);
          us_orders = map (\<lambda>r. (st_id r, get_order field r)) user_stories;
          us_orders = apply_order_updates us_orders (dict_of bulk_data) True
      in (us_orders, update_story_orders field us_orders
                       (emit_for_ids (map fst us_orders) ''userstories.userstory'' project b)))"

definition update_tasks_order_in_bulk ::
    "orders \<Rightarrow> task_order_field \<Rightarrow> int \<Rightarrow> int option \<Rightarrow> int option \<Rightarrow> int option \<Rightarrow> board \<Rightarrow> orders \<times> board" where
  "update_tasks_order_in_bulk bulk_data field project user_story status milestone b =
     (let tasks = filter (\<lambda>t. tk_project_id t = project
            \<and> (user_story \<noteq> None \<longrightarrow> tk_user_story_id t = user_story)
            \<and> (status \<noteq> None \<longrightarrow> tk_status_id t = status)
            \<and> (milestone \<noteq> None \<longrightarrow> tk_milestone_id t = milestone)) (btasks b);
          task_orders = map (\<lambda>t. (tk_id t, get_task_order field t)) tasks;
          task_orders = apply_order_updates task_orders (dict_of bulk_data) False
      in (task_orders, update_task_orders field task_orders
                         (emit_for_ids (map fst task_orders) ''tasks.task'' project b)))"

text \<open>
  Moving items into a milestone: the new orders are put into the base before they are
  applied, so the function sees the moved items at their new place already.
\<close>

definition milestone_orders :: "orders \<Rightarrow> orders \<Rightarrow> orders" where
  "milestone_orders base bulk_data =
     apply_order_updates (fold (\<lambda>(i, n). put_order i n) bulk_data base) (dict_of bulk_data) False"

definition update_userstories_milestone_in_bulk :: "orders \<Rightarrow> milestone \<Rightarrow> board \<Rightarrow> orders \<times> board" where
  "update_userstories_milestone_in_bulk bulk_data milestone b =
     (let us_orders = milestone_orders
            (map (\<lambda>r. (st_id r, st_sprint_order r)) (stories_of_milestone (ms_id milestone) b)) bulk_data;
          moved = map fst (dict_of bulk_data);
          b = emit_for_ids moved ''userstories.userstory'' (ms_project_id milestone) b;
          b = b\<lparr>stories := map (\<lambda>r. if st_id r \<in> set moved
                   then r\<lparr>st_milestone_id := Some (ms_id milestone)\<rparr> else r) (stories b)\<rparr>;
          b = update_story_orders Sprint_Order us_orders b;
          b = b\<lparr>btasks := map (\<lambda>t. case tk_user_story_id t of
                   Some i \<Rightarrow> if i \<in> set moved then t\<lparr>tk_milestone_id := Some (ms_id milestone)\<rparr> else t
                 | None \<Rightarrow> t) (btasks b)\<rparr>
      in (us_orders, b))"

definition update_tasks_milestone_in_bulk :: "orders \<Rightarrow> milestone \<Rightarrow> board \<Rightarrow> orders \<times> board" where
  "update_tasks_milestone_in_bulk bulk_data milestone b =
     (let task_orders = milestone_orders
            (map (\<lambda>t. (tk_id t, tk_taskboard_order t))
              (filter (\<lambda>t. tk_milestone_id t = Some (ms_id milestone)) (btasks b))) bulk_data;
          moved = map fst (dict_of bulk_data);
          b = emit_for_ids moved ''tasks.task'' (ms_project_id milestone) b;
          b = b\<lparr>btasks := map (\<lambda>t. if tk_id t \<in> set moved
                   then t\<lparr>tk_milestone_id := Some (ms_id milestone)\<rparr> else t) (btasks b)\<rparr>
      in (map (\<lambda>i. (i, ms_id milestone)) moved, update_task_orders Taskboard_Order task_orders b))"

section \<open>Placing\<close>

text \<open>
  The part the two moving services share: from the rows of the column without the moved
  stories, those that have to make room, in their order, after the moved ones, numbered
  from the start order.
\<close>

definition rows_after :: "us_order_field \<Rightarrow> story option \<Rightarrow> story option \<Rightarrow> story list \<Rightarrow> story list" where
  "rows_after field before_us after_us rows = (case before_us of
     Some before_us \<Rightarrow> filter (\<lambda>r. get_order field r \<ge> get_order field before_us) rows
   | None \<Rightarrow> (case after_us of
       Some after_us \<Rightarrow> filter (\<lambda>r. st_id r \<noteq> st_id after_us \<and> get_order field r \<ge> get_order field after_us) rows
     | None \<Rightarrow> rows))"

definition start_order :: "us_order_field \<Rightarrow> story option \<Rightarrow> story option \<Rightarrow> int" where
  "start_order field before_us after_us = (case before_us of
     Some before_us \<Rightarrow> get_order field before_us
   | None \<Rightarrow> (case after_us of Some after_us \<Rightarrow> get_order field after_us + 1 | None \<Rightarrow> 1))"

definition placed_orders :: "us_order_field \<Rightarrow> int list \<Rightarrow> story option \<Rightarrow> story option \<Rightarrow> story list \<Rightarrow> orders" where
  "placed_orders field bulk before_us after_us rows =
     (let rest = sort_key (\<lambda>r. (get_order field r, st_id r)) (rows_after field before_us after_us rows);
          ids = bulk @ map st_id rest;
          start = start_order field before_us after_us
      in zip ids [start..start + int (length ids) - 1])"

definition snapshot_story :: "story \<Rightarrow> (board, unit) eff" where
  "snapshot_story r = (\<lambda>b. (Inr (), note_snapshot ''userstories.userstory'' (st_id r) b))"

definition kanban_column :: "int \<Rightarrow> int \<Rightarrow> int option \<Rightarrow> board \<Rightarrow> story list" where
  "kanban_column project status swimlane b =
     filter (\<lambda>r. st_project_id r = project \<and> st_status_id r = Some status \<and> st_swimlane_id r = swimlane) (stories b)"

text \<open>
  The work after a move. With \<open>CELERY_ENABLED\<close> the code hands it to a worker (\<open>delay\<close>), which does
  it some time after the answer; modelled is the other branch, which does it at once.
\<close>

definition async_tasks_after_kanban_order_change :: "nat \<Rightarrow> int list \<Rightarrow> (board, unit) eff" where
  "async_tasks_after_kanban_order_change depth ids = (\<lambda>b.
     forE (filter (\<lambda>r. st_id r \<in> set ids) (stories b)) (\<lambda>r.
       bindE (recalculate_is_closed_for_userstory_and_its_milestone depth (loaded r)) (\<lambda>_. snapshot_story r)) b)"

text \<open>The result is the response: id, swimlane, status and order of every story that was written.\<close>

definition update_userstories_kanban_order_in_bulk ::
    "nat \<Rightarrow> int \<Rightarrow> int \<Rightarrow> int list \<Rightarrow> story option \<Rightarrow> story option \<Rightarrow> int option \<Rightarrow>
     (board, (int \<times> int option \<times> int \<times> int) list) eff" where
  "update_userstories_kanban_order_in_bulk depth project status bulk before_us after_us swimlane = (\<lambda>b.
     let rows = filter (\<lambda>r. st_id r \<notin> set bulk) (kanban_column project status swimlane b);
         data = placed_orders Kanban_Order bulk before_us after_us rows;
         b = update_story_orders Kanban_Order data b;
         b = b\<lparr>stories := map (\<lambda>r. if st_project_id r = project \<and> st_id r \<in> set bulk
                 then r\<lparr>st_status_id := Some status, st_swimlane_id := swimlane\<rparr> else r) (stories b)\<rparr>
     in bindE (async_tasks_after_kanban_order_change depth bulk) (\<lambda>_ b.
          (Inr (map (\<lambda>(i, n). (i, swimlane, status, n)) data),
           emit_for_ids (map fst data) ''userstories.userstory'' project b)) b)"

definition backlog_column :: "int \<Rightarrow> int option \<Rightarrow> board \<Rightarrow> story list" where
  "backlog_column project milestone b =
     filter (\<lambda>r. st_project_id r = project \<and> st_milestone_id r = milestone) (stories b)"

definition backlog_field :: "int option \<Rightarrow> us_order_field" where
  "backlog_field milestone = (if milestone = None then Backlog_Order else Sprint_Order)"

definition async_tasks_after_backlog_or_sprint_order_change :: "int list \<Rightarrow> int set \<Rightarrow> (board, unit) eff" where
  "async_tasks_after_backlog_or_sprint_order_change ids milestone_ids = (\<lambda>b.
     bindE (forE (filter (\<lambda>r. st_id r \<in> set ids) (stories b)) (\<lambda>r.
       bindE (snapshot_story r) (\<lambda>_ b.
         (Inr (), fold (\<lambda>t. note_snapshot ''tasks.task'' (tk_id t)) (tasks_of_story (st_id r) b) b)))) (\<lambda>_ b.
     forE (filter (\<lambda>m. m \<in> milestone_ids) (map ms_id (milestones b))) recalculate_is_closed_for_milestone b) b)"

text \<open>The milestones of the moved stories, before the move, and the one they go to.\<close>

definition milestones_affected :: "int \<Rightarrow> int list \<Rightarrow> int option \<Rightarrow> board \<Rightarrow> int set" where
  "milestones_affected project bulk milestone b =
     {m \<in> ms_id ` set (filter (\<lambda>q. ms_project_id q = project) (milestones b)).
        list_ex (\<lambda>r. st_id r \<in> set bulk \<and> st_milestone_id r = Some m) (stories b)} \<union> set_option milestone"

definition update_userstories_backlog_or_sprint_order_in_bulk ::
    "int \<Rightarrow> int list \<Rightarrow> story option \<Rightarrow> story option \<Rightarrow> int option \<Rightarrow>
     (board, (int \<times> int option \<times> int) list) eff" where
  "update_userstories_backlog_or_sprint_order_in_bulk project bulk before_us after_us milestone = (\<lambda>b.
     let milestones_ids = milestones_affected project bulk milestone b;
         rows = filter (\<lambda>r. st_id r \<notin> set bulk) (backlog_column project milestone b);
         data = placed_orders (backlog_field milestone) bulk before_us after_us rows;
         b = update_story_orders (backlog_field milestone) data b;
         b = b\<lparr>stories := map (\<lambda>r. if st_project_id r = project \<and> st_id r \<in> set bulk
                 then r\<lparr>st_milestone_id := milestone\<rparr> else r) (stories b),
               btasks := map (\<lambda>t. if tk_project_id t = project \<and> (\<exists>i \<in> set bulk. tk_user_story_id t = Some i)
                 then t\<lparr>tk_milestone_id := milestone\<rparr> else t) (btasks b)\<rparr>
     in bindE (async_tasks_after_backlog_or_sprint_order_change bulk milestones_ids) (\<lambda>_ b.
          (Inr (map (\<lambda>(i, n). (i, milestone, n)) data),
           emit_for_ids (map fst data) ''userstories.userstory'' project b)) b)"

definition reset_userstories_kanban_order_in_bulk :: "int \<Rightarrow> int list \<Rightarrow> board \<Rightarrow> board" where
  "reset_userstories_kanban_order_in_bulk project bulk b =
     (let base_order = now b;
          data = map (\<lambda>(index, i). (i, base_order + index)) (zip [0..int (length bulk) - 1] bulk)
      in emit_for_ids bulk ''userstories.userstory'' project (update_story_orders Kanban_Order data b))"

section \<open>Validating the requests\<close>

text \<open>
  The requests after their fields were read. An optional field is \<open>None\<close> when it is not in the
  request; one given as null is \<open>Some None\<close>.
\<close>

record move_request =
  mv_project_id :: int
  mv_status_id :: int
  mv_swimlane_id :: "int option option"
  mv_milestone_id :: "int option option"
  mv_after_userstory_id :: "int option option"
  mv_before_userstory_id :: "int option option"
  mv_bulk_userstories :: "int list"

definition attr_get :: "int option option \<Rightarrow> int option" where
  "attr_get a = (case a of Some v \<Rightarrow> v | None \<Rightarrow> None)"

definition truthy_id :: "int option \<Rightarrow> bool" where
  "truthy_id v \<longleftrightarrow> v \<noteq> None \<and> v \<noteq> Some 0"

text \<open>
  The projects, and the statuses and swimlanes with their projects, are looked up in tables of
  their own; \<open>lk_blocked\<close> and \<open>lk_archived\<close> are the projects with a blocking or archiving code.
\<close>

record lookups =
  lk_projects :: "int list"
  lk_us_statuses :: "(int \<times> int) list"
  lk_task_statuses :: "(int \<times> int) list"
  lk_swimlanes :: "(int \<times> int) list"
  lk_blocked :: "int list"
  lk_archived :: "int list"

definition validate_project_id :: "lookups \<Rightarrow> move_request \<Rightarrow> bool" where
  "validate_project_id lk r \<longleftrightarrow> mv_project_id r \<in> set (lk_projects lk)"

definition validate_status_id :: "lookups \<Rightarrow> move_request \<Rightarrow> bool" where
  "validate_status_id lk r \<longleftrightarrow> (mv_status_id r, mv_project_id r) \<in> set (lk_us_statuses lk)"

definition kanban_validate_swimlane_id :: "lookups \<Rightarrow> move_request \<Rightarrow> bool" where
  "kanban_validate_swimlane_id lk r \<longleftrightarrow> (case mv_swimlane_id r of None \<Rightarrow> True | Some None \<Rightarrow> False
     | Some (Some i) \<Rightarrow> (i, mv_project_id r) \<in> set (lk_swimlanes lk))"

text \<open>The stories a story may be placed next to.\<close>

definition kanban_neighbour :: "move_request \<Rightarrow> int \<Rightarrow> board \<Rightarrow> bool" where
  "kanban_neighbour r i b \<longleftrightarrow> list_ex (\<lambda>s. st_id s = i \<and> st_project_id s = mv_project_id r
     \<and> st_status_id s = Some (mv_status_id r)
     \<and> (if truthy_id (attr_get (mv_swimlane_id r)) then st_swimlane_id s = attr_get (mv_swimlane_id r)
        else st_swimlane_id s = None)) (stories b)"

definition backlog_neighbour :: "move_request \<Rightarrow> int \<Rightarrow> board \<Rightarrow> bool" where
  "backlog_neighbour r i b \<longleftrightarrow> list_ex (\<lambda>s. st_id s = i \<and> st_project_id s = mv_project_id r
     \<and> (if truthy_id (attr_get (mv_milestone_id r)) then st_milestone_id s = attr_get (mv_milestone_id r)
        else st_milestone_id s = None)) (stories b)"

definition validate_after_userstory_id :: "(int \<Rightarrow> bool) \<Rightarrow> move_request \<Rightarrow> bool" where
  "validate_after_userstory_id neighbour r \<longleftrightarrow> (case attr_get (mv_after_userstory_id r) of None \<Rightarrow> True | Some i \<Rightarrow> neighbour i)"

definition validate_before_userstory_id :: "(int \<Rightarrow> bool) \<Rightarrow> move_request \<Rightarrow> bool" where
  "validate_before_userstory_id neighbour r \<longleftrightarrow> (case mv_before_userstory_id r of None \<Rightarrow> True
     | Some before_us \<Rightarrow>
         if truthy_id (attr_get (mv_after_userstory_id r)) \<and> truthy_id before_us then False
         else (case before_us of None \<Rightarrow> True | Some i \<Rightarrow> neighbour i))"

definition validate_bulk_userstories :: "move_request \<Rightarrow> board \<Rightarrow> bool" where
  "validate_bulk_userstories r b \<longleftrightarrow>
     length (filter (\<lambda>s. st_project_id s = mv_project_id r \<and> st_id s \<in> set (mv_bulk_userstories r)) (stories b))
       = length (mv_bulk_userstories r)"

definition kanban_order_bulk_valid :: "lookups \<Rightarrow> move_request \<Rightarrow> board \<Rightarrow> bool" where
  "kanban_order_bulk_valid lk r b \<longleftrightarrow> list_all (\<lambda>i. i \<ge> 1) (mv_bulk_userstories r) \<and> validate_project_id lk r
     \<and> validate_status_id lk r \<and> kanban_validate_swimlane_id lk r
     \<and> validate_after_userstory_id (\<lambda>i. kanban_neighbour r i b) r
     \<and> validate_before_userstory_id (\<lambda>i. kanban_neighbour r i b) r \<and> validate_bulk_userstories r b"

definition backlog_validate_milestone_id :: "move_request \<Rightarrow> board \<Rightarrow> bool" where
  "backlog_validate_milestone_id r b \<longleftrightarrow> (case attr_get (mv_milestone_id r) of None \<Rightarrow> True
     | Some i \<Rightarrow> i = 0 \<or> list_ex (\<lambda>m. ms_id m = i \<and> ms_project_id m = mv_project_id r) (milestones b))"

definition backlog_order_bulk_valid :: "lookups \<Rightarrow> move_request \<Rightarrow> board \<Rightarrow> bool" where
  "backlog_order_bulk_valid lk r b \<longleftrightarrow> list_all (\<lambda>i. i \<ge> 1) (mv_bulk_userstories r) \<and> validate_project_id lk r
     \<and> backlog_validate_milestone_id r b
     \<and> validate_after_userstory_id (\<lambda>i. backlog_neighbour r i b) r
     \<and> validate_before_userstory_id (\<lambda>i. backlog_neighbour r i b) r \<and> validate_bulk_userstories r b"

end
