(* ===== verification/Board_Api.thy ===== *)
theory Board_Api
  imports Board_Order Permissions
begin

text \<open>
  The endpoints that move user stories and tasks: \<open>bulk_update_backlog_order\<close>,
  \<open>bulk_update_kanban_order\<close> and \<open>bulk_update_milestone\<close> of \<open>userstories/api.py\<close>,
  \<open>bulk_update_milestone\<close>, \<open>bulk_update_taskboard_order\<close> and \<open>bulk_update_us_order\<close> of
  \<open>tasks/api.py\<close>, with the validators of the last four. The permissions are those of
  \<open>Permissions\<close>; the texts of the validation errors are left out.
\<close>

section \<open>Validators\<close>

record milestone_request =
  bm_project_id :: int
  bm_milestone_id :: int
  bm_bulk :: orders

definition validate_milestone_of_project :: "int \<Rightarrow> int \<Rightarrow> board \<Rightarrow> bool" where
  "validate_milestone_of_project project i b \<longleftrightarrow>
     list_ex (\<lambda>m. ms_id m = i \<and> ms_project_id m = project) (milestones b)"

definition us_milestone_bulk_valid :: "lookups \<Rightarrow> milestone_request \<Rightarrow> board \<Rightarrow> bool" where
  "us_milestone_bulk_valid lk r b \<longleftrightarrow> bm_project_id r \<in> set (lk_projects lk)
     \<and> validate_milestone_of_project (bm_project_id r) (bm_milestone_id r) b
     \<and> length (filter (\<lambda>s. st_project_id s = bm_project_id r \<and> st_id s \<in> set (map fst (bm_bulk r))) (stories b))
         = length (bm_bulk r)"

definition task_milestone_bulk_valid :: "lookups \<Rightarrow> milestone_request \<Rightarrow> board \<Rightarrow> bool" where
  "task_milestone_bulk_valid lk r b \<longleftrightarrow> bm_project_id r \<in> set (lk_projects lk)
     \<and> validate_milestone_of_project (bm_project_id r) (bm_milestone_id r) b
     \<and> length (filter (\<lambda>t. tk_project_id t = bm_project_id r \<and> tk_id t \<in> set (map fst (bm_bulk r))) (btasks b))
         = length (bm_bulk r)"

record task_order_request =
  to_project_id :: int
  to_status_id :: "int option option"
  to_us_id :: "int option option"
  to_milestone_id :: "int option option"
  to_bulk :: orders

text \<open>A filter on a column of the request, when the request has it.\<close>

definition given_filter :: "int option option \<Rightarrow> int option \<Rightarrow> bool" where
  "given_filter attr v \<longleftrightarrow> (case attr of None \<Rightarrow> True | Some w \<Rightarrow> v = w)"

definition task_order_bulk_valid :: "lookups \<Rightarrow> task_order_request \<Rightarrow> board \<Rightarrow> bool" where
  "task_order_bulk_valid lk r b \<longleftrightarrow> to_project_id r \<in> set (lk_projects lk)
     \<and> (case to_status_id r of None \<Rightarrow> True | Some None \<Rightarrow> False
        | Some (Some i) \<Rightarrow> (i, to_project_id r) \<in> set (lk_task_statuses lk))
     \<and> (case to_us_id r of None \<Rightarrow> True | Some None \<Rightarrow> False
        | Some (Some i) \<Rightarrow> list_ex (\<lambda>s. st_id s = i \<and> st_project_id s = to_project_id r
              \<and> given_filter (to_milestone_id r) (st_milestone_id s)) (stories b))
     \<and> (case to_milestone_id r of None \<Rightarrow> True | Some None \<Rightarrow> False
        | Some (Some i) \<Rightarrow> validate_milestone_of_project (to_project_id r) i b)
     \<and> length (filter (\<lambda>t. tk_project_id t = to_project_id r \<and> given_filter (to_status_id r) (tk_status_id t)
            \<and> given_filter (to_us_id r) (tk_user_story_id t) \<and> given_filter (to_milestone_id r) (tk_milestone_id t)
            \<and> tk_id t \<in> set (map fst (to_bulk r))) (btasks b)) = length (to_bulk r)"

section \<open>Views\<close>

text \<open>The answer of an endpoint that returns: its result, or status 400.\<close>

datatype 'a answer = Done 'a | Invalid_Request

text \<open>\<open>if id is not None: x = get_object_or_error(...)\<close>, with \<open>x = None\<close> before it\<close>

definition get_optional :: "user \<Rightarrow> (int \<Rightarrow> 's \<Rightarrow> 'a option) \<Rightarrow> int option \<Rightarrow> ('s, 'a option) qry" where
  "get_optional u found v = (case v of None \<Rightarrow> retQ None
     | Some i \<Rightarrow> bindQ (get_object_or_error u (found i)) (\<lambda>x. retQ (Some x)))"

definition project_check :: "access \<Rightarrow> user \<Rightarrow> resource_permission \<Rightarrow> string \<Rightarrow> project \<Rightarrow> ('s, unit) eff" where
  "project_check ac u R action p =
     view_check [R] \<lparr>ck_access = ac, ck_user = u, ck_data = [], ck_obj = ProjectObj p\<rparr> (Some action)"

definition not_blocked :: "lookups \<Rightarrow> project \<Rightarrow> ('s, unit) eff" where
  "not_blocked lk p = (if pr_id p \<in> set (lk_blocked lk) then raiseE (Blocked ''Blocked element'') else retE ())"

definition not_archived :: "lookups \<Rightarrow> project \<Rightarrow> ('s, unit) eff" where
  "not_archived lk p =
     (if pr_id p \<in> set (lk_archived lk) then raiseE (PermissionDenied ''Archived project'') else retE ())"

definition story_of_project :: "project \<Rightarrow> int \<Rightarrow> board \<Rightarrow> story option" where
  "story_of_project p i b = find (\<lambda>r. st_id r = i \<and> st_project_id r = pr_id p) (stories b)"

definition milestone_of_project :: "project \<Rightarrow> int \<Rightarrow> board \<Rightarrow> milestone option" where
  "milestone_of_project p i b = find (\<lambda>r. ms_id r = i \<and> ms_project_id r = pr_id p) (milestones b)"

text \<open>Statuses and swimlanes are pairs of id and project.\<close>

definition row_of_project :: "(int \<times> int) list \<Rightarrow> project \<Rightarrow> int \<Rightarrow> 's \<Rightarrow> int option" where
  "row_of_project rows p i = (\<lambda>_. if (i, pr_id p) \<in> set rows then Some i else None)"

definition bulk_update_backlog_order ::
    "access \<Rightarrow> user \<Rightarrow> lookups \<Rightarrow> move_request \<Rightarrow> (board, (int \<times> int option \<times> int) list answer) eff" where
  "bulk_update_backlog_order ac u lk data = (\<lambda>b.
     if \<not> backlog_order_bulk_valid lk data b then (Inr Invalid_Request, b) else
     bindE (liftE (get_object_or_error u (\<lambda>_. find_project ac (mv_project_id data)))) (\<lambda>p.
     bindE (project_check ac u UserStoryPermission ''bulk_update_order'' p) (\<lambda>_.
     bindE (not_blocked lk p) (\<lambda>_.
     bindE (liftE (get_optional u (milestone_of_project p) (attr_get (mv_milestone_id data)))) (\<lambda>milestone.
     bindE (liftE (get_optional u (story_of_project p) (attr_get (mv_after_userstory_id data)))) (\<lambda>after_us.
     bindE (liftE (get_optional u (story_of_project p) (attr_get (mv_before_userstory_id data)))) (\<lambda>before_us.
     bindE (update_userstories_backlog_or_sprint_order_in_bulk (pr_id p) (mv_bulk_userstories data)
              before_us after_us (map_option ms_id milestone)) (\<lambda>ret.
     retE (Done ret)))))))) b)"

definition bulk_update_kanban_order ::
    "nat \<Rightarrow> access \<Rightarrow> user \<Rightarrow> lookups \<Rightarrow> move_request \<Rightarrow>
     (board, (int \<times> int option \<times> int \<times> int) list answer) eff" where
  "bulk_update_kanban_order depth ac u lk data = (\<lambda>b.
     if \<not> kanban_order_bulk_valid lk data b then (Inr Invalid_Request, b) else
     bindE (liftE (get_object_or_error u (\<lambda>_. find_project ac (mv_project_id data)))) (\<lambda>p.
     bindE (project_check ac u UserStoryPermission ''bulk_update_order'' p) (\<lambda>_.
     bindE (not_blocked lk p) (\<lambda>_.
     bindE (not_archived lk p) (\<lambda>_.
     bindE (liftE (get_object_or_error u (row_of_project (lk_us_statuses lk) p (mv_status_id data)))) (\<lambda>status.
     bindE (liftE (get_optional u (row_of_project (lk_swimlanes lk) p) (attr_get (mv_swimlane_id data)))) (\<lambda>swimlane.
     bindE (liftE (get_optional u (story_of_project p) (attr_get (mv_after_userstory_id data)))) (\<lambda>after_us.
     bindE (liftE (get_optional u (story_of_project p) (attr_get (mv_before_userstory_id data)))) (\<lambda>before_us.
     bindE (update_userstories_kanban_order_in_bulk depth (pr_id p) status (mv_bulk_userstories data)
              before_us after_us swimlane) (\<lambda>ret.
     retE (Done ret)))))))))) b)"

text \<open>Of user stories; \<open>snapshot_userstories_in_bulk\<close> loads each story again.\<close>

definition snapshot_userstories_in_bulk :: "orders \<Rightarrow> board \<Rightarrow> board" where
  "snapshot_userstories_in_bulk bulk_data = fold (\<lambda>(i, _) b.
     if find_story i b = None then b else note_snapshot ''userstories.userstory'' i b) bulk_data"

definition snapshot_tasks_in_bulk :: "orders \<Rightarrow> board \<Rightarrow> board" where
  "snapshot_tasks_in_bulk bulk_data = fold (\<lambda>(i, _) b.
     if find (\<lambda>t. tk_id t = i) (btasks b) = None then b else note_snapshot ''tasks.task'' i b) bulk_data"

definition us_bulk_update_milestone ::
    "access \<Rightarrow> user \<Rightarrow> lookups \<Rightarrow> milestone_request \<Rightarrow> (board, unit answer) eff" where
  "us_bulk_update_milestone ac u lk data = (\<lambda>b.
     if \<not> us_milestone_bulk_valid lk data b then (Inr Invalid_Request, b) else
     bindE (liftE (get_object_or_error u (\<lambda>_. find_project ac (bm_project_id data)))) (\<lambda>p.
     bindE (liftE (get_object_or_error u (find_milestone (bm_milestone_id data)))) (\<lambda>milestone.
     bindE (project_check ac u UserStoryPermission ''bulk_update_milestone'' p) (\<lambda>_ b.
       (Inr (Done ()), snapshot_userstories_in_bulk (bm_bulk data)
          (snd (update_userstories_milestone_in_bulk (bm_bulk data) milestone b)))))) b)"

definition task_bulk_update_milestone ::
    "access \<Rightarrow> user \<Rightarrow> lookups \<Rightarrow> milestone_request \<Rightarrow> (board, orders answer) eff" where
  "task_bulk_update_milestone ac u lk data = (\<lambda>b.
     if \<not> task_milestone_bulk_valid lk data b then (Inr Invalid_Request, b) else
     bindE (liftE (get_object_or_error u (\<lambda>_. find_project ac (bm_project_id data)))) (\<lambda>p.
     bindE (liftE (get_object_or_error u (find_milestone (bm_milestone_id data)))) (\<lambda>milestone.
     bindE (project_check ac u TaskPermission ''bulk_update_milestone'' p) (\<lambda>_ b.
       case update_tasks_milestone_in_bulk (bm_bulk data) milestone b of (ret, b) \<Rightarrow>
         (Inr (Done ret), snapshot_tasks_in_bulk (bm_bulk data) b)))) b)"

text \<open>
  The view reads the story from the key \<open>user_story_id\<close>, which the validator does not have: it
  calls it \<open>us_id\<close>. So \<open>user_story\<close> is always \<open>None\<close>.
\<close>

definition task_bulk_update_order ::
    "task_order_field \<Rightarrow> access \<Rightarrow> user \<Rightarrow> lookups \<Rightarrow> task_order_request \<Rightarrow> (board, orders answer) eff" where
  "task_bulk_update_order field ac u lk data = (\<lambda>b.
     if \<not> task_order_bulk_valid lk data b then (Inr Invalid_Request, b) else
     bindE (liftE (get_object_or_error u (\<lambda>_. find_project ac (to_project_id data)))) (\<lambda>p.
     bindE (project_check ac u TaskPermission ''bulk_update_order'' p) (\<lambda>_.
     bindE (not_blocked lk p) (\<lambda>_.
     bindE (liftE (get_optional u find_story None)) (\<lambda>user_story.
     bindE (liftE (get_optional u (\<lambda>i _. map_option fst (find (\<lambda>(j, _). j = i) (lk_task_statuses lk)))
              (attr_get (to_status_id data)))) (\<lambda>status.
     bindE (liftE (get_optional u find_milestone (attr_get (to_milestone_id data)))) (\<lambda>milestone b.
       case update_tasks_order_in_bulk (to_bulk data) field (pr_id p) (map_option st_id user_story) status
              (map_option ms_id milestone) b of (ret, b) \<Rightarrow> (Inr (Done ret), b))))))) b)"

definition bulk_update_taskboard_order ::
    "access \<Rightarrow> user \<Rightarrow> lookups \<Rightarrow> task_order_request \<Rightarrow> (board, orders answer) eff" where
  "bulk_update_taskboard_order = task_bulk_update_order Taskboard_Order"

definition bulk_update_us_order ::
    "access \<Rightarrow> user \<Rightarrow> lookups \<Rightarrow> task_order_request \<Rightarrow> (board, orders answer) eff" where
  "bulk_update_us_order = task_bulk_update_order Us_Order"

end
