(* ===== verification/Board_Props.thy ===== *)
theory Board_Props
  imports Board_Steps
begin

text \<open>
  The properties of opening and closing, with the step relation of the operations that keep
  every flag right, and the operations that do not.
\<close>

section \<open>A board to evaluate on\<close>

text \<open>Two milestones; the first holds a closed and an open story, a lone open task and a task of the open story.\<close>

definition demo_story :: "int \<Rightarrow> int \<Rightarrow> int \<Rightarrow> bool \<Rightarrow> story" where
  "demo_story i m s c = \<lparr>st_id = i, st_project_id = 1, st_milestone_id = Some m, st_status_id = Some s,
     st_swimlane_id = None, st_is_closed = c, st_finish_date = (if c then Some 7 else None),
     st_backlog_order = i, st_sprint_order = i, st_kanban_order = i\<rparr>"

definition demo_task :: "int \<Rightarrow> int option \<Rightarrow> int \<Rightarrow> int \<Rightarrow> btask" where
  "demo_task i u m s = \<lparr>tk_id = i, tk_project_id = 1, tk_user_story_id = u, tk_milestone_id = Some m,
     tk_status_id = Some s, tk_finished_date = None, tk_us_order = i, tk_taskboard_order = i\<rparr>"

definition demo_board :: board where
  "demo_board = \<lparr>stories = [demo_story 1 10 2 True, demo_story 2 10 1 False, demo_story 3 20 1 False],
     btasks = [demo_task 1 (Some 3) 20 1, demo_task 2 None 30 1], issues = [],
     milestones = [\<lparr>ms_id = 10, ms_project_id = 1, ms_closed = False\<rparr>, \<lparr>ms_id = 20, ms_project_id = 1, ms_closed = False\<rparr>,
       \<lparr>ms_id = 30, ms_project_id = 1, ms_closed = False\<rparr>],
     us_statuses = [(1, False), (2, True)], task_statuses = [(1, False), (2, True)], issue_statuses = [],
     defaults = (\<lambda>_. \<lparr>default_us_status = Some 1, default_task_status = Some 1, default_issue_status = None\<rparr>),
     now = 9, snapshots = [], sent = []\<rparr>"

text \<open>An executable form of \<open>board_ok\<close>, to evaluate on boards.\<close>

definition rows_ok :: "board \<Rightarrow> bool" where
  "rows_ok b \<longleftrightarrow> list_all (\<lambda>r. st_is_closed r = calculate_userstory_is_closed r b) (stories b)
     \<and> list_all (\<lambda>m. stories_of_milestone (ms_id m) b = [] \<and> lone_tasks_of_milestone (ms_id m) b = []
           \<and> issues_of_milestone (ms_id m) b = [] \<or> ms_closed m = calculate_milestone_is_closed (ms_id m) b) (milestones b)"

lemma contents_empty:
  "contents m b = {} \<longleftrightarrow> stories_of_milestone m b = [] \<and> lone_tasks_of_milestone m b = [] \<and> issues_of_milestone m b = []"
proof -
  have image: "contents m b = st_is_closed ` set (stories_of_milestone m b)
      \<union> (\<lambda>t. task_is_closed t b) ` set (lone_tasks_of_milestone m b)
      \<union> (\<lambda>i. issue_is_closed i b) ` set (issues_of_milestone m b)"
    by (auto simp: contents_def stories_of_milestone_def lone_tasks_of_milestone_def issues_of_milestone_def)
  show ?thesis unfolding image by simp
qed

lemma rows_ok: "rows_ok b \<longleftrightarrow> stories_right {} b \<and> milestones_right {} b"
proof -
  have "(\<forall>m \<in> S. E m \<or> Q m) \<longleftrightarrow> (\<forall>m \<in> S. ms_id m \<notin> {} \<longrightarrow> \<not> E m \<longrightarrow> Q m)" for S and E Q :: "milestone \<Rightarrow> bool"
    by auto
  then show ?thesis
    unfolding rows_ok_def stories_right_def milestones_right_def contents_empty list_all_iff
      conj_assoc[symmetric] by simp
qed

lemma demo_rows_ok: "rows_ok demo_board"
  by code_simp

lemma demo_board_wf: "board_wf demo_board"
  by (simp add: board_wf_def demo_board_def demo_story_def demo_task_def)

lemma demo_board_ok: "board_ok demo_board"
  using demo_rows_ok demo_board_wf by (simp add: board_ok_def rows_ok)

section \<open>Properties\<close>

text \<open>C7: Saving a user story settles everything that depends on it, unless the save moves the story
  to another milestone and flips its flag at once (the next property is about those). From a
  board whose flags are right, saving a stored story (its columns changed in any other way,
  its milestone existing) comes to an end: the handlers of the stories application, which save
  the story again, return however deep the recursion limit is from three nested saves on. The
  story is stored with the flag its status and tasks imply and the finish date that goes with
  it; all flags of all stories and milestones are right again; and besides the story itself
  only flags, finish dates and the milestones of its tasks have changed. The handlers other
  applications connect to the same signal, those of the schedule among them, are not part of
  this run; they are taken to return.\<close>

theorem save_userstory_settles:
  assumes "board_ok b" and "\<not> importing us" and "find_story (st_id (row us)) b = Some old"
    and "milestone_exists b (st_milestone_id (row us))"
    and "st_milestone_id old = st_milestone_id (row us)
      \<or> st_is_closed (row us) = calculate_userstory_is_closed (defaulted (row us) b) b"
  shows "\<exists>us' b'. save_userstory (Suc (Suc (Suc depth))) All_Fields us b = (Inr us', b')
     \<and> find_story (st_id (row us)) b' = Some (row us') \<and> row us' = saved_row (defaulted (row us) b) b
     \<and> st_is_closed (row us') = calculate_userstory_is_closed (row us') b'
     \<and> board_ok b' \<and> flags_only (write_story All_Fields (defaulted (row us) b) b) b'"
proof (rule save_userstory_run[OF assms, of depth])
  fix us' b' assume run: "save_userstory (Suc (Suc (Suc depth))) All_Fields us b = (Inr us', b')"
    "row us' = saved_row (defaulted (row us) b) b" "board_ok b'"
    "flags_only (write_story All_Fields (defaulted (row us) b) b) b'" "find_story (st_id (row us)) b' = Some (row us')"
  then have "st_is_closed (row us') = calculate_userstory_is_closed (row us') b'"
    using find_storyD[OF run(5)] by (auto simp: board_ok_def stories_right_def)
  then show ?thesis using run by blast
qed

theorem save_userstory_settles_witness:
  "\<exists>us' b'. save_userstory 3 All_Fields (loaded (demo_story 2 10 2 False)) demo_board = (Inr us', b')
     \<and> st_is_closed (row us') \<and> board_ok b'"
proof -
  let ?us = "loaded (demo_story 2 10 2 False)"
  have "find_story (st_id (row ?us)) demo_board = Some (demo_story 2 10 1 False)" by code_simp
  moreover have "milestone_exists demo_board (st_milestone_id (row ?us))"
    by (simp add: milestone_exists_def demo_board_def loaded_def demo_story_def)
  moreover have "st_is_closed (saved_row (defaulted (row ?us) demo_board) demo_board)" by code_simp
  moreover have "\<not> importing ?us" "row ?us = demo_story 2 10 2 False" by (simp_all add: loaded_def)
  moreover have "st_milestone_id (demo_story 2 10 1 False) = st_milestone_id (demo_story 2 10 2 False)"
    by (simp add: demo_story_def)
  ultimately show ?thesis
    using save_userstory_settles[OF demo_board_ok, of ?us "demo_story 2 10 1 False" 0] by (auto simp: numeral_3_eq_3)
qed

section \<open>Every sequence of operations\<close>

inductive board_step :: "board \<Rightarrow> board \<Rightarrow> bool" where
  create_us: "\<not> importing us \<Longrightarrow> milestone_exists b (st_milestone_id (row us)) \<Longrightarrow>
     board_step b (snd (create_userstory (Suc (Suc depth)) us b))"
| save_us: "\<not> importing us \<Longrightarrow> milestone_exists b (st_milestone_id (row us)) \<Longrightarrow>
     find_story (st_id (row us)) b = Some old \<Longrightarrow>
     st_milestone_id old = st_milestone_id (row us)
       \<or> st_is_closed (row us) = calculate_userstory_is_closed (defaulted (row us) b) b \<Longrightarrow>
     board_step b (snd (save_userstory (Suc (Suc (Suc depth))) All_Fields us b))"
| delete_us: "row us \<in> set (stories b) \<Longrightarrow> \<not> importing us \<Longrightarrow> board_step b (snd (delete_userstory us b))"
| create_task: "task_fits t b \<Longrightarrow> board_step b (snd (create_btask (Suc (Suc depth)) t b))"
| save_task: "task_fits t b \<Longrightarrow> find_btask (tk_id t) b \<noteq> None \<Longrightarrow> board_step b (snd (save_btask (Suc (Suc depth)) t b))"
| delete_task: "t \<in> set (btasks b) \<Longrightarrow> board_step b (snd (delete_btask (Suc (Suc depth)) t b))"
| create_iss: "\<not> importing i \<Longrightarrow> milestone_exists b (is_milestone_id (row i)) \<Longrightarrow> board_step b (snd (create_issue i b))"
| save_iss: "\<not> importing i \<Longrightarrow> milestone_exists b (is_milestone_id (row i)) \<Longrightarrow> find_issue (is_id (row i)) b \<noteq> None \<Longrightarrow>
     board_step b (snd (save_issue i b))"
| delete_iss: "row i \<in> set (issues b) \<Longrightarrow> \<not> importing i \<Longrightarrow> board_step b (snd (delete_issue i b))"
| us_status: "board_step b (snd (save_us_status (Suc (Suc depth)) status c b))"
| task_status: "lone_task_milestones status b = {} \<Longrightarrow>
     board_step b (snd (save_task_status (Suc (Suc depth)) status c b))"
| tick: "board_step b (b\<lparr>now := n\<rparr>)"

lemma ok_tick: "board_ok b \<Longrightarrow> board_ok (b\<lparr>now := n\<rparr>)"
proof -
  have "task_flags i (b\<lparr>now := n\<rparr>) = task_flags i b" "contents m (b\<lparr>now := n\<rparr>) = contents m b" for i m
    by (simp_all add: task_flags_def contents_def task_is_closed_def issue_is_closed_def)
  then show "board_ok b \<Longrightarrow> board_ok (b\<lparr>now := n\<rparr>)"
    by (simp add: board_ok_def board_wf_def stories_right_def milestones_right_def calculate_userstory_iff
        calculate_milestone_iff)
qed

lemma step_ok: "board_step b b' \<Longrightarrow> board_ok b \<Longrightarrow> board_ok b'"
proof (induction rule: board_step.induct)
  case (create_us us b depth)
  then show ?case by (rule_tac create_userstory_run[of b us depth]) auto
next
  case (save_us us b old depth)
  then show ?case by (rule_tac save_userstory_run[of b us old depth]) auto
next
  case (delete_us us b)
  then show ?case by (rule_tac delete_userstory_run[of b us]) auto
next
  case (create_task t b depth)
  then show ?case by (rule_tac create_btask_run[of b t depth]) auto
next
  case (save_task t b depth)
  then obtain old where "find_btask (tk_id t) b = Some old" by auto
  then show ?case using save_task by (rule_tac save_btask_run[of b t old depth]) auto
next
  case (delete_task t b depth)
  then show ?case by (rule_tac delete_btask_run[of b t depth]) auto
next
  case (create_iss i b)
  then show ?case by (rule_tac create_issue_run[of b i]) auto
next
  case (save_iss i b)
  then obtain old where "find_issue (is_id (row i)) b = Some old" by auto
  then show ?case using save_iss by (rule_tac save_issue_run[of b i old]) auto
next
  case (delete_iss i b)
  then show ?case by (rule_tac delete_issue_run[of b i]) auto
next
  case (us_status b depth status c)
  then show ?case by (rule_tac save_us_status_run[of b depth status c]) auto
next
  case (task_status status b depth c)
  then show ?case by (rule_tac save_task_status_run[of b depth status c]) (auto simp: board_ok_def)
qed (rule ok_tick)

text \<open>C3: Whatever sequence of saves, creations and deletions of stories, tasks and issues and of
  edits of story and task statuses a board goes through, every story is marked closed exactly
  when its status and tasks say so, and every milestone with anything in it exactly when
  everything in it is closed. Excluded are the operations of the next properties: saves that
  move and flip a story at once, edits of a task status used by tasks without a story in a
  milestone, and edits of issue statuses.\<close>

theorem reachable_boards_right:
  assumes "board_step\<^sup>*\<^sup>* b0 b" and "board_ok b0"
  shows "(\<forall>r \<in> set (stories b). st_is_closed r = calculate_userstory_is_closed r b)
     \<and> (\<forall>m \<in> set (milestones b). contents (ms_id m) b \<noteq> {} \<longrightarrow>
           ms_closed m = calculate_milestone_is_closed (ms_id m) b)"
proof -
  have "board_ok b" using assms by (induction rule: rtranclp_induct) (auto intro: step_ok)
  then show ?thesis by (simp add: board_ok_def stories_right_def milestones_right_def)
qed

theorem reachable_boards_right_witness:
  "list_all (\<lambda>r. st_is_closed r = calculate_userstory_is_closed r (snd (save_us_status 2 1 True demo_board)))
     (stories (snd (save_us_status 2 1 True demo_board)))"
proof -
  have "board_step\<^sup>*\<^sup>* demo_board (snd (save_us_status 2 1 True demo_board))"
    using board_step.us_status[of demo_board 0 1 True] by (auto simp: numeral_2_eq_2)
  from reachable_boards_right[OF this demo_board_ok] show ?thesis unfolding list_all_iff by (rule conjunct1)
qed

text \<open>C16: A save that moves a story out of a milestone and also flips its flag leaves that milestone
  behind: the nested save of the closing overwrites prev, so the handler no longer sees that
  the milestone changed. From any board whose flags are right, after such a save every story
  and every other milestone is right, but the row of the left milestone is exactly what it
  was. So the flags are all right afterwards only when the left milestone is now empty or its
  old flag happens to fit; when the story was open and everything that stays is closed, the
  milestone counts as closed and is still stored as open.\<close>

theorem moved_and_flipped_story_forgets_milestone:
  assumes "board_ok b" and "\<not> importing us" and "find_story (st_id (row us)) b = Some old"
    and "milestone_exists b (st_milestone_id (row us))"
    and "st_milestone_id old = Some m" and "st_milestone_id (row us) \<noteq> Some m"
    and "st_is_closed (row us) \<noteq> calculate_userstory_is_closed (defaulted (row us) b) b"
  shows "\<exists>us' b'. save_userstory (Suc (Suc (Suc depth))) All_Fields us b = (Inr us', b')
     \<and> stories_right {} b' \<and> milestones_right {m} b' \<and> find_milestone m b' = find_milestone m b
     \<and> (board_ok b' \<longleftrightarrow> contents m b' = {}
          \<or> map_option ms_closed (find_milestone m b) = Some (calculate_milestone_is_closed m b'))
     \<and> (\<not> st_is_closed old \<and> calculate_milestone_is_closed m b' \<longrightarrow>
          (\<exists>r. find_milestone m b' = Some r \<and> \<not> ms_closed r) \<and> \<not> board_ok b')"
proof (rule save_moving_and_flipping_run[OF assms, of depth])
  fix us' b' assume run: "save_userstory (Suc (Suc (Suc depth))) All_Fields us b = (Inr us', b')"
    and res: "board_wf b'" "stories_right {} b'" "milestones_right {m} b'" "find_milestone m b' = find_milestone m b"
  have old: "old \<in> set (stories b)" using find_storyD[OF assms(3)] by simp
  then have "m \<in> ms_id ` set (milestones b)" using assms(1,5) by (auto simp: board_ok_def board_wf_def)
  then obtain r where r: "find_milestone m b = Some r" using find_milestone_mem by blast
  then have row: "r \<in> set (milestones b)" "ms_id r = m" by (auto simp: find_milestone_def find_Some_iff)
  have flag: "\<not> ms_closed r" if "\<not> st_is_closed old"
  proof -
    have "False \<in> contents m b" using that old assms(5) by (auto simp: contents_def)
    then have "\<not> calculate_milestone_is_closed m b" "contents m b \<noteq> {}" by (auto simp: calculate_milestone_iff)
    then show ?thesis using assms(1) row unfolding board_ok_def milestones_right_def by blast
  qed
  have "find_milestone m b' = Some r" using res(4) r by simp
  then have ok: "board_ok b' \<longleftrightarrow> contents m b' = {} \<or> ms_closed r = calculate_milestone_is_closed m b'"
    using res(1,2) last_milestone_right[OF res(1) _ res(3)] unfolding board_ok_def by blast
  have full: "calculate_milestone_is_closed m b' \<Longrightarrow> contents m b' \<noteq> {}" by (auto simp: calculate_milestone_iff)
  show ?thesis using run res r flag ok full by auto
qed

theorem moved_and_flipped_story_forgets_milestone_witness:
  "let b' = snd (save_userstory 3 All_Fields (loaded (demo_story 2 20 2 False)) demo_board) in
     calculate_milestone_is_closed 10 b' \<and> \<not> board_ok b' \<and> milestones_right {10} b'"
proof -
  let ?us = "loaded (demo_story 2 20 2 False)"
  let ?b = "snd (save_userstory (Suc (Suc (Suc 0))) All_Fields ?us demo_board)"
  have "find_story (st_id (row ?us)) demo_board = Some (demo_story 2 10 1 False)" by code_simp
  moreover have "milestone_exists demo_board (st_milestone_id (row ?us))"
    by (simp add: milestone_exists_def demo_board_def loaded_def demo_story_def)
  moreover have "calculate_userstory_is_closed (defaulted (row ?us) demo_board) demo_board" by code_simp
  moreover have "calculate_milestone_is_closed 10 ?b" by code_simp
  moreover have "\<not> importing ?us" "row ?us = demo_story 2 20 2 False" by (simp_all add: loaded_def)
  ultimately show ?thesis
    using moved_and_flipped_story_forgets_milestone[OF demo_board_ok, of ?us "demo_story 2 10 1 False" 10 0]
    by (auto simp: numeral_3_eq_3 demo_story_def)
qed

text \<open>Editing a task status reaches user stories only. A milestone with tasks that belong to no
  story keeps a wrong flag when their status is edited: all such milestones that go wrong
  are of this kind, and it does happen.\<close>

theorem task_status_edit_skips_lone_tasks:
  assumes "board_ok b"
  shows "(\<exists>b'. save_task_status (Suc (Suc depth)) status c b = (Inr (), b') \<and> stories_right {} b'
       \<and> milestones_right (lone_task_milestones status b) b')
   \<and> (\<exists>b'. save_task_status 9 1 True demo_board = (Inr (), b') \<and> lone_task_milestones 1 demo_board = {30}
       \<and> calculate_milestone_is_closed 30 b' \<and> \<not> milestones_right {} b')"
proof
  show "\<exists>b'. save_task_status (Suc (Suc depth)) status c b = (Inr (), b') \<and> stories_right {} b'
     \<and> milestones_right (lone_task_milestones status b) b'"
    by (rule save_task_status_run[OF assms, of depth status c]) auto
  obtain b' where b': "save_task_status (Suc (Suc 7)) 1 True demo_board = (Inr (), b')" "stories_right {} b'"
    by (rule save_task_status_run[OF demo_board_ok, of 7 1 True])
  have "calculate_milestone_is_closed 30 (snd (save_task_status 9 1 True demo_board))
      \<and> \<not> rows_ok (snd (save_task_status 9 1 True demo_board))" by code_simp
  moreover have nine: "save_task_status 9 1 True demo_board = (Inr (), b')" using b'(1) by (simp add: eval_nat_numeral)
  moreover have "lone_task_milestones 1 demo_board = {30}"
    by (auto simp: lone_task_milestones_def demo_board_def demo_task_def)
  ultimately show "\<exists>b'. save_task_status 9 1 True demo_board = (Inr (), b') \<and> lone_task_milestones 1 demo_board = {30}
     \<and> calculate_milestone_is_closed 30 b' \<and> \<not> milestones_right {} b'"
    using b'(2) by (auto simp: rows_ok)
qed

theorem task_status_edit_skips_lone_tasks_witness:
  "\<exists>b'. save_task_status 2 2 False demo_board = (Inr (), b') \<and> stories_right {} b'"
  using task_status_edit_skips_lone_tasks[OF demo_board_ok, of 0 2 False] by (auto simp: numeral_2_eq_2)

text \<open>Saving a story moves the tasks that are in another milestone to its own, and takes no
  snapshot of any of them, although the loop after the update means to: it runs over the
  same lazy query, which by then is empty.\<close>

theorem moved_tasks_get_no_snapshot:
  assumes "distinct (map tk_id (btasks b))"
  shows "let b' = update_milestone_of_tasks_when_edit_us False us b in
     snapshots b' = snapshots b
   \<and> btasks b' = map (\<lambda>t. if tk_user_story_id t = Some (st_id (row us))
                          then t\<lparr>tk_milestone_id := st_milestone_id (row us)\<rparr> else t) (btasks b)"
  unfolding update_milestone_of_tasks_eq[OF assms] by (simp add: follow_milestone_def)

theorem moved_tasks_get_no_snapshot_witness:
  "let b' = update_milestone_of_tasks_when_edit_us False (loaded (demo_story 3 10 1 False)) demo_board in
     snapshots b' = [] \<and> map tk_milestone_id (btasks b') = [Some 10, Some 30]"
  using moved_tasks_get_no_snapshot[of demo_board "loaded (demo_story 3 10 1 False)"]
  by (simp add: demo_board_def demo_task_def loaded_def demo_story_def Let_def)

end
