(* ===== verification/Board_Order_Props.thy ===== *)
theory Board_Order_Props
  imports Board_Order Board_Props
begin

text \<open>
  What moving stories does to a column: the order in which the column shows its stories is
  the abstract view, a list of ids, and a move is the insertion of a block into that list.
\<close>

section \<open>Views of a column\<close>

definition shown :: "us_order_field \<Rightarrow> story list \<Rightarrow> int list" where
  "shown field rows = map st_id (sort_key (\<lambda>r. (get_order field r, st_id r)) rows)"

lemma sort_key_map: "sort_key f (map g xs) = map g (sort_key (\<lambda>x. f (g x)) xs)"
proof (induction xs)
  case (Cons x xs)
  have "insort_key f (g x) (map g ys) = map g (insort_key (\<lambda>x. f (g x)) x ys)" for ys
    by (induction ys) simp_all
  then show ?case by (simp add: Cons.IH)
qed simp

lemma get_order_bare [simp]: "get_order field (bare_story r) = get_order field r"
  by (cases field) (simp_all add: bare_story_def)

lemma swimlane_bare [simp]: "st_swimlane_id (bare_story r) = st_swimlane_id r"
  by (simp add: bare_story_def)

lemma shown_bare:
  assumes "map bare_story rows' = map bare_story rows" and "\<And>r. P (bare_story r) = P r"
  shows "shown field (filter P rows') = shown field (filter P rows)"
proof -
  have "shown field (filter P rs) = shown field (filter P (map bare_story rs))" for rs
    by (simp add: shown_def filter_map sort_key_map assms(2) comp_def)
  then show ?thesis by (metis assms(1))
qed

lemma set_shown [simp]: "set (shown field rows) = st_id ` set rows"
  by (simp add: shown_def)

lemma distinct_shown: "distinct (map st_id rows) \<Longrightarrow> distinct (shown field rows)"
  by (simp add: shown_def distinct_map)

lemma distinct_ranked: "distinct xs \<Longrightarrow> distinct (map (\<lambda>i. (f i, i)) xs)"
  by (induction xs) auto

lemma shown_ranks:
  assumes "\<And>r. r \<in> set rows \<Longrightarrow> order (st_id r) = get_order field r"
  shows "sorted (map (\<lambda>i. (order i, i)) (shown field rows))"
proof -
  have "map (\<lambda>i. (order i, i)) (shown field rows)
      = map (\<lambda>r. (get_order field r, st_id r)) (sort_key (\<lambda>r. (get_order field r, st_id r)) rows)"
    unfolding shown_def map_map by (rule map_cong) (simp_all add: assms)
  then show ?thesis by (simp only: sorted_sort_key)
qed

lemma shown_rank:
  assumes "distinct (map st_id rows)" and "\<And>r. r \<in> set rows \<Longrightarrow> order (st_id r) = get_order field r"
  shows "sorted_wrt (\<lambda>i j. (order i, i) < (order j, j)) (shown field rows)"
proof -
  have "sorted_wrt (<) (map (\<lambda>i. (order i, i)) (shown field rows))"
    using shown_ranks[OF assms(2)] distinct_ranked[OF distinct_shown[OF assms(1)]] strict_sorted_iff by blast
  then show ?thesis by (simp only: sorted_wrt_map)
qed

text \<open>A list that ranks the rows of a column strictly is what the column shows.\<close>

lemma shown_unique:
  assumes d: "distinct (map st_id rows)" and set: "set ids = st_id ` set rows"
    and rank: "sorted_wrt (\<lambda>i j. (order i, i) < (order j, j)) ids"
    and order: "\<And>r. r \<in> set rows \<Longrightarrow> order (st_id r) = get_order field r"
  shows "shown field rows = ids"
proof -
  let ?k = "\<lambda>i. (order i, i :: int)"
  have "sorted_wrt (<) (map ?k ids)" using rank by (simp only: sorted_wrt_map)
  then have "sorted (map ?k ids)" "distinct (map ?k ids)" using strict_sorted_iff by blast+
  moreover have "set (map ?k (shown field rows)) = set (map ?k ids)" by (simp only: set_map set_shown set)
  ultimately have "map ?k (shown field rows) = map ?k ids"
    using sorted_distinct_set_unique[OF shown_ranks[OF order] distinct_ranked[OF distinct_shown[OF d]]] by blast
  then show ?thesis by (rule map_injective) (simp add: inj_def)
qed

section \<open>Numbering\<close>

lemma numbered_lookup:
  "distinct ids \<Longrightarrow> n < length ids \<Longrightarrow> map_of (zip ids [s..s + int (length ids) - 1]) (ids ! n) = Some (s + int n)"
  by (rule map_of_eq_Some_iff[THEN iffD2]) (auto simp: set_zip intro!: exI[of _ n])

lemma numbered_none: "i \<notin> set ids \<Longrightarrow> map_of (zip ids xs) i = None"
  by (auto simp: map_of_eq_None_iff dest: set_zip_leftD)

lemma numbered_sorted:
  assumes "distinct ids"
  shows "sorted_wrt (\<lambda>i j. the (map_of (zip ids [s..s + int (length ids) - 1]) i)
           < the (map_of (zip ids [s..s + int (length ids) - 1]) j)) ids"
  unfolding sorted_wrt_iff_nth_less
proof (intro allI impI)
  fix i j assume ij: "i < j" "j < length ids"
  then have "i < length ids" by simp
  from numbered_lookup[OF assms this, of s] numbered_lookup[OF assms ij(2), of s] ij(1)
  show "the (map_of (zip ids [s..s + int (length ids) - 1]) (ids ! i))
      < the (map_of (zip ids [s..s + int (length ids) - 1]) (ids ! j))" by simp
qed

lemma numbered_ge:
  "distinct ids \<Longrightarrow> i \<in> set ids \<Longrightarrow> s \<le> the (map_of (zip ids [s..s + int (length ids) - 1]) i)"
  by (auto simp: in_set_conv_nth numbered_lookup)

text \<open>
  The rows that keep their orders all come before the start order: a story that moves next to
  another one never lands among them.
\<close>

definition rows_before :: "us_order_field \<Rightarrow> story option \<Rightarrow> story option \<Rightarrow> story list \<Rightarrow> story list" where
  "rows_before field before_us after_us rows = (case before_us of
     Some before_us \<Rightarrow> filter (\<lambda>r. get_order field r < get_order field before_us) rows
   | None \<Rightarrow> (case after_us of
       Some after_us \<Rightarrow> filter (\<lambda>r. st_id r = st_id after_us \<or> get_order field r < get_order field after_us) rows
     | None \<Rightarrow> []))"

lemma rows_split: "set rows = set (rows_before field x y rows) \<union> set (rows_after field x y rows)"
  by (auto simp: rows_before_def rows_after_def split: option.split)

lemma rows_disjoint: "set (rows_before field x y rows) \<inter> set (rows_after field x y rows) = {}"
  by (auto simp: rows_before_def rows_after_def split: option.split)

lemma before_start:
  assumes "r \<in> set (rows_before field x y rows)"
    and "\<And>a q. y = Some a \<Longrightarrow> q \<in> set rows \<Longrightarrow> st_id q = st_id a \<Longrightarrow> get_order field q = get_order field a"
  shows "get_order field r < start_order field x y"
proof (cases x)
  case None
  show ?thesis
  proof (cases y)
    case (Some a)
    then have "r \<in> set rows" "st_id r = st_id a \<or> get_order field r < get_order field a"
      using assms(1) None by (auto simp: rows_before_def)
    then show ?thesis using assms(2)[OF Some] None Some by (auto simp: start_order_def)
  qed (use assms(1) None in \<open>simp add: rows_before_def\<close>)
qed (use assms(1) in \<open>simp add: rows_before_def start_order_def\<close>)

text \<open>Placing a block, over columns given by rows: the general statement.\<close>

lemma placed_shown:
  assumes d: "distinct (map st_id rows)" and bulk: "distinct bulk" "set bulk \<inter> st_id ` set rows = {}"
    and y: "\<And>a q. y = Some a \<Longrightarrow> q \<in> set rows \<Longrightarrow> st_id q = st_id a \<Longrightarrow> get_order field q = get_order field a"
    and vals_def: "vs = placed_orders field bulk x y rows"
    and new: "distinct (map st_id rows')" "st_id ` set rows' = st_id ` set rows \<union> set bulk"
      "\<And>r'. r' \<in> set rows' \<Longrightarrow> (case map_of vs (st_id r') of Some n \<Rightarrow> get_order field r' = n
         | None \<Rightarrow> \<exists>r \<in> set rows. st_id r = st_id r' \<and> get_order field r' = get_order field r)"
  shows "shown field rows' = shown field (rows_before field x y rows) @ bulk @ shown field (rows_after field x y rows)"
proof -
  let ?B = "rows_before field x y rows" and ?A = "rows_after field x y rows"
  let ?ids = "bulk @ shown field ?A"
  let ?s = "start_order field x y"
  have ids: "bulk @ map st_id (sort_key (\<lambda>r. (get_order field r, st_id r)) ?A) = ?ids" by (simp add: shown_def)
  have vals: "vs = zip ?ids [?s..?s + int (length ?ids) - 1]"
    unfolding vals_def placed_orders_def Let_def ids ..
  have B: "set ?B \<subseteq> set rows" "distinct (map st_id ?B)" and A: "set ?A \<subseteq> set rows" "distinct (map st_id ?A)"
    using d by (auto simp: rows_before_def rows_after_def distinct_map_filter split: option.split)
  have dA: "distinct (shown field ?A)" using A(2) by (simp add: shown_def distinct_map)
  have dids: "distinct ?ids" using bulk dA A(1) by auto
  have inj: "r = q" if "r \<in> set rows" "q \<in> set rows" "st_id r = st_id q" for r q
    using d that by (simp add: distinct_map inj_on_def)
  have Bids: "st_id r \<notin> set ?ids" if "r \<in> set ?B" for r
  proof
    assume "st_id r \<in> set ?ids"
    then consider "st_id r \<in> set bulk" | q where "q \<in> set ?A" "st_id q = st_id r" by auto
    then show False
      using that B A bulk(2) inj rows_disjoint[of field x y rows] by cases (blast, metis IntI empty_iff subsetD)
  qed
  define order where "order i = (case map_of vs i of Some n \<Rightarrow> n
    | None \<Rightarrow> get_order field (SOME r. r \<in> set rows \<and> st_id r = i))" for i
  have some: "(SOME q. q \<in> set rows \<and> st_id q = st_id r) = r" if "r \<in> set rows" for r
    using that inj by (intro some_equality) auto
  have orderB: "order (st_id r) = get_order field r" if "r \<in> set ?B" for r
  proof -
    have "map_of vs (st_id r) = None" unfolding vals by (rule numbered_none[OF Bids[OF that]])
    then show ?thesis using some[of r] that B(1) by (auto simp: order_def)
  qed
  have orderI: "order i = the (map_of vs i)" if i: "i \<in> set ?ids" for i
  proof -
    obtain n where n: "n < length ?ids" "?ids ! n = i" using i unfolding in_set_conv_nth by blast
    have "map_of vs i = Some (?s + int n)"
      using numbered_lookup[OF dids n(1), of ?s] unfolding n(2) vals .
    then show ?thesis by (simp only: order_def option.case option.sel)
  qed
  have order': "order (st_id r') = get_order field r'" if "r' \<in> set rows'" for r'
    using new(3)[OF that] some unfolding order_def by (auto split: option.splits) metis
  have 1: "sorted_wrt (\<lambda>i j. (order i, i) < (order j, j)) (shown field ?B)"
    by (rule shown_rank[OF B(2) orderB])
  have "sorted_wrt (\<lambda>i j. order i < order j) ?ids"
    using numbered_sorted[OF dids, of ?s] orderI unfolding vals
    by (auto elim!: sorted_wrt_mono_rel[rotated])
  then have 2: "sorted_wrt (\<lambda>i j. (order i, i) < (order j, j)) ?ids"
    by (rule sorted_wrt_mono_rel[rotated]) simp
  have 3: "(order i, i) < (order j, j)" if i: "i \<in> set (shown field ?B)" and j: "j \<in> set ?ids" for i j
  proof -
    obtain r where r: "r \<in> set ?B" "st_id r = i" using i by auto
    have "get_order field r < ?s" by (rule before_start[OF r(1)]) (rule y)
    then have "order i < ?s" using orderB[OF r(1)] unfolding r(2) by linarith
    also have "?s \<le> order j" using numbered_ge[OF dids j, of ?s] unfolding orderI[OF j] vals .
    finally show ?thesis by (simp add: less_prod_def)
  qed
  have "sorted_wrt (\<lambda>i j. (order i, i) < (order j, j)) (shown field ?B @ ?ids)"
    by (rule sorted_wrt_append[THEN iffD2]) (intro conjI ballI 1 2 3)
  moreover have "set (shown field ?B @ ?ids) = st_id ` set rows'"
    using rows_split[of rows field x y] by (auto simp: new(2))
  ultimately show ?thesis
    using shown_unique[OF new(1) _ _ order'] by simp
qed

section \<open>Moving stories on the kanban board\<close>

text \<open>What moving stories on the board may change besides flags: the snapshots taken.\<close>

definition flags_and_snapshots :: "board \<Rightarrow> board \<Rightarrow> bool" where
  "flags_and_snapshots b b' \<longleftrightarrow> flags_only b (b'\<lparr>snapshots := snapshots b\<rparr>)"

interpretation flags_and_snapshots: effect_preorder flags_and_snapshots
  by unfold_locales (auto simp: flags_and_snapshots_def flags_only_def)

lemma flags_only_weaken: "flags_only b b' \<Longrightarrow> flags_and_snapshots b b'"
  by (simp add: flags_and_snapshots_def flags_only_def)

definition snapshot_taken :: "story \<Rightarrow> board \<Rightarrow> board" where
  "snapshot_taken r b = note_snapshot ''userstories.userstory'' (st_id r) b"

lemma note_snapshot_keeps:
  "flags_and_snapshots b (note_snapshot n i b)" "board_wf (note_snapshot n i b) = board_wf b"
  "statusless_open (note_snapshot n i b) = statusless_open b"
  "stories_right X (note_snapshot n i b) = stories_right X b"
  "milestones_right Y (note_snapshot n i b) = milestones_right Y b"
  "find_story j (note_snapshot n i b) = find_story j b" "stories (note_snapshot n i b) = stories b"
  "btasks (note_snapshot n i b) = btasks b" "milestones (note_snapshot n i b) = milestones b"
proof -
  have "task_flags k (note_snapshot n i b) = task_flags k b" "contents m (note_snapshot n i b) = contents m b" for k m
    by (simp_all add: task_flags_def contents_def task_is_closed_def issue_is_closed_def note_snapshot_def)
  then show "stories_right X (note_snapshot n i b) = stories_right X b"
    "milestones_right Y (note_snapshot n i b) = milestones_right Y b"
    by (simp_all add: stories_right_def milestones_right_def calculate_userstory_iff calculate_milestone_iff
        note_snapshot_def)
qed (simp_all add: flags_and_snapshots_def flags_only_def note_snapshot_def board_wf_def statusless_open_def find_story_def)

lemma recalculate_story_run:
  assumes "board_wf b" and "statusless_open b" and "find_story (st_id r) b = Some r"
  shows "recalculate_is_closed_for_userstory_and_its_milestone (Suc (Suc d)) (loaded r) b
    = (Inr (), if st_is_closed r = calculate_userstory_is_closed r b then b
               else recalculated_opt (st_milestone_id r) (settled r b))"
proof -
  have r: "r \<in> set (stories b)" using find_storyD[OF assms(3)] by simp
  have run: "close_or_open_userstory (save_userstory (Suc (Suc d)) Update_Fields) (loaded r) b =
    (let c = calculate_userstory_is_closed r b in
     if st_is_closed r = c then (Inr (loaded r, False), b)
     else (Inr (loaded r\<lparr>row := set_closed c (now b) r, prev := Some r\<rparr>, True), flipped r b))"
    by (rule close_or_open_run[OF _ assms(3)])
      (use assms(1,2) r in \<open>auto simp: board_wf_def statusless_open_def loaded_def\<close>)
  show ?thesis
  proof (cases "st_is_closed r = calculate_userstory_is_closed r b")
    case True
    then show ?thesis
      by (simp add: recalculate_is_closed_for_userstory_and_its_milestone_def bindE_apply run Let_def retE_apply
          split: option.split)
  next
    case False
    have "milestone_exists (flipped r b) (st_milestone_id r)"
      unfolding flags_only_exists[OF flags_only_flipped[OF wf_distinct[OF assms(1)] assms(3)]]
      using assms(1) r by (auto simp: board_wf_def milestone_exists_def)
    then have "m \<in> ms_id ` set (milestones (flipped r b))" if "st_milestone_id r = Some m" for m
      using that by (simp add: milestone_exists_def)
    then show ?thesis
      using False
      by (simp add: recalculate_is_closed_for_userstory_and_its_milestone_def bindE_apply run Let_def retE_apply
          settled_def recalculated_opt_def recalculate_run split: option.split)
  qed
qed

interpretation moving: settling
  "\<lambda>r. bindE (recalculate_is_closed_for_userstory_and_its_milestone (Suc (Suc depth)) (loaded r)) (\<lambda>_. snapshot_story r)"
  flags_and_snapshots for depth
proof unfold_locales
  fix b r assume b: "board_wf b" "statusless_open b" "find_story (st_id r) b = Some r"
  note d = wf_distinct[OF b(1)]
  let ?s = "settled r b"
  let ?c = "if st_is_closed r = calculate_userstory_is_closed r b then b else recalculated_opt (st_milestone_id r) ?s"
  let ?e = "note_snapshot ''userstories.userstory'' (st_id r) ?c"
  have c: "same_items ?s ?c" using recalculated_opt_same by (auto simp: settled_def same_items.refl)
  have M: "milestones_right Y ?c" if "milestones_right Y b" for Y
    using milestones_right_mono[OF recalculated_opt_right[OF settled_right(2)[OF d b(3) that]] Diff_subset] that
    by simp
  have fl: "flags_only b ?c"
    using flags_only.trans[OF settled_right(3)[OF d b(3)] flags_only_recalculated[of ?s "st_milestone_id r"]]
      flags_only.refl[of b] by (simp only: split: if_split) simp
  have rows: "stories ?c = stories ?s" using c unfolding same_items_def by (elim conjE)
  have wf: "board_wf ?c" "statusless_open ?c"
    using settled_wf[OF b(1,3)] settled_statusless[OF d b(3,2)]
    unfolding same_items_calc(3)[OF c] statusless_open_def rows by (simp_all only:)
  have S: "stories_right (X - {st_id r}) ?c" if "stories_right X b" for X
    using settled_right(1)[OF d b(3) that] unfolding same_items_calc(4)[OF c] .
  have keep: "find_story (st_id q) ?c = Some q" if "st_id q \<noteq> st_id r" "find_story (st_id q) b = Some q" for q
    using settled_keeps_row[OF d b(3) that(2,1)] unfolding same_items_calc(5)[OF c] .
  have "bindE (recalculate_is_closed_for_userstory_and_its_milestone (Suc (Suc depth)) (loaded r))
          (\<lambda>_. snapshot_story r) b = (Inr (), ?e)"
    by (simp add: bindE_apply recalculate_story_run[OF b] snapshot_story_def)
  moreover have "flags_and_snapshots b ?e"
    by (rule flags_and_snapshots.trans[OF flags_only_weaken[OF fl] note_snapshot_keeps(1)])
  ultimately show "\<exists>b'. bindE (recalculate_is_closed_for_userstory_and_its_milestone (Suc (Suc depth)) (loaded r))
          (\<lambda>_. snapshot_story r) b = (Inr (), b') \<and> board_wf b' \<and> statusless_open b' \<and> flags_and_snapshots b b'
      \<and> (\<forall>X. stories_right X b \<longrightarrow> stories_right (X - {st_id r}) b')
      \<and> (\<forall>Y. milestones_right Y b \<longrightarrow> milestones_right Y b')
      \<and> (\<forall>q. st_id q \<noteq> st_id r \<longrightarrow> find_story (st_id q) b = Some q \<longrightarrow> find_story (st_id q) b' = Some q)"
    using M S wf keep by (intro exI[of _ ?e]) (simp add: note_snapshot_keeps)
qed (auto intro: flags_and_snapshots.refl flags_and_snapshots.trans)

lemma keys_placed: "fst ` set (placed_orders field bulk x y rows) = set bulk \<union> st_id ` set (rows_after field x y rows)"
proof -
  have "map fst (placed_orders field bulk x y rows)
      = bulk @ map st_id (sort_key (\<lambda>r. (get_order field r, st_id r)) (rows_after field x y rows))"
    unfolding placed_orders_def Let_def by (simp add: map_fst_zip)
  from arg_cong[OF this, of set] show ?thesis by simp
qed

text \<open>Moving within a column given by a predicate, with a row update that numbers and relabels.\<close>

lemma moved_column:
  assumes d: "distinct (map st_id (stories b))" and bulk: "distinct bulk" "set bulk \<subseteq> st_id ` set (stories b)"
    and y: "\<And>a. y = Some a \<Longrightarrow> a \<in> set (stories b)"
    and vs: "vs = placed_orders field bulk x y (filter (\<lambda>r. st_id r \<notin> set bulk) (filter P (stories b)))"
    and g: "\<And>r. st_id (g r) = st_id r"
      "\<And>r. get_order field (g r) = (case map_of vs (st_id r) of Some n \<Rightarrow> n | None \<Rightarrow> get_order field r)"
      "\<And>r. r \<in> set (stories b) \<Longrightarrow> P (g r) \<longleftrightarrow> st_id r \<in> set bulk \<or> P r"
  shows "shown field (filter P (map g (stories b)))
    = (let rows = filter (\<lambda>r. st_id r \<notin> set bulk) (filter P (stories b)) in
       shown field (rows_before field x y rows) @ bulk @ shown field (rows_after field x y rows))"
  unfolding Let_def
proof (rule placed_shown[OF _ bulk(1) _ _ vs])
  let ?rows = "filter (\<lambda>r. st_id r \<notin> set bulk) (filter P (stories b))"
  have inj: "r = q" if "r \<in> set (stories b)" "q \<in> set (stories b)" "st_id r = st_id q" for r q
    using d that by (simp add: distinct_map inj_on_def)
  show "distinct (map st_id ?rows)" using d by (simp add: distinct_map_filter)
  show "set bulk \<inter> st_id ` set ?rows = {}" by auto
  show "get_order field q = get_order field a" if "y = Some a" "q \<in> set ?rows" "st_id q = st_id a" for a q
    using inj[of q a] that y[OF that(1)] by auto
  have "map st_id (filter P (map g (stories b))) = map st_id (filter (\<lambda>r. P (g r)) (stories b))"
    by (simp add: filter_map comp_def g(1))
  then show "distinct (map st_id (filter P (map g (stories b))))" using d by (simp add: distinct_map_filter)
  have "st_id ` set (filter P (map g (stories b))) = {st_id r | r. r \<in> set (stories b) \<and> P (g r)}"
    using g(1) by (force simp: image_iff)
  also have "\<dots> = st_id ` set ?rows \<union> set bulk"
  proof -
    have "{st_id r | r. r \<in> set (stories b) \<and> P (g r)}
        = {st_id r | r. r \<in> set (stories b) \<and> (st_id r \<in> set bulk \<or> P r)}"
      by (rule Collect_cong) (metis g(3))
    also have "\<dots> = st_id ` set ?rows \<union> set bulk" using bulk(2) by auto
    finally show ?thesis .
  qed
  finally show "st_id ` set (filter P (map g (stories b))) = st_id ` set ?rows \<union> set bulk" .
  fix r' assume "r' \<in> set (filter P (map g (stories b)))"
  then obtain r where r: "r' = g r" "r \<in> set (stories b)" "P (g r)" by auto
  show "case map_of vs (st_id r') of Some n \<Rightarrow> get_order field r' = n
         | None \<Rightarrow> \<exists>q \<in> set ?rows. st_id q = st_id r' \<and> get_order field r' = get_order field q"
  proof (cases "map_of vs (st_id r)")
    case None
    have "st_id r \<notin> set bulk"
    proof
      assume "st_id r \<in> set bulk"
      moreover have "fst ` set vs = set bulk \<union> st_id ` set (rows_after field x y ?rows)"
        unfolding vs by (rule keys_placed)
      ultimately show False using None by (simp add: map_of_eq_None_iff)
    qed
    then have "r \<in> set ?rows" using r g(3) by simp
    then show ?thesis using None r g(1,2) by auto
  qed (simp add: r(1) g)
qed

lemma distinct_ids_bulk:
  assumes "validate_bulk_userstories r b" and "distinct (map st_id (stories b))"
  shows "distinct (mv_bulk_userstories r)"
    and "i \<in> set (mv_bulk_userstories r) \<Longrightarrow> \<exists>s \<in> set (stories b). st_id s = i \<and> st_project_id s = mv_project_id r"
proof -
  let ?rows = "filter (\<lambda>s. st_project_id s = mv_project_id r \<and> st_id s \<in> set (mv_bulk_userstories r)) (stories b)"
  have d: "distinct (map st_id ?rows)" using assms(2) by (simp add: distinct_map_filter)
  have sub: "set (map st_id ?rows) \<subseteq> set (mv_bulk_userstories r)" by auto
  have n: "length (map st_id ?rows) = length (mv_bulk_userstories r)"
    using assms(1) by (simp add: validate_bulk_userstories_def)
  have "card (set (map st_id ?rows)) = length (mv_bulk_userstories r)" using distinct_card[OF d] n by simp
  moreover have "card (set (map st_id ?rows)) \<le> card (set (mv_bulk_userstories r))"
    by (rule card_mono[OF _ sub]) simp
  ultimately have c: "card (set (mv_bulk_userstories r)) = length (mv_bulk_userstories r)"
    using card_length[of "mv_bulk_userstories r"] by linarith
  then show "distinct (mv_bulk_userstories r)" by (rule card_distinct)
  have "set (map st_id ?rows) = set (mv_bulk_userstories r)"
    using card_subset_eq[OF _ sub] c distinct_card[OF d] n by simp
  note eq = this
  show "\<exists>s \<in> set (stories b). st_id s = i \<and> st_project_id s = mv_project_id r" if i: "i \<in> set (mv_bulk_userstories r)"
  proof -
    have "i \<in> set (map st_id ?rows)" using i unfolding eq .
    then show ?thesis by auto
  qed
qed

text \<open>Relabelling stories: what keeps a board well formed, and which flags it puts in doubt.\<close>

lemma relabel_stories:
  assumes b': "stories b' = map g (stories b)" "btasks b' = btasks b" "issues b' = issues b" "milestones b' = milestones b"
      "us_statuses b' = us_statuses b" "task_statuses b' = task_statuses b" "issue_statuses b' = issue_statuses b"
    and ok: "board_ok b"
    and g: "\<And>r. st_id (g r) = st_id r" "\<And>r. st_is_closed (g r) = st_is_closed r"
      "\<And>r. st_milestone_id (g r) = st_milestone_id r" "\<And>r. st_id r \<notin> X \<Longrightarrow> st_status_id (g r) = st_status_id r"
      "\<And>r. st_id r \<in> X \<Longrightarrow> st_status_id (g r) \<noteq> None \<or> st_status_id (g r) = st_status_id r"
  shows "board_wf b'" and "statusless_open b'" and "stories_right X b'" and "milestones_right {} b'"
proof -
  have flags: "task_flags i b' = task_flags i b" for i
    by (simp add: task_flags_def task_is_closed_def b')
  have "{st_is_closed r | r. r \<in> g ` set (stories b) \<and> st_milestone_id r = Some m}
      = {st_is_closed r | r. r \<in> set (stories b) \<and> st_milestone_id r = Some m}" for m
    by (rule compr_image) (simp_all add: g)
  then have cont: "contents m b' = contents m b" for m
    by (simp add: contents_def task_is_closed_def issue_is_closed_def b')
  have ids: "map st_id (map g rs) = map st_id rs" for rs by (simp add: g)
  have idset: "st_id ` g ` S = st_id ` S" for S by (simp add: image_image g)
  show "board_wf b'"
    using ok unfolding board_ok_def board_wf_def b' ids by (simp add: idset g)
  have st: "statusless_open b" using ok stories_right_statusless by (simp add: board_ok_def)
  show "statusless_open b'"
    unfolding statusless_open_def b'
  proof (intro ballI impI)
    fix q assume "q \<in> set (map g (stories b))" and q: "st_status_id q = None"
    then obtain r where r: "q = g r" "r \<in> set (stories b)" by auto
    then have "st_status_id r = None" using g(4,5)[of r] q by (cases "st_id r \<in> X") auto
    then show "\<not> st_is_closed q" using st r g(2) by (simp add: statusless_open_def)
  qed
  show "stories_right X b'"
    using ok by (auto simp: stories_right_def board_ok_def b' calculate_userstory_iff flags g)
  show "milestones_right {} b'"
    using ok by (simp add: milestones_right_def board_ok_def b' calculate_milestone_iff cont)
qed

lemma relabel_stories_all:
  assumes "stories b' = map g (stories b)" and "btasks b' = btasks b" and "issues b' = issues b" and "milestones b' = milestones b"
    and "us_statuses b' = us_statuses b" and "task_statuses b' = task_statuses b" and "issue_statuses b' = issue_statuses b"
    and "board_ok b" and "\<And>r. st_id (g r) = st_id r" and "\<And>r. st_is_closed (g r) = st_is_closed r"
    and "\<And>r. st_milestone_id (g r) = st_milestone_id r" and "\<And>r. st_id r \<notin> X \<Longrightarrow> st_status_id (g r) = st_status_id r"
    and "\<And>r. st_id r \<in> X \<Longrightarrow> st_status_id (g r) \<noteq> None \<or> st_status_id (g r) = st_status_id r"
  shows "board_wf b' \<and> statusless_open b' \<and> stories_right X b' \<and> milestones_right {} b'"
  using relabel_stories[of b' g b X, OF assms(1-8) assms(9-13)] by blast

lemma emit_keeps [simp]:
  "stories (emit_for_ids is c p b) = stories b" "btasks (emit_for_ids is c p b) = btasks b"
  "issues (emit_for_ids is c p b) = issues b" "milestones (emit_for_ids is c p b) = milestones b"
  by (simp_all add: emit_for_ids_def)

lemma emit_ok [simp]: "board_ok (emit_for_ids is c p b) = board_ok b"
proof -
  have "task_flags k (emit_for_ids is c p b) = task_flags k b" "contents m (emit_for_ids is c p b) = contents m b" for k m
    by (simp_all add: task_flags_def contents_def task_is_closed_def issue_is_closed_def emit_for_ids_def)
  then show ?thesis
    by (simp add: board_ok_def stories_right_def milestones_right_def calculate_userstory_iff calculate_milestone_iff
        board_wf_def) (simp add: emit_for_ids_def)
qed

lemma put_story_sel [simp]:
  "st_id (put_story_order f n r) = st_id r" "st_is_closed (put_story_order f n r) = st_is_closed r"
  "st_milestone_id (put_story_order f n r) = st_milestone_id r" "st_status_id (put_story_order f n r) = st_status_id r"
  "st_project_id (put_story_order f n r) = st_project_id r" "st_swimlane_id (put_story_order f n r) = st_swimlane_id r"
  "get_order f (put_story_order f n r) = n"
  by (cases f; simp)+

text \<open>The row a story has after a move: numbered anew, and relabelled when it was moved.\<close>

definition renumbered :: "us_order_field \<Rightarrow> orders \<Rightarrow> story \<Rightarrow> story" where
  "renumbered field vs r = (case map_of vs (st_id r) of Some n \<Rightarrow> put_story_order field n r | None \<Rightarrow> r)"

lemma renumbered_sel [simp]:
  "st_id (renumbered f vs r) = st_id r" "st_is_closed (renumbered f vs r) = st_is_closed r"
  "st_milestone_id (renumbered f vs r) = st_milestone_id r" "st_status_id (renumbered f vs r) = st_status_id r"
  "st_project_id (renumbered f vs r) = st_project_id r" "st_swimlane_id (renumbered f vs r) = st_swimlane_id r"
  "get_order f (renumbered f vs r) = (case map_of vs (st_id r) of Some n \<Rightarrow> n | None \<Rightarrow> get_order f r)"
  by (simp_all add: renumbered_def split: option.split)

lemma renumbered_kanban [simp]:
  "st_kanban_order (renumbered Kanban_Order vs r) = (case map_of vs (st_id r) of Some n \<Rightarrow> n | None \<Rightarrow> st_kanban_order r)"
  by (simp add: renumbered_def split: option.split)

lemma update_story_orders_eq: "update_story_orders field vs b = b\<lparr>stories := map (renumbered field vs) (stories b)\<rparr>"
  by (simp add: update_story_orders_def renumbered_def)

lemma set_of_update [simp]: "get_order f (r\<lparr>st_status_id := s, st_swimlane_id := w\<rparr>) = get_order f r"
  "get_order f (r\<lparr>st_milestone_id := m\<rparr>) = get_order f r"
  by (cases f; simp)+

lemma map_ids: "(\<And>r. st_id (g r) = st_id r) \<Longrightarrow> st_id ` set (map g rs) = st_id ` set rs"
  by (simp add: image_image)

lemma kanban_service_run:
  assumes ok: "board_ok b" and bulk: "distinct bulk"
      "\<And>i. i \<in> set bulk \<Longrightarrow> \<exists>r \<in> set (stories b). st_id r = i \<and> st_project_id r = project"
    and y: "\<And>a. y = Some a \<Longrightarrow> a \<in> set (stories b)"
  shows "\<exists>data b'. update_userstories_kanban_order_in_bulk (Suc (Suc d)) project status bulk x y swimlane b = (Inr data, b')
    \<and> board_ok b'
    \<and> shown Kanban_Order (kanban_column project status swimlane b')
      = (let rows = filter (\<lambda>r. st_id r \<notin> set bulk) (kanban_column project status swimlane b) in
         shown Kanban_Order (rows_before Kanban_Order x y rows) @ bulk @ shown Kanban_Order (rows_after Kanban_Order x y rows))
    \<and> (\<forall>r \<in> set (stories b). st_id r \<notin> set bulk \<longrightarrow> (\<exists>r' \<in> set (stories b').
         bare_story r' = bare_story (if r \<in> set (kanban_column project status swimlane b)
            then r\<lparr>st_kanban_order := st_kanban_order r'\<rparr> else r)))"
proof -
  let ?P = "\<lambda>r. st_project_id r = project \<and> st_status_id r = Some status \<and> st_swimlane_id r = swimlane"
  let ?rows = "filter (\<lambda>r. st_id r \<notin> set bulk) (filter ?P (stories b))"
  define vs where "vs = placed_orders Kanban_Order bulk x y ?rows"
  let ?g = "\<lambda>r. let q = renumbered Kanban_Order vs r in
    if st_project_id q = project \<and> st_id q \<in> set bulk then q\<lparr>st_status_id := Some status, st_swimlane_id := swimlane\<rparr> else q"
  let ?b2 = "b\<lparr>stories := map ?g (stories b)\<rparr>"
  have wf: "board_wf b" using ok by (simp add: board_ok_def)
  note d = wf_distinct[OF wf]
  have inj: "r = q" if "r \<in> set (stories b)" "q \<in> set (stories b)" "st_id r = st_id q" for r q
    using d that by (simp add: distinct_map inj_on_def)
  have proj: "st_project_id r = project" if "r \<in> set (stories b)" "st_id r \<in> set bulk" for r
    using bulk(2)[OF that(2)] inj[OF _ that(1)] by auto
  have bulk': "set bulk \<subseteq> st_id ` set (stories b)" using bulk(2) by force
  have view: "shown Kanban_Order (filter ?P (map ?g (stories b)))
      = (let rows = ?rows in shown Kanban_Order (rows_before Kanban_Order x y rows) @ bulk
           @ shown Kanban_Order (rows_after Kanban_Order x y rows))"
    by (rule moved_column[OF d bulk(1) bulk' y vs_def]) (use proj in \<open>auto simp: Let_def split: option.split\<close>)
  have "board_wf ?b2 \<and> statusless_open ?b2 \<and> stories_right (set bulk) ?b2 \<and> milestones_right {} ?b2"
    by (rule relabel_stories_all[where g = ?g and b = b]; use ok in \<open>simp add: Let_def\<close>)
  note b2 = this[THEN conjunct1] this[THEN conjunct2, THEN conjunct1] this[THEN conjunct2, THEN conjunct2, THEN conjunct1]
    this[THEN conjunct2, THEN conjunct2, THEN conjunct2]
  from moving.settles_all[OF b2 distinct_filter_stories[OF b2(1), of "\<lambda>r. st_id r \<in> set bulk"] filter_found[OF b2(1)], where depth = d]
  obtain b3 where b3: "forE (filter (\<lambda>r. st_id r \<in> set bulk) (stories ?b2))
      (\<lambda>r. bindE (recalculate_is_closed_for_userstory_and_its_milestone (Suc (Suc d)) (loaded r)) (\<lambda>_. snapshot_story r)) ?b2
        = (Inr (), b3)" "board_wf b3" "stories_right (set bulk - st_id ` set (filter (\<lambda>r. st_id r \<in> set bulk) (stories ?b2))) b3"
      "milestones_right {} b3" "flags_and_snapshots ?b2 b3" by blast
  have "st_id ` set (map ?g (stories b)) = st_id ` set (stories b)"
    by (rule map_ids) (simp add: Let_def)
  then have "set bulk \<subseteq> st_id ` set (stories ?b2)" using bulk' by (simp del: set_map)
  then have "set bulk - st_id ` set (filter (\<lambda>r. st_id r \<in> set bulk) (stories ?b2)) = {}" by (auto simp del: set_map)
  then have ok3: "board_ok b3" using b3(2,3,4) by (simp only: board_ok_def simp_thms)
  let ?b4 = "emit_for_ids (map fst vs) ''userstories.userstory'' project b3"
  have run: "update_userstories_kanban_order_in_bulk (Suc (Suc d)) project status bulk x y swimlane b
      = (Inr (map (\<lambda>(i, n). (i, swimlane, status, n)) vs), ?b4)"
    using b3(1)
    unfolding update_userstories_kanban_order_in_bulk_def kanban_column_def Let_def vs_def[symmetric] update_story_orders_eq
    by (simp add: comp_def async_tasks_after_kanban_order_change_def bindE_apply)
  have bare: "map bare_story (stories ?b4) = map bare_story (map ?g (stories b))"
    using b3(5) by (simp add: flags_and_snapshots_def flags_only_def)
  have P: "?P (bare_story r) = ?P r" for r by simp
  have col: "kanban_column project status swimlane c = filter ?P (stories c)" for c by (simp add: kanban_column_def)
  have "shown Kanban_Order (filter ?P (stories ?b4)) = shown Kanban_Order (filter ?P (map ?g (stories b)))"
    by (rule shown_bare[where P = ?P, OF bare P])
  note this[unfolded view]
  moreover have "\<exists>r' \<in> set (stories ?b4). bare_story r' = bare_story (if r \<in> set (filter ?P (stories b))
            then r\<lparr>st_kanban_order := st_kanban_order r'\<rparr> else r)"
    if r: "r \<in> set (stories b)" and no: "st_id r \<notin> set bulk" for r
  proof -
    have "bare_story (?g r) \<in> bare_story ` set (stories ?b4)"
      using r arg_cong[OF bare, of set] by (auto simp: image_image)
    then obtain r' where r': "r' \<in> set (stories ?b4)" "bare_story r' = bare_story (renumbered Kanban_Order vs r)"
      using no by (auto simp: Let_def)
    have order: "st_kanban_order r' = st_kanban_order (renumbered Kanban_Order vs r)"
      using arg_cong[OF r'(2), of st_kanban_order] by (simp add: bare_story_def)
    have "renumbered Kanban_Order vs r = r" if "\<not> ?P r"
    proof -
      have "st_id r \<notin> fst ` set vs"
      proof
        assume "st_id r \<in> fst ` set vs"
        moreover have "fst ` set vs = set bulk \<union> st_id ` set (rows_after Kanban_Order x y ?rows)"
          unfolding vs_def by (rule keys_placed)
        ultimately obtain q where "q \<in> set (rows_after Kanban_Order x y ?rows)" "st_id q = st_id r" using no by auto
        then have "q = r" "?P q" using inj[of q r] r rows_split[of ?rows Kanban_Order x y] by auto
        then show False using that by simp
      qed
      then have "map_of vs (st_id r) = None" by (simp add: map_of_eq_None_iff)
      then show ?thesis by (simp add: renumbered_def)
    qed
    moreover have "renumbered Kanban_Order vs r = r\<lparr>st_kanban_order := st_kanban_order (renumbered Kanban_Order vs r)\<rparr>"
      by (simp add: renumbered_def split: option.split)
    ultimately show ?thesis using r' order r by (intro bexI[OF _ r'(1)]) auto
  qed
  ultimately show ?thesis
    using run ok3 unfolding col by (intro exI conjI) (assumption | simp)+
qed

section \<open>Moving stories on the backlog and in sprints\<close>

lemma recalculate_all_run:
  assumes "\<forall>m \<in> set ms. m \<in> ms_id ` set (milestones b)" and "milestones_right Y b"
  shows "\<exists>b'. forE ms recalculate_is_closed_for_milestone b = (Inr (), b') \<and> same_items b b'
    \<and> milestones_right (Y - set ms) b'"
  using assms
proof (induction ms arbitrary: b Y)
  case Nil
  then show ?case by (simp add: retE_apply same_items.refl)
next
  case (Cons m ms)
  have run: "recalculate_is_closed_for_milestone m b = (Inr (), recalculated m b)"
    using Cons.prems(1) by (simp add: recalculate_run)
  note same = recalculated_same[of b m]
  have ids: "ms_id ` set (milestones (recalculated m b)) = ms_id ` set (milestones b)"
    using same by (metis list.set_map same_items_def)
  have "\<forall>n \<in> set ms. n \<in> ms_id ` set (milestones (recalculated m b))" using Cons.prems(1) unfolding ids by simp
  from Cons.IH[OF this recalculated_right[OF Cons.prems(2)]] obtain b' where
    "forE ms recalculate_is_closed_for_milestone (recalculated m b) = (Inr (), b')" "same_items (recalculated m b) b'"
    "milestones_right (Y - {m} - set ms) b'" by blast
  moreover have "Y - {m} - set ms = Y - set (m # ms)" by auto
  ultimately show ?case using same same_items.trans by (auto simp: bindE_apply run)
qed

text \<open>Taking snapshots changes nothing else.\<close>

definition snapshots_only :: "board \<Rightarrow> board \<Rightarrow> bool" where
  "snapshots_only b b' \<longleftrightarrow> b\<lparr>snapshots := snapshots b'\<rparr> = b'"

interpretation snapshots_only: effect_preorder snapshots_only
proof
  show "snapshots_only s s" for s by (simp add: snapshots_only_def)
  show "snapshots_only s u" if "snapshots_only s t" "snapshots_only t u" for s t u
    using that unfolding snapshots_only_def by (metis board.surjective board.update_convs(10))
qed

lemma snapshots_take: "snapshots_only b (note_snapshot n i b)"
  by (simp add: snapshots_only_def note_snapshot_def)

lemma snapshots_fold: "snapshots_only b (fold (\<lambda>t. note_snapshot n (f t)) ts b)"
  by (induction ts arbitrary: b) (auto intro: snapshots_only.refl snapshots_only.trans[OF snapshots_take])

lemma snapshots_loop:
  "\<exists>b'. forE rs (\<lambda>r. bindE (snapshot_story r) (\<lambda>_ b.
      (Inr (), fold (\<lambda>t. note_snapshot ''tasks.task'' (tk_id t)) (tasks_of_story (st_id r) b) b))) b = (Inr (), b')
   \<and> snapshots_only b b'"
proof (induction rs arbitrary: b)
  case (Cons r rs)
  let ?c = "note_snapshot ''userstories.userstory'' (st_id r) b"
  let ?e = "fold (\<lambda>t. note_snapshot ''tasks.task'' (tk_id t)) (tasks_of_story (st_id r) ?c) ?c"
  have "snapshots_only b ?e" by (rule snapshots_only.trans[OF snapshots_take snapshots_fold])
  then show ?case
    using Cons.IH[of ?e] snapshots_only.trans by (fastforce simp: bindE_apply snapshot_story_def)
qed (simp add: retE_apply snapshots_only.refl)

lemma snapshots_only_keeps:
  assumes "snapshots_only b b'"
  shows "board_wf b' = board_wf b" and "stories_right X b' = stories_right X b"
    and "milestones_right Y b' = milestones_right Y b" and "stories b' = stories b" and "milestones b' = milestones b"
    and "btasks b' = btasks b"
proof -
  have b': "b' = b\<lparr>snapshots := snapshots b'\<rparr>" using assms by (simp add: snapshots_only_def)
  have "task_flags k (b\<lparr>snapshots := s\<rparr>) = task_flags k b" "contents m (b\<lparr>snapshots := s\<rparr>) = contents m b" for k m s
    by (simp_all add: task_flags_def contents_def task_is_closed_def issue_is_closed_def)
  then have "board_wf (b\<lparr>snapshots := s\<rparr>) = board_wf b \<and> stories_right X (b\<lparr>snapshots := s\<rparr>) = stories_right X b
      \<and> milestones_right Y (b\<lparr>snapshots := s\<rparr>) = milestones_right Y b" for s
    by (simp add: board_wf_def stories_right_def milestones_right_def calculate_userstory_iff calculate_milestone_iff)
  then show "board_wf b' = board_wf b" "stories_right X b' = stories_right X b" "milestones_right Y b' = milestones_right Y b"
    by (metis b')+
  show "stories b' = stories b" "milestones b' = milestones b" "btasks b' = btasks b"
    by (subst b', simp)+
qed

lemma backlog_service_run:
  assumes ok: "board_ok b" and bulk: "distinct bulk"
      "\<And>i. i \<in> set bulk \<Longrightarrow> \<exists>r \<in> set (stories b). st_id r = i \<and> st_project_id r = project"
    and y: "\<And>a. y = Some a \<Longrightarrow> a \<in> set (stories b)" and ex: "milestone_exists b milestone"
    and home: "\<forall>r \<in> set (stories b). \<forall>m \<in> set (milestones b). st_id r \<in> set bulk \<longrightarrow>
        st_milestone_id r = Some (ms_id m) \<longrightarrow> ms_project_id m = project"
  shows "\<exists>data b'. update_userstories_backlog_or_sprint_order_in_bulk project bulk x y milestone b = (Inr data, b')
    \<and> board_ok b'
    \<and> shown (backlog_field milestone) (backlog_column project milestone b')
      = (let rows = filter (\<lambda>r. st_id r \<notin> set bulk) (backlog_column project milestone b) in
         shown (backlog_field milestone) (rows_before (backlog_field milestone) x y rows) @ bulk
         @ shown (backlog_field milestone) (rows_after (backlog_field milestone) x y rows))"
proof -
  let ?F = "backlog_field milestone"
  let ?P = "\<lambda>r. st_project_id r = project \<and> st_milestone_id r = milestone"
  let ?rows = "filter (\<lambda>r. st_id r \<notin> set bulk) (filter ?P (stories b))"
  define vs where "vs = placed_orders ?F bulk x y ?rows"
  define g where "g r = (let q = renumbered ?F vs r in
    if st_project_id q = project \<and> st_id q \<in> set bulk then q\<lparr>st_milestone_id := milestone\<rparr> else q)" for r :: story
  define h where "h t = (if tk_project_id t = project \<and> (\<exists>i \<in> set bulk. tk_user_story_id t = Some i)
    then t\<lparr>tk_milestone_id := milestone\<rparr> else t)" for t :: btask
  let ?b2 = "b\<lparr>stories := map g (stories b), btasks := map h (btasks b)\<rparr>"
  have wf: "board_wf b" and S: "stories_right {} b" and M: "milestones_right {} b"
    using ok by (simp_all add: board_ok_def)
  note d = wf_distinct[OF wf]
  have inj: "r = q" if "r \<in> set (stories b)" "q \<in> set (stories b)" "st_id r = st_id q" for r q
    using d that by (simp add: distinct_map inj_on_def)
  have proj: "st_project_id r = project" if "r \<in> set (stories b)" "st_id r \<in> set bulk" for r
    using bulk(2)[OF that(2)] inj[OF _ that(1)] by auto
  have bulk': "set bulk \<subseteq> st_id ` set (stories b)" using bulk(2) by force
  have g: "g = (\<lambda>r. if st_project_id r = project \<and> st_id r \<in> set bulk
      then (renumbered ?F vs r)\<lparr>st_milestone_id := milestone\<rparr> else renumbered ?F vs r)"
    by (rule ext) (simp add: g_def Let_def)
  have h: "h = (\<lambda>t. if tk_project_id t = project \<and> (\<exists>i \<in> set bulk. tk_user_story_id t = Some i)
      then t\<lparr>tk_milestone_id := milestone\<rparr> else t)"
    by (rule ext) (simp add: h_def)
  have gsel: "st_id (g r) = st_id r" "st_is_closed (g r) = st_is_closed r" "st_status_id (g r) = st_status_id r"
      "st_project_id (g r) = st_project_id r"
      "st_milestone_id (g r) = (if st_project_id r = project \<and> st_id r \<in> set bulk then milestone else st_milestone_id r)"
      "get_order ?F (g r) = (case map_of vs (st_id r) of Some n \<Rightarrow> n | None \<Rightarrow> get_order ?F r)" for r
    by (simp_all add: g_def Let_def)
  have hsel: "tk_id (h t) = tk_id t" "tk_user_story_id (h t) = tk_user_story_id t" "tk_status_id (h t) = tk_status_id t"
      "tk_user_story_id t = None \<Longrightarrow> h t = t" "tk_milestone_id (h t) = tk_milestone_id t \<or> tk_milestone_id (h t) = milestone" for t
    by (auto simp: h_def)
  have view: "shown ?F (filter ?P (map g (stories b)))
      = (let rows = ?rows in shown ?F (rows_before ?F x y rows) @ bulk @ shown ?F (rows_after ?F x y rows))"
    by (rule moved_column[OF d bulk(1) bulk' y vs_def]) (use proj in \<open>auto simp: gsel\<close>)
  have ids: "map st_id (map g (stories b)) = map st_id (stories b)" "map tk_id (map h (btasks b)) = map tk_id (btasks b)"
    by (simp_all add: gsel hsel)
  have idset: "st_id ` set (map g (stories b)) = st_id ` set (stories b)"
    by (rule map_ids) (rule gsel(1))
  have wf2: "board_wf ?b2"
  proof -
    have "\<forall>r \<in> set (stories ?b2). \<forall>m. st_milestone_id r = Some m \<longrightarrow> m \<in> ms_id ` set (milestones b)"
      using wf ex by (auto simp: board_wf_def milestone_exists_def gsel split: if_splits)
    moreover have "\<forall>t \<in> set (btasks ?b2). \<forall>m. tk_milestone_id t = Some m \<longrightarrow> m \<in> ms_id ` set (milestones b)"
      using wf ex hsel(5) by (auto simp: board_wf_def milestone_exists_def) (metis option.set_intros subsetD)
    moreover have "\<forall>t \<in> set (btasks ?b2). \<forall>i. tk_user_story_id t = Some i \<longrightarrow> i \<in> st_id ` set (stories ?b2)"
      using wf idset by (auto simp: board_wf_def hsel simp del: set_map) (auto simp: hsel)
    ultimately show ?thesis
      using wf by (simp add: board_wf_def ids idset del: set_map map_map)
  qed
  have flags: "task_flags i ?b2 = task_flags i b" for i
  proof -
    have "{task_is_closed t b | t. t \<in> h ` set (btasks b) \<and> tk_user_story_id t = Some i}
        = {task_is_closed t b | t. t \<in> set (btasks b) \<and> tk_user_story_id t = Some i}"
      by (rule compr_image) (simp_all add: task_is_closed_def hsel)
    then show ?thesis by (simp add: task_flags_def task_is_closed_def)
  qed
  have S2: "stories_right {} ?b2"
    using S by (auto simp: stories_right_def calculate_userstory_iff flags gsel)
  let ?Y = "{m. \<exists>r \<in> set (stories b). st_id r \<in> set bulk \<and> st_milestone_id r = Some m} \<union> set_option milestone"
  have M2: "milestones_right ?Y ?b2"
  proof (rule milestones_cong[where Y = "{}" and b = b, OF _ _ _ M])
    fix m assume m: "m \<notin> ?Y"
    have "st_milestone_id (g r) = Some m \<longleftrightarrow> st_milestone_id r = Some m" if "r \<in> set (stories b)" for r
      using m that proj by (auto simp: gsel split: if_splits)
    then have "{st_is_closed r | r. r \<in> g ` set (stories b) \<and> st_milestone_id r = Some m}
        = {st_is_closed r | r. r \<in> set (stories b) \<and> st_milestone_id r = Some m}"
      using gsel(2) by (fastforce simp: image_iff)
    moreover have "{task_is_closed t b | t. t \<in> h ` set (btasks b) \<and> tk_milestone_id t = Some m \<and> tk_user_story_id t = None}
        = {task_is_closed t b | t. t \<in> set (btasks b) \<and> tk_milestone_id t = Some m \<and> tk_user_story_id t = None}"
      by (rule compr_image) (auto simp: task_is_closed_def h_def)
    ultimately show "contents m ?b2 = contents m b" by (simp add: contents_def task_is_closed_def issue_is_closed_def)
  qed simp_all
  obtain b3 where b3: "forE (filter (\<lambda>r. st_id r \<in> set bulk) (stories ?b2)) (\<lambda>r. bindE (snapshot_story r) (\<lambda>_ b.
      (Inr (), fold (\<lambda>t. note_snapshot ''tasks.task'' (tk_id t)) (tasks_of_story (st_id r) b) b))) ?b2 = (Inr (), b3)"
      "snapshots_only ?b2 b3"
    using snapshots_loop by blast
  note keep = snapshots_only_keeps[OF b3(2)]
  let ?A = "milestones_affected project bulk milestone b"
  let ?ms = "filter (\<lambda>m. m \<in> ?A) (map ms_id (milestones b3))"
  have "\<forall>m \<in> set ?ms. m \<in> ms_id ` set (milestones b3)" by auto
  from recalculate_all_run[OF this, of ?Y] M2 obtain b4 where b4:
    "forE ?ms recalculate_is_closed_for_milestone b3 = (Inr (), b4)" "same_items b3 b4" "milestones_right (?Y - set ?ms) b4"
    unfolding keep(3) by blast
  have "m \<in> set ?ms" if m: "m \<in> ?Y" for m
  proof -
    have here: "m \<in> ms_id ` set (milestones b)" using m wf ex by (auto simp: board_wf_def milestone_exists_def)
    then obtain q where q: "q \<in> set (milestones b)" "ms_id q = m" by auto
    have "m \<in> ?A"
      using m home q by (fastforce simp: milestones_affected_def list_ex_iff)
    then show ?thesis using here by (simp add: keep(5))
  qed
  then have "?Y - set ?ms = {}" by blast
  then have ok4: "board_ok b4"
    using same_items_ok[OF b4(2)] wf2 S2 b4(3) unfolding keep(1,2) by (simp only:)
  let ?b5 = "emit_for_ids (map fst vs) ''userstories.userstory'' project b4"
  have run: "update_userstories_backlog_or_sprint_order_in_bulk project bulk x y milestone b
      = (Inr (map (\<lambda>(i, n). (i, milestone, n)) vs), ?b5)"
    using b3(1) b4(1)
    unfolding update_userstories_backlog_or_sprint_order_in_bulk_def backlog_column_def Let_def vs_def[symmetric]
      update_story_orders_eq
    by (simp add: comp_def g h async_tasks_after_backlog_or_sprint_order_change_def bindE_apply)
  have st: "stories ?b5 = map g (stories b)" using b4(2) keep(4) by (simp add: same_items_def)
  show ?thesis
    using run ok4 view st by (intro exI[of _ "map (\<lambda>(i, n). (i, milestone, n)) vs"] exI[of _ ?b5])
      (simp add: backlog_column_def del: filter_filter)
qed

section \<open>Moves as insertions of a block\<close>

text \<open>The abstract operation on the list a column shows.\<close>

definition place_block :: "int list \<Rightarrow> int option \<Rightarrow> int option \<Rightarrow> int list \<Rightarrow> int list" where
  "place_block bulk before_us after_us column =
     (let rest = filter (\<lambda>i. i \<notin> set bulk) column in
      case before_us of Some i \<Rightarrow> takeWhile (\<lambda>j. j \<noteq> i) rest @ bulk @ dropWhile (\<lambda>j. j \<noteq> i) rest
      | None \<Rightarrow> (case after_us of
          Some i \<Rightarrow> takeWhile (\<lambda>j. j \<noteq> i) rest @ [i] @ bulk @ tl (dropWhile (\<lambda>j. j \<noteq> i) rest)
        | None \<Rightarrow> bulk @ rest))"

lemma shown_filter: "shown field (filter (\<lambda>r. P (st_id r)) rows) = filter P (shown field rows)"
  by (simp add: shown_def filter_sort[symmetric] filter_map comp_def)

lemma cut_list:
  assumes "\<forall>r \<in> set us. key r \<noteq> key a"
  shows "takeWhile (\<lambda>j. j \<noteq> key a) (map key us @ key a # ws) = map key us"
    and "dropWhile (\<lambda>j. j \<noteq> key a) (map key us @ key a # ws) = key a # ws"
  using assms by (induction us) simp_all

lemma cut_at:
  assumes "sorted_wrt (\<lambda>r q. f r < (f q :: int)) xs" and "distinct (map key xs)" and "a \<in> set xs"
  shows "map key (filter (\<lambda>r. f r < f a) xs) = takeWhile (\<lambda>j. j \<noteq> key a) (map key xs)"
    and "map key (filter (\<lambda>r. f r \<ge> f a) xs) = dropWhile (\<lambda>j. j \<noteq> key a) (map key xs)"
proof -
  obtain us vs where xs: "xs = us @ a # vs" using assms(3) by (meson split_list)
  have us: "\<forall>r \<in> set us. f r < f a" and vs: "\<forall>r \<in> set vs. f a < f r"
    using assms(1) by (auto simp: xs sorted_wrt_append)
  have key: "\<forall>r \<in> set us. key r \<noteq> key a" using assms(2) by (auto simp: xs image_iff)
  have "filter (\<lambda>r. f r < f a) xs = us" "filter (\<lambda>r. f r \<ge> f a) xs = a # vs"
    using us vs by (auto simp: xs filter_id_conv filter_empty_conv not_le)
  moreover have "takeWhile (\<lambda>j. j \<noteq> key a) (map key xs) = map key us"
    "dropWhile (\<lambda>j. j \<noteq> key a) (map key xs) = map key (a # vs)"
    using cut_list[OF key] by (simp_all add: xs)
  ultimately show "map key (filter (\<lambda>r. f r < f a) xs) = takeWhile (\<lambda>j. j \<noteq> key a) (map key xs)"
    "map key (filter (\<lambda>r. f r \<ge> f a) xs) = dropWhile (\<lambda>j. j \<noteq> key a) (map key xs)" by simp_all
qed

lemma strict_rows:
  assumes "inj_on (get_order field) (set rows)" and "distinct rows"
  shows "sorted_wrt (\<lambda>r q. get_order field r < get_order field q) (sort_key (\<lambda>r. (get_order field r, st_id r)) rows)"
proof -
  let ?S = "sort_key (\<lambda>r. (get_order field r, st_id r)) rows"
  have "sorted_wrt (\<lambda>r q. (get_order field r, st_id r) \<le> (get_order field q, st_id q)) ?S"
    using sorted_sort_key[of "\<lambda>r. (get_order field r, st_id r)" rows] by (simp add: sorted_wrt_map)
  moreover have "sorted_wrt (\<noteq>) ?S"
    unfolding sorted_wrt_iff_nth_less using assms(2) by (simp add: nth_eq_iff_index_eq)
  ultimately have "sorted_wrt (\<lambda>r q. (get_order field r, st_id r) \<le> (get_order field q, st_id q) \<and> r \<noteq> q) ?S"
    by (simp add: sorted_wrt_iff_nth_less)
  then show ?thesis
  proof (rule sorted_wrt_mono_rel[rotated])
    fix r q assume "r \<in> set ?S" "q \<in> set ?S"
      and *: "(get_order field r, st_id r) \<le> (get_order field q, st_id q) \<and> r \<noteq> q"
    then have "get_order field r \<noteq> get_order field q" using assms(1) by (auto simp: inj_on_def)
    then show "get_order field r < get_order field q" using * by (auto simp: less_eq_prod_def)
  qed
qed

lemma placed_block:
  assumes d: "distinct (map st_id column)" and inj: "inj_on (get_order field) (set column)"
    and x: "\<And>a. x = Some a \<Longrightarrow> a \<in> set column \<and> st_id a \<notin> set bulk"
    and y: "\<And>a. x = None \<Longrightarrow> y = Some a \<Longrightarrow> a \<in> set column \<and> st_id a \<notin> set bulk"
  shows "(let rows = filter (\<lambda>r. st_id r \<notin> set bulk) column in
      shown field (rows_before field x y rows) @ bulk @ shown field (rows_after field x y rows))
    = place_block bulk (map_option st_id x) (map_option st_id y) (shown field column)"
proof -
  let ?rows = "filter (\<lambda>r. st_id r \<notin> set bulk) column"
  let ?S = "sort_key (\<lambda>r. (get_order field r, st_id r)) ?rows"
  have rest: "filter (\<lambda>i. i \<notin> set bulk) (shown field column) = map st_id ?S"
    using shown_filter[of field "\<lambda>i. i \<notin> set bulk" column] by (simp add: shown_def)
  have dr: "distinct (map st_id ?rows)" using d by (simp add: distinct_map_filter)
  have dS: "distinct (map st_id ?S)" using dr by (simp add: distinct_map)
  have "inj_on (get_order field) (set ?rows)" using inj by (rule inj_on_subset) auto
  note strict = strict_rows[OF this distinct_map[THEN iffD1, THEN conjunct1, OF dr]]
  have sub: "shown field (filter Q ?rows) = map st_id (filter Q ?S)" for Q
    by (simp add: shown_def filter_sort)
  have all: "shown field ?rows = map st_id ?S" by (simp add: shown_def)
  show ?thesis
  proof (cases x)
    case (Some a)
    have a: "a \<in> set ?S" using x[OF Some] by simp
    note cut = cut_at[where key = st_id, OF strict dS a]
    show ?thesis
      unfolding place_block_def Let_def rest
      by (simp add: Some rows_before_def rows_after_def sub cut del: filter_filter)
  next
    case None
    show ?thesis
    proof (cases y)
      case (Some a)
      have a: "a \<in> set ?S" using y[OF None Some] by simp
      obtain us vs where S: "?S = us @ a # vs" using a by (meson split_list)
      have us: "\<forall>r \<in> set us. get_order field r < get_order field a" and vs: "\<forall>r \<in> set vs. get_order field a < get_order field r"
        using strict by (auto simp: S sorted_wrt_append)
      have key: "\<forall>r \<in> set us. st_id r \<noteq> st_id a" "\<forall>r \<in> set vs. st_id r \<noteq> st_id a" using dS by (auto simp: S image_iff)
      have "filter (\<lambda>r. st_id r = st_id a \<or> get_order field r < get_order field a) ?S = us @ [a]"
        "filter (\<lambda>r. st_id r \<noteq> st_id a \<and> get_order field r \<ge> get_order field a) ?S = vs"
        using us vs key unfolding S by (auto simp: filter_id_conv filter_empty_conv not_le less_imp_le)
      moreover have "takeWhile (\<lambda>j. j \<noteq> st_id a) (map st_id ?S) = map st_id us"
        "dropWhile (\<lambda>j. j \<noteq> st_id a) (map st_id ?S) = map st_id (a # vs)"
        using cut_list[OF key(1)] unfolding S by simp_all
      ultimately show ?thesis
        unfolding place_block_def Let_def rest
        by (simp add: None Some rows_before_def rows_after_def sub del: filter_filter)
    next
      case none: None
      show ?thesis
        unfolding place_block_def Let_def rest
        by (simp add: None none rows_before_def rows_after_def all) (simp add: shown_def)
    qed
  qed
qed

end
