(* ===== verification/Board_Api_Props.thy ===== *)
theory Board_Api_Props
  imports Board_Api Board_Order_Props Permission_Facts
begin

text \<open>
  What the endpoints that move stories and tasks guarantee: a valid request of a permitted user
  places the stories as a block next to their neighbour, and only such a user changes anything;
  and what two of them get wrong.
\<close>

section \<open>Permission checks\<close>

lemma move_permissions:
  "composed UserStoryPermission ''bulk_update_order'' = Inr (OrPerm [OrPerm [IsProjectAdmin, IsSuperUser], HasProjectPerm ''modify_us''])"
  "composed UserStoryPermission ''bulk_update_milestone'' = Inr (OrPerm [OrPerm [IsProjectAdmin, IsSuperUser], HasProjectPerm ''modify_us''])"
  "composed TaskPermission ''bulk_update_order'' = Inr (OrPerm [OrPerm [IsProjectAdmin, IsSuperUser], HasProjectPerm ''modify_task''])"
  "composed TaskPermission ''bulk_update_milestone'' = Inr (OrPerm [OrPerm [IsProjectAdmin, IsSuperUser], HasProjectPerm ''modify_task''])"
  by code_simp+

lemma project_check_pass:
  assumes "composed R a = Inr (OrPerm [OrPerm [IsProjectAdmin, IsSuperUser], HasProjectPerm perm])"
    and "user_has_perm ac u perm (Some p) UserCache"
  shows "project_check ac u R a p s = (Inr (), s)"
  using assms by (simp add: project_check_def view_check_def resource_check_def bindE_apply retE_apply
      has_project_perm_def get_object_project_def)

lemma admin_has_perm:
  assumes "is_superuser u \<or> is_project_admin ac u (Some p)" and "perm \<in> set MEMBERS_PERMISSIONS"
  shows "user_has_perm ac u perm (Some p) UserCache"
proof (cases "is_superuser u")
  case True
  then show ?thesis using assms(2) by (simp add: user_has_perm_def permissions_superuser)
next
  case False
  then have "is_project_admin ac u (Some p)" using assms(1) by simp
  then obtain m where m: "get_user_project_membership ac u p UserCache = Some m" "mb_is_admin m"
    using False by (auto simp: is_project_admin_def split: option.splits)
  then obtain i where "u = User i False" using False
    by (cases u) (auto simp: get_user_project_membership_def)
  then show ?thesis using m assms(2) by (simp add: user_has_perm_def permissions_member)
qed

lemma project_check_only:
  assumes "composed R a = Inr (OrPerm [OrPerm [IsProjectAdmin, IsSuperUser], HasProjectPerm perm])"
    and "perm \<in> set MEMBERS_PERMISSIONS" and "\<not> user_has_perm ac u perm (Some p) UserCache"
  shows "\<exists>e. project_check ac u R a p s = (Inl e, s)"
proof -
  have "\<not> is_superuser u" "\<not> is_project_admin ac u (Some p)" using assms(2,3) admin_has_perm by blast+
  then show ?thesis using assms(1,3)
    by (simp add: project_check_def view_check_def resource_check_def bindE_apply raiseE_apply
        has_project_perm_def get_object_project_def project_admin_perm_def)
qed


section \<open>A valid request\<close>

lemma find_keyed:
  assumes "distinct (map f xs)" and "x \<in> set xs" and "P x" and "f x = i"
  shows "find (\<lambda>y. f y = i \<and> P y) xs = Some x"
proof -
  obtain y where y: "find (\<lambda>y. f y = i \<and> P y) xs = Some y"
    using assms(2-4) by (cases "find (\<lambda>y. f y = i \<and> P y) xs") (auto simp: find_None_iff)
  then have "y \<in> set xs" "f y = i" by (auto simp: find_Some_iff)
  then have "y = x" using assms(1,2,4) by (metis distinct_map inj_onD)
  then show ?thesis using y by simp
qed

lemma story_found:
  assumes "distinct (map st_id (stories b))" and "a \<in> set (stories b)" and "st_project_id a = pr_id p"
  shows "story_of_project p (st_id a) b = Some a"
  unfolding story_of_project_def by (rule find_keyed) (use assms in auto)

lemma kanban_neighbour_found:
  assumes "kanban_neighbour r i b" and "distinct (map st_id (stories b))" and "mv_project_id r = pr_id p"
    and "mv_swimlane_id r \<noteq> Some (Some 0)"
  obtains a where "story_of_project p i b = Some a"
    "a \<in> set (kanban_column (pr_id p) (mv_status_id r) (attr_get (mv_swimlane_id r)) b)" "st_id a = i"
proof -
  obtain a where a: "a \<in> set (stories b)" "st_id a = i" "st_project_id a = pr_id p"
      "st_status_id a = Some (mv_status_id r)"
      "if truthy_id (attr_get (mv_swimlane_id r)) then st_swimlane_id a = attr_get (mv_swimlane_id r) else st_swimlane_id a = None"
    using assms(1,3) by (auto simp: kanban_neighbour_def list_ex_iff)
  have "st_swimlane_id a = attr_get (mv_swimlane_id r)"
    using a(5) assms(4) by (auto simp: truthy_id_def attr_get_def split: if_splits option.splits)
  with a show ?thesis
    using that story_found[OF assms(2) a(1,3)] by (simp add: kanban_column_def)
qed

lemma backlog_neighbour_found:
  assumes "backlog_neighbour r i b" and "distinct (map st_id (stories b))" and "mv_project_id r = pr_id p"
    and "mv_milestone_id r \<noteq> Some (Some 0)"
  obtains a where "story_of_project p i b = Some a"
    "a \<in> set (backlog_column (pr_id p) (attr_get (mv_milestone_id r)) b)" "st_id a = i"
proof -
  obtain a where a: "a \<in> set (stories b)" "st_id a = i" "st_project_id a = pr_id p"
      "if truthy_id (attr_get (mv_milestone_id r)) then st_milestone_id a = attr_get (mv_milestone_id r) else st_milestone_id a = None"
    using assms(1,3) by (auto simp: backlog_neighbour_def list_ex_iff)
  have "st_milestone_id a = attr_get (mv_milestone_id r)"
    using a(4) assms(4) by (auto simp: truthy_id_def attr_get_def split: if_splits option.splits)
  with a show ?thesis
    using that story_found[OF assms(2) a(1,3)] by (simp add: backlog_column_def)
qed

text \<open>A validated neighbour, read by the view: nothing, or a story that passes the validator's test.\<close>

lemma optional_neighbour:
  assumes "\<And>i. v = Some i \<Longrightarrow> \<exists>a. story_of_project p i b = Some a \<and> a \<in> column \<and> st_id a = i"
  obtains x where "get_optional u (story_of_project p) v b = Inr x" "map_option st_id x = v"
    "\<And>a. x = Some a \<Longrightarrow> a \<in> column"
proof (cases v)
  case None
  then show ?thesis using that[of None] by (simp add: get_optional_def)
next
  case (Some i)
  then obtain a where "story_of_project p i b = Some a" "a \<in> column" "st_id a = i" using assms by blast
  then show ?thesis using that[of "Some a"] Some by (simp add: get_optional_def bindQ_apply get_object_or_error_def)
qed

lemma find_project_id: "find_project ac i = Some p \<Longrightarrow> pr_id p = i"
  by (auto simp: find_project_def find_Some_iff)

lemma project_found: "find_project ac i = Some p \<Longrightarrow> get_object_or_error u (\<lambda>_. find_project ac i) b = Inr p"
  by (simp add: get_object_or_error_def)

section \<open>Properties\<close>

text \<open>C4: Moving stories on the kanban board refines the insertion of a block. On a board whose
  flags are right, a valid request of a user who may modify stories, in a project that is
  neither blocked nor archived, returns; the column of the new status and swimlane then shows
  its former stories in their order, with the moved stories, in the order of the request, as a
  block right before or after the neighbour, or at the top when none is named; and all flags
  of stories and milestones are right again. The stories of the column must have different
  orders, and the neighbour must not be one of the moved stories.\<close>

theorem kanban_move_refines:
  assumes "board_ok b" and "kanban_order_bulk_valid lk req b"
    and "find_project ac (mv_project_id req) = Some p" and "user_has_perm ac u ''modify_us'' (Some p) UserCache"
    and "pr_id p \<notin> set (lk_blocked lk) \<union> set (lk_archived lk)" and "mv_swimlane_id req \<noteq> Some (Some 0)"
    and "set_option (attr_get (mv_after_userstory_id req)) \<union> set_option (attr_get (mv_before_userstory_id req))
           \<subseteq> - set (mv_bulk_userstories req)"
    and "inj_on st_kanban_order (set (kanban_column (pr_id p) (mv_status_id req) (attr_get (mv_swimlane_id req)) b))"
  shows "\<exists>data b'. bulk_update_kanban_order (Suc (Suc depth)) ac u lk req b = (Inr (Done data), b') \<and> board_ok b'
    \<and> shown Kanban_Order (kanban_column (pr_id p) (mv_status_id req) (attr_get (mv_swimlane_id req)) b')
      = place_block (mv_bulk_userstories req) (attr_get (mv_before_userstory_id req)) (attr_get (mv_after_userstory_id req))
          (shown Kanban_Order (kanban_column (pr_id p) (mv_status_id req) (attr_get (mv_swimlane_id req)) b))"
proof -
  let ?w = "attr_get (mv_swimlane_id req)"
  let ?C = "kanban_column (pr_id p) (mv_status_id req) ?w b"
  note pid = find_project_id[OF assms(3)]
  have d: "distinct (map st_id (stories b))" using assms(1) wf_distinct by (auto simp: board_ok_def)
  have after: "validate_after_userstory_id (\<lambda>i. kanban_neighbour req i b) req"
    and before: "validate_before_userstory_id (\<lambda>i. kanban_neighbour req i b) req"
    and vb: "validate_bulk_userstories req b" and vs: "validate_status_id lk req" and vw: "kanban_validate_swimlane_id lk req"
    using assms(2) by (auto simp: kanban_order_bulk_valid_def)
  have near: "\<exists>a. story_of_project p i b = Some a \<and> a \<in> set ?C \<and> st_id a = i" if "kanban_neighbour req i b" for i
    using kanban_neighbour_found[OF that d pid[symmetric] assms(6)] by blast
  obtain y where y: "get_optional u (story_of_project p) (attr_get (mv_after_userstory_id req)) b = Inr y"
      "map_option st_id y = attr_get (mv_after_userstory_id req)" "\<And>a. y = Some a \<Longrightarrow> a \<in> set ?C"
    by (rule optional_neighbour[of "attr_get (mv_after_userstory_id req)" p b "set ?C" u]) (use after near in \<open>auto simp: validate_after_userstory_id_def\<close>)
  obtain x where x: "get_optional u (story_of_project p) (attr_get (mv_before_userstory_id req)) b = Inr x"
      "map_option st_id x = attr_get (mv_before_userstory_id req)" "\<And>a. x = Some a \<Longrightarrow> a \<in> set ?C"
    by (rule optional_neighbour[of "attr_get (mv_before_userstory_id req)" p b "set ?C" u])
      (use before near in \<open>auto simp: validate_before_userstory_id_def attr_get_def split: option.splits if_splits\<close>)
  have status: "get_object_or_error u (row_of_project (lk_us_statuses lk) p (mv_status_id req)) b = Inr (mv_status_id req)"
    using vs by (simp add: get_object_or_error_def row_of_project_def validate_status_id_def pid)
  have swimlane: "get_optional u (row_of_project (lk_swimlanes lk) p) ?w b = Inr ?w"
    using vw by (auto simp: get_optional_def get_object_or_error_def row_of_project_def bindQ_apply
        kanban_validate_swimlane_id_def attr_get_def pid split: option.splits)
  have "\<exists>r \<in> set (stories b). st_id r = i \<and> st_project_id r = pr_id p" if "i \<in> set (mv_bulk_userstories req)" for i
    using distinct_ids_bulk(2)[OF vb d that] pid by simp
  from kanban_service_run[OF assms(1) distinct_ids_bulk(1)[OF vb d] this, of y depth "mv_status_id req" x ?w] y(3)
  obtain data b' where run: "update_userstories_kanban_order_in_bulk (Suc (Suc depth)) (pr_id p) (mv_status_id req)
        (mv_bulk_userstories req) x y ?w b = (Inr data, b')" "board_ok b'"
      "shown Kanban_Order (kanban_column (pr_id p) (mv_status_id req) ?w b')
        = (let rows = filter (\<lambda>r. st_id r \<notin> set (mv_bulk_userstories req)) ?C in
           shown Kanban_Order (rows_before Kanban_Order x y rows) @ mv_bulk_userstories req
           @ shown Kanban_Order (rows_after Kanban_Order x y rows))"
    by (auto simp: kanban_column_def)
  have dC: "distinct (map st_id ?C)" using d by (simp add: kanban_column_def distinct_map_filter)
  have inj: "inj_on (get_order Kanban_Order) (set ?C)" using assms(8) by (simp add: inj_on_def)
  have out: "st_id a \<notin> set (mv_bulk_userstories req)" if "x = Some a \<or> y = Some a" for a
    using assms(7)[folded x(2) y(2)] that by auto
  have "shown Kanban_Order (kanban_column (pr_id p) (mv_status_id req) ?w b')
      = place_block (mv_bulk_userstories req) (attr_get (mv_before_userstory_id req)) (attr_get (mv_after_userstory_id req))
          (shown Kanban_Order ?C)"
    unfolding run(3) x(2)[symmetric] y(2)[symmetric] by (rule placed_block[OF dC inj]) (use x(3) y(3) out in auto)
  moreover have "bulk_update_kanban_order (Suc (Suc depth)) ac u lk req b = (Inr (Done data), b')"
    using assms(2,5) project_found[OF assms(3), of u b] status swimlane x(1) y(1) run(1)
      project_check_pass[OF move_permissions(1) assms(4), of b]
    by (simp add: bulk_update_kanban_order_def bindE_apply not_blocked_def not_archived_def retE_apply)
  ultimately show ?thesis using run(2) by blast
qed


text \<open>C5: The same for the backlog and the milestones: a valid request of a permitted user moves the
  stories, with their tasks, as a block next to the neighbour in the list of the milestone, or
  of the backlog when none is named, and all flags are right again. The milestones the stories
  leave belong to the project.\<close>

theorem backlog_move_refines:
  assumes "board_ok b" and "backlog_order_bulk_valid lk req b"
    and "find_project ac (mv_project_id req) = Some p" and "user_has_perm ac u ''modify_us'' (Some p) UserCache"
    and "pr_id p \<notin> set (lk_blocked lk)" and "mv_milestone_id req \<noteq> Some (Some 0)"
    and "set_option (attr_get (mv_after_userstory_id req)) \<union> set_option (attr_get (mv_before_userstory_id req))
           \<subseteq> - set (mv_bulk_userstories req)"
    and "inj_on (get_order (backlog_field (attr_get (mv_milestone_id req))))
           (set (backlog_column (pr_id p) (attr_get (mv_milestone_id req)) b))"
    and "\<forall>r \<in> set (stories b). \<forall>m \<in> set (milestones b). st_milestone_id r = Some (ms_id m) \<longrightarrow> ms_project_id m = st_project_id r"
  shows "\<exists>data b'. bulk_update_backlog_order ac u lk req b = (Inr (Done data), b') \<and> board_ok b'
    \<and> shown (backlog_field (attr_get (mv_milestone_id req))) (backlog_column (pr_id p) (attr_get (mv_milestone_id req)) b')
      = place_block (mv_bulk_userstories req) (attr_get (mv_before_userstory_id req)) (attr_get (mv_after_userstory_id req))
          (shown (backlog_field (attr_get (mv_milestone_id req))) (backlog_column (pr_id p) (attr_get (mv_milestone_id req)) b))"
proof -
  let ?m = "attr_get (mv_milestone_id req)"
  let ?F = "backlog_field ?m"
  let ?C = "backlog_column (pr_id p) ?m b"
  note pid = find_project_id[OF assms(3)]
  have d: "distinct (map st_id (stories b))" "distinct (map ms_id (milestones b))"
    using assms(1) by (simp_all add: board_ok_def board_wf_def)
  have after: "validate_after_userstory_id (\<lambda>i. backlog_neighbour req i b) req"
    and before: "validate_before_userstory_id (\<lambda>i. backlog_neighbour req i b) req"
    and vb: "validate_bulk_userstories req b" and vm: "backlog_validate_milestone_id req b"
    using assms(2) by (auto simp: backlog_order_bulk_valid_def)
  have near: "\<exists>a. story_of_project p i b = Some a \<and> a \<in> set ?C \<and> st_id a = i" if "backlog_neighbour req i b" for i
    using backlog_neighbour_found[OF that d(1) pid[symmetric] assms(6)] by blast
  obtain y where y: "get_optional u (story_of_project p) (attr_get (mv_after_userstory_id req)) b = Inr y"
      "map_option st_id y = attr_get (mv_after_userstory_id req)" "\<And>a. y = Some a \<Longrightarrow> a \<in> set ?C"
    by (rule optional_neighbour[of "attr_get (mv_after_userstory_id req)" p b "set ?C" u])
      (use after near in \<open>auto simp: validate_after_userstory_id_def\<close>)
  obtain x where x: "get_optional u (story_of_project p) (attr_get (mv_before_userstory_id req)) b = Inr x"
      "map_option st_id x = attr_get (mv_before_userstory_id req)" "\<And>a. x = Some a \<Longrightarrow> a \<in> set ?C"
    by (rule optional_neighbour[of "attr_get (mv_before_userstory_id req)" p b "set ?C" u])
      (use before near in \<open>auto simp: validate_before_userstory_id_def attr_get_def split: option.splits if_splits\<close>)
  obtain q where q: "get_optional u (milestone_of_project p) ?m b = Inr q" "map_option ms_id q = ?m" "milestone_exists b ?m"
  proof (cases ?m)
    case None
    then show ?thesis using that[of None] by (simp add: get_optional_def milestone_exists_def)
  next
    case (Some i)
    then have "i \<noteq> 0" using assms(6) by (auto simp: attr_get_def split: option.splits)
    then obtain a where a: "a \<in> set (milestones b)" "ms_id a = i" "ms_project_id a = pr_id p"
      using vm Some pid by (auto simp: backlog_validate_milestone_id_def list_ex_iff)
    have "milestone_of_project p i b = Some a"
      unfolding milestone_of_project_def by (rule find_keyed) (use d a in auto)
    then show ?thesis using that[of "Some a"] Some a
      by (auto simp: get_optional_def bindQ_apply get_object_or_error_def milestone_exists_def)
  qed
  have mine: "\<exists>r \<in> set (stories b). st_id r = i \<and> st_project_id r = pr_id p" if "i \<in> set (mv_bulk_userstories req)" for i
    using distinct_ids_bulk(2)[OF vb d(1) that] pid by simp
  have own: "ms_project_id m = pr_id p" if h: "r \<in> set (stories b)" "m \<in> set (milestones b)"
      "st_id r \<in> set (mv_bulk_userstories req)" "st_milestone_id r = Some (ms_id m)" for r m
  proof -
    obtain r' where r': "r' \<in> set (stories b)" "st_id r' = st_id r" "st_project_id r' = pr_id p" using mine[OF h(3)] by blast
    have "r' = r" using d(1) r'(1,2) h(1) by (simp add: distinct_map inj_on_def)
    then show ?thesis using assms(9) h r'(3) by metis
  qed
  then have home: "\<forall>r \<in> set (stories b). \<forall>m \<in> set (milestones b). st_id r \<in> set (mv_bulk_userstories req) \<longrightarrow>
      st_milestone_id r = Some (ms_id m) \<longrightarrow> ms_project_id m = pr_id p" by blast
  have ys: "\<And>a. y = Some a \<Longrightarrow> a \<in> set (stories b)" using y(3) by (auto simp: backlog_column_def)
  from backlog_service_run[where project = "pr_id p" and y = y and x = x,
      OF assms(1) distinct_ids_bulk(1)[OF vb d(1)] mine ys q(3) home]
  obtain data b' where run: "update_userstories_backlog_or_sprint_order_in_bulk (pr_id p)
        (mv_bulk_userstories req) x y ?m b = (Inr data, b')" "board_ok b'"
      "shown ?F (backlog_column (pr_id p) ?m b')
        = (let rows = filter (\<lambda>r. st_id r \<notin> set (mv_bulk_userstories req)) ?C in
           shown ?F (rows_before ?F x y rows) @ mv_bulk_userstories req @ shown ?F (rows_after ?F x y rows))"
    by auto
  have dC: "distinct (map st_id ?C)" using d(1) by (simp add: backlog_column_def distinct_map_filter)
  have out: "st_id a \<notin> set (mv_bulk_userstories req)" if "x = Some a \<or> y = Some a" for a
    using assms(7)[folded x(2) y(2)] that by auto
  have "shown ?F (backlog_column (pr_id p) ?m b')
      = place_block (mv_bulk_userstories req) (attr_get (mv_before_userstory_id req)) (attr_get (mv_after_userstory_id req))
          (shown ?F ?C)"
    unfolding run(3) x(2)[symmetric] y(2)[symmetric] by (rule placed_block[OF dC assms(8)]) (use x(3) y(3) out in auto)
  moreover have "bulk_update_backlog_order ac u lk req b = (Inr (Done data), b')"
    using assms(2,5) project_found[OF assms(3), of u b] q(1,2) x(1) y(1) run(1)
      project_check_pass[OF move_permissions(1) assms(4), of b]
    by (simp add: bulk_update_backlog_order_def bindE_apply not_blocked_def retE_apply)
  ultimately show ?thesis using run(2) by blast
qed


section \<open>Concrete moves\<close>

text \<open>
  The demonstration board, in the project of user 1: stories 1 and 2 in milestone 10, story 3
  with a task in milestone 20; stories 2 and 3 in the same column of the kanban board.
\<close>

definition board_project :: project where
  "board_project = \<lparr>pr_id = 1, pr_owner_id = Some 1, pr_is_private = True, pr_anon_permissions = Some [],
     pr_public_permissions = Some [], pr_is_contact_activated = False\<rparr>"

definition board_access :: access where
  "board_access = \<lparr>ac_projects = [board_project],
     ac_memberships = [\<lparr>mb_user = Some 1, mb_project = 1, mb_is_admin = True, mb_role_permissions = Some []\<rparr>,
       \<lparr>mb_user = Some 2, mb_project = 1, mb_is_admin = False, mb_role_permissions = Some [''view_us'']\<rparr>],
     ac_active_users = [1, 2], ac_instances = [], ac_private_user_profiles = False\<rparr>"

definition board_lookups :: lookups where
  "board_lookups = \<lparr>lk_projects = [1], lk_us_statuses = [(1, 1), (2, 1)], lk_task_statuses = [(1, 1), (2, 1)],
     lk_swimlanes = [], lk_blocked = [], lk_archived = []\<rparr>"

text \<open>Story 1 goes before story 3 in the column of the open status, or in milestone 20.\<close>

definition demo_move :: move_request where
  "demo_move = \<lparr>mv_project_id = 1, mv_status_id = 1, mv_swimlane_id = None, mv_milestone_id = Some (Some 20),
     mv_after_userstory_id = None, mv_before_userstory_id = Some (Some 3), mv_bulk_userstories = [1]\<rparr>"

theorem kanban_move_refines_witness:
  "\<exists>data b'. bulk_update_kanban_order 2 board_access (User 1 False) board_lookups demo_move demo_board = (Inr (Done data), b')
     \<and> board_ok b' \<and> shown Kanban_Order (kanban_column 1 1 None b') = [2, 1, 3]"
proof -
  have "kanban_order_bulk_valid board_lookups demo_move demo_board" by code_simp
  moreover have "find_project board_access (mv_project_id demo_move) = Some board_project" by code_simp
  moreover have "user_has_perm board_access (User 1 False) ''modify_us'' (Some board_project) UserCache" by code_simp
  moreover have "inj_on st_kanban_order (set (kanban_column (pr_id board_project) (mv_status_id demo_move)
      (attr_get (mv_swimlane_id demo_move)) demo_board))"
    by (simp add: kanban_column_def demo_board_def demo_story_def demo_move_def board_project_def attr_get_def)
  moreover have "place_block (mv_bulk_userstories demo_move) (attr_get (mv_before_userstory_id demo_move))
      (attr_get (mv_after_userstory_id demo_move)) (shown Kanban_Order (kanban_column (pr_id board_project)
        (mv_status_id demo_move) (attr_get (mv_swimlane_id demo_move)) demo_board)) = [2, 1, 3]" by code_simp
  ultimately show ?thesis
    using kanban_move_refines[of demo_board board_lookups demo_move board_access board_project "User 1 False" 0] demo_board_ok
    by (simp add: board_project_def board_lookups_def demo_move_def attr_get_def numeral_2_eq_2)
qed

theorem backlog_move_refines_witness:
  "\<exists>data b'. bulk_update_backlog_order board_access (User 1 False) board_lookups demo_move demo_board = (Inr (Done data), b')
     \<and> board_ok b' \<and> shown Sprint_Order (backlog_column 1 (Some 20) b') = [1, 3]"
proof -
  have "backlog_order_bulk_valid board_lookups demo_move demo_board" by code_simp
  moreover have "find_project board_access (mv_project_id demo_move) = Some board_project" by code_simp
  moreover have "user_has_perm board_access (User 1 False) ''modify_us'' (Some board_project) UserCache" by code_simp
  moreover have "inj_on (get_order (backlog_field (attr_get (mv_milestone_id demo_move))))
      (set (backlog_column (pr_id board_project) (attr_get (mv_milestone_id demo_move)) demo_board))"
    by (simp add: backlog_column_def demo_board_def demo_story_def demo_move_def board_project_def attr_get_def)
  moreover have "\<forall>r \<in> set (stories demo_board). \<forall>m \<in> set (milestones demo_board).
      st_milestone_id r = Some (ms_id m) \<longrightarrow> ms_project_id m = st_project_id r"
    by (simp add: demo_board_def demo_story_def)
  moreover have "place_block (mv_bulk_userstories demo_move) (attr_get (mv_before_userstory_id demo_move))
      (attr_get (mv_after_userstory_id demo_move)) (shown (backlog_field (attr_get (mv_milestone_id demo_move)))
        (backlog_column (pr_id board_project) (attr_get (mv_milestone_id demo_move)) demo_board)) = [1, 3]" by code_simp
  ultimately show ?thesis
    using backlog_move_refines[of demo_board board_lookups demo_move board_access board_project "User 1 False"] demo_board_ok
    by (simp add: board_project_def board_lookups_def demo_move_def attr_get_def backlog_field_def)
qed


section \<open>Who may move\<close>

datatype board_request =
    Backlog_Move move_request
  | Kanban_Move move_request
  | Us_Milestone_Move milestone_request
  | Task_Milestone_Move milestone_request
  | Taskboard_Move task_order_request
  | Us_Tasks_Move task_order_request

definition answered :: "('s, 'a answer) eff \<Rightarrow> ('s, bool) eff" where
  "answered m = bindE m (\<lambda>a. retE (case a of Done _ \<Rightarrow> True | Invalid_Request \<Rightarrow> False))"

text \<open>The endpoints together; the result says whether the request was carried out.\<close>

fun board_endpoint :: "nat \<Rightarrow> access \<Rightarrow> user \<Rightarrow> lookups \<Rightarrow> board_request \<Rightarrow> (board, bool) eff" where
  "board_endpoint depth ac u lk (Backlog_Move r) = answered (bulk_update_backlog_order ac u lk r)"
| "board_endpoint depth ac u lk (Kanban_Move r) = answered (bulk_update_kanban_order depth ac u lk r)"
| "board_endpoint depth ac u lk (Us_Milestone_Move r) = answered (us_bulk_update_milestone ac u lk r)"
| "board_endpoint depth ac u lk (Task_Milestone_Move r) = answered (task_bulk_update_milestone ac u lk r)"
| "board_endpoint depth ac u lk (Taskboard_Move r) = answered (bulk_update_taskboard_order ac u lk r)"
| "board_endpoint depth ac u lk (Us_Tasks_Move r) = answered (bulk_update_us_order ac u lk r)"

fun moved_project :: "board_request \<Rightarrow> int" where
  "moved_project (Backlog_Move r) = mv_project_id r"
| "moved_project (Kanban_Move r) = mv_project_id r"
| "moved_project (Us_Milestone_Move r) = bm_project_id r"
| "moved_project (Task_Milestone_Move r) = bm_project_id r"
| "moved_project (Taskboard_Move r) = to_project_id r"
| "moved_project (Us_Tasks_Move r) = to_project_id r"

fun move_permission :: "board_request \<Rightarrow> string" where
  "move_permission (Backlog_Move r) = ''modify_us''"
| "move_permission (Kanban_Move r) = ''modify_us''"
| "move_permission (Us_Milestone_Move r) = ''modify_us''"
| "move_permission (Task_Milestone_Move r) = ''modify_task''"
| "move_permission (Taskboard_Move r) = ''modify_task''"
| "move_permission (Us_Tasks_Move r) = ''modify_task''"

lemma answered_acts:
  assumes "answered m s = (r, s')" and "s' \<noteq> s \<or> r = Inr True"
  obtains a where "m s = (a, s')" "s' \<noteq> s \<or> (\<exists>x. a = Inr (Done x))"
  using assms by (cases "m s") (auto simp: answered_def bindE_apply retE_apply split: sum.splits answer.splits)

text \<open>Past a query or a check that changes nothing, only its success goes on.\<close>

lemma past_query:
  assumes "bindE (liftE q) f s = (a, s')" and "s' \<noteq> s \<or> (\<exists>x. a = Inr (Done x))"
  obtains y where "q s = Inr y" "f y s = (a, s')"
  using assms by (auto simp: bindE_apply split: sum.splits)

lemma past_check:
  assumes "bindE (project_check ac u R act p) f s = (a, s')" and "s' \<noteq> s \<or> (\<exists>x. a = Inr (Done x))"
    and "composed R act = Inr (OrPerm [OrPerm [IsProjectAdmin, IsSuperUser], HasProjectPerm perm])"
    and "perm \<in> set MEMBERS_PERMISSIONS"
  shows "user_has_perm ac u perm (Some p) UserCache"
proof (rule ccontr)
  assume "\<not> user_has_perm ac u perm (Some p) UserCache"
  from project_check_only[OF assms(3,4) this, of s] obtain e where e: "project_check ac u R act p s = (Inl e, s)"
    by (elim exE)
  have "a = Inl e" "s' = s" using assms(1) by (simp_all add: bindE_apply e)
  then show False using assms(2) by simp
qed

lemma found_project:
  "get_object_or_error u (\<lambda>_. find_project ac i) s = Inr p \<Longrightarrow> p \<in> set (ac_projects ac) \<and> pr_id p = i"
  by (auto simp: get_object_or_error_def find_project_def find_Some_iff split: option.splits if_splits)

lemma modify_permissions [simp]:
  "''modify_us'' \<in> set MEMBERS_PERMISSIONS" "''modify_task'' \<in> set MEMBERS_PERMISSIONS"
  by (simp_all add: MEMBERS_PERMISSIONS_def)

lemma order_endpoint_authorised:
  assumes "(if \<not> valid then (Inr Invalid_Request, s) else
      bindE (liftE (get_object_or_error u (\<lambda>_. find_project ac i))) (\<lambda>p.
      bindE (project_check ac u R act p) (f p)) s) = (a, s')" and "s' \<noteq> s \<or> (\<exists>x. a = Inr (Done x))"
    and "composed R act = Inr (OrPerm [OrPerm [IsProjectAdmin, IsSuperUser], HasProjectPerm perm])"
    and "perm \<in> set MEMBERS_PERMISSIONS"
  shows "\<exists>p \<in> set (ac_projects ac). pr_id p = i \<and> user_has_perm ac u perm (Some p) UserCache"
proof -
  have "bindE (liftE (get_object_or_error u (\<lambda>_. find_project ac i))) (\<lambda>p.
      bindE (project_check ac u R act p) (f p)) s = (a, s')" using assms(1,2) by (auto split: if_splits)
  from past_query[OF this assms(2)] obtain p where p: "get_object_or_error u (\<lambda>_. find_project ac i) s = Inr p"
    "bindE (project_check ac u R act p) (f p) s = (a, s')" by blast
  then show ?thesis using found_project[OF p(1)] past_check[OF p(2) assms(2-4)] by blast
qed

lemma milestone_endpoint_authorised:
  assumes "(if \<not> valid then (Inr Invalid_Request, s) else
      bindE (liftE (get_object_or_error u (\<lambda>_. find_project ac i))) (\<lambda>p.
      bindE (liftE (get_object_or_error u q)) (\<lambda>m.
      bindE (project_check ac u R act p) (f p m))) s) = (a, s')" and "s' \<noteq> s \<or> (\<exists>x. a = Inr (Done x))"
    and "composed R act = Inr (OrPerm [OrPerm [IsProjectAdmin, IsSuperUser], HasProjectPerm perm])"
    and "perm \<in> set MEMBERS_PERMISSIONS"
  shows "\<exists>p \<in> set (ac_projects ac). pr_id p = i \<and> user_has_perm ac u perm (Some p) UserCache"
proof -
  have "bindE (liftE (get_object_or_error u (\<lambda>_. find_project ac i))) (\<lambda>p.
      bindE (liftE (get_object_or_error u q)) (\<lambda>m.
      bindE (project_check ac u R act p) (f p m))) s = (a, s')" using assms(1,2) by (auto split: if_splits)
  from past_query[OF this assms(2)] obtain p where p: "get_object_or_error u (\<lambda>_. find_project ac i) s = Inr p"
    "bindE (liftE (get_object_or_error u q)) (\<lambda>m. bindE (project_check ac u R act p) (f p m)) s = (a, s')" by blast
  from past_query[OF p(2) assms(2)] obtain m where "bindE (project_check ac u R act p) (f p m) s = (a, s')" by blast
  then show ?thesis using found_project[OF p(1)] past_check[OF _ assms(2-4)] by blast
qed

text \<open>C8: Every endpoint that moves stories or tasks, on the backlog, the kanban board, the taskboard
  or into a milestone, carries a request out or changes anything only for a user who holds the
  permission to modify stories (or tasks) in the project the request names.\<close>

theorem board_moves_authorised:
  assumes "board_endpoint depth ac u lk rq b = (r, b')" and "b' \<noteq> b \<or> r = Inr True"
  shows "\<exists>p \<in> set (ac_projects ac). pr_id p = moved_project rq
    \<and> user_has_perm ac u (move_permission rq) (Some p) UserCache"
proof (cases rq)
  case (Backlog_Move m)
  then obtain a where a: "bulk_update_backlog_order ac u lk m b = (a, b')" "b' \<noteq> b \<or> (\<exists>x. a = Inr (Done x))"
    using assms answered_acts by (metis board_endpoint.simps(1))
  show ?thesis using order_endpoint_authorised[OF a(1)[unfolded bulk_update_backlog_order_def] a(2) move_permissions(1)]
      Backlog_Move by simp
next
  case (Kanban_Move m)
  then obtain a where a: "bulk_update_kanban_order depth ac u lk m b = (a, b')" "b' \<noteq> b \<or> (\<exists>x. a = Inr (Done x))"
    using assms answered_acts by (metis board_endpoint.simps(2))
  show ?thesis using order_endpoint_authorised[OF a(1)[unfolded bulk_update_kanban_order_def] a(2) move_permissions(1)]
      Kanban_Move by simp
next
  case (Us_Milestone_Move m)
  then obtain a where a: "us_bulk_update_milestone ac u lk m b = (a, b')" "b' \<noteq> b \<or> (\<exists>x. a = Inr (Done x))"
    using assms answered_acts by (metis board_endpoint.simps(3))
  show ?thesis using milestone_endpoint_authorised[OF a(1)[unfolded us_bulk_update_milestone_def] a(2) move_permissions(2)]
      Us_Milestone_Move by simp
next
  case (Task_Milestone_Move m)
  then obtain a where a: "task_bulk_update_milestone ac u lk m b = (a, b')" "b' \<noteq> b \<or> (\<exists>x. a = Inr (Done x))"
    using assms answered_acts by (metis board_endpoint.simps(4))
  show ?thesis using milestone_endpoint_authorised[OF a(1)[unfolded task_bulk_update_milestone_def] a(2) move_permissions(4)]
      Task_Milestone_Move by simp
next
  case (Taskboard_Move m)
  then obtain a where a: "task_bulk_update_order Taskboard_Order ac u lk m b = (a, b')" "b' \<noteq> b \<or> (\<exists>x. a = Inr (Done x))"
    using assms answered_acts by (metis board_endpoint.simps(5) bulk_update_taskboard_order_def)
  show ?thesis using order_endpoint_authorised[OF a(1)[unfolded task_bulk_update_order_def] a(2) move_permissions(3)]
      Taskboard_Move by simp
next
  case (Us_Tasks_Move m)
  then obtain a where a: "task_bulk_update_order Us_Order ac u lk m b = (a, b')" "b' \<noteq> b \<or> (\<exists>x. a = Inr (Done x))"
    using assms answered_acts by (metis board_endpoint.simps(6) bulk_update_us_order_def)
  show ?thesis using order_endpoint_authorised[OF a(1)[unfolded task_bulk_update_order_def] a(2) move_permissions(3)]
      Us_Tasks_Move by simp
qed

theorem board_moves_authorised_witness:
  "\<exists>p \<in> set (ac_projects board_access). pr_id p = 1 \<and> user_has_perm board_access (User 1 False) ''modify_us'' (Some p) UserCache"
proof -
  let ?run = "board_endpoint 3 board_access (User 1 False) board_lookups (Kanban_Move demo_move) demo_board"
  have "fst ?run = Inr True" by code_simp
  then have run: "?run = (Inr True, snd ?run)" by (metis prod.collapse)
  show ?thesis using board_moves_authorised[OF run] by (simp add: demo_move_def)
qed


section \<open>What the moves into a milestone leave out\<close>

lemma keys_dict_of: "fst ` set (dict_of ps) = fst ` set ps"
proof -
  have put: "fst ` set (put_order i n d) = insert i (fst ` set d)" for i n d
    by (force simp: put_order_def)
  have "fst ` set (fold (\<lambda>(i, n). put_order i n) ps d) = fst ` set d \<union> fst ` set ps" for d
  proof (induction ps arbitrary: d)
    case (Cons x ps)
    obtain i n where x: "x = (i, n)" by (cases x)
    show ?case using Cons.IH[of "put_order i n d"] put[of i n d] by (simp add: x)
  qed simp
  then show ?thesis by (simp add: dict_of_def)
qed

lemma snapshots_bulk: "snapshots_only b (snapshot_userstories_in_bulk ps b)"
proof (induction ps arbitrary: b)
  case (Cons x ps)
  obtain i n where x: "x = (i, n)" by (cases x)
  have step: "snapshot_userstories_in_bulk (x # ps) b = snapshot_userstories_in_bulk ps
      (if find_story i b = None then b else note_snapshot ''userstories.userstory'' i b)"
    by (simp add: snapshot_userstories_in_bulk_def x)
  show ?case unfolding step
    by (rule snapshots_only.trans[OF _ Cons.IH]) (simp add: snapshots_take snapshots_only.refl)
qed (simp add: snapshot_userstories_in_bulk_def snapshots_only.refl)

lemma moved_to_milestone:
  assumes "r \<in> set (stories b)" and "st_id r \<in> fst ` set ps"
  shows "\<exists>r' \<in> set (stories (snd (update_userstories_milestone_in_bulk ps m b))).
    st_id r' = st_id r \<and> st_is_closed r' = st_is_closed r \<and> st_milestone_id r' = Some (ms_id m)"
proof -
  have "st_id r \<in> fst ` set (dict_of ps)" using assms(2) keys_dict_of by simp
  then show ?thesis
    unfolding update_userstories_milestone_in_bulk_def Let_def snd_conv update_story_orders_eq
    using assms(1) by (auto simp: image_iff intro!: bexI[of _ r])
qed

lemma move_keeps_milestones: "milestones (snd (update_userstories_milestone_in_bulk ps m b)) = milestones b"
  by (simp add: update_userstories_milestone_in_bulk_def Let_def update_story_orders_def)

text \<open>C15: Moving user stories into a milestone by bulk_update_milestone does not recompute whether
  milestones are closed, unlike a move on the backlog: on a board whose flags are all right, a
  request that is carried out and moves an open story into a closed milestone leaves every
  milestone row as it was, so this milestone is still marked closed while it now holds an open
  story and counts as open: its stored flag differs from the calculated one.\<close>

theorem milestone_move_leaves_flags:
  assumes "board_ok b" and "us_bulk_update_milestone ac u lk data b = (Inr (Done ()), b')"
    and "r \<in> set (stories b)" and "st_id r \<in> fst ` set (bm_bulk data)" and "\<not> st_is_closed r"
    and "m \<in> set (milestones b)" and "ms_id m = bm_milestone_id data" and "ms_closed m"
  shows "milestones b' = milestones b
     \<and> (\<exists>r' \<in> set (stories b'). st_id r' = st_id r \<and> st_milestone_id r' = Some (ms_id m) \<and> \<not> st_is_closed r')
     \<and> \<not> calculate_milestone_is_closed (ms_id m) b' \<and> \<not> board_ok b'"
proof -
  obtain q where q: "find_milestone (bm_milestone_id data) b = Some q"
    "b' = snapshot_userstories_in_bulk (bm_bulk data) (snd (update_userstories_milestone_in_bulk (bm_bulk data) q b))"
    using assms(2) unfolding us_bulk_update_milestone_def
    by (auto simp: bindE_apply get_object_or_error_def project_check_def view_check_def raiseE_apply retE_apply
        split: if_splits sum.splits option.splits prod.splits)
  let ?c = "snd (update_userstories_milestone_in_bulk (bm_bulk data) q b)"
  have "ms_id q = bm_milestone_id data" using q(1) by (auto simp: find_milestone_def find_Some_iff)
  then obtain r' where r': "r' \<in> set (stories ?c)" "st_id r' = st_id r" "\<not> st_is_closed r'"
      "st_milestone_id r' = Some (ms_id m)"
    using moved_to_milestone[OF assms(3,4), of q] assms(5,7) by auto
  have same: "milestones b' = milestones b" "stories b' = stories ?c"
    using snapshots_only_keeps(4,5)[OF snapshots_bulk[of ?c "bm_bulk data"]] move_keeps_milestones[of "bm_bulk data" q b]
    by (simp_all add: q(2))
  have "False \<in> contents (ms_id m) b'" using r' same(2) by (auto simp: contents_def)
  then have "\<not> calculate_milestone_is_closed (ms_id m) b'" "contents (ms_id m) b' \<noteq> {}"
    by (auto simp: calculate_milestone_iff)
  moreover from this have "\<not> board_ok b'"
    using assms(6,8) same(1) by (auto simp: board_ok_def milestones_right_def)
  ultimately show ?thesis using r' same by auto
qed

text \<open>Milestone 10 of this board is closed.\<close>

definition closed_board :: board where
  "closed_board = demo_board\<lparr>stories := [demo_story 1 10 2 True, demo_story 3 20 1 False],
     milestones := [\<lparr>ms_id = 10, ms_project_id = 1, ms_closed = True\<rparr>, \<lparr>ms_id = 20, ms_project_id = 1, ms_closed = False\<rparr>,
       \<lparr>ms_id = 30, ms_project_id = 1, ms_closed = False\<rparr>]\<rparr>"

definition demo_milestone_move :: milestone_request where
  "demo_milestone_move = \<lparr>bm_project_id = 1, bm_milestone_id = 10, bm_bulk = [(3, 1)]\<rparr>"

theorem milestone_move_leaves_flags_witness:
  "let b' = snd (us_bulk_update_milestone board_access (User 1 False) board_lookups demo_milestone_move closed_board) in
     milestones b' = milestones closed_board \<and> \<not> calculate_milestone_is_closed 10 b'"
proof -
  let ?run = "us_bulk_update_milestone board_access (User 1 False) board_lookups demo_milestone_move closed_board"
  have "fst ?run = Inr (Done ())" by code_simp
  then have run: "?run = (Inr (Done ()), snd ?run)" by (metis prod.collapse)
  have "rows_ok closed_board" by code_simp
  moreover have "board_wf closed_board"
    by (simp add: board_wf_def closed_board_def demo_board_def demo_story_def demo_task_def)
  ultimately have "board_ok closed_board" by (simp add: board_ok_def rows_ok)
  from milestone_move_leaves_flags[OF this run, of "demo_story 3 20 1 False"
      "\<lparr>ms_id = 10, ms_project_id = 1, ms_closed = True\<rparr>"] show ?thesis
    by (simp add: closed_board_def demo_milestone_move_def demo_story_def Let_def)
qed

text \<open>A blocked project still moves its stories into milestones: for a user who may modify
  stories, a valid request to the backlog of a blocked project is answered with the block and
  changes nothing, but a valid request to move stories into a milestone of the project is
  carried out.\<close>

theorem blocked_project_still_moves:
  assumes "find_project ac i = Some p" and "user_has_perm ac u ''modify_us'' (Some p) UserCache"
    and "i \<in> set (lk_blocked lk)" and "mv_project_id move = i" and "bm_project_id data = i"
    and "backlog_order_bulk_valid lk move b" and "us_milestone_bulk_valid lk data b"
  shows "bulk_update_backlog_order ac u lk move b = (Inl (Blocked ''Blocked element''), b)
    \<and> (\<exists>b'. us_bulk_update_milestone ac u lk data b = (Inr (Done ()), b'))"
proof -
  note p = find_project_id[OF assms(1)] project_found[OF assms(1), of u b]
  have "bulk_update_backlog_order ac u lk move b = (Inl (Blocked ''Blocked element''), b)"
    using assms(3,4,6) p project_check_pass[OF move_permissions(1) assms(2), of b]
    by (simp add: bulk_update_backlog_order_def bindE_apply not_blocked_def raiseE_apply)
  moreover have "\<exists>m. get_object_or_error u (find_milestone (bm_milestone_id data)) b = Inr m"
    using assms(7) find_milestone_mem[of "bm_milestone_id data" b]
    by (force simp: us_milestone_bulk_valid_def validate_milestone_of_project_def list_ex_iff get_object_or_error_def)
  then have "\<exists>b'. us_bulk_update_milestone ac u lk data b = (Inr (Done ()), b')"
    using assms(5,7) p project_check_pass[OF move_permissions(2) assms(2), of b]
    by (auto simp: us_bulk_update_milestone_def bindE_apply)
  ultimately show ?thesis by simp
qed

theorem blocked_project_still_moves_witness:
  "\<exists>b'. us_bulk_update_milestone board_access (User 1 False) (board_lookups\<lparr>lk_blocked := [1]\<rparr>) demo_milestone_move demo_board
     = (Inr (Done ()), b')"
proof -
  have "find_project board_access 1 = Some board_project" by code_simp
  moreover have "user_has_perm board_access (User 1 False) ''modify_us'' (Some board_project) UserCache" by code_simp
  moreover have "backlog_order_bulk_valid (board_lookups\<lparr>lk_blocked := [1]\<rparr>) demo_move demo_board" by code_simp
  moreover have "us_milestone_bulk_valid (board_lookups\<lparr>lk_blocked := [1]\<rparr>) demo_milestone_move demo_board" by code_simp
  ultimately show ?thesis
    using blocked_project_still_moves[of board_access 1 board_project "User 1 False" "board_lookups\<lparr>lk_blocked := [1]\<rparr>"
        demo_move demo_milestone_move demo_board]
    by (simp add: demo_move_def demo_milestone_move_def)
qed

lemma keyed_le:
  assumes "distinct (map f xs)"
  shows "length (filter (\<lambda>x. P x \<and> f x \<in> set ks) xs) \<le> length ks"
proof -
  let ?F = "filter (\<lambda>x. P x \<and> f x \<in> set ks) xs"
  have d: "distinct (map f ?F)" using assms by (simp add: distinct_map_filter)
  have "length ?F = card (set (map f ?F))" using distinct_card[OF d] by simp
  also have "\<dots> \<le> card (set ks)" by (rule card_mono) auto
  also have "\<dots> \<le> length ks" by (rule card_length)
  finally show ?thesis .
qed

lemma valid_without_story:
  assumes "board_wf b" and "task_order_bulk_valid lk data b"
  shows "task_order_bulk_valid lk (data\<lparr>to_us_id := None\<rparr>) b"
proof -
  let ?Q = "\<lambda>t. tk_project_id t = to_project_id data \<and> given_filter (to_status_id data) (tk_status_id t)
    \<and> given_filter (to_milestone_id data) (tk_milestone_id t)"
  let ?ks = "map fst (to_bulk data)"
  have "length (to_bulk data) = length (filter (\<lambda>t. given_filter (to_us_id data) (tk_user_story_id t)) (filter (\<lambda>t. ?Q t \<and> tk_id t \<in> set ?ks) (btasks b)))"
    using assms(2) by (simp add: task_order_bulk_valid_def conj_ac)
  also have "\<dots> \<le> length (filter (\<lambda>t. ?Q t \<and> tk_id t \<in> set ?ks) (btasks b))" by (rule length_filter_le)
  finally have "length (to_bulk data) \<le> length (filter (\<lambda>t. ?Q t \<and> tk_id t \<in> set ?ks) (btasks b))" .
  moreover have "length (filter (\<lambda>t. ?Q t \<and> tk_id t \<in> set ?ks) (btasks b)) \<le> length ?ks"
    by (rule keyed_le) (use assms(1) in \<open>simp add: board_wf_def\<close>)
  ultimately have "length (filter (\<lambda>t. ?Q t \<and> tk_id t \<in> set ?ks) (btasks b)) = length (to_bulk data)"
    by (simp only: length_map order_antisym)
  moreover have "given_filter None v" for v by (simp add: given_filter_def)
  ultimately show ?thesis using assms(2) by (simp add: task_order_bulk_valid_def conj_ac cong: option.case_cong)
qed

text \<open>The request to order the tasks of a user story orders all tasks of the project: whatever
  story it names, a valid request has the effect and the answer of the request without one.\<close>

theorem us_task_order_ignores_story:
  assumes "board_wf b" and "task_order_bulk_valid lk data b"
  shows "bulk_update_us_order ac u lk data b = bulk_update_us_order ac u lk (data\<lparr>to_us_id := None\<rparr>) b"
  using assms valid_without_story[OF assms] by (simp add: bulk_update_us_order_def task_bulk_update_order_def)

text \<open>Task 1 of story 3 goes to order 2; task 2, of no story, is moved on.\<close>

definition demo_task_order :: task_order_request where
  "demo_task_order = \<lparr>to_project_id = 1, to_status_id = None, to_us_id = Some (Some 3), to_milestone_id = None,
     to_bulk = [(1, 2)]\<rparr>"

theorem us_task_order_ignores_story_witness:
  "bulk_update_us_order board_access (User 1 False) board_lookups demo_task_order demo_board
     = bulk_update_us_order board_access (User 1 False) board_lookups (demo_task_order\<lparr>to_us_id := None\<rparr>) demo_board
   \<and> map tk_us_order (btasks (snd (bulk_update_us_order board_access (User 1 False) board_lookups demo_task_order demo_board)))
     = [2, 3]"
proof -
  have "task_order_bulk_valid board_lookups demo_task_order demo_board" by code_simp
  from us_task_order_ignores_story[OF demo_board_wf this, of board_access "User 1 False"]
  show ?thesis by (rule conjI) code_simp
qed

end
