(* ===== verification/History.thy ===== *)
theory History
  imports Permissions "HOL-Library.AList"
begin

text \<open>
  The history of objects, \<open>taiga/projects/history/services.py\<close>: an object is frozen to a dict,
  compared with the last known snapshot, and the difference is stored as an entry; every so
  many entries a full snapshot is stored with it. What an object freezes to, what a diff
  resolves to and the rendering of comments are registered functions, fields of \<open>registry\<close>.
\<close>

section \<open>Values\<close>

text \<open>
  What a frozen object holds. A dict is its items in the order of the keys, as the database
  stores it; a date is known by its JSON form, and becomes a string when it is stored.
\<close>

datatype json =
    JNull
  | JBool bool
  | JInt int
  | JStr string
  | JDate string
  | JList "json list"
  | JObj "(string \<times> json) list"

type_synonym dict = "(string \<times> json) list"
type_synonym diff = "(string \<times> json \<times> json) list"

text \<open>\<open>DjangoJSONEncoder\<close>, and reading the value back\<close>

fun encode :: "json \<Rightarrow> json" where
  "encode (JDate s) = JStr s"
| "encode (JList vs) = JList (map encode vs)"
| "encode (JObj kvs) = JObj (map (\<lambda>(k, v). (k, encode v)) kvs)"
| "encode v = v"

definition encode_dict :: "dict \<Rightarrow> dict" where
  "encode_dict d = map (\<lambda>(k, v). (k, encode v)) d"

definition encode_diff :: "diff \<Rightarrow> diff" where
  "encode_diff d = map (\<lambda>(k, v, w). (k, encode v, encode w)) d"

definition json_truth :: "json \<Rightarrow> bool" where
  "json_truth v = (case v of
      JNull \<Rightarrow> False
    | JBool b \<Rightarrow> b
    | JInt i \<Rightarrow> i \<noteq> 0
    | JStr s \<Rightarrow> s \<noteq> []
    | JDate s \<Rightarrow> True
    | JList vs \<Rightarrow> vs \<noteq> []
    | JObj kvs \<Rightarrow> kvs \<noteq> [])"

definition dict_get :: "dict \<Rightarrow> string \<Rightarrow> json res" where
  "dict_get d k = (case map_of d k of None \<Rightarrow> Inl KeyError | Some v \<Rightarrow> Inr v)"

section \<open>Keys\<close>

definition make_key :: "string \<Rightarrow> int \<Rightarrow> string" where
  "make_key typename pk = typename @ CHR '':'' # int_str pk"

text \<open>\<open>key.rsplit(":", 1)\<close>, unpacked to two names; \<open>key.split(":", 1)\<close> is \<open>split_key\<close> of \<open>Permissions\<close>.\<close>

definition rsplit_key :: "string \<Rightarrow> (string \<times> string) res" where
  "rsplit_key s = (case dropWhile (\<lambda>c. c \<noteq> CHR '':'') (rev s) of
      [] \<Rightarrow> Inl (ValueError ''not enough values to unpack'')
    | _ # content_type \<Rightarrow> Inr (rev content_type, rev (takeWhile (\<lambda>c. c \<noteq> CHR '':'') (rev s))))"

definition get_pk_from_key :: "string \<Rightarrow> string res" where
  "get_pk_from_key key = map_sum id snd (split_key key)"

section \<open>Differences\<close>

text \<open>
  \<open>taiga.base.utils.diff.make_diff\<close>: a key that is missing counts as \<open>not_found_value\<close>, which
  every caller leaves \<open>None\<close>.
\<close>

definition make_diff_from_dicts :: "dict \<Rightarrow> dict \<Rightarrow> string set \<Rightarrow> diff" where
  "make_diff_from_dicts first second excluded_keys =
     (let diff = concat (map (\<lambda>(k, v). case map_of second k of
              None \<Rightarrow> [(k, v, JNull)]
            | Some w \<Rightarrow> if v \<noteq> w then [(k, v, w)] else []) first);
          diff = diff @ concat (map (\<lambda>(k, w). if k \<notin> fst ` set first then [(k, JNull, w)] else []) second);
          diff = filter (\<lambda>(k, v, w). v \<noteq> w) diff
      in filter (\<lambda>(k, _). k \<notin> excluded_keys) diff)"

text \<open>The attachments of a snapshot, by id.\<close>

fun by_id :: "json list \<Rightarrow> (json \<times> dict) list res" where
  "by_id [] = Inr []"
| "by_id (x # xs) = (case x of
      JObj kvs \<Rightarrow> (case dict_get kvs ''id'' of
          Inl e \<Rightarrow> Inl e
        | Inr i \<Rightarrow> (case by_id xs of
              Inl e \<Rightarrow> Inl e
            | Inr rest \<Rightarrow> Inr (if i \<in> fst ` set rest then rest else (i, kvs) # rest)))
    | _ \<Rightarrow> Inl TypeError)"

definition attachments_by_id :: "dict \<Rightarrow> (json \<times> dict) list res" where
  "attachments_by_id d = (case dict_get d ''attachments'' of
      Inl e \<Rightarrow> Inl e
    | Inr (JList xs) \<Rightarrow> by_id xs
    | Inr _ \<Rightarrow> Inl TypeError)"

definition ignored_attachment_fields :: "string set" where
  "ignored_attachment_fields = {''filename'', ''url'', ''thumb_url'', ''order''}"

definition attachment_changed :: "(json \<times> dict) list \<Rightarrow> (json \<times> dict) list \<Rightarrow> json \<Rightarrow> bool" where
  "attachment_changed old new i \<longleftrightarrow> (case (map_of old i, map_of new i) of
      (Some x, Some y) \<Rightarrow> make_diff_from_dicts x y ignored_attachment_fields \<noteq> []
    | (None, None) \<Rightarrow> False
    | _ \<Rightarrow> True)"

definition make_diff_in_attachments :: "dict \<Rightarrow> dict \<Rightarrow> (json \<times> json) option res" where
  "make_diff_in_attachments first second =
     (case map_of first ''attachments'' of
        None \<Rightarrow> Inr None
      | Some olds \<Rightarrow> (case attachments_by_id first of
            Inl e \<Rightarrow> Inl e
          | Inr old \<Rightarrow> (case attachments_by_id second of
                Inl e \<Rightarrow> Inl e
              | Inr new \<Rightarrow> (case dict_get second ''attachments'' of
                    Inl e \<Rightarrow> Inl e
                  | Inr news \<Rightarrow> Inr (if list_ex (attachment_changed old new) (map fst old @ map fst new)
                                   then Some (olds, news) else None)))))"

record frozen_obj =
  fo_key :: string
  fo_snapshot :: dict

definition make_diff :: "frozen_obj option \<Rightarrow> frozen_obj option \<Rightarrow> string set \<Rightarrow> diff res" where
  "make_diff oldobj newobj excluded_keys = (case newobj of
      None \<Rightarrow> Inl AssertionError
    | Some new \<Rightarrow> (case oldobj of
          None \<Rightarrow> Inr []
        | Some old \<Rightarrow>
            (let diff = make_diff_from_dicts (fo_snapshot old) (fo_snapshot new) (excluded_keys \<union> {''attachments''})
             in case make_diff_in_attachments (fo_snapshot old) (fo_snapshot new) of
                  Inl e \<Rightarrow> Inl e
                | Inr None \<Rightarrow> Inr diff
                | Inr (Some a) \<Rightarrow> Inr (diff @ [(''attachments'', a)]))))"

section \<open>Types of objects\<close>

definition not_important_fields :: "string \<rightharpoonup> string set" where
  "not_important_fields = [
     ''epics.epic'' \<mapsto> {''epics_order'', ''user_stories''},
     ''userstories.userstory'' \<mapsto> {''backlog_order'', ''sprint_order'', ''kanban_order''},
     ''tasks.task'' \<mapsto> {''us_order'', ''taskboard_order''}]"

definition get_excluded_fields :: "string \<Rightarrow> string set" where
  "get_excluded_fields typename = (if typename = ''userstories.userstory'' then {''assigned_to''} else {})"

text \<open>Old snapshots of stories have no list of assigned users.\<close>

definition migrate_userstory_diff :: "frozen_obj \<Rightarrow> frozen_obj res" where
  "migrate_userstory_diff ob =
     (if ''assigned_users'' \<in> fst ` set (fo_snapshot ob) then Inr ob
      else case dict_get (fo_snapshot ob) ''assigned_to'' of
          Inl e \<Rightarrow> Inl e
        | Inr u \<Rightarrow> Inr (ob\<lparr>fo_snapshot := AList.update ''assigned_users''
                              (if json_truth u then JList [u] else JList []) (fo_snapshot ob)\<rparr>))"

definition migrate_to_last_version :: "string \<Rightarrow> frozen_obj \<Rightarrow> frozen_obj res" where
  "migrate_to_last_version typename ob =
     (if typename = ''userstories.userstory'' then migrate_userstory_diff ob else Inr ob)"

definition migrate_old :: "string \<Rightarrow> frozen_obj option \<Rightarrow> frozen_obj option res" where
  "migrate_old typename old_fobj = (case old_fobj of
      None \<Rightarrow> Inr None
    | Some ob \<Rightarrow> map_sum id Some (migrate_to_last_version typename ob))"

definition is_hidden_snapshot :: "string \<Rightarrow> diff \<Rightarrow> bool res" where
  "is_hidden_snapshot key diff = (case rsplit_key key of
      Inl e \<Rightarrow> Inl e
    | Inr (content_type, _) \<Rightarrow> Inr (case not_important_fields content_type of
          None \<Rightarrow> False
        | Some nfields \<Rightarrow> fst ` set diff \<noteq> {} \<and> fst ` set diff - nfields = {}))"

section \<open>Entries\<close>

datatype history_type = Change | Create | Delete

text \<open>
  A user is stored as an object of the keys \<open>pk\<close> and \<open>name\<close>. The id of an entry, a uuid of its
  time in the source, is the number of entries before it.
\<close>

type_synonym user_json = "int option \<times> string"

record comment_version =
  cv_date :: int
  cv_comment :: string
  cv_comment_html :: string
  cv_user :: "int option"

record entry =
  he_id :: nat
  he_project_id :: int
  he_user :: user_json
  he_created_at :: int
  he_type :: history_type
  he_key :: string
  he_diff :: diff
  he_snapshot :: "dict option"
  he_values :: dict
  he_comment :: string
  he_comment_html :: string
  he_delete_comment_date :: "int option"
  he_delete_comment_user :: "user_json option"
  he_comment_versions :: "comment_version list option"
  he_edit_comment_date :: "int option"
  he_is_hidden :: bool
  he_is_snapshot :: bool

text \<open>
  Names are read from the stored rows: of the models with a name column, of users, and the
  reference and subject of stories.
\<close>

record names =
  nm_rows :: "string \<Rightarrow> (int \<times> string) list"
  nm_users :: "(int \<times> string) list"
  nm_stories :: "(int \<times> int option \<times> string) list"

record 'o registry =
  rg_freeze :: "string \<rightharpoonup> ('o \<Rightarrow> dict)"
  rg_values :: "string \<rightharpoonup> (names \<Rightarrow> diff \<Rightarrow> dict res)"
  rg_mdrender :: "int \<Rightarrow> string \<Rightarrow> string"
  rg_max_partial_diffs :: nat

text \<open>
  The stored entries, the stored instances by type and key, the names, and the clock, which never
  gives the same time twice.
\<close>

record 'o hist =
  h_entries :: "entry list"
  h_rows :: "string \<Rightarrow> int \<Rightarrow> 'o option"
  h_names :: names
  h_now :: int

definition rebuild_snapshot_from_diffs :: "dict \<Rightarrow> entry list \<Rightarrow> dict" where
  "rebuild_snapshot_from_diffs keysnapshot partials =
     fold (\<lambda>part. fold (\<lambda>(key, _, v). AList.update key v) (he_diff part)) partials keysnapshot"

text \<open>The result is the last snapshot, if there is any, and whether the next one has to be full.\<close>

definition last_full :: "string \<Rightarrow> 'o hist \<Rightarrow> entry option" where
  "last_full key h = (case rev (sort_key he_created_at
       (filter (\<lambda>e. he_key e = key \<and> he_is_snapshot e) (h_entries h))) of [] \<Rightarrow> None | e # _ \<Rightarrow> Some e)"

definition partials_since :: "string \<Rightarrow> int \<Rightarrow> 'o hist \<Rightarrow> entry list" where
  "partials_since key since h = sort_key he_created_at
     (filter (\<lambda>e. he_key e = key \<and> \<not> he_is_snapshot e \<and> he_created_at e \<ge> since) (h_entries h))"

definition get_last_snapshot_for_key :: "nat \<Rightarrow> string \<Rightarrow> 'o hist \<Rightarrow> frozen_obj option \<times> bool" where
  "get_last_snapshot_for_key max_partial_diffs key h = (case last_full key h of
      None \<Rightarrow> (None, True)
    | Some keysnapshot \<Rightarrow>
        (let entries = partials_since key (he_created_at keysnapshot) h;
             snapshot = rebuild_snapshot_from_diffs (case he_snapshot keysnapshot of None \<Rightarrow> [] | Some d \<Rightarrow> d) entries
         in (Some \<lparr>fo_key = he_key keysnapshot, fo_snapshot = snapshot\<rparr>, length entries \<ge> max_partial_diffs)))"

definition get_instance_from_key :: "string \<Rightarrow> ('o hist, 'o option) qry" where
  "get_instance_from_key key = (\<lambda>h. case split_key key of
      Inl e \<Rightarrow> Inl e
    | Inr (class_name, pk) \<Rightarrow> (case parse_int pk of
          None \<Rightarrow> Inl (ValueError ''invalid literal for int()'')
        | Some i \<Rightarrow> Inr (h_rows h class_name i)))"

definition get_modified_fields :: "string \<Rightarrow> nat \<Rightarrow> 'o hist \<Rightarrow> string list" where
  "get_modified_fields key last_modifications h = concat (map (\<lambda>e. map fst (he_diff e))
     (take last_modifications (rev (sort_key he_created_at (filter (\<lambda>e. he_key e = key) (h_entries h))))))"

definition get_history_queryset_by_model_instance ::
    "string \<Rightarrow> history_type list \<Rightarrow> bool \<Rightarrow> 'o hist \<Rightarrow> entry list" where
  "get_history_queryset_by_model_instance key types include_hidden h = sort_key he_created_at
     (filter (\<lambda>e. he_key e = key \<and> he_type e \<in> set types \<and> (include_hidden \<or> \<not> he_is_hidden e)) (h_entries h))"

section \<open>Taking a snapshot\<close>

definition freeze_model_instance :: "'o registry \<Rightarrow> string \<Rightarrow> int \<Rightarrow> ('o hist, frozen_obj option) qry" where
  "freeze_model_instance rg typename pk = (\<lambda>h. case h_rows h typename pk of
      None \<Rightarrow> Inr None
    | Some ob \<Rightarrow> (case rg_freeze rg typename of
          None \<Rightarrow> Inl (RuntimeError ''No implementation found'')
        | Some impl_fn \<Rightarrow> Inr (Some \<lparr>fo_key = make_key typename pk, fo_snapshot = impl_fn ob\<rparr>)))"

definition history_type_of :: "bool \<Rightarrow> bool \<Rightarrow> bool \<Rightarrow> history_type res" where
  "history_type_of delete is_new is_old =
     (if delete then Inr Delete
      else if is_new \<and> \<not> is_old then Inr Create
      else if is_new \<and> is_old then Inr Change
      else Inl (RuntimeError ''Unexpected condition''))"

definition make_diff_values :: "'o registry \<Rightarrow> string \<Rightarrow> diff \<Rightarrow> ('o hist, dict) qry" where
  "make_diff_values rg typename diff = (\<lambda>h. case rg_values rg typename of
      None \<Rightarrow> Inr []
    | Some impl_fn \<Rightarrow> impl_fn (h_names h) diff)"

definition create_entry :: "entry \<Rightarrow> ('o hist, entry option) eff" where
  "create_entry e = (\<lambda>h. (let e = e\<lparr>he_id := length (h_entries h), he_created_at := h_now h, he_diff := encode_diff (he_diff e),
         he_snapshot := map_option encode_dict (he_snapshot e), he_values := encode_dict (he_values e)\<rparr>
     in (Inr (Some e), h\<lparr>h_entries := h_entries h @ [e], h_now := h_now h + 1\<rparr>)))"

definition take_snapshot :: "'o registry \<Rightarrow> string \<Rightarrow> int \<Rightarrow> int \<Rightarrow> string \<Rightarrow> user_json \<Rightarrow> bool \<Rightarrow>
    ('o hist, entry option) eff" where
  "take_snapshot rg typename pk project_id comment user delete = atomicE (\<lambda>h.
     (let key = make_key typename pk;
          (old_fobj, need_real_snapshot) = get_last_snapshot_for_key (rg_max_partial_diffs rg) key h in
      bindE (liftE (freeze_model_instance rg typename pk)) (\<lambda>new_fobj.
      bindE (liftE (\<lambda>_. migrate_old typename old_fobj)) (\<lambda>old_fobj.
      bindE (liftE (\<lambda>_. history_type_of delete (new_fobj \<noteq> None) (old_fobj \<noteq> None))) (\<lambda>entry_type.
      bindE (liftE (\<lambda>_. make_diff old_fobj new_fobj (get_excluded_fields typename))) (\<lambda>fdiff.
        if fdiff = [] \<and> comment = [] \<and> old_fobj \<noteq> None \<and> entry_type \<noteq> Delete then retE None
        else bindE (liftE (make_diff_values rg typename fdiff)) (\<lambda>fvals.
          bindE (liftE (\<lambda>_. if comment \<noteq> [] then Inr False else is_hidden_snapshot key fdiff)) (\<lambda>is_hidden.
          create_entry \<lparr>he_id = 0, he_project_id = project_id, he_user = user, he_created_at = 0, he_type = entry_type,
            he_key = key, he_diff = fdiff,
            he_snapshot = (if need_real_snapshot \<or> delete then map_option fo_snapshot new_fobj else None),
            he_values = fvals, he_comment = comment,
            he_comment_html = rg_mdrender rg project_id comment,
            he_delete_comment_date = None, he_delete_comment_user = None, he_comment_versions = None,
            he_edit_comment_date = None, he_is_hidden = is_hidden,
            he_is_snapshot = need_real_snapshot \<or> delete\<rparr>)))))) h))"

end
