(* ===== verification/History_Facts.thy ===== *)
theory History_Facts
  imports History
begin

text \<open>
  Lemmas on the history: keys are read back, a diff holds exactly the fields that differ, a
  snapshot rebuilt from diffs has the values last seen, and what one entry adds.
\<close>

section \<open>Keys\<close>

lemma nat_str_digits: "c \<in> set (nat_str n) \<Longrightarrow> digit_value c \<noteq> None"
proof (induction n rule: nat_str.induct)
  case (1 n)
  have "(of_char c :: int) = int (of_char c :: nat)" for c :: char by (simp add: of_char_def)
  then have digit: "digit_value (char_of (48 + m)) \<noteq> None" if "m < 10" for m :: nat
    using that by (simp add: digit_value_def)
  show ?case using 1 digit by (subst (asm) nat_str.simps) (auto split: if_splits)
qed

lemma int_str_no_colon: "CHR '':'' \<notin> set (int_str i)"
proof
  assume "CHR '':'' \<in> set (int_str i)"
  then have "\<exists>n. CHR '':'' \<in> set (nat_str n)" by (auto simp: int_str_def split: if_splits)
  then have "digit_value (CHR '':'') \<noteq> None" using nat_str_digits by blast
  then show False by (simp add: digit_value_def)
qed

lemma take_drop_colon:
  assumes "CHR '':'' \<notin> set xs"
  shows "takeWhile (\<lambda>c. c \<noteq> CHR '':'') (xs @ CHR '':'' # ys) = xs"
    and "dropWhile (\<lambda>c. c \<noteq> CHR '':'') (xs @ CHR '':'' # ys) = CHR '':'' # ys"
  using assms by (induction xs) auto

lemma split_make_key: "CHR '':'' \<notin> set typename \<Longrightarrow> split_key (make_key typename pk) = Inr (typename, int_str pk)"
  by (simp add: split_key_def make_key_def take_drop_colon)

lemma rsplit_make_key: "rsplit_key (make_key typename pk) = Inr (typename, int_str pk)"
  using take_drop_colon[of "rev (int_str pk)" "rev typename"] int_str_no_colon[of pk]
  by (simp add: rsplit_key_def make_key_def)

section \<open>Values of fields\<close>

definition value_at :: "dict \<Rightarrow> string \<Rightarrow> json" where
  "value_at d k = (case map_of d k of None \<Rightarrow> JNull | Some v \<Rightarrow> v)"

lemma value_at_mem: "distinct (map fst d) \<Longrightarrow> (k, v) \<in> set d \<Longrightarrow> value_at d k = v"
  by (simp add: value_at_def)

lemma value_at_out: "k \<notin> fst ` set d \<Longrightarrow> value_at d k = JNull"
  by (simp add: value_at_def map_of_eq_None_iff[symmetric])

lemma mem_diff:
  assumes "distinct (map fst first)" and "distinct (map fst second)"
  shows "(k, v, w) \<in> set (make_diff_from_dicts first second X)
    \<longleftrightarrow> k \<notin> X \<and> v \<noteq> w \<and> v = value_at first k \<and> w = value_at second k"
proof -
  have one: "(k, v, w) \<in> set (concat (map (\<lambda>(k, v). case map_of second k of
          None \<Rightarrow> [(k, v, JNull)] | Some w \<Rightarrow> if v \<noteq> w then [(k, v, w)] else []) first))
    \<longleftrightarrow> (k, v) \<in> set first \<and> (map_of second k = None \<and> w = JNull \<or> map_of second k = Some w \<and> v \<noteq> w)"
  proof -
    have h: "(k, v, w) \<in> set (case map_of second a of None \<Rightarrow> [(a, b, JNull)] | Some w \<Rightarrow> if b \<noteq> w then [(a, b, w)] else [])
      \<longleftrightarrow> a = k \<and> b = v \<and> (map_of second k = None \<and> w = JNull \<or> map_of second k = Some w \<and> v \<noteq> w)" for a b
      by (auto split: option.split)
    show ?thesis by (simp add: split_def h del: not_None_eq) (force simp: h)
  qed
  have two: "(k, v, w) \<in> set (concat (map (\<lambda>(k, w). if k \<notin> fst ` set first then [(k, JNull, w)] else []) second))
    \<longleftrightarrow> (k, w) \<in> set second \<and> k \<notin> fst ` set first \<and> v = JNull"
    by (force split: if_splits)
  have gen: "(k, v, w) \<in> set (filter (\<lambda>(k, _). k \<notin> X) (filter (\<lambda>(k, v, w). v \<noteq> w) (A @ B)))
      \<longleftrightarrow> k \<notin> X \<and> v \<noteq> w \<and> ((k, v, w) \<in> set A \<or> (k, v, w) \<in> set B)" for A B by auto
  have "(k, v, w) \<in> set (make_diff_from_dicts first second X) \<longleftrightarrow> k \<notin> X \<and> v \<noteq> w
    \<and> ((k, v) \<in> set first \<and> (map_of second k = None \<and> w = JNull \<or> map_of second k = Some w \<and> v \<noteq> w)
       \<or> (k, w) \<in> set second \<and> k \<notin> fst ` set first \<and> v = JNull)"
    unfolding make_diff_from_dicts_def Let_def gen one two by (rule refl)
  also have "\<dots> \<longleftrightarrow> k \<notin> X \<and> v \<noteq> w \<and> v = value_at first k \<and> w = value_at second k"
    unfolding map_of_eq_Some_iff[OF assms(1), symmetric] map_of_eq_Some_iff[OF assms(2), symmetric]
      map_of_eq_None_iff[symmetric] value_at_def
    by (cases "map_of first k"; cases "map_of second k") auto
  finally show ?thesis .
qed


lemma distinct_optional: "distinct (map fst xs) \<Longrightarrow>
    distinct (map fst (concat (map (\<lambda>(k, v). if P k v then [(k, f k v)] else []) xs)))"
proof (induction xs)
  case (Cons x xs)
  define G where "G = concat (map (\<lambda>(k, v). if P k v then [(k, f k v)] else []) xs)"
  obtain a b where x: "x = (a, b)" by (cases x)
  have "fst ` set G \<subseteq> fst ` set xs" unfolding G_def by (force split: if_splits)
  moreover have "distinct (map fst G)" using Cons by (simp only: G_def distinct.simps list.map)
  moreover have "concat (map (\<lambda>(k, v). if P k v then [(k, f k v)] else []) (x # xs)) = (if P a b then [(a, f a b)] else []) @ G"
    by (simp add: x G_def)
  ultimately show ?case using Cons.prems by (auto simp: x)
qed simp

lemma distinct_diff:
  assumes "distinct (map fst first)" and "distinct (map fst second)"
  shows "distinct (map fst (make_diff_from_dicts first second X))"
proof -
  have "concat (map (\<lambda>(k, v). case map_of second k of None \<Rightarrow> [(k, v, JNull)] | Some w \<Rightarrow> if v \<noteq> w then [(k, v, w)] else []) first)
    = concat (map (\<lambda>(k, v). if map_of second k \<noteq> Some v
        then [(k, v, case map_of second k of None \<Rightarrow> JNull | Some w \<Rightarrow> w)] else []) first)" (is "?A = ?A'")
    by (rule arg_cong[where f = concat], rule map_cong) (auto split: option.split)
  moreover have "distinct (map fst ?A')"
    by (rule distinct_optional[OF assms(1)])
  ultimately have A: "distinct (map fst ?A)" by simp
  have B: "distinct (map fst (concat (map (\<lambda>(k, w). if k \<notin> fst ` set first then [(k, JNull, w)] else []) second)))" (is "distinct (map fst ?B)")
    by (rule distinct_optional[OF assms(2)])
  have "fst ` set ?A' \<subseteq> fst ` set first" "fst ` set ?B \<inter> fst ` set first = {}"
    by (force split: if_splits)+
  then have "distinct (map fst (?A @ ?B))"
    unfolding \<open>?A = ?A'\<close> map_append distinct_append list.set_map
    using \<open>distinct (map fst ?A')\<close> B by blast
  then show ?thesis unfolding make_diff_from_dicts_def Let_def by (simp only: distinct_map_filter)
qed

lemma lookup_diff:
  assumes "distinct (map fst first)" and "distinct (map fst second)"
  shows "map_of (make_diff_from_dicts first second X) k =
    (if k \<in> X \<or> value_at first k = value_at second k then None else Some (value_at first k, value_at second k))"
proof (cases "k \<in> X \<or> value_at first k = value_at second k")
  case True
  then have "k \<notin> fst ` set (make_diff_from_dicts first second X)" using mem_diff[OF assms] by force
  then show ?thesis using True by (simp add: map_of_eq_None_iff)
next
  case False
  then have "(k, value_at first k, value_at second k) \<in> set (make_diff_from_dicts first second X)"
    using mem_diff[OF assms] by simp
  then show ?thesis using False map_of_is_SomeI[OF distinct_diff[OF assms]] by simp
qed

lemma no_triple:
  assumes "\<And>k v w. (k, v, w) \<notin> set xs"
  shows "xs = []"
proof (cases xs)
  case (Cons y ys)
  obtain k v w where "y = (k, v, w)" by (cases y)
  then show ?thesis using assms[of k v w] Cons by simp
qed

lemma diff_self: "distinct (map fst d) \<Longrightarrow> make_diff_from_dicts d d X = []"
  by (rule no_triple) (auto simp: mem_diff)

lemma diff_empty:
  assumes "distinct (map fst first)" and "distinct (map fst second)"
  shows "make_diff_from_dicts first second X = [] \<longleftrightarrow> (\<forall>k. k \<notin> X \<longrightarrow> value_at first k = value_at second k)"
proof
  assume "make_diff_from_dicts first second X = []"
  then show "\<forall>k. k \<notin> X \<longrightarrow> value_at first k = value_at second k"
    using lookup_diff[OF assms, of X] by (metis map_of.simps(1) option.distinct(1))
next
  assume "\<forall>k. k \<notin> X \<longrightarrow> value_at first k = value_at second k"
  then show "make_diff_from_dicts first second X = []"
    by (intro no_triple) (auto simp: mem_diff[OF assms])
qed

section \<open>Attachments\<close>

text \<open>A snapshot with its attachments in order: a list of objects with ids, each with distinct keys.\<close>

definition attachments_ok :: "dict \<Rightarrow> bool" where
  "attachments_ok d \<longleftrightarrow> (case map_of d ''attachments'' of None \<Rightarrow> True
     | Some (JList xs) \<Rightarrow> list_all (\<lambda>x. case x of JObj kvs \<Rightarrow> distinct (map fst kvs) \<and> ''id'' \<in> fst ` set kvs | _ \<Rightarrow> False) xs
     | Some _ \<Rightarrow> False)"

lemma by_id_ok:
  assumes "list_all (\<lambda>x. case x of JObj kvs \<Rightarrow> distinct (map fst kvs) \<and> ''id'' \<in> fst ` set kvs | _ \<Rightarrow> False) xs"
  shows "\<exists>m. by_id xs = Inr m \<and> (\<forall>i kvs. map_of m i = Some kvs \<longrightarrow> distinct (map fst kvs))"
  using assms
proof (induction xs)
  case (Cons x xs)
  obtain kvs where x: "x = JObj kvs" "distinct (map fst kvs)" "''id'' \<in> fst ` set kvs"
    using Cons.prems by (cases x) auto
  obtain m where m: "by_id xs = Inr m" "\<forall>i kvs. map_of m i = Some kvs \<longrightarrow> distinct (map fst kvs)"
    using Cons by auto
  obtain i where "map_of kvs ''id'' = Some i" using x(3) by (metis map_of_eq_None_iff not_None_eq)
  then have "by_id (x # xs) = Inr (if i \<in> fst ` set m then m else (i, kvs) # m)"
    using m(1) x(1) by (simp add: dict_get_def)
  then show ?case using m(2) x(2) by auto
qed simp

lemma no_change_self:
  assumes "\<forall>i kvs. map_of m i = Some kvs \<longrightarrow> distinct (map fst kvs)"
  shows "\<not> attachment_changed m m i"
  using assms by (auto simp: attachment_changed_def diff_self split: option.split)

text \<open>The comparison of attachments depends on the two fields only, and finds none for equal fields.\<close>

lemma attachments_cong:
  assumes "map_of first ''attachments'' = map_of first' ''attachments''"
  shows "make_diff_in_attachments first second = make_diff_in_attachments first' second"
proof -
  have "attachments_by_id first = attachments_by_id first'" using assms by (simp add: attachments_by_id_def dict_get_def)
  then show ?thesis using assms by (simp only: make_diff_in_attachments_def)
qed

lemma attachments_same:
  assumes "map_of first ''attachments'' = map_of second ''attachments''" and "attachments_ok second"
  shows "make_diff_in_attachments first second = Inr None"
proof (cases "map_of second ''attachments''")
  case None
  then show ?thesis using assms by (simp add: make_diff_in_attachments_def)
next
  case (Some v)
  obtain xs where v: "v = JList xs"
    "list_all (\<lambda>x. case x of JObj kvs \<Rightarrow> distinct (map fst kvs) \<and> ''id'' \<in> fst ` set kvs | _ \<Rightarrow> False) xs"
    using assms(2) Some by (cases v) (auto simp: attachments_ok_def)
  obtain m where m: "by_id xs = Inr m" "\<forall>i kvs. map_of m i = Some kvs \<longrightarrow> distinct (map fst kvs)"
    using by_id_ok[OF v(2)] by blast
  have "attachments_by_id first = Inr m" "attachments_by_id second = Inr m"
    using assms(1) Some v(1) m(1) by (simp_all add: attachments_by_id_def dict_get_def)
  then show ?thesis
    using Some assms(1) no_change_self[OF m(2)] by (simp add: make_diff_in_attachments_def dict_get_def list_ex_iff)
qed

lemma attachments_some:
  "make_diff_in_attachments first second = Inr (Some (a, b)) \<Longrightarrow>
     map_of first ''attachments'' = Some a \<and> map_of second ''attachments'' = Some b"
  by (auto simp: make_diff_in_attachments_def dict_get_def split: option.splits sum.splits if_splits)

section \<open>Differences of objects\<close>

lemma make_diff_spec:
  assumes "make_diff (Some old) (Some new) X = Inr D"
    and "distinct (map fst (fo_snapshot old))" and "distinct (map fst (fo_snapshot new))"
  shows "distinct (map fst D)"
    and "k \<noteq> ''attachments'' \<Longrightarrow> map_of D k =
      (if k \<in> X \<or> value_at (fo_snapshot old) k = value_at (fo_snapshot new) k then None
       else Some (value_at (fo_snapshot old) k, value_at (fo_snapshot new) k))"
    and "map_of D ''attachments'' = None \<and> make_diff_in_attachments (fo_snapshot old) (fo_snapshot new) = Inr None
      \<or> (\<exists>a b. map_of D ''attachments'' = Some (a, b) \<and> map_of (fo_snapshot new) ''attachments'' = Some b)"
proof -
  let ?E = "make_diff_from_dicts (fo_snapshot old) (fo_snapshot new) (X \<union> {''attachments''})"
  have E: "map_of ?E k = (if k \<in> X \<union> {''attachments''} \<or> value_at (fo_snapshot old) k = value_at (fo_snapshot new) k then None
       else Some (value_at (fo_snapshot old) k, value_at (fo_snapshot new) k))" for k
    by (rule lookup_diff[OF assms(2,3)])
  have out: "''attachments'' \<notin> fst ` set ?E" using E[of "''attachments''"] by (simp add: map_of_eq_None_iff)
  have dE: "distinct (map fst ?E)" by (rule distinct_diff[OF assms(2,3)])
  consider (same) "D = ?E" "make_diff_in_attachments (fo_snapshot old) (fo_snapshot new) = Inr None"
    | (attached) a b where "D = ?E @ [(''attachments'', a, b)]" "map_of (fo_snapshot new) ''attachments'' = Some b"
  proof (cases "make_diff_in_attachments (fo_snapshot old) (fo_snapshot new)")
    case (Inr r)
    show ?thesis
    proof (cases r)
      case None
      then show ?thesis using that(1) assms(1) Inr by (simp add: make_diff_def Let_def)
    next
      case (Some ab)
      obtain a b where "ab = (a, b)" by (cases ab)
      then show ?thesis using that(2)[of a b] assms(1) Inr Some attachments_some[of "fo_snapshot old" "fo_snapshot new" a b]
        by (simp add: make_diff_def Let_def)
    qed
  qed (use assms(1) in \<open>simp add: make_diff_def Let_def\<close>)
  then have R: "distinct (map fst D) \<and> (\<forall>k. k \<noteq> ''attachments'' \<longrightarrow> map_of D k = map_of ?E k)
    \<and> (map_of D ''attachments'' = None \<and> make_diff_in_attachments (fo_snapshot old) (fo_snapshot new) = Inr None
      \<or> (\<exists>a b. map_of D ''attachments'' = Some (a, b) \<and> map_of (fo_snapshot new) ''attachments'' = Some b))"
  proof cases
    case same
    then show ?thesis using dE E[of "''attachments''"] by simp
  next
    case attached
    have "map_of D k = map_of ?E k" if "k \<noteq> ''attachments''" for k
      using that by (simp add: attached(1) map_add_def split: option.split)
    moreover have "map_of D ''attachments'' = Some (a, b)"
      using E[of "''attachments''"] by (simp add: attached(1) map_add_def)
    ultimately show ?thesis using dE out attached(2) by (simp add: attached(1))
  qed
  show "distinct (map fst D)" using R by (rule conjunct1)
  show "map_of D ''attachments'' = None \<and> make_diff_in_attachments (fo_snapshot old) (fo_snapshot new) = Inr None
      \<or> (\<exists>a b. map_of D ''attachments'' = Some (a, b) \<and> map_of (fo_snapshot new) ''attachments'' = Some b)"
    by (rule R[THEN conjunct2, THEN conjunct2])
  assume k: "k \<noteq> ''attachments''"
  then have "map_of D k = map_of ?E k" using R by blast
  with k show "map_of D k =
      (if k \<in> X \<or> value_at (fo_snapshot old) k = value_at (fo_snapshot new) k then None
       else Some (value_at (fo_snapshot old) k, value_at (fo_snapshot new) k))" unfolding E by simp
qed


section \<open>Rebuilding\<close>

lemma lookup_apply: "map_of (fold (\<lambda>(key, _, v). AList.update key v) D d) k =
    (if distinct (map fst D) then (case map_of D k of None \<Rightarrow> map_of d k | Some (_, w) \<Rightarrow> Some w)
     else map_of (fold (\<lambda>(key, _, v). AList.update key v) D d) k)"
proof (cases "distinct (map fst D)")
  case True
  then have "map_of (fold (\<lambda>(key, _, v). AList.update key v) D d) k
      = (case map_of D k of None \<Rightarrow> map_of d k | Some (_, w) \<Rightarrow> Some w)"
  proof (induction D arbitrary: d)
    case (Cons x D)
    obtain a v w where x: "x = (a, v, w)" by (cases x)
    then have a: "map_of D a = None" using Cons.prems by (simp add: map_of_eq_None_iff)
    show ?case using Cons.IH[of "AList.update a w d"] Cons.prems a
      by (auto simp: x update_conv' split: option.split)
  qed simp
  then show ?thesis using True by simp
qed simp

lemma keys_apply: "fst ` set (fold (\<lambda>(key, _, v). AList.update key v) D d) = fst ` set d \<union> fst ` set D"
proof (induction D arbitrary: d)
  case (Cons x D)
  obtain a v w where x: "x = (a, v, w)" by (cases x)
  show ?case using Cons.IH[of "AList.update a w d"] dom_update[of a w d] by (simp add: x)
qed simp

lemma distinct_apply: "distinct (map fst d) \<Longrightarrow> distinct (map fst (fold (\<lambda>(key, _, v). AList.update key v) D d))"
  by (induction D arbitrary: d) (auto simp: distinct_update)

lemma rebuild_snoc:
  "rebuild_snapshot_from_diffs d (es @ [e]) = fold (\<lambda>(key, _, v). AList.update key v) (he_diff e) (rebuild_snapshot_from_diffs d es)"
  by (simp add: rebuild_snapshot_from_diffs_def)

lemma rebuild_nil [simp]: "rebuild_snapshot_from_diffs d [] = d"
  by (simp add: rebuild_snapshot_from_diffs_def)

lemma distinct_rebuild: "distinct (map fst d) \<Longrightarrow> distinct (map fst (rebuild_snapshot_from_diffs d es))"
  unfolding rebuild_snapshot_from_diffs_def by (induction es arbitrary: d) (auto simp: distinct_apply)

section \<open>What is stored\<close>

text \<open>
  Entries are stored in the order of their times, all of them past; objects that were stored
  have distinct keys, and a full snapshot holds one.
\<close>

definition history_ok :: "'o hist \<Rightarrow> bool" where
  "history_ok h \<longleftrightarrow> sorted_wrt (\<lambda>a b. he_created_at a < he_created_at b) (h_entries h)
     \<and> (\<forall>e \<in> set (h_entries h). he_created_at e < h_now h \<and> distinct (map fst (he_diff e))
          \<and> he_is_snapshot e = (he_snapshot e \<noteq> None)
          \<and> (\<forall>d. he_snapshot e = Some d \<longrightarrow> distinct (map fst d)))"

lemma times_sorted:
  assumes "sorted_wrt (\<lambda>a b. he_created_at a < he_created_at b) es"
  shows "sort_key he_created_at (filter P es) = filter P es"
proof -
  have "sorted_wrt (\<lambda>a b. he_created_at a < he_created_at b) (filter P es)" using assms by (rule sorted_wrt_filter)
  then have "sorted (map he_created_at (filter P es))"
    unfolding sorted_wrt_map by (rule sorted_wrt_mono_rel[rotated]) simp
  then show ?thesis by (simp add: sort_key_id_if_sorted)
qed

lemma last_full_eq:
  assumes "history_ok h"
  shows "last_full key h = (case rev (filter (\<lambda>e. he_key e = key \<and> he_is_snapshot e) (h_entries h)) of [] \<Rightarrow> None | e # _ \<Rightarrow> Some e)"
  using assms by (simp add: last_full_def history_ok_def times_sorted)

lemma partials_eq:
  assumes "history_ok h"
  shows "partials_since key since h = filter (\<lambda>e. he_key e = key \<and> \<not> he_is_snapshot e \<and> he_created_at e \<ge> since) (h_entries h)"
  using assms by (simp add: partials_since_def history_ok_def times_sorted)

lemma last_full_mem:
  assumes "history_ok h" and "last_full key h = Some e"
  shows "e \<in> set (h_entries h) \<and> he_key e = key \<and> he_is_snapshot e"
proof -
  obtain es where "rev (filter (\<lambda>e. he_key e = key \<and> he_is_snapshot e) (h_entries h)) = e # es"
    using assms(2) unfolding last_full_eq[OF assms(1)]
    by (cases "rev (filter (\<lambda>e. he_key e = key \<and> he_is_snapshot e) (h_entries h))") auto
  then have "e \<in> set (rev (filter (\<lambda>e. he_key e = key \<and> he_is_snapshot e) (h_entries h)))" by (simp only: list.set_intros)
  then show ?thesis by simp
qed

text \<open>One more entry.\<close>

definition with_entry :: "entry \<Rightarrow> 'o hist \<Rightarrow> 'o hist" where
  "with_entry e h = h\<lparr>h_entries := h_entries h @ [e], h_now := h_now h + 1\<rparr>"

lemma history_ok_stored:
  assumes "history_ok h" and "he_created_at e = h_now h" and "distinct (map fst (he_diff e))"
    and "he_is_snapshot e = (he_snapshot e \<noteq> None)" and "\<And>d. he_snapshot e = Some d \<Longrightarrow> distinct (map fst d)"
  shows "history_ok (with_entry e h)"
  using assms by (fastforce simp: history_ok_def with_entry_def sorted_wrt_append)

lemma last_stored:
  assumes "history_ok h" and "history_ok (with_entry e h)"
  shows "last_full key (with_entry e h) = (if he_key e = key \<and> he_is_snapshot e then Some e else last_full key h)"
  unfolding last_full_eq[OF assms(1)] last_full_eq[OF assms(2)] by (simp add: with_entry_def)

lemma partials_stored:
  assumes "history_ok h" and "history_ok (with_entry e h)"
  shows "partials_since key since (with_entry e h) = partials_since key since h
    @ (if he_key e = key \<and> \<not> he_is_snapshot e \<and> he_created_at e \<ge> since then [e] else [])"
  unfolding partials_eq[OF assms(1)] partials_eq[OF assms(2)] by (simp add: with_entry_def)

lemma no_partials_yet:
  assumes "history_ok h"
  shows "partials_since key (h_now h) h = []"
  using assms by (force simp: partials_eq history_ok_def filter_empty_conv)

text \<open>The dict the last snapshot of an object is rebuilt to.\<close>

definition base_of :: "entry \<Rightarrow> dict" where
  "base_of e = (case he_snapshot e of None \<Rightarrow> [] | Some d \<Rightarrow> d)"

lemma get_last_eq:
  "get_last_snapshot_for_key m key h = (case last_full key h of None \<Rightarrow> (None, True)
    | Some e \<Rightarrow> (Some \<lparr>fo_key = he_key e, fo_snapshot = rebuild_snapshot_from_diffs (base_of e) (partials_since key (he_created_at e) h)\<rparr>,
        length (partials_since key (he_created_at e) h) \<ge> m))"
  by (simp add: get_last_snapshot_for_key_def base_of_def Let_def split: option.split)

lemma last_distinct:
  assumes "history_ok h" and "get_last_snapshot_for_key m key h = (Some ob, need)"
  shows "distinct (map fst (fo_snapshot ob))" and "fo_key ob = key"
proof -
  obtain e where e: "last_full key h = Some e"
    "ob = \<lparr>fo_key = he_key e, fo_snapshot = rebuild_snapshot_from_diffs (base_of e) (partials_since key (he_created_at e) h)\<rparr>"
    using assms(2) by (auto simp: get_last_eq split: option.splits)
  have mem: "e \<in> set (h_entries h)" "he_key e = key" "he_is_snapshot e" using last_full_mem[OF assms(1) e(1)] by auto
  then obtain d where "he_snapshot e = Some d" "distinct (map fst d)"
    using assms(1) by (auto simp: history_ok_def)
  then show "distinct (map fst (fo_snapshot ob))" "fo_key ob = key"
    using mem(2) by (simp_all add: e(2) base_of_def distinct_rebuild)
qed

end
