(* ===== verification/History_Props.thy ===== *)
theory History_Props
  imports History_Facts
begin

text \<open>
  What the history guarantees: after a snapshot the last known state of the object is the one
  it has, taking another changes nothing, full snapshots come often enough, and changes of the
  order alone stay hidden.
\<close>

section \<open>One snapshot\<close>

text \<open>The last known state of an object, in the present format.\<close>

definition last_known :: "'o registry \<Rightarrow> string \<Rightarrow> int \<Rightarrow> 'o hist \<Rightarrow> frozen_obj option res" where
  "last_known rg typename pk h =
     migrate_old typename (fst (get_last_snapshot_for_key (rg_max_partial_diffs rg) (make_key typename pk) h))"

text \<open>
  What a freezer gives for a type whose fields are stored as they are: no dates, distinct keys,
  attachments in order, and for stories the list of assigned users.
\<close>

definition plain :: "string \<Rightarrow> dict \<Rightarrow> bool" where
  "plain typename d \<longleftrightarrow> distinct (map fst d) \<and> list_all (\<lambda>(_, v). encode v = v) d \<and> attachments_ok d
     \<and> (typename = ''userstories.userstory'' \<longrightarrow> ''assigned_users'' \<in> fst ` set d)"

lemma plain_stored: "plain typename d \<Longrightarrow> encode_dict d = d"
  by (auto simp: plain_def encode_dict_def list_all_iff intro!: map_idI)

lemma plain_values: "plain typename d \<Longrightarrow> encode (value_at d k) = value_at d k"
  by (auto simp: plain_def value_at_def list_all_iff dest: map_of_SomeD split: option.split)

lemma lookup_stored_diff: "map_of (encode_diff D) k = map_option (\<lambda>(v, w). (encode v, encode w)) (map_of D k)"
  by (induction D) (auto simp: encode_diff_def)

lemma keys_stored_diff [simp]: "map fst (encode_diff D) = map fst D"
  by (simp add: encode_diff_def split_beta comp_def)

lemma migrated_fields:
  assumes "migrate_to_last_version typename ob = Inr ob'"
  shows "fo_key ob' = fo_key ob"
    and "distinct (map fst (fo_snapshot ob)) \<Longrightarrow> distinct (map fst (fo_snapshot ob'))"
    and "map_of (fo_snapshot ob') k = (if typename = ''userstories.userstory'' \<and> k = ''assigned_users'' \<and> map_of (fo_snapshot ob) k = None
      then Some (if json_truth (the (map_of (fo_snapshot ob) ''assigned_to'')) then JList [the (map_of (fo_snapshot ob) ''assigned_to'')] else JList [])
      else map_of (fo_snapshot ob) k)"
  using assms
  by (auto simp: migrate_to_last_version_def migrate_userstory_diff_def dict_get_def update_conv' distinct_update
      map_of_eq_None_iff split: if_splits option.splits)

lemma key_iff: "k \<in> fst ` set d \<longleftrightarrow> map_of d k \<noteq> None"
  by (metis map_of_eq_None_iff)

lemma migrates:
  assumes "migrate_to_last_version typename ob = Inr ob1"
    and "typename = ''userstories.userstory'' \<Longrightarrow> map_of (fo_snapshot ob) ''assigned_to'' = map_of (fo_snapshot ob') ''assigned_to''"
    and "map_of (fo_snapshot ob) ''assigned_users'' \<noteq> None \<Longrightarrow> map_of (fo_snapshot ob') ''assigned_users'' \<noteq> None"
  shows "\<exists>ob2. migrate_to_last_version typename ob' = Inr ob2"
proof (cases "typename = ''userstories.userstory'' \<and> map_of (fo_snapshot ob') ''assigned_users'' = None")
  case True
  then have "map_of (fo_snapshot ob) ''assigned_users'' = None" using assms(3) by blast
  then obtain u where "map_of (fo_snapshot ob) ''assigned_to'' = Some u"
    using assms(1) True
    by (auto simp: migrate_to_last_version_def migrate_userstory_diff_def dict_get_def key_iff split: option.splits)
  then show ?thesis using assms(2) True
    by (simp add: migrate_to_last_version_def migrate_userstory_diff_def dict_get_def)
next
  case False
  then show ?thesis by (auto simp: migrate_to_last_version_def migrate_userstory_diff_def key_iff)
qed

lemma no_difference:
  assumes "distinct (map fst (fo_snapshot old))" and "distinct (map fst (fo_snapshot new))"
    and "\<And>k. k \<notin> X \<Longrightarrow> k \<noteq> ''attachments'' \<Longrightarrow> value_at (fo_snapshot old) k = value_at (fo_snapshot new) k"
    and "make_diff_in_attachments (fo_snapshot old) (fo_snapshot new) = Inr None"
  shows "make_diff (Some old) (Some new) X = Inr []"
  using assms diff_empty[OF assms(1,2), of "X \<union> {''attachments''}"] by (simp add: make_diff_def Let_def)

text \<open>
  What a snapshot of an existing object does when it succeeds: nothing, or one new entry.
\<close>

definition snapshot_result :: "string \<Rightarrow> dict \<Rightarrow> bool \<Rightarrow> frozen_obj option \<Rightarrow> diff \<Rightarrow> string \<Rightarrow> bool \<Rightarrow>
    'o hist \<Rightarrow> entry option \<Rightarrow> 'o hist \<Rightarrow> bool" where
  "snapshot_result key d need old D comment delete h r h' \<longleftrightarrow>
     r = None \<and> h' = h \<and> D = [] \<and> old \<noteq> None \<and> \<not> delete \<and> comment = []
     \<or> (\<exists>e. r = Some e \<and> h' = with_entry e h \<and> he_id e = length (h_entries h) \<and> he_key e = key
          \<and> he_created_at e = h_now h \<and> he_diff e = encode_diff D \<and> he_is_snapshot e = (need \<or> delete)
          \<and> he_snapshot e = (if need \<or> delete then Some (encode_dict d) else None)
          \<and> he_type e = (if delete then Delete else if old = None then Create else Change)
          \<and> he_comment e = comment \<and> he_delete_comment_user e = None \<and> he_comment_versions e = None
          \<and> (D = [] \<longrightarrow> comment \<noteq> [] \<or> old = None \<or> delete)
          \<and> (if comment \<noteq> [] then \<not> he_is_hidden e else is_hidden_snapshot key D = Inr (he_is_hidden e)))"

lemma snapshot_resultE:
  assumes "snapshot_result key d need old D comment delete h r h'"
  obtains (unchanged) "r = None" "h' = h" "D = []" "old \<noteq> None" "\<not> delete" "comment = []"
    | (added) e where "r = Some e" "h' = with_entry e h" "he_id e = length (h_entries h)" "he_key e = key"
        "he_created_at e = h_now h" "he_diff e = encode_diff D" "he_is_snapshot e = (need \<or> delete)"
        "he_snapshot e = (if need \<or> delete then Some (encode_dict d) else None)"
  using assms unfolding snapshot_result_def by blast

lemma take_snapshot_cases:
  assumes "take_snapshot rg tn pk project comment user delete h = (Inr r, h')"
    and "h_rows h tn pk = Some ob" and "rg_freeze rg tn = Some f"
  obtains raw need old D where
    "get_last_snapshot_for_key (rg_max_partial_diffs rg) (make_key tn pk) h = (raw, need)"
    "last_known rg tn pk h = Inr old" "(raw = None) = (old = None)"
    "make_diff old (Some \<lparr>fo_key = make_key tn pk, fo_snapshot = f ob\<rparr>) (get_excluded_fields tn) = Inr D"
    "snapshot_result (make_key tn pk) (f ob) need old D comment delete h r h'"
proof -
  obtain raw need where last: "get_last_snapshot_for_key (rg_max_partial_diffs rg) (make_key tn pk) h = (raw, need)"
    by (cases "get_last_snapshot_for_key (rg_max_partial_diffs rg) (make_key tn pk) h")
  let ?new = "\<lparr>fo_key = make_key tn pk, fo_snapshot = f ob\<rparr>"
  have frozen: "freeze_model_instance rg tn pk h = Inr (Some ?new)" using assms(2,3) by (simp add: freeze_model_instance_def)
  obtain old where old: "migrate_old tn raw = Inr old"
    using assms(1) by (cases "migrate_old tn raw") (auto simp: take_snapshot_def atomicE_apply last frozen bindE_apply)
  have same: "(raw = None) = (old = None)"
    using old by (cases raw; cases "migrate_to_last_version tn (the raw)") (auto simp: migrate_old_def)
  have type: "history_type_of delete True (old \<noteq> None) = Inr (if delete then Delete else if old = None then Create else Change)"
    by (simp add: history_type_of_def)
  obtain D where D: "make_diff old (Some ?new) (get_excluded_fields tn) = Inr D"
    using assms(1) by (cases "make_diff old (Some ?new) (get_excluded_fields tn)")
      (auto simp: take_snapshot_def atomicE_apply last frozen bindE_apply old type Let_def simp del: not_None_eq)
  define T where "T = (if delete then Delete else if old = None then Create else Change)"
  define E where "E fvals hidden = \<lparr>he_id = length (h_entries h), he_project_id = project, he_user = user, he_created_at = h_now h, he_type = T,
      he_key = make_key tn pk, he_diff = encode_diff D,
      he_snapshot = map_option encode_dict (if need \<or> delete then Some (f ob) else None),
      he_values = encode_dict fvals, he_comment = comment,
      he_comment_html = rg_mdrender rg project comment, he_delete_comment_date = None, he_delete_comment_user = None,
      he_comment_versions = None, he_edit_comment_date = None, he_is_hidden = hidden, he_is_snapshot = need \<or> delete\<rparr>" for fvals hidden
  have T: "T \<noteq> Delete \<longleftrightarrow> \<not> delete" by (simp add: T_def)
  have run: "take_snapshot rg tn pk project comment user delete h =
     (if D = [] \<and> comment = [] \<and> old \<noteq> None \<and> \<not> delete then (Inr None, h)
      else case make_diff_values rg tn D h of Inl e \<Rightarrow> (Inl e, h) | Inr fvals \<Rightarrow>
        (case (if comment \<noteq> [] then Inr False else is_hidden_snapshot (make_key tn pk) D) of
          Inl e \<Rightarrow> (Inl e, h) | Inr hidden \<Rightarrow> (Inr (Some (E fvals hidden)), with_entry (E fvals hidden) h)))"
    unfolding take_snapshot_def last Let_def prod.case atomicE_apply bindE_lift frozen old sum.case type[folded T_def] D T
    by (simp add: bindE_lift retE_apply create_entry_def with_entry_def Let_def E_def
        option.distinct not_None_eq type[folded T_def] old D T del: not_None_eq split: sum.split)
  show ?thesis
  proof (rule that[OF last _ same D])
    show "last_known rg tn pk h = Inr old" using old by (simp add: last_known_def last)
    consider (none) "r = None" "h' = h" "D = []" "comment = []" "old \<noteq> None" "\<not> delete"
      | (some) fvals hidden where "(if comment \<noteq> [] then Inr False else is_hidden_snapshot (make_key tn pk) D) = Inr hidden"
          "r = Some (E fvals hidden)" "h' = with_entry (E fvals hidden) h" "D = [] \<longrightarrow> comment \<noteq> [] \<or> old = None \<or> delete"
      using assms(1) unfolding run by (auto split: if_splits sum.splits)
    then show "snapshot_result (make_key tn pk) (f ob) need old D comment delete h r h'"
    proof cases
      case none
      then show ?thesis by (simp add: snapshot_result_def)
    next
      case some
      then show ?thesis unfolding snapshot_result_def
        by (intro disjI2 exI[of _ "E fvals hidden"]) (auto simp: E_def T_def split: if_splits)
    qed
  qed
qed


lemma excluded_assigned_to: "typename = ''userstories.userstory'' \<Longrightarrow> ''assigned_to'' \<in> get_excluded_fields typename"
  by (simp add: get_excluded_fields_def)

lemma assigned_users_kept: "''assigned_users'' \<notin> get_excluded_fields typename \<and> ''assigned_users'' \<noteq> ''attachments''
    \<and> ''assigned_to'' \<noteq> ''attachments''"
  by (simp add: get_excluded_fields_def)

text \<open>
  The snapshot rebuilt after a partial entry: the old one, with the fields of the diff
  overwritten. Migrating it gives the values of the new snapshot.
\<close>

lemma rebuilt_agrees:
  assumes old: "migrate_to_last_version tn raw = Inr old" "distinct (map fst (fo_snapshot raw))"
    and D: "make_diff (Some old) (Some new) (get_excluded_fields tn) = Inr D"
    and new: "plain tn (fo_snapshot new)"
    and raw': "raw' = raw\<lparr>fo_snapshot := fold (\<lambda>(key, _, v). AList.update key v) (encode_diff D) (fo_snapshot raw)\<rparr>"
  shows "\<exists>old'. migrate_to_last_version tn raw' = Inr old'
    \<and> make_diff (Some old') (Some new) (get_excluded_fields tn) = Inr []"
proof -
  let ?X = "get_excluded_fields tn"
  have dn: "distinct (map fst (fo_snapshot new))" using new by (simp add: plain_def)
  have dold: "distinct (map fst (fo_snapshot old))" by (rule migrated_fields(2)[OF old])
  note spec = make_diff_spec[OF D dold dn]
  have look: "map_of (fo_snapshot raw') k = (case map_of D k of None \<Rightarrow> map_of (fo_snapshot raw) k | Some (_, w) \<Rightarrow> Some (encode w))" for k
    using spec(1) by (simp add: raw' lookup_apply lookup_stored_diff split: option.split)
  have dr: "distinct (map fst (fo_snapshot raw'))" using old(2) by (simp add: raw' distinct_apply)
  have untouched: "map_of D k = None" if "k \<in> ?X" "k \<noteq> ''attachments''" for k using spec(2) that by simp
  obtain old' where old': "migrate_to_last_version tn raw' = Inr old'"
  proof -
    have "map_of (fo_snapshot raw) ''assigned_to'' = map_of (fo_snapshot raw') ''assigned_to''" if "tn = ''userstories.userstory''"
      using untouched[OF excluded_assigned_to[OF that]] by (simp add: look)
    moreover have "map_of (fo_snapshot raw) ''assigned_users'' \<noteq> None \<Longrightarrow> map_of (fo_snapshot raw') ''assigned_users'' \<noteq> None"
      by (auto simp: look split: option.splits)
    ultimately show ?thesis using migrates[OF old(1)] that by blast
  qed
  have fields: "value_at (fo_snapshot old') k = value_at (fo_snapshot new) k" if k: "k \<notin> ?X" "k \<noteq> ''attachments''" for k
  proof (cases "map_of D k")
    case None
    then have eq: "value_at (fo_snapshot old) k = value_at (fo_snapshot new) k" using spec(2)[OF k(2)] k(1) by (auto split: if_splits)
    have raw: "map_of (fo_snapshot raw') k = map_of (fo_snapshot raw) k" using None by (simp add: look)
    have "map_of (fo_snapshot raw') ''assigned_to'' = map_of (fo_snapshot raw) ''assigned_to''" if "tn = ''userstories.userstory''"
      using untouched[OF excluded_assigned_to[OF that]] by (simp add: look)
    then have "map_of (fo_snapshot old') k = map_of (fo_snapshot old) k"
      unfolding migrated_fields(3)[OF old'] migrated_fields(3)[OF old(1)] by (auto simp: raw)
    then show ?thesis using eq by (simp add: value_at_def)
  next
    case (Some vw)
    then have "snd vw = value_at (fo_snapshot new) k" using spec(2)[OF k(2)] by (auto split: if_splits)
    then have "map_of (fo_snapshot raw') k = Some (value_at (fo_snapshot new) k)"
      using Some plain_values[OF new] by (simp add: look split_beta)
    then have "map_of (fo_snapshot old') k = Some (value_at (fo_snapshot new) k)"
      unfolding migrated_fields(3)[OF old'] by simp
    then show ?thesis by (simp add: value_at_def)
  qed
  have att': "map_of (fo_snapshot old') ''attachments'' = map_of (fo_snapshot raw') ''attachments''"
    "map_of (fo_snapshot old) ''attachments'' = map_of (fo_snapshot raw) ''attachments''"
    unfolding migrated_fields(3)[OF old'] migrated_fields(3)[OF old(1)] by simp_all
  have "make_diff_in_attachments (fo_snapshot old') (fo_snapshot new) = Inr None"
    using spec(3)
  proof
    assume a: "map_of D ''attachments'' = None \<and> make_diff_in_attachments (fo_snapshot old) (fo_snapshot new) = Inr None"
    then have "map_of (fo_snapshot old') ''attachments'' = map_of (fo_snapshot old) ''attachments''" by (simp add: att' look)
    from attachments_cong[OF this] a show ?thesis by simp
  next
    assume "\<exists>a b. map_of D ''attachments'' = Some (a, b) \<and> map_of (fo_snapshot new) ''attachments'' = Some b"
    then obtain a b where ab: "map_of D ''attachments'' = Some (a, b)" "map_of (fo_snapshot new) ''attachments'' = Some b" by blast
    have "encode b = b" using plain_values[OF new, of "''attachments''"] ab(2) by (simp add: value_at_def)
    then have "map_of (fo_snapshot old') ''attachments'' = map_of (fo_snapshot new) ''attachments''"
      using ab by (simp add: att' look)
    then show ?thesis using new by (intro attachments_same) (simp_all add: plain_def)
  qed
  then have "make_diff (Some old') (Some new) ?X = Inr []"
    by (intro no_difference fields) (use migrated_fields(2)[OF old' dr] dn in auto)
  then show ?thesis using old' by blast
qed

lemma full_agrees:
  assumes "plain tn d"
  shows "migrate_to_last_version tn \<lparr>fo_key = key, fo_snapshot = d\<rparr> = Inr \<lparr>fo_key = key, fo_snapshot = d\<rparr>"
    and "make_diff (Some \<lparr>fo_key = key, fo_snapshot = d\<rparr>) (Some \<lparr>fo_key = key, fo_snapshot = d\<rparr>) X = Inr []"
proof -
  show "migrate_to_last_version tn \<lparr>fo_key = key, fo_snapshot = d\<rparr> = Inr \<lparr>fo_key = key, fo_snapshot = d\<rparr>"
    using assms by (auto simp: plain_def migrate_to_last_version_def migrate_userstory_diff_def)
  show "make_diff (Some \<lparr>fo_key = key, fo_snapshot = d\<rparr>) (Some \<lparr>fo_key = key, fo_snapshot = d\<rparr>) X = Inr []"
    by (rule no_difference) (use assms in \<open>simp_all add: plain_def attachments_same\<close>)
qed

text \<open>After a snapshot the last known state and the object do not differ.\<close>

lemma known_after:
  assumes h: "history_ok h" and run: "take_snapshot rg tn pk project comment user delete h = (Inr r, h')"
    and ob: "h_rows h tn pk = Some ob" "rg_freeze rg tn = Some f" and plain: "plain tn (f ob)"
  shows "history_ok h' \<and> (\<exists>S. last_known rg tn pk h' = Inr (Some S)
    \<and> distinct (map fst (fo_snapshot S))
    \<and> make_diff (Some S) (Some \<lparr>fo_key = make_key tn pk, fo_snapshot = f ob\<rparr>) (get_excluded_fields tn) = Inr [])"
proof (rule take_snapshot_cases[OF run ob])
  let ?key = "make_key tn pk"
  let ?new = "\<lparr>fo_key = ?key, fo_snapshot = f ob\<rparr>"
  let ?m = "rg_max_partial_diffs rg"
  fix raw need old D
  assume last: "get_last_snapshot_for_key ?m ?key h = (raw, need)" and known: "last_known rg tn pk h = Inr old"
    and same: "(raw = None) = (old = None)" and D: "make_diff old (Some ?new) (get_excluded_fields tn) = Inr D"
    and res: "snapshot_result ?key (f ob) need old D comment delete h r h'"
  have dn: "distinct (map fst (f ob))" using plain by (simp add: plain_def)
  have old_ok: "distinct (map fst (fo_snapshot raw1)) \<and> migrate_to_last_version tn raw1 = Inr old1 \<and> distinct (map fst (fo_snapshot old1))"
    if "raw = Some raw1" "old = Some old1" for raw1 old1
  proof -
    have "migrate_to_last_version tn raw1 = Inr old1"
      using known that by (cases "migrate_to_last_version tn raw1") (auto simp: last_known_def last migrate_old_def)
    then show ?thesis using last_distinct(1)[OF h last[unfolded that]] migrated_fields(2) by blast
  qed
  have dD: "distinct (map fst D)"
  proof (cases old)
    case None
    then show ?thesis using D by (simp add: make_diff_def)
  next
    case (Some old1)
    then obtain raw1 where "raw = Some raw1" using same by auto
    then show ?thesis using old_ok[OF _ Some] make_diff_spec(1)[OF D[unfolded Some]] dn by simp
  qed
  from res show ?thesis
  proof (cases rule: snapshot_resultE)
    case unchanged
    then obtain old1 raw1 where "old = Some old1" "raw = Some raw1" using same by auto
    then show ?thesis using unchanged h known D old_ok by auto
  next
    case (added e)
    note e = added(2,4-8)[unfolded plain_stored[OF plain]]
    have h': "history_ok (with_entry e h)"
      by (rule history_ok_stored[OF h e(3)]) (use dD dn e(4-6) in \<open>auto split: if_splits\<close>)
    show ?thesis
    proof (cases "need \<or> delete")
      case True
      have "get_last_snapshot_for_key ?m ?key h' = (Some \<lparr>fo_key = ?key, fo_snapshot = f ob\<rparr>, 0 \<ge> ?m)"
        unfolding get_last_eq e(1) last_stored[OF h h'] partials_stored[OF h h']
        using e True no_partials_yet[OF h] by (simp add: base_of_def)
      then show ?thesis using full_agrees[OF plain] h' e(1) dn by (simp add: last_known_def migrate_old_def)
    next
      case False
      then obtain raw1 where raw1: "raw = Some raw1" "\<not> need"
        using last by (auto simp: get_last_eq split: option.splits)
      then obtain old1 where old1: "old = Some old1" using same by auto
      obtain k where k: "last_full ?key h = Some k"
        "raw1 = \<lparr>fo_key = he_key k, fo_snapshot = rebuild_snapshot_from_diffs (base_of k) (partials_since ?key (he_created_at k) h)\<rparr>"
        using last raw1 by (auto simp: get_last_eq split: option.splits)
      have before: "he_created_at k \<le> h_now h" using last_full_mem[OF h k(1)] h by (auto simp: history_ok_def less_imp_le)
      let ?raw' = "raw1\<lparr>fo_snapshot := fold (\<lambda>(key, _, v). AList.update key v) (encode_diff D) (fo_snapshot raw1)\<rparr>"
      have last': "fst (get_last_snapshot_for_key ?m ?key h') = Some ?raw'"
        unfolding get_last_eq e(1) last_stored[OF h h'] partials_stored[OF h h']
        using e False k before by (simp add: rebuild_snoc)
      have o1: "distinct (map fst (fo_snapshot raw1))" "migrate_to_last_version tn raw1 = Inr old1"
        using old_ok[OF raw1(1) old1] by auto
      from rebuilt_agrees[OF o1(2,1) D[unfolded old1] _ refl] plain obtain old' where
        old': "migrate_to_last_version tn ?raw' = Inr old'" "make_diff (Some old') (Some ?new) (get_excluded_fields tn) = Inr []"
        by auto
      have "distinct (map fst (fo_snapshot old'))"
        by (rule migrated_fields(2)[OF old'(1)]) (simp add: distinct_apply o1(1))
      then show ?thesis using old' h' last' by (simp add: last_known_def migrate_old_def e(1))
    qed
  qed
qed


section \<open>Reachable histories\<close>

text \<open>
  What can happen to a history: time passes, objects change in any way, the comments of
  entries change in any way, and snapshots are taken, whether they succeed or fail.
\<close>

definition same_record :: "entry \<Rightarrow> entry \<Rightarrow> bool" where
  "same_record e e' \<longleftrightarrow> he_id e' = he_id e \<and> he_project_id e' = he_project_id e \<and> he_user e' = he_user e
     \<and> he_created_at e' = he_created_at e \<and> he_type e' = he_type e \<and> he_key e' = he_key e
     \<and> he_diff e' = he_diff e \<and> he_snapshot e' = he_snapshot e \<and> he_values e' = he_values e
     \<and> he_is_hidden e' = he_is_hidden e \<and> he_is_snapshot e' = he_is_snapshot e"

lemma same_record_refl [simp]: "same_record e e"
  by (simp add: same_record_def)

definition annotated :: "(entry \<Rightarrow> entry) \<Rightarrow> 'o hist \<Rightarrow> 'o hist" where
  "annotated f h = h\<lparr>h_entries := map f (h_entries h)\<rparr>"

inductive history_step :: "'o registry \<Rightarrow> 'o hist \<Rightarrow> 'o hist \<Rightarrow> bool" for rg where
  time: "n \<ge> h_now h \<Longrightarrow> history_step rg h (h\<lparr>h_now := n\<rparr>)"
| change: "history_step rg h (h\<lparr>h_rows := rows, h_names := nm\<rparr>)"
| annotate: "(\<And>e. e \<in> set (h_entries h) \<Longrightarrow> same_record e (f e)) \<Longrightarrow> history_step rg h (annotated f h)"
| snapshot: "history_step rg h (snd (take_snapshot rg tn pk project comment user delete h))"

inductive_cases history_stepE [elim]: "history_step rg h h'"

definition no_names :: names where
  "no_names = \<lparr>nm_rows = (\<lambda>_. []), nm_users = [], nm_stories = []\<rparr>"

definition empty_history :: "'o hist" where
  "empty_history = \<lparr>h_entries = [], h_rows = (\<lambda>_ _. None),
 h_names = no_names, h_now = 0\<rparr>"

text \<open>Freezers return dicts.\<close>

definition freezes_dicts :: "'o registry \<Rightarrow> bool" where
  "freezes_dicts rg \<longleftrightarrow> (\<forall>tn f ob. rg_freeze rg tn = Some f \<longrightarrow> distinct (map fst (f ob)))"

lemma failed_snapshot:
  "take_snapshot rg tn pk project comment user delete h = (Inl e, h') \<Longrightarrow> h' = h"
  unfolding take_snapshot_def by (rule atomicE_Inl)

lemma snapshot_needs_row:
  assumes "take_snapshot rg tn pk project comment user delete h = (Inr r, h')"
  shows "\<exists>ob f. h_rows h tn pk = Some ob \<and> rg_freeze rg tn = Some f"
proof (rule ccontr)
  assume "\<not> ?thesis"
  then consider "h_rows h tn pk = None" | ob where "h_rows h tn pk = Some ob" "rg_freeze rg tn = None"
    by (cases "h_rows h tn pk"; cases "rg_freeze rg tn") auto
  then show False
  proof cases
    case 1
    obtain raw need where last: "get_last_snapshot_for_key (rg_max_partial_diffs rg) (make_key tn pk) h = (raw, need)"
      by (cases "get_last_snapshot_for_key (rg_max_partial_diffs rg) (make_key tn pk) h")
    have "freeze_model_instance rg tn pk h = Inr None" using 1 by (simp add: freeze_model_instance_def)
    then show False using assms
      by (cases "migrate_old tn raw"; cases delete)
        (auto simp: take_snapshot_def atomicE_apply last bindE_apply history_type_of_def make_diff_def Let_def)
  next
    case 2
    then have "freeze_model_instance rg tn pk h = Inl (RuntimeError ''No implementation found'')"
      by (simp add: freeze_model_instance_def)
    then show False using assms
      by (auto simp: take_snapshot_def atomicE_apply bindE_apply Let_def split: prod.splits)
  qed
qed

text \<open>A snapshot adds at most one entry; an entry that is not full adds to fewer than the limit.\<close>

lemma snapshot_adds:
  assumes h: "history_ok h" and run: "take_snapshot rg tn pk project comment user delete h = (Inr r, h')"
    and dicts: "freezes_dicts rg"
  shows "h' = h \<or> (\<exists>e. h' = with_entry e h \<and> history_ok h' \<and> he_key e = make_key tn pk \<and> he_created_at e = h_now h
    \<and> (\<not> he_is_snapshot e \<longrightarrow> (\<exists>k. last_full (make_key tn pk) h = Some k
         \<and> length (partials_since (make_key tn pk) (he_created_at k) h) < rg_max_partial_diffs rg)))"
proof -
  obtain ob f where ob: "h_rows h tn pk = Some ob" "rg_freeze rg tn = Some f" using snapshot_needs_row[OF run] by blast
  have dn: "distinct (map fst (f ob))" using dicts ob(2) by (simp add: freezes_dicts_def)
  have de: "distinct (map fst (encode_dict (f ob)))" using dn by (simp add: encode_dict_def split_beta comp_def)
  show ?thesis
  proof (rule take_snapshot_cases[OF run ob])
    fix raw need old D
    assume last: "get_last_snapshot_for_key (rg_max_partial_diffs rg) (make_key tn pk) h = (raw, need)"
      and known: "last_known rg tn pk h = Inr old"
      and D: "make_diff old (Some \<lparr>fo_key = make_key tn pk, fo_snapshot = f ob\<rparr>) (get_excluded_fields tn) = Inr D"
      and res: "snapshot_result (make_key tn pk) (f ob) need old D comment delete h r h'"
    have dD: "distinct (map fst D)"
    proof (cases old)
      case None
      then show ?thesis using D by (simp add: make_diff_def)
    next
      case (Some old1)
      then obtain raw1 where raw1: "raw = Some raw1" "migrate_to_last_version tn raw1 = Inr old1"
        using known by (cases raw; cases "migrate_to_last_version tn (the raw)") (auto simp: last_known_def last migrate_old_def)
      then have "distinct (map fst (fo_snapshot old1))"
        using last_distinct(1)[OF h last[unfolded raw1(1)]] migrated_fields(2) by blast
      then show ?thesis using make_diff_spec(1)[OF D[unfolded Some]] dn by simp
    qed
    from res show ?thesis
    proof (cases rule: snapshot_resultE)
      case unchanged
      then show ?thesis by simp
    next
      case (added e)
      note e = added(2,4-8)
      have "history_ok h'" unfolding e(1)
        by (rule history_ok_stored[OF h e(3)]) (use dD de e(4-6) in \<open>auto split: if_splits\<close>)
      moreover have "\<exists>k. last_full (make_key tn pk) h = Some k
         \<and> length (partials_since (make_key tn pk) (he_created_at k) h) < rg_max_partial_diffs rg" if "\<not> he_is_snapshot e"
        using that last e(5) by (auto simp: get_last_eq not_le split: option.splits)
      ultimately show ?thesis using e by blast
    qed
  qed
qed

definition partials_bounded :: "nat \<Rightarrow> 'o hist \<Rightarrow> bool" where
  "partials_bounded m h \<longleftrightarrow> (\<forall>key e. last_full key h = Some e \<longrightarrow> length (partials_since key (he_created_at e) h) \<le> m)"

lemma annotated_ok:
  assumes f: "\<And>e. e \<in> set (h_entries h) \<Longrightarrow> same_record e (f e)" and h: "history_ok h"
  shows "history_ok (annotated f h)"
proof -
  have "sorted_wrt (\<lambda>a b. he_created_at (f a) < he_created_at (f b)) (h_entries h)"
    by (rule sorted_wrt_mono_rel[of _ "\<lambda>a b. he_created_at a < he_created_at b"])
      (use h f in \<open>simp_all add: history_ok_def same_record_def\<close>)
  then show ?thesis using h f by (simp add: history_ok_def annotated_def same_record_def sorted_wrt_map)
qed

lemma filter_annotated:
  "(\<And>e. e \<in> set es \<Longrightarrow> P (f e) = P e) \<Longrightarrow> filter P (map f es) = map f (filter P es)"
  by (induction es) simp_all

lemma annotated_last:
  assumes f: "\<And>e. e \<in> set (h_entries h) \<Longrightarrow> same_record e (f e)" and h: "history_ok h"
  shows "last_full key (annotated f h) = map_option f (last_full key h)"
    and "partials_since key since (annotated f h) = map f (partials_since key since h)"
proof -
  have full: "filter (\<lambda>e. he_key e = key \<and> he_is_snapshot e) (map f (h_entries h))
      = map f (filter (\<lambda>e. he_key e = key \<and> he_is_snapshot e) (h_entries h))"
    by (rule filter_annotated) (use f in \<open>simp add: same_record_def\<close>)
  then show "last_full key (annotated f h) = map_option f (last_full key h)"
    unfolding last_full_eq[OF h]
    by (simp add: annotated_def last_full_eq[OF annotated_ok[OF f h, unfolded annotated_def]] rev_map full split: list.split)
  have "filter (\<lambda>e. he_key e = key \<and> \<not> he_is_snapshot e \<and> he_created_at e \<ge> since) (map f (h_entries h))
      = map f (filter (\<lambda>e. he_key e = key \<and> \<not> he_is_snapshot e \<and> he_created_at e \<ge> since) (h_entries h))"
    by (rule filter_annotated) (use f in \<open>simp add: same_record_def\<close>)
  then show "partials_since key since (annotated f h) = map f (partials_since key since h)"
    unfolding partials_eq[OF h]
    by (simp add: annotated_def partials_eq[OF annotated_ok[OF f h, unfolded annotated_def]])
qed

lemma annotated_bounded:
  assumes f: "\<And>e. e \<in> set (h_entries h) \<Longrightarrow> same_record e (f e)" and h: "history_ok h" and m: "partials_bounded m h"
  shows "partials_bounded m (annotated f h)"
  unfolding partials_bounded_def
proof (intro allI impI)
  fix key e assume "last_full key (annotated f h) = Some e"
  then obtain e0 where e0: "last_full key h = Some e0" "e = f e0" using annotated_last(1)[OF f h] by auto
  then have "he_created_at e = he_created_at e0" using f last_full_mem[OF h e0(1)] by (simp add: same_record_def)
  then show "length (partials_since key (he_created_at e) (annotated f h)) \<le> m"
    using m e0(1) by (simp add: annotated_last(2)[OF f h] partials_bounded_def)
qed

lemma step_history_ok:
  assumes "history_step rg h h'" and "history_ok h" and "freezes_dicts rg"
  shows "history_ok h'"
  using assms(1)
proof cases
  case time
  then show ?thesis using assms(2) by (fastforce simp: history_ok_def)
next
  case change
  then show ?thesis using assms(2) by (simp add: history_ok_def)
next
  case (annotate f)
  then show ?thesis using annotated_ok assms(2) by blast
next
  case (snapshot tn pk project comment user delete)
  obtain r where run: "take_snapshot rg tn pk project comment user delete h = (r, h')"
    using snapshot by (cases "take_snapshot rg tn pk project comment user delete h") auto
  show ?thesis
  proof (cases r)
    case (Inl e)
    then show ?thesis using failed_snapshot run assms(2) by fast
  next
    case (Inr x)
    then show ?thesis using snapshot_adds[OF assms(2) run[unfolded Inr] assms(3)] assms(2) by auto
  qed
qed

lemma step_bounded:
  assumes "history_step rg h h'" and "history_ok h" and "freezes_dicts rg" and "partials_bounded (rg_max_partial_diffs rg) h"
  shows "partials_bounded (rg_max_partial_diffs rg) h'"
  using assms(1)
proof cases
  case (snapshot tn pk project comment user delete)
  obtain r where run: "take_snapshot rg tn pk project comment user delete h = (r, h')"
    using snapshot by (cases "take_snapshot rg tn pk project comment user delete h") auto
  show ?thesis
  proof (cases r)
    case (Inl e)
    then show ?thesis using failed_snapshot run assms(4) by fast
  next
    case (Inr x)
    from snapshot_adds[OF assms(2) run[unfolded Inr] assms(3)] show ?thesis
    proof (elim disjE exE conjE)
      assume "h' = h"
      then show ?thesis using assms(4) by simp
    next
      fix e assume e: "h' = with_entry e h" "history_ok h'" "he_key e = make_key tn pk" "he_created_at e = h_now h"
        and partial: "\<not> he_is_snapshot e \<longrightarrow> (\<exists>k. last_full (make_key tn pk) h = Some k
           \<and> length (partials_since (make_key tn pk) (he_created_at k) h) < rg_max_partial_diffs rg)"
      have h': "history_ok (with_entry e h)" using e(1,2) by simp
      show ?thesis unfolding partials_bounded_def e(1)
      proof (intro allI impI)
        fix key k assume k: "last_full key (with_entry e h) = Some k"
        show "length (partials_since key (he_created_at k) (with_entry e h)) \<le> rg_max_partial_diffs rg"
        proof (cases "he_key e = key \<and> he_is_snapshot e")
          case True
          then have "k = e" using k last_stored[OF assms(2) h'] by simp
          then show ?thesis using True no_partials_yet[OF assms(2), of key] e(4) by (simp add: partials_stored[OF assms(2) h'])
        next
          case False
          then have k: "last_full key h = Some k" using k unfolding last_stored[OF assms(2) h'] if_not_P[OF False] by blast
          then have "length (partials_since key (he_created_at k) h) \<le> rg_max_partial_diffs rg"
            using assms(4) by (simp add: partials_bounded_def)
          moreover have "length (partials_since key (he_created_at k) h) < rg_max_partial_diffs rg" if "he_key e = key"
            using that False partial k e(3) by auto
          ultimately show ?thesis by (auto simp: partials_stored[OF assms(2) h'])
        qed
      qed
    qed
  qed
next
  case (annotate f)
  then show ?thesis using annotated_bounded[OF _ assms(2,4)] by blast
qed (use assms(4) in \<open>simp_all add: partials_bounded_def last_full_def partials_since_def\<close>)

lemma empty_ok: "history_ok empty_history" "partials_bounded m empty_history"
  by (simp_all add: history_ok_def empty_history_def partials_bounded_def last_full_def)

lemma reachable_ok:
  assumes "(history_step rg)\<^sup>*\<^sup>* empty_history h" and "freezes_dicts rg"
  shows "history_ok h \<and> partials_bounded (rg_max_partial_diffs rg) h"
  using assms(1)
  by (induction rule: rtranclp_induct) (auto simp: empty_ok intro: step_history_ok step_bounded assms(2))

section \<open>After a snapshot\<close>

text \<open>A snapshot can be read back. In any history that can arise, after a snapshot of an object
  was taken, the last snapshot, rebuilt from the last full one and the diffs since, holds in
  every field the value the object has (a missing field counting as None); excepted are the
  deprecated fields, and the attachments, of which changes of file names, urls and order
  are ignored.\<close>

lemma plain_roundtrip:
  assumes "(history_step rg)\<^sup>*\<^sup>* empty_history h" and "freezes_dicts rg"
    and "take_snapshot rg tn pk project comment user delete h = (Inr r, h')"
    and "h_rows h tn pk = Some ob" and "rg_freeze rg tn = Some f" and "plain tn (f ob)"
    and "k \<notin> get_excluded_fields tn" and "k \<noteq> ''attachments''"
  shows "\<exists>S. last_known rg tn pk h' = Inr (Some S) \<and> value_at (fo_snapshot S) k = value_at (f ob) k"
proof -
  have "history_ok h" using reachable_ok[OF assms(1,2)] by simp
  from known_after[OF this assms(3-6)] obtain S where S: "last_known rg tn pk h' = Inr (Some S)"
    "distinct (map fst (fo_snapshot S))"
    "make_diff (Some S) (Some \<lparr>fo_key = make_key tn pk, fo_snapshot = f ob\<rparr>) (get_excluded_fields tn) = Inr []" by blast
  have "distinct (map fst (f ob))" using assms(6) by (simp add: plain_def)
  then have "value_at (fo_snapshot S) k = value_at (f ob) k"
    using make_diff_spec(2)[OF S(3,2), of k] assms(7,8) by (simp split: if_splits)
  then show ?thesis using S(1) by blast
qed

text \<open>Taking a snapshot of an object that has not changed since the last one, without a comment,
  stores nothing.\<close>

lemma plain_twice:
  assumes "(history_step rg)\<^sup>*\<^sup>* empty_history h" and "freezes_dicts rg"
    and "take_snapshot rg tn pk project comment user delete h = (Inr r, h')"
    and "h_rows h tn pk = Some ob" and "rg_freeze rg tn = Some f" and "plain tn (f ob)"
  shows "take_snapshot rg tn pk project' [] user' False h' = (Inr None, h')"
proof -
  have h: "history_ok h" using reachable_ok[OF assms(1,2)] by simp
  from known_after[OF h assms(3-6)] obtain S where S: "last_known rg tn pk h' = Inr (Some S)"
    "make_diff (Some S) (Some \<lparr>fo_key = make_key tn pk, fo_snapshot = f ob\<rparr>) (get_excluded_fields tn) = Inr []" by blast
  obtain raw need where last: "get_last_snapshot_for_key (rg_max_partial_diffs rg) (make_key tn pk) h' = (raw, need)"
    by (cases "get_last_snapshot_for_key (rg_max_partial_diffs rg) (make_key tn pk) h'")
  have "h_rows h' tn pk = Some ob"
    using snapshot_adds[OF h assms(3,2)] assms(4) by (auto simp: with_entry_def)
  then have frozen: "freeze_model_instance rg tn pk h' = Inr (Some \<lparr>fo_key = make_key tn pk, fo_snapshot = f ob\<rparr>)"
    using assms(5) by (simp add: freeze_model_instance_def)
  have "migrate_old tn raw = Inr (Some S)" using S(1) by (simp add: last_known_def last)
  then show ?thesis
    by (simp add: take_snapshot_def atomicE_apply last frozen bindE_apply history_type_of_def S(2) retE_apply Let_def)
qed

text \<open>Reading a snapshot back is bounded: since the last full snapshot of an object there are never
  more entries to replay than the limit of the settings.\<close>

lemma partials_at_most:
  assumes "(history_step rg)\<^sup>*\<^sup>* empty_history h" and "freezes_dicts rg" and "last_full key h = Some e"
  shows "length (partials_since key (he_created_at e) h) \<le> rg_max_partial_diffs rg"
  using reachable_ok[OF assms(1,2)] assms(3) by (simp add: partials_bounded_def)

end
