(* ===== verification/History_Freeze.thy ===== *)
theory History_Freeze
  imports History_Props "HOL-Library.List_Lexorder" "HOL-Library.Char_ord"
begin

text \<open>
  The freezers of \<open>taiga/projects/history/freeze_impl.py\<close>, registered in \<open>history/services.py\<close>:
  one per type of object. A row holds the columns and related rows its freezer reads;
  a date or time of which the freezer takes the string is given as that string.
\<close>

section \<open>Values\<close>

definition json_int :: "int option \<Rightarrow> json" where
  "json_int i = (case i of None \<Rightarrow> JNull | Some n \<Rightarrow> JInt n)"

definition json_str :: "string option \<Rightarrow> json" where
  "json_str s = (case s of None \<Rightarrow> JNull | Some t \<Rightarrow> JStr t)"

definition json_strs :: "string list option \<Rightarrow> json" where
  "json_strs ss = (case ss of None \<Rightarrow> JNull | Some ts \<Rightarrow> JList (map JStr ts))"

definition json_ints :: "int list \<Rightarrow> json" where
  "json_ints is = JList (map JInt is)"

text \<open>Python's \<open>str\<close> of an optional date: for \<open>None\<close> it is the text None.\<close>

definition str_date :: "string option \<Rightarrow> json" where
  "str_date d = JStr (case d of None \<Rightarrow> ''None'' | Some s \<Rightarrow> s)"

definition json_obj :: "dict \<Rightarrow> json" where
  "json_obj kvs = JObj (sort_key fst kvs)"

section \<open>Attachments and custom attributes\<close>

record attachment_row =
  at_id :: int
  at_name :: string
  at_url :: string
  at_thumbnail_file :: "string option"
  at_is_deprecated :: bool
  at_description :: string
  at_order :: int

definition basename :: "string \<Rightarrow> string" where
  "basename s = rev (takeWhile (\<lambda>c. c \<noteq> CHR ''/'') (rev s))"

definition extract_attachments :: "attachment_row list \<Rightarrow> json" where
  "extract_attachments rows = JList (map (\<lambda>a. JObj [
     (''attached_file'', JStr (at_name a)),
     (''description'', JStr (at_description a)),
     (''filename'', JStr (basename (at_name a))),
     (''id'', JInt (at_id a)),
     (''is_deprecated'', JBool (at_is_deprecated a)),
     (''order'', JInt (at_order a)),
     (''thumbnail_file'', json_str (at_thumbnail_file a)),
     (''url'', JStr (at_url a))]) rows)"

text \<open>
  The custom attributes of the project, and the stored values of the object, if it has any; the
  four functions of the source differ in the type of object only.
\<close>

record custom_attribute =
  ca_id :: int
  ca_name :: string
  ca_type :: string

definition extract_custom_attributes :: "custom_attribute list \<Rightarrow> dict option \<Rightarrow> json" where
  "extract_custom_attributes attrs values = (case values of
      None \<Rightarrow> JList []
    | Some vs \<Rightarrow> JList (concat (map (\<lambda>a. case map_of vs (int_str (ca_id a)) of
          None \<Rightarrow> []
        | Some v \<Rightarrow> [JObj [(''id'', JInt (ca_id a)), (''name'', JStr (ca_name a)), (''type'', JStr (ca_type a)),
                         (''value'', v)]]) attrs)))"

section \<open>Objects\<close>

text \<open>What the types of objects with a discussion share.\<close>

record item_row =
  fz_project_id :: int
  fz_ref :: "int option"
  fz_owner_id :: "int option"
  fz_status_id :: "int option"
  fz_subject :: string
  fz_description :: string
  fz_assigned_to_id :: "int option"
  fz_attachments :: "attachment_row list"
  fz_tags :: "string list option"
  fz_is_blocked :: bool
  fz_blocked_note :: string
  fz_custom_attributes :: "custom_attribute list"
  fz_custom_attributes_values :: "dict option"

record epic_row = item_row +
  fz_color :: "string option"
  fz_epics_order :: int
  fz_epic_client_requirement :: bool
  fz_epic_team_requirement :: bool

record userstory_row = item_row +
  fz_swimlane_id :: "int option"
  fz_is_closed :: bool
  fz_finish_date :: "string option"
  fz_backlog_order :: int
  fz_sprint_order :: int
  fz_kanban_order :: int
  fz_assigned_users :: "int list"
  fz_us_milestone_id :: "int option"
  fz_client_requirement :: bool
  fz_team_requirement :: bool
  fz_role_points :: "(int \<times> int option) list"
  fz_generated_from_issue_id :: "int option"
  fz_generated_from_task_id :: "int option"
  fz_tribe_gig :: json
  fz_us_due_date :: "string option"

record issue_row = item_row +
  fz_priority_id :: "int option"
  fz_severity_id :: "int option"
  fz_type_id :: "int option"
  fz_issue_milestone_id :: "int option"
  fz_issue_due_date :: "string option"
  fz_issue_promoted_to :: "int list"

record task_row = item_row +
  fz_task_milestone_id :: "int option"
  fz_taskboard_order :: int
  fz_us_order :: int
  fz_user_story_id :: "int option"
  fz_is_iocaine :: bool
  fz_task_due_date :: "string option"
  fz_task_promoted_to :: "int list"

record related_userstory_row =
  fz_rel_user_story_id :: int
  fz_rel_epic_id :: int
  fz_rel_order :: int

record wikipage_row =
  fz_wiki_project_id :: int
  fz_wiki_slug :: string
  fz_wiki_owner_id :: "int option"
  fz_wiki_content :: string
  fz_wiki_attachments :: "attachment_row list"

record milestone_row =
  fz_ms_name :: string
  fz_ms_slug :: string
  fz_ms_owner_id :: "int option"
  fz_ms_estimated_start :: string
  fz_ms_estimated_finish :: string
  fz_ms_closed :: bool
  fz_ms_disponibility :: "int option"

record project_row =
  fz_pr_name :: string
  fz_pr_slug :: string
  fz_pr_owner_id :: "int option"
  fz_pr_is_private :: bool
  fz_pr_anon_permissions :: "string list option"
  fz_pr_public_permissions :: "string list option"
  fz_pr_total_milestones :: "int option"
  fz_pr_total_story_points :: "int option"
  fz_pr_tags :: "string list option"
  fz_pr_activated :: "(string \<times> bool) list"

text \<open>\<open>created_at\<close> of a project is no attribute of the model: \<open>getattr\<close> gives the default.\<close>

definition project_freezer :: "project_row \<Rightarrow> dict" where
  "project_freezer p = [
     (''name'', JStr (fz_pr_name p)),
     (''slug'', JStr (fz_pr_slug p)),
     (''created_at'', JNull),
     (''owner_id'', json_int (fz_pr_owner_id p)),
     (''is_private'', JBool (fz_pr_is_private p)),
     (''anon_permissions'', json_strs (fz_pr_anon_permissions p)),
     (''public_permissions'', json_strs (fz_pr_public_permissions p)),
     (''total_milestones'', json_int (fz_pr_total_milestones p)),
     (''total_story_points'', json_int (fz_pr_total_story_points p)),
     (''tags'', json_strs (fz_pr_tags p))]
     @ map (\<lambda>field. (field, case map_of (fz_pr_activated p) field of None \<Rightarrow> JNull | Some b \<Rightarrow> JBool b))
         [''is_epics_activated'', ''is_backlog_activated'', ''is_kanban_activated'',
          ''is_schedule_activated'', ''is_wiki_activated'', ''is_issues_activated'']"

definition milestone_freezer :: "milestone_row \<Rightarrow> dict" where
  "milestone_freezer m = [
     (''name'', JStr (fz_ms_name m)),
     (''slug'', JStr (fz_ms_slug m)),
     (''owner'', json_int (fz_ms_owner_id m)),
     (''estimated_start'', JDate (fz_ms_estimated_start m)),
     (''estimated_finish'', JDate (fz_ms_estimated_finish m)),
     (''closed'', JBool (fz_ms_closed m)),
     (''disponibility'', json_int (fz_ms_disponibility m))]"

definition epic_freezer :: "(int \<Rightarrow> string \<Rightarrow> string) \<Rightarrow> epic_row \<Rightarrow> dict" where
  "epic_freezer mdrender e = [
     (''ref'', json_int (fz_ref e)),
     (''color'', json_str (fz_color e)),
     (''owner'', json_int (fz_owner_id e)),
     (''status'', json_int (fz_status_id e)),
     (''epics_order'', JInt (fz_epics_order e)),
     (''subject'', JStr (fz_subject e)),
     (''description'', JStr (fz_description e)),
     (''description_html'', JStr (mdrender (fz_project_id e) (fz_description e))),
     (''assigned_to'', json_int (fz_assigned_to_id e)),
     (''client_requirement'', JBool (fz_epic_client_requirement e)),
     (''team_requirement'', JBool (fz_epic_team_requirement e)),
     (''attachments'', extract_attachments (fz_attachments e)),
     (''tags'', json_strs (fz_tags e)),
     (''is_blocked'', JBool (fz_is_blocked e)),
     (''blocked_note'', JStr (fz_blocked_note e)),
     (''blocked_note_html'', JStr (mdrender (fz_project_id e) (fz_blocked_note e))),
     (''custom_attributes'', extract_custom_attributes (fz_custom_attributes e) (fz_custom_attributes_values e))]"

definition epic_related_userstory_freezer :: "related_userstory_row \<Rightarrow> dict" where
  "epic_related_userstory_freezer r = [
     (''user_story'', JInt (fz_rel_user_story_id r)),
     (''epic'', JInt (fz_rel_epic_id r)),
     (''order'', JInt (fz_rel_order r))]"

definition frozen_points :: "(int \<times> int option) list \<Rightarrow> json" where
  "frozen_points rpqsd = json_obj (fold (\<lambda>(role, points). AList.update (int_str role) (json_int points)) rpqsd [])"

definition frozen_assigned_users :: "userstory_row \<Rightarrow> int list" where
  "frozen_assigned_users us = (case fz_assigned_to_id us of
      None \<Rightarrow> fz_assigned_users us
    | Some u \<Rightarrow> if u \<noteq> 0 \<and> fz_assigned_users us = [] then [u] else fz_assigned_users us)"

definition userstory_freezer :: "(int \<Rightarrow> string \<Rightarrow> string) \<Rightarrow> userstory_row \<Rightarrow> dict" where
  "userstory_freezer mdrender us = [
     (''ref'', json_int (fz_ref us)),
     (''owner'', json_int (fz_owner_id us)),
     (''status'', json_int (fz_status_id us)),
     (''swimlane'', json_int (fz_swimlane_id us)),
     (''is_closed'', JBool (fz_is_closed us)),
     (''finish_date'', str_date (fz_finish_date us)),
     (''backlog_order'', JInt (fz_backlog_order us)),
     (''sprint_order'', JInt (fz_sprint_order us)),
     (''kanban_order'', JInt (fz_kanban_order us)),
     (''subject'', JStr (fz_subject us)),
     (''description'', JStr (fz_description us)),
     (''description_html'', JStr (mdrender (fz_project_id us) (fz_description us))),
     (''assigned_to'', json_int (fz_assigned_to_id us)),
     (''assigned_users'', json_ints (frozen_assigned_users us)),
     (''milestone'', json_int (fz_us_milestone_id us)),
     (''client_requirement'', JBool (fz_client_requirement us)),
     (''team_requirement'', JBool (fz_team_requirement us)),
     (''attachments'', extract_attachments (fz_attachments us)),
     (''tags'', json_strs (fz_tags us)),
     (''points'', frozen_points (fz_role_points us)),
     (''from_issue'', json_int (fz_generated_from_issue_id us)),
     (''from_task'', json_int (fz_generated_from_task_id us)),
     (''is_blocked'', JBool (fz_is_blocked us)),
     (''blocked_note'', JStr (fz_blocked_note us)),
     (''blocked_note_html'', JStr (mdrender (fz_project_id us) (fz_blocked_note us))),
     (''custom_attributes'', extract_custom_attributes (fz_custom_attributes us) (fz_custom_attributes_values us)),
     (''tribe_gig'', fz_tribe_gig us),
     (''due_date'', json_str (fz_us_due_date us))]"

definition issue_freezer :: "(int \<Rightarrow> string \<Rightarrow> string) \<Rightarrow> issue_row \<Rightarrow> dict" where
  "issue_freezer mdrender i = [
     (''ref'', json_int (fz_ref i)),
     (''owner'', json_int (fz_owner_id i)),
     (''status'', json_int (fz_status_id i)),
     (''priority'', json_int (fz_priority_id i)),
     (''severity'', json_int (fz_severity_id i)),
     (''type'', json_int (fz_type_id i)),
     (''milestone'', json_int (fz_issue_milestone_id i)),
     (''subject'', JStr (fz_subject i)),
     (''description'', JStr (fz_description i)),
     (''description_html'', JStr (mdrender (fz_project_id i) (fz_description i))),
     (''assigned_to'', json_int (fz_assigned_to_id i)),
     (''attachments'', extract_attachments (fz_attachments i)),
     (''tags'', json_strs (fz_tags i)),
     (''is_blocked'', JBool (fz_is_blocked i)),
     (''blocked_note'', JStr (fz_blocked_note i)),
     (''blocked_note_html'', JStr (mdrender (fz_project_id i) (fz_blocked_note i))),
     (''custom_attributes'', extract_custom_attributes (fz_custom_attributes i) (fz_custom_attributes_values i)),
     (''due_date'', json_str (fz_issue_due_date i)),
     (''promoted_to'', json_ints (fz_issue_promoted_to i))]"

definition task_freezer :: "(int \<Rightarrow> string \<Rightarrow> string) \<Rightarrow> task_row \<Rightarrow> dict" where
  "task_freezer mdrender t = [
     (''ref'', json_int (fz_ref t)),
     (''owner'', json_int (fz_owner_id t)),
     (''status'', json_int (fz_status_id t)),
     (''milestone'', json_int (fz_task_milestone_id t)),
     (''subject'', JStr (fz_subject t)),
     (''description'', JStr (fz_description t)),
     (''description_html'', JStr (mdrender (fz_project_id t) (fz_description t))),
     (''assigned_to'', json_int (fz_assigned_to_id t)),
     (''attachments'', extract_attachments (fz_attachments t)),
     (''taskboard_order'', JInt (fz_taskboard_order t)),
     (''us_order'', JInt (fz_us_order t)),
     (''tags'', json_strs (fz_tags t)),
     (''user_story'', json_int (fz_user_story_id t)),
     (''is_iocaine'', JBool (fz_is_iocaine t)),
     (''is_blocked'', JBool (fz_is_blocked t)),
     (''blocked_note'', JStr (fz_blocked_note t)),
     (''blocked_note_html'', JStr (mdrender (fz_project_id t) (fz_blocked_note t))),
     (''custom_attributes'', extract_custom_attributes (fz_custom_attributes t) (fz_custom_attributes_values t)),
     (''due_date'', json_str (fz_task_due_date t)),
     (''promoted_to'', json_ints (fz_task_promoted_to t))]"

definition wikipage_freezer :: "(int \<Rightarrow> string \<Rightarrow> string) \<Rightarrow> wikipage_row \<Rightarrow> dict" where
  "wikipage_freezer mdrender w = [
     (''slug'', JStr (fz_wiki_slug w)),
     (''owner'', json_int (fz_wiki_owner_id w)),
     (''content'', JStr (fz_wiki_content w)),
     (''content_html'', JStr (mdrender (fz_wiki_project_id w) (fz_wiki_content w))),
     (''attachments'', extract_attachments (fz_wiki_attachments w))]"

section \<open>The registered freezers\<close>

datatype object_row =
    Project_Row project_row
  | Milestone_Row milestone_row
  | Epic_Row epic_row
  | Related_Userstory_Row related_userstory_row
  | Userstory_Row userstory_row
  | Issue_Row issue_row
  | Task_Row task_row
  | Wikipage_Row wikipage_row

fun typename_of :: "object_row \<Rightarrow> string" where
  "typename_of (Project_Row _) = ''projects.project''"
| "typename_of (Milestone_Row _) = ''milestones.milestone''"
| "typename_of (Epic_Row _) = ''epics.epic''"
| "typename_of (Related_Userstory_Row _) = ''epics.relateduserstory''"
| "typename_of (Userstory_Row _) = ''userstories.userstory''"
| "typename_of (Issue_Row _) = ''issues.issue''"
| "typename_of (Task_Row _) = ''tasks.task''"
| "typename_of (Wikipage_Row _) = ''wiki.wikipage''"

fun freeze_row :: "(int \<Rightarrow> string \<Rightarrow> string) \<Rightarrow> object_row \<Rightarrow> dict" where
  "freeze_row mdrender (Project_Row r) = project_freezer r"
| "freeze_row mdrender (Milestone_Row r) = milestone_freezer r"
| "freeze_row mdrender (Epic_Row r) = epic_freezer mdrender r"
| "freeze_row mdrender (Related_Userstory_Row r) = epic_related_userstory_freezer r"
| "freeze_row mdrender (Userstory_Row r) = userstory_freezer mdrender r"
| "freeze_row mdrender (Issue_Row r) = issue_freezer mdrender r"
| "freeze_row mdrender (Task_Row r) = task_freezer mdrender r"
| "freeze_row mdrender (Wikipage_Row r) = wikipage_freezer mdrender r"

text \<open>
  The registered function for a type is called on instances of that type only, so it is the
  freezer of the type on the rows it sees.
\<close>

definition freeze_impl_map :: "(int \<Rightarrow> string \<Rightarrow> string) \<Rightarrow> (string \<rightharpoonup> (object_row \<Rightarrow> dict))" where
  "freeze_impl_map mdrender typename =
     (if typename \<in> {''projects.project'', ''milestones.milestone'', ''epics.epic'', ''epics.relateduserstory'',
          ''userstories.userstory'', ''issues.issue'', ''tasks.task'', ''wiki.wikipage''}
      then Some (freeze_row mdrender) else None)"

end
