(* ===== verification/History_Values.thy ===== *)
theory History_Values
  imports History_Freeze
begin

text \<open>
  The names an entry keeps for the ids in its diff: the values functions of
  \<open>taiga/projects/history/freeze_impl.py\<close>, with the registration of both kinds of functions in
  \<open>history/services.py\<close>.
\<close>

text \<open>\<open>filter(pk__in=ids)\<close> of the ids that are not \<open>None\<close>; a string is converted.\<close>

fun pks :: "json list \<Rightarrow> int list res" where
  "pks [] = Inr []"
| "pks (x # xs) = (case pks xs of
      Inl e \<Rightarrow> Inl e
    | Inr is \<Rightarrow> (case x of
          JNull \<Rightarrow> Inr is
        | JInt i \<Rightarrow> Inr (i # is)
        | JBool b \<Rightarrow> Inr ((if b then 1 else 0) # is)
        | JStr s \<Rightarrow> (case parse_int s of None \<Rightarrow> Inl (ValueError ''expected a number'') | Some i \<Rightarrow> Inr (i # is))
        | JDate s \<Rightarrow> Inl TypeError
        | JList vs \<Rightarrow> Inl TypeError
        | JObj kvs \<Rightarrow> Inl TypeError))"

definition named :: "json list \<Rightarrow> (int \<times> string) list \<Rightarrow> json res" where
  "named ids rows = (case pks ids of
      Inl e \<Rightarrow> Inl e
    | Inr is \<Rightarrow> Inr (json_obj (map (\<lambda>(i, name). (int_str i, JStr name)) (filter (\<lambda>(i, _). i \<in> set is) rows))))"

definition get_generic_values :: "names \<Rightarrow> string \<Rightarrow> json list \<Rightarrow> json res" where
  "get_generic_values nm typename ids = named ids (nm_rows nm typename)"

definition get_users_values :: "names \<Rightarrow> json list \<Rightarrow> json res" where
  "get_users_values nm ids = named ids (nm_users nm)"

definition get_user_story_values :: "names \<Rightarrow> json list \<Rightarrow> json res" where
  "get_user_story_values nm ids = named ids (map (\<lambda>(i, ref, subject).
     (i, ''#'' @ (case ref of None \<Rightarrow> ''None'' | Some r \<Rightarrow> int_str r) @ '' '' @ subject)) (nm_stories nm))"

text \<open>The two sides of a field of a diff.\<close>

definition sides :: "diff \<Rightarrow> string \<Rightarrow> json list option" where
  "sides diff field = map_option (\<lambda>(v, w). [v, w]) (map_of diff field)"

text \<open>
  What \<open>update\<close> adds to a set for a side that holds ids; the side is iterated, and a string
  would give its characters, which no freezer stores here.
\<close>

definition elements :: "json \<Rightarrow> json list res" where
  "elements v = (case v of
      JList vs \<Rightarrow> Inr vs
    | JObj kvs \<Rightarrow> Inr (map (\<lambda>(k, _). JStr k) kvs)
    | JStr s \<Rightarrow> Inr (map (\<lambda>c. JStr [c]) s)
    | _ \<Rightarrow> Inl TypeError)"

definition is_json_int :: "json \<Rightarrow> bool" where
  "is_json_int v = (case v of JInt i \<Rightarrow> True | JBool b \<Rightarrow> True | _ \<Rightarrow> False)"

text \<open>
  A field of a diff is a pair, never an \<open>int\<close>: the branch of the source for the owner is never
  taken.
\<close>

definition common_users_values :: "names \<Rightarrow> diff \<Rightarrow> dict res" where
  "common_users_values nm diff =
     (let users = (case sides diff ''assigned_to'' of None \<Rightarrow> [] | Some vs \<Rightarrow> vs) in
      case (case sides diff ''assigned_users'' of
              None \<Rightarrow> Inr []
            | Some vs \<Rightarrow> fold (\<lambda>v acc. case acc of Inl e \<Rightarrow> Inl e | Inr us \<Rightarrow>
                  if json_truth v then map_sum id (\<lambda>ws. us @ ws) (elements v) else Inr us) vs (Inr [])) of
        Inl e \<Rightarrow> Inl e
      | Inr assigned \<Rightarrow>
          (let users = users @ assigned in
           if users = [] then Inr [(''users'', JObj [])]
           else map_sum id (\<lambda>v. [(''users'', v)]) (get_users_values nm (filter is_json_int users))))"

text \<open>\<open>if field in diff: values[field] = ...\<close>\<close>

definition resolve_field :: "string \<Rightarrow> (json list \<Rightarrow> json res) \<Rightarrow> diff \<Rightarrow> dict res \<Rightarrow> dict res" where
  "resolve_field field get diff values = (case values of
      Inl e \<Rightarrow> Inl e
    | Inr d \<Rightarrow> (case sides diff field of
          None \<Rightarrow> Inr d
        | Some ids \<Rightarrow> map_sum id (\<lambda>v. d @ [(field, v)]) (get ids)))"

definition project_values :: "names \<Rightarrow> diff \<Rightarrow> dict res" where
  "project_values nm diff = common_users_values nm diff"

definition milestone_values :: "names \<Rightarrow> diff \<Rightarrow> dict res" where
  "milestone_values nm diff = common_users_values nm diff"

definition epic_values :: "names \<Rightarrow> diff \<Rightarrow> dict res" where
  "epic_values nm diff = resolve_field ''status'' (get_generic_values nm ''projects.epicstatus'') diff
     (common_users_values nm diff)"

definition epic_related_userstory_values :: "names \<Rightarrow> diff \<Rightarrow> dict res" where
  "epic_related_userstory_values nm diff = common_users_values nm diff"

text \<open>The points of a story are a dict from roles to points on either side.\<close>

fun points_and_roles :: "json list \<Rightarrow> (json list \<times> json list) res" where
  "points_and_roles [] = Inr ([], [])"
| "points_and_roles (v # vs) = (case points_and_roles vs of
      Inl e \<Rightarrow> Inl e
    | Inr (points, roles) \<Rightarrow> (case v of
          JNull \<Rightarrow> Inr (points, roles)
        | JObj kvs \<Rightarrow> Inr (map snd kvs @ points, map (\<lambda>(k, _). JStr k) kvs @ roles)
        | _ \<Rightarrow> Inl (AttributeError ''items'')))"

definition resolve_points :: "names \<Rightarrow> diff \<Rightarrow> dict res \<Rightarrow> dict res" where
  "resolve_points nm diff values = (case values of
      Inl e \<Rightarrow> Inl e
    | Inr d \<Rightarrow> (case sides diff ''points'' of
          None \<Rightarrow> Inr d
        | Some vs \<Rightarrow> (case points_and_roles vs of
              Inl e \<Rightarrow> Inl e
            | Inr (points, roles) \<Rightarrow> (case get_generic_values nm ''users.role'' roles of
                  Inl e \<Rightarrow> Inl e
                | Inr r \<Rightarrow> map_sum id (\<lambda>p. d @ [(''roles'', r), (''points'', p)])
                    (get_generic_values nm ''projects.points'' points)))))"

definition userstory_values :: "names \<Rightarrow> diff \<Rightarrow> dict res" where
  "userstory_values nm diff = resolve_points nm diff
     (resolve_field ''milestone'' (get_generic_values nm ''milestones.milestone'') diff
     (resolve_field ''swimlane'' (get_generic_values nm ''projects.swimlane'') diff
     (resolve_field ''status'' (get_generic_values nm ''projects.userstorystatus'') diff
     (common_users_values nm diff))))"

definition issue_values :: "names \<Rightarrow> diff \<Rightarrow> dict res" where
  "issue_values nm diff =
     resolve_field ''type'' (get_generic_values nm ''projects.issuetype'') diff
     (resolve_field ''severity'' (get_generic_values nm ''projects.severity'') diff
     (resolve_field ''priority'' (get_generic_values nm ''projects.priority'') diff
     (resolve_field ''milestone'' (get_generic_values nm ''milestones.milestone'') diff
     (resolve_field ''status'' (get_generic_values nm ''projects.issuestatus'') diff
     (common_users_values nm diff)))))"

definition task_values :: "names \<Rightarrow> diff \<Rightarrow> dict res" where
  "task_values nm diff =
     resolve_field ''user_story'' (get_user_story_values nm) diff
     (resolve_field ''milestone'' (get_generic_values nm ''milestones.milestone'') diff
     (resolve_field ''status'' (get_generic_values nm ''projects.taskstatus'') diff
     (common_users_values nm diff)))"

definition wikipage_values :: "names \<Rightarrow> diff \<Rightarrow> dict res" where
  "wikipage_values nm diff = common_users_values nm diff"

section \<open>The registry\<close>

definition values_impl_map :: "string \<rightharpoonup> (names \<Rightarrow> diff \<Rightarrow> dict res)" where
  "values_impl_map = [
     ''projects.project'' \<mapsto> project_values,
     ''milestones.milestone'' \<mapsto> milestone_values,
     ''epics.epic'' \<mapsto> epic_values,
     ''epics.relateduserstory'' \<mapsto> epic_related_userstory_values,
     ''userstories.userstory'' \<mapsto> userstory_values,
     ''issues.issue'' \<mapsto> issue_values,
     ''tasks.task'' \<mapsto> task_values,
     ''wiki.wikipage'' \<mapsto> wikipage_values]"

text \<open>\<open>max_partial_diffs\<close> is the setting \<open>MAX_PARTIAL_DIFFS\<close>, 60 unless set.\<close>

definition history_registry :: "(int \<Rightarrow> string \<Rightarrow> string) \<Rightarrow> nat \<Rightarrow> object_row registry" where
  "history_registry mdrender max_partial_diffs =
     \<lparr>rg_freeze = freeze_impl_map mdrender, rg_values = values_impl_map, rg_mdrender = mdrender,
      rg_max_partial_diffs = max_partial_diffs\<rparr>"

end
