(* ===== verification/History_Objects.thy ===== *)
theory History_Objects
  imports History_Values
begin

text \<open>
  The history of the registered types: their freezers give dicts that are stored as they are,
  milestones excepted, so a snapshot of such an object can be read back and is not repeated.
\<close>

section \<open>What the freezers give\<close>

lemma encode_json [simp]:
  "encode (json_int i) = json_int i" "encode (json_str s) = json_str s" "encode (json_strs ss) = json_strs ss"
  "encode (json_ints is) = json_ints is" "encode (str_date d) = str_date d"
  by (simp_all add: json_int_def json_str_def json_strs_def json_ints_def str_date_def comp_def split: option.split)

lemma encode_attachments [simp]: "encode (extract_attachments rows) = extract_attachments rows"
  by (simp add: extract_attachments_def comp_def)

lemma encode_obj: "list_all (\<lambda>(_, v). encode v = v) kvs \<Longrightarrow> encode (JObj kvs) = JObj kvs"
  by (auto simp: list_all_iff intro!: map_idI)

lemma encode_points [simp]: "encode (frozen_points ps) = frozen_points ps"
proof -
  have upd: "list_all (\<lambda>(_, v). encode v = v) (AList.update k v d)"
    if "encode v = v" "list_all (\<lambda>(_, v). encode v = v) d" for k :: string and v d
    using that by (induction d) auto
  have "list_all (\<lambda>(_, v). encode v = v) (fold (\<lambda>(role, points). AList.update (int_str role) (json_int points)) ps d)"
    if "list_all (\<lambda>(_, v). encode v = v) d" for d
    using that
  proof (induction ps arbitrary: d)
    case (Cons x ps)
    obtain a b where "x = (a, b)" by (cases x)
    then show ?case using Cons.IH[OF upd[OF encode_json(1) Cons.prems]] by simp
  qed simp
  from this[of "[]"] show ?thesis
    unfolding frozen_points_def json_obj_def by (intro encode_obj) (simp add: list_all_iff)
qed

lemma encode_custom_attributes:
  assumes "list_all (\<lambda>(_, v). encode v = v) (case vs of None \<Rightarrow> [] | Some d \<Rightarrow> d)"
  shows "encode (extract_custom_attributes attrs vs) = extract_custom_attributes attrs vs"
proof (cases vs)
  case (Some d)
  have "encode v = v" if "map_of d k = Some v" for k v
    using assms that Some by (auto simp: list_all_iff dest: map_of_SomeD)
  then show ?thesis
    by (auto simp: extract_custom_attributes_def Some intro!: map_idI split: option.splits)
qed (simp add: extract_custom_attributes_def)

text \<open>The columns that hold JSON hold what was read from the database.\<close>

definition stored_values :: "('a item_row_scheme) \<Rightarrow> bool" where
  "stored_values r \<longleftrightarrow> list_all (\<lambda>(_, v). encode v = v)
     (case fz_custom_attributes_values r of None \<Rightarrow> [] | Some d \<Rightarrow> d)"

fun stored_row :: "object_row \<Rightarrow> bool" where
  "stored_row (Epic_Row r) = stored_values r"
| "stored_row (Userstory_Row r) = (stored_values r \<and> encode (fz_tribe_gig r) = fz_tribe_gig r)"
| "stored_row (Issue_Row r) = stored_values r"
| "stored_row (Task_Row r) = stored_values r"
| "stored_row _ = True"

fun is_milestone_row :: "object_row \<Rightarrow> bool" where
  "is_milestone_row (Milestone_Row _) = True"
| "is_milestone_row _ = False"

lemma attachments_of_freezer: "map_of d ''attachments'' = Some (extract_attachments rows) \<Longrightarrow> attachments_ok d"
  by (simp add: attachments_ok_def extract_attachments_def list_all_iff)

lemma no_attachments: "map_of d ''attachments'' = None \<Longrightarrow> attachments_ok d"
  by (simp add: attachments_ok_def)

lemmas freezers = epic_freezer_def epic_related_userstory_freezer_def userstory_freezer_def issue_freezer_def
  task_freezer_def wikipage_freezer_def milestone_freezer_def project_freezer_def

lemma frozen_distinct: "distinct (map fst (freeze_row mdrender row))"
  by (cases row) (simp_all add: freezers)

lemma frozen_plain:
  assumes "stored_row row" and "\<not> is_milestone_row row"
  shows "plain (typename_of row) (freeze_row mdrender row)"
  unfolding plain_def
proof (intro conjI impI)
  show "distinct (map fst (freeze_row mdrender row))" by (rule frozen_distinct)
  show "list_all (\<lambda>(_, v). encode v = v) (freeze_row mdrender row)"
    using assms by (cases row) (simp_all add: freezers encode_custom_attributes stored_values_def split: option.split)
  show "attachments_ok (freeze_row mdrender row)"
  proof (cases row)
    case (Epic_Row r)
    then show ?thesis by (intro attachments_of_freezer[of _ "fz_attachments r"]) (simp add: epic_freezer_def)
  next
    case (Userstory_Row r)
    then show ?thesis by (intro attachments_of_freezer[of _ "fz_attachments r"]) (simp add: userstory_freezer_def)
  next
    case (Issue_Row r)
    then show ?thesis by (intro attachments_of_freezer[of _ "fz_attachments r"]) (simp add: issue_freezer_def)
  next
    case (Task_Row r)
    then show ?thesis by (intro attachments_of_freezer[of _ "fz_attachments r"]) (simp add: task_freezer_def)
  next
    case (Wikipage_Row r)
    then show ?thesis by (intro attachments_of_freezer[of _ "fz_wiki_attachments r"]) (simp add: wikipage_freezer_def)
  qed (use assms(2) in \<open>simp_all add: freezers no_attachments\<close>)
  assume "typename_of row = ''userstories.userstory''"
  then show "''assigned_users'' \<in> fst ` set (freeze_row mdrender row)"
    by (cases row) (simp_all add: userstory_freezer_def)
qed

lemma registered: "rg_freeze (history_registry mdrender m) (typename_of row) = Some (freeze_row mdrender)"
  by (cases row) (simp_all add: history_registry_def freeze_impl_map_def)

lemma registry_dicts: "freezes_dicts (history_registry mdrender m)"
  unfolding freezes_dicts_def
proof (intro allI impI)
  fix tn f ob assume "rg_freeze (history_registry mdrender m) tn = Some f"
  then have "f = freeze_row mdrender" by (simp add: history_registry_def freeze_impl_map_def split: if_splits)
  then show "distinct (map fst (f ob))" by (simp only: frozen_distinct)
qed

section \<open>Everything stored is in its JSON form\<close>

lemma encode_encode [simp]: "encode (encode v) = encode v"
  by (induction v rule: encode.induct) auto

definition encoded_values :: "dict \<Rightarrow> bool" where
  "encoded_values d \<longleftrightarrow> list_all (\<lambda>(_, v). encode v = v) d"

definition history_encoded :: "'o hist \<Rightarrow> bool" where
  "history_encoded h \<longleftrightarrow> (\<forall>e \<in> set (h_entries h). encoded_values (map (\<lambda>(k, _, w). (k, w)) (he_diff e))
     \<and> encoded_values (base_of e))"

lemma encoded_update: "encode v = v \<Longrightarrow> encoded_values d \<Longrightarrow> encoded_values (AList.update k v d)"
  by (induction d) (auto simp: encoded_values_def)

lemma encoded_apply:
  "encoded_values (map (\<lambda>(k, _, w). (k, w)) D) \<Longrightarrow> encoded_values d \<Longrightarrow>
     encoded_values (fold (\<lambda>(key, _, v). AList.update key v) D d)"
proof (induction D arbitrary: d)
  case (Cons x D)
  obtain a v w where x: "x = (a, v, w)" by (cases x)
  then have "encode w = w" "encoded_values (map (\<lambda>(k, _, w). (k, w)) D)"
    using Cons.prems(1) by (simp_all add: encoded_values_def)
  then show ?case using Cons.IH[OF _ encoded_update[OF _ Cons.prems(2)]] by (simp add: x)
qed simp

lemma encoded_rebuild:
  "\<forall>e \<in> set es. encoded_values (map (\<lambda>(k, _, w). (k, w)) (he_diff e)) \<Longrightarrow> encoded_values d \<Longrightarrow>
     encoded_values (rebuild_snapshot_from_diffs d es)"
  unfolding rebuild_snapshot_from_diffs_def by (induction es arbitrary: d) (auto simp: encoded_apply)

lemma step_encoded:
  assumes "history_step rg h h'" and "history_encoded h"
  shows "history_encoded h'"
  using assms(1)
proof cases
  case (snapshot tn pk project comment user delete)
  obtain r where run: "take_snapshot rg tn pk project comment user delete h = (r, h')"
    using snapshot by (cases "take_snapshot rg tn pk project comment user delete h") auto
  show ?thesis
  proof (cases r)
    case (Inl e)
    then show ?thesis using failed_snapshot run assms(2) by fast
  next
    case (Inr x)
    obtain ob f where ob: "h_rows h tn pk = Some ob" "rg_freeze rg tn = Some f"
      using snapshot_needs_row[OF run[unfolded Inr]] by blast
    show ?thesis
    proof (rule take_snapshot_cases[OF run[unfolded Inr] ob])
      fix raw need old D
      assume "snapshot_result (make_key tn pk) (f ob) need old D comment delete h x h'"
      then show ?thesis
      proof (cases rule: snapshot_resultE)
        case (added e)
        have "encoded_values (map (\<lambda>(k, _, w). (k, w)) (he_diff e))" "encoded_values (base_of e)"
          using added(6,8) by (auto simp: encoded_values_def encode_diff_def encode_dict_def base_of_def list_all_iff)
        then show ?thesis using assms(2) added(2) by (simp add: history_encoded_def with_entry_def)
      qed (use assms(2) in simp)
    qed
  qed
next
  case (annotate f)
  then show ?thesis using assms(2) by (auto simp: history_encoded_def annotated_def same_record_def base_of_def)
qed (use assms(2) in \<open>simp_all add: history_encoded_def\<close>)

lemma reachable_encoded: "(history_step rg)\<^sup>*\<^sup>* empty_history h \<Longrightarrow> history_encoded h"
proof (induction rule: rtranclp_induct)
  case base
  show ?case by (simp add: history_encoded_def empty_history_def)
next
  case (step h h')
  then show ?case using step_encoded by blast
qed

lemma last_encoded:
  assumes ok: "history_ok h" and enc: "history_encoded h" and last: "get_last_snapshot_for_key m key h = (Some ob, need)"
  shows "encode (value_at (fo_snapshot ob) k) = value_at (fo_snapshot ob) k"
proof -
  obtain e where e: "last_full key h = Some e"
    "fo_snapshot ob = rebuild_snapshot_from_diffs (base_of e) (partials_since key (he_created_at e) h)"
    using last by (auto simp: get_last_eq split: option.splits)
  have base: "encoded_values (base_of e)" using last_full_mem[OF ok e(1)] enc by (simp add: history_encoded_def)
  have "\<forall>x \<in> set (partials_since key (he_created_at e) h). encoded_values (map (\<lambda>(k, _, w). (k, w)) (he_diff x))"
    using enc by (simp add: partials_eq[OF ok] history_encoded_def)
  from encoded_rebuild[OF this base] have "encoded_values (fo_snapshot ob)" unfolding e(2) .
  then show ?thesis by (auto simp: encoded_values_def value_at_def list_all_iff dest: map_of_SomeD split: option.split)
qed

text \<open>
  The two dates of a milestone are never equal to the strings they are stored as, so every
  snapshot of a milestone stores an entry, with the dates as its diff.
\<close>

theorem milestone_dates_always_differ:
  assumes reach: "(history_step (history_registry mdrender m))\<^sup>*\<^sup>* empty_history h"
    and run: "take_snapshot (history_registry mdrender m) ''milestones.milestone'' pk project comment user delete h
      = (Inr r, h')"
    and row: "h_rows h ''milestones.milestone'' pk = Some (Milestone_Row ms)"
    and known: "last_known (history_registry mdrender m) ''milestones.milestone'' pk h = Inr (Some S)"
  shows "\<exists>e v. r = Some e \<and> map_of (he_diff e) ''estimated_start'' = Some (v, JStr (fz_ms_estimated_start ms))"
proof -
  let ?rg = "history_registry mdrender m"
  let ?new = "\<lparr>fo_key = make_key ''milestones.milestone'' pk, fo_snapshot = freeze_row mdrender (Milestone_Row ms)\<rparr>"
  have f: "rg_freeze ?rg ''milestones.milestone'' = Some (freeze_row mdrender)"
    using registered[of mdrender m "Milestone_Row ms"] by simp
  have ok: "history_ok h" using reachable_ok[OF reach registry_dicts] by simp
  show ?thesis
  proof (rule take_snapshot_cases[OF run row f])
    fix raw need old D
    assume last: "get_last_snapshot_for_key (rg_max_partial_diffs ?rg) (make_key ''milestones.milestone'' pk) h = (raw, need)"
      and old: "last_known ?rg ''milestones.milestone'' pk h = Inr old"
      and D: "make_diff old (Some ?new) (get_excluded_fields ''milestones.milestone'') = Inr D"
      and res: "snapshot_result (make_key ''milestones.milestone'' pk) (freeze_row mdrender (Milestone_Row ms)) need old D comment delete h r h'"
    have o: "old = Some S" using old known by simp
    have raw: "raw = Some S" using known
      by (cases raw) (auto simp: last_known_def last migrate_old_def migrate_to_last_version_def)
    have enc: "encode (value_at (fo_snapshot S) k) = value_at (fo_snapshot S) k" for k
      by (rule last_encoded[OF ok reachable_encoded[OF reach] last[unfolded raw]])
    have new: "value_at (fo_snapshot ?new) ''estimated_start'' = JDate (fz_ms_estimated_start ms)"
      by (simp add: value_at_def milestone_freezer_def)
    have "value_at (fo_snapshot S) ''estimated_start'' \<noteq> JDate (fz_ms_estimated_start ms)"
      using enc[of "''estimated_start''"] by force
    then have D': "map_of D ''estimated_start'' = Some (value_at (fo_snapshot S) ''estimated_start'', JDate (fz_ms_estimated_start ms))"
      using make_diff_spec(2)[OF D[unfolded o], of "''estimated_start''"] last_distinct(1)[OF ok last[unfolded raw]]
        frozen_distinct[of mdrender "Milestone_Row ms"] new
      by (simp add: get_excluded_fields_def)
    from res show ?thesis
    proof (cases rule: snapshot_resultE)
      case unchanged
      then show ?thesis using D' by simp
    next
      case (added e)
      then show ?thesis using D' by (simp add: lookup_stored_diff)
    qed
  qed
qed

section \<open>An example\<close>

definition demo_registry :: "object_row registry" where
  "demo_registry = history_registry (\<lambda>_ s. s) 60"

definition demo_page :: object_row where
  "demo_page = Wikipage_Row \<lparr>fz_wiki_project_id = 1, fz_wiki_slug = ''home'', fz_wiki_owner_id = Some 7,
     fz_wiki_content = ''text'', fz_wiki_attachments = []\<rparr>"

definition demo_rows :: "object_row \<Rightarrow> object_row hist" where
  "demo_rows row = empty_history\<lparr>h_rows := (\<lambda>tn pk. if tn = typename_of row \<and> pk = 3 then Some row else None),
     h_names := no_names\<rparr>"

definition demo_taken :: "object_row \<Rightarrow> object_row hist" where
  "demo_taken row = snd (take_snapshot demo_registry (typename_of row) 3 1 [] (Some 7, ''Ann'') False (demo_rows row))"

lemma demo_reachable:
  "(history_step demo_registry)\<^sup>*\<^sup>* empty_history (demo_rows row)"
  "(history_step demo_registry)\<^sup>*\<^sup>* empty_history (demo_taken row)"
proof -
  have "history_step demo_registry empty_history (demo_rows row)" unfolding demo_rows_def by (rule history_step.change)
  then show 1: "(history_step demo_registry)\<^sup>*\<^sup>* empty_history (demo_rows row)" ..
  have "history_step demo_registry (demo_rows row) (demo_taken row)" unfolding demo_taken_def by (rule history_step.snapshot)
  then show "(history_step demo_registry)\<^sup>*\<^sup>* empty_history (demo_taken row)" using 1 by (rule rtranclp.rtrancl_into_rtrancl[rotated])
qed

lemma values_of_nothing: "make_diff_values (history_registry mdrender m) (typename_of row) [] h = Inr [(''users'', JObj [])]"
  by (cases row) (simp_all add: make_diff_values_def history_registry_def values_impl_map_def project_values_def
      milestone_values_def epic_values_def epic_related_userstory_values_def userstory_values_def issue_values_def
      task_values_def wikipage_values_def common_users_values_def resolve_field_def resolve_points_def sides_def)

lemma demo_run: "\<exists>e. take_snapshot demo_registry (typename_of row) 3 1 [] (Some 7, ''Ann'') False (demo_rows row)
    = (Inr (Some e), demo_taken row) \<and> last_full (make_key (typename_of row) 3) (demo_taken row) = Some e
    \<and> he_diff e = [] \<and> he_created_at e = 0 \<and> he_snapshot e = Some (encode_dict (freeze_row (\<lambda>_ s. s) row))"
proof -
  have f: "freeze_model_instance demo_registry (typename_of row) 3 (demo_rows row)
    = Inr (Some \<lparr>fo_key = make_key (typename_of row) 3, fo_snapshot = freeze_row (\<lambda>_ s. s) row\<rparr>)"
    by (simp add: freeze_model_instance_def demo_rows_def demo_registry_def registered)
  have l: "get_last_snapshot_for_key n key (demo_rows row) = (None, True)" for n key
    by (simp add: get_last_snapshot_for_key_def last_full_def demo_rows_def empty_history_def)
  have v: "make_diff_values demo_registry (typename_of row) [] h = Inr [(''users'', JObj [])]" for h
    unfolding demo_registry_def by (rule values_of_nothing)
  have n: "h_now (demo_rows row) = 0" "h_entries (demo_rows row) = []" by (simp_all add: demo_rows_def empty_history_def)
  show ?thesis
    unfolding demo_taken_def take_snapshot_def
    by (simp add: atomicE_apply bindE_apply l f migrate_old_def history_type_of_def make_diff_def Let_def v
        is_hidden_snapshot_def rsplit_make_key create_entry_def n encode_diff_def last_full_def split: option.split)
qed

section \<open>Properties\<close>

text \<open>C9: A snapshot can be read back. In any history that can arise, after a snapshot of a stored object
  other than a milestone, the last known state of the object, rebuilt from the last full snapshot and
  the diffs since, holds in every field the value the object has (a missing field counting as None);
  excepted are the deprecated fields, and the attachments, of which changes of file names, urls
  and order are ignored.\<close>

theorem snapshot_roundtrip:
  assumes "(history_step (history_registry mdrender m))\<^sup>*\<^sup>* empty_history h"
    and "take_snapshot (history_registry mdrender m) (typename_of row) pk project comment user delete h
      = (Inr r, h')"
    and "h_rows h (typename_of row) pk = Some row" and "stored_row row" and "\<not> is_milestone_row row"
    and "k \<notin> get_excluded_fields (typename_of row)" and "k \<noteq> ''attachments''"
  shows "\<exists>S. last_known (history_registry mdrender m) (typename_of row) pk h' = Inr (Some S)
    \<and> value_at (fo_snapshot S) k = value_at (freeze_row mdrender row) k"
  by (rule plain_roundtrip[OF assms(1) registry_dicts assms(2,3) registered frozen_plain[OF assms(4,5)] assms(6,7)])

theorem snapshot_roundtrip_witness:
  "\<exists>S. last_known demo_registry ''wiki.wikipage'' 3 (demo_taken demo_page) = Inr (Some S)
     \<and> value_at (fo_snapshot S) ''content'' = JStr ''text''"
proof -
  have t: "typename_of demo_page = ''wiki.wikipage''" by (simp add: demo_page_def)
  obtain e where e: "take_snapshot demo_registry ''wiki.wikipage'' 3 1 [] (Some 7, ''Ann'') False (demo_rows demo_page)
      = (Inr (Some e), demo_taken demo_page)" using demo_run[of demo_page] unfolding t by blast
  have "\<exists>S. last_known demo_registry (typename_of demo_page) 3 (demo_taken demo_page) = Inr (Some S)
     \<and> value_at (fo_snapshot S) ''content'' = value_at (freeze_row (\<lambda>_ s. s) demo_page) ''content''"
    unfolding demo_registry_def
    by (rule snapshot_roundtrip[OF demo_reachable(1)[unfolded demo_registry_def]
          e[folded t, unfolded demo_registry_def]])
      (simp_all add: demo_rows_def demo_page_def get_excluded_fields_def)
  then show ?thesis unfolding t by (simp add: demo_page_def wikipage_freezer_def value_at_def)
qed

text \<open>Taking a snapshot of a stored object other than a milestone that has not changed since the last
  one, without a comment, stores nothing.\<close>

theorem second_snapshot_stores_nothing:
  assumes "(history_step (history_registry mdrender m))\<^sup>*\<^sup>* empty_history h"
    and "take_snapshot (history_registry mdrender m) (typename_of row) pk project comment user delete h
      = (Inr r, h')"
    and "h_rows h (typename_of row) pk = Some row" and "stored_row row" and "\<not> is_milestone_row row"
  shows "take_snapshot (history_registry mdrender m) (typename_of row) pk project' [] user' False h'
    = (Inr None, h')"
  by (rule plain_twice[OF assms(1) registry_dicts assms(2,3) registered frozen_plain[OF assms(4,5)]])

theorem second_snapshot_stores_nothing_witness:
  "take_snapshot demo_registry ''wiki.wikipage'' 3 1 [] (None, []) False (demo_taken demo_page) = (Inr None, demo_taken demo_page)"
proof -
  have t: "typename_of demo_page = ''wiki.wikipage''" by (simp add: demo_page_def)
  obtain e where e: "take_snapshot demo_registry ''wiki.wikipage'' 3 1 [] (Some 7, ''Ann'') False (demo_rows demo_page)
      = (Inr (Some e), demo_taken demo_page)" using demo_run[of demo_page] unfolding t by blast
  show ?thesis unfolding demo_registry_def t[symmetric]
    by (rule second_snapshot_stores_nothing[OF demo_reachable(1)[unfolded demo_registry_def]
          e[folded t, unfolded demo_registry_def]])
      (simp_all add: demo_rows_def demo_page_def)
qed

text \<open>C11: What an entry records. When a snapshot of a stored object adds an entry, that is all it
  changes; the entry is a deletion, creation or change as asked and as the object was unknown or known;
  its diff has exactly the fields (but for the deprecated ones; attachments are compared apart) whose
  value differs from the last known state, each with the old and the new value; and it is hidden exactly
  when there is no comment and only order fields changed.\<close>

theorem history_entry_correct:
  assumes "(history_step (history_registry mdrender m))\<^sup>*\<^sup>* empty_history h"
    and "take_snapshot (history_registry mdrender m) (typename_of row) pk project comment user delete h
      = (Inr (Some e), h')"
    and "h_rows h (typename_of row) pk = Some row"
    and "last_known (history_registry mdrender m) (typename_of row) pk h = Inr old"
  shows "h' = with_entry e h \<and> he_key e = make_key (typename_of row) pk \<and> he_comment e = comment
    \<and> he_type e = (if delete then Delete else if old = None then Create else Change)
    \<and> (case old of None \<Rightarrow> he_diff e = []
       | Some S \<Rightarrow> \<forall>k \<in> - {''attachments''}. map_of (he_diff e) k =
           (if k \<in> get_excluded_fields (typename_of row)
               \<or> value_at (fo_snapshot S) k = value_at (freeze_row mdrender row) k then None
            else Some (encode (value_at (fo_snapshot S) k), encode (value_at (freeze_row mdrender row) k))))
    \<and> he_is_hidden e = (comment = [] \<and> he_diff e \<noteq> []
         \<and> (case not_important_fields (typename_of row) of None \<Rightarrow> False | Some nfields \<Rightarrow> fst ` set (he_diff e) \<subseteq> nfields))"
proof (rule take_snapshot_cases[OF assms(2,3) registered])
  let ?rg = "history_registry mdrender m" and ?key = "make_key (typename_of row) pk"
  fix raw need old' D
  assume last: "get_last_snapshot_for_key (rg_max_partial_diffs ?rg) ?key h = (raw, need)"
    and known: "last_known ?rg (typename_of row) pk h = Inr old'"
    and D: "make_diff old' (Some \<lparr>fo_key = ?key, fo_snapshot = freeze_row mdrender row\<rparr>) (get_excluded_fields (typename_of row)) = Inr D"
    and res: "snapshot_result ?key (freeze_row mdrender row) need old' D comment delete h (Some e) h'"
  have old: "old' = old" using known assms(4) by simp
  from res obtain e' where e: "e' = e" "h' = with_entry e' h" "he_key e' = ?key" "he_diff e' = encode_diff D"
    "he_type e' = (if delete then Delete else if old = None then Create else Change)" "he_comment e' = comment"
    "if comment \<noteq> [] then \<not> he_is_hidden e' else is_hidden_snapshot ?key D = Inr (he_is_hidden e')"
    unfolding snapshot_result_def old by blast
  have ok: "history_ok h" using reachable_ok[OF assms(1) registry_dicts] by simp
  have diff: "case old of None \<Rightarrow> he_diff e = []
       | Some S \<Rightarrow> \<forall>k \<in> - {''attachments''}. map_of (he_diff e) k =
           (if k \<in> get_excluded_fields (typename_of row)
               \<or> value_at (fo_snapshot S) k = value_at (freeze_row mdrender row) k then None
            else Some (encode (value_at (fo_snapshot S) k), encode (value_at (freeze_row mdrender row) k)))"
  proof (cases old)
    case None
    then show ?thesis using D old e(1,4) by (simp add: make_diff_def encode_diff_def)
  next
    case (Some S)
    then obtain raw1 where raw1: "raw = Some raw1" "migrate_to_last_version (typename_of row) raw1 = Inr S"
      using assms(4) by (cases raw; cases "migrate_to_last_version (typename_of row) (the raw)") (auto simp: last_known_def last migrate_old_def)
    then have "distinct (map fst (fo_snapshot S))"
      using last_distinct(1)[OF ok last[unfolded raw1(1)]] migrated_fields(2) by blast
    then show ?thesis
      using make_diff_spec(2)[OF D[unfolded old Some]] frozen_distinct e(1,4)
      by (simp add: Some lookup_stored_diff)
  qed
  have "fst ` set (he_diff e) = fst ` set D" using e(1,4) by (metis keys_stored_diff list.set_map)
  then have hidden: "he_is_hidden e = (comment = [] \<and> he_diff e \<noteq> []
         \<and> (case not_important_fields (typename_of row) of None \<Rightarrow> False | Some nfields \<Rightarrow> fst ` set (he_diff e) \<subseteq> nfields))"
    using e(1,4,7) by (auto simp: is_hidden_snapshot_def rsplit_make_key encode_diff_def split: if_splits option.splits)
  show ?thesis
    using e(1-3,5,6) diff hidden by blast
qed

theorem history_entry_correct_witness:
  "\<exists>e. he_type e = Create \<and> he_diff e = [] \<and> \<not> he_is_hidden e \<and> demo_taken demo_page = with_entry e (demo_rows demo_page)"
proof -
  have t: "typename_of demo_page = ''wiki.wikipage''" by (simp add: demo_page_def)
  obtain e where e: "take_snapshot demo_registry (typename_of demo_page) 3 1 [] (Some 7, ''Ann'') False (demo_rows demo_page)
      = (Inr (Some e), demo_taken demo_page)" using demo_run[of demo_page] by blast
  have none: "last_known demo_registry (typename_of demo_page) 3 (demo_rows demo_page) = Inr None"
    by (simp add: last_known_def migrate_old_def get_last_snapshot_for_key_def last_full_def demo_rows_def empty_history_def)
  have row: "h_rows (demo_rows demo_page) (typename_of demo_page) 3 = Some demo_page" by (simp add: demo_rows_def)
  show ?thesis
    using history_entry_correct[OF demo_reachable(1)[unfolded demo_registry_def] e[unfolded demo_registry_def] row
      none[unfolded demo_registry_def]] by (intro exI[of _ e]) simp
qed

text \<open>C13: Reading a snapshot back is bounded: in any history that can arise there are, since the last full
  snapshot of an object, never more entries to replay than the limit of the settings.\<close>

theorem partial_snapshots_bounded:
  assumes "(history_step (history_registry mdrender m))\<^sup>*\<^sup>* empty_history h" and "last_full key h = Some e"
  shows "length (partials_since key (he_created_at e) h) \<le> m"
  using partials_at_most[OF assms(1) registry_dicts assms(2)] by (simp add: history_registry_def)

theorem partial_snapshots_bounded_witness:
  "length (partials_since (make_key ''wiki.wikipage'' 3) 0 (demo_taken demo_page)) \<le> 60"
proof -
  have t: "typename_of demo_page = ''wiki.wikipage''" by (simp add: demo_page_def)
  obtain e where e: "last_full (make_key ''wiki.wikipage'' 3) (demo_taken demo_page) = Some e" "he_created_at e = 0"
    using demo_run[of demo_page] unfolding t by blast
  show ?thesis
    using partial_snapshots_bounded[OF demo_reachable(2)[unfolded demo_registry_def] e(1)] by (simp add: e(2))
qed

end
