(* ===== verification/History_Api.thy ===== *)
theory History_Api
  imports History_Props
begin

text \<open>
  The endpoints of \<open>taiga/projects/history/api.py\<close>: reading the history of an object, and
  editing, deleting and restoring the comments of its entries. One view class per type of
  object; they differ in the type and in the permission class.
\<close>

section \<open>Views\<close>

text \<open>
  What a view knows: its type and permission class, the project and owner of an object, which
  projects are blocked or archived, how texts are rendered, whom a text mentions, read as text
  of a project and of an object, and the full names of users.
\<close>

record 'o history_view =
  hv_content_type :: string
  hv_permission :: resource_permission
  hv_project :: "'o \<Rightarrow> project"
  hv_owner :: "'o \<Rightarrow> int option"
  hv_blocked :: "int list"
  hv_archived :: "int list"
  hv_mdrender :: "int \<Rightarrow> string \<Rightarrow> string"
  hv_project_mentions :: "project \<Rightarrow> string \<Rightarrow> int list"
  hv_object_mentions :: "'o \<Rightarrow> string \<Rightarrow> int list"
  hv_full_name :: "int \<Rightarrow> string"

text \<open>The response of a view that returns: its data, status 404, or status 400 with a text.\<close>

datatype 'a response = Response_Ok 'a | Response_NotFound | Response_BadRequest string

text \<open>An anonymous user has no full name; only the method is missing.\<close>

definition get_full_name :: "'o history_view \<Rightarrow> user \<Rightarrow> string res" where
  "get_full_name v u = (case u of
      AnonymousUser \<Rightarrow> Inl (AttributeError ''get_full_name'')
    | User i _ \<Rightarrow> Inr (hv_full_name v i))"

definition get_new_mentions :: "'o history_view \<Rightarrow> 'o \<Rightarrow> string \<Rightarrow> string \<Rightarrow> int list" where
  "get_new_mentions v ob old_comment new_comment =
     remdups (filter (\<lambda>i. i \<notin> set (hv_project_mentions v (hv_project v ob) old_comment))
       (hv_object_mentions v ob new_comment))"

definition raise_if_project_blocked_or_archived :: "'o history_view \<Rightarrow> project \<Rightarrow> ('o hist, unit) eff" where
  "raise_if_project_blocked_or_archived v p =
     (if pr_id p \<in> set (hv_blocked v) then raiseE (Blocked ''Blocked element'')
      else if pr_id p \<in> set (hv_archived v) then raiseE (PermissionDenied ''Archived element'')
      else retE ())"

definition view_object :: "'o history_view \<Rightarrow> user \<Rightarrow> int \<Rightarrow> ('o hist, 'o) eff" where
  "view_object v u pk = liftE (get_object_or_error u (\<lambda>h. h_rows h (hv_content_type v) pk))"

text \<open>Changes of the object that are not hidden; without an id in the query there is none.\<close>

definition view_entry :: "'o history_view \<Rightarrow> int \<Rightarrow> nat option \<Rightarrow> 'o hist \<Rightarrow> entry option" where
  "view_entry v pk entry_id h = find (\<lambda>e. Some (he_id e) = entry_id)
     (get_history_queryset_by_model_instance (make_key (hv_content_type v) pk) [Change] False h)"

definition entry_check :: "access \<Rightarrow> 'o history_view \<Rightarrow> user \<Rightarrow> 'o \<Rightarrow> entry \<Rightarrow> check" where
  "entry_check ac v u ob e = \<lparr>ck_access = ac, ck_user = u, ck_data = [],
     ck_obj = HistoryEntryObj (hv_project v ob) (fst (he_user e)) (he_key e) (Some (fst (he_user e)))
       (map_option fst (he_delete_comment_user e))\<rparr>"

definition check_entry :: "access \<Rightarrow> 'o history_view \<Rightarrow> user \<Rightarrow> string \<Rightarrow> 'o \<Rightarrow> entry \<Rightarrow> ('o hist, unit) eff" where
  "check_entry ac v u action ob e = view_check [hv_permission v] (entry_check ac v u ob e) (Some action)"

text \<open>The user object is never empty, so it counts as true whenever it is there.\<close>

definition comment_deleted :: "entry \<Rightarrow> bool" where
  "comment_deleted e \<longleftrightarrow> he_delete_comment_date e \<noteq> None \<or> he_delete_comment_user e \<noteq> None"

definition save_entry :: "entry \<Rightarrow> ('o hist, unit) eff" where
  "save_entry e = (\<lambda>h. (Inr (), annotated (\<lambda>x. if he_id x = he_id e then e else x) h))"

section \<open>Comments\<close>

definition comment_versions ::
    "access \<Rightarrow> 'o history_view \<Rightarrow> user \<Rightarrow> int \<Rightarrow> nat option \<Rightarrow> ('o hist, comment_version list option response) eff" where
  "comment_versions ac v u pk entry_id =
     bindE (view_object v u pk) (\<lambda>ob.
     bindE (liftE (\<lambda>h. Inr (view_entry v pk entry_id h))) (\<lambda>history_entry.
       case history_entry of
         None \<Rightarrow> retE Response_NotFound
       | Some e \<Rightarrow> bindE (check_entry ac v u ''comment_versions'' ob e) (\<lambda>_.
           retE (Response_Ok (he_comment_versions e)))))"

text \<open>
  The result of an edit is the list of users newly mentioned, to whom \<open>signal_mentions\<close> is sent
  when there are any.
\<close>

definition edited_entry :: "'o history_view \<Rightarrow> user \<Rightarrow> 'o \<Rightarrow> entry \<Rightarrow> string \<Rightarrow> int \<Rightarrow> entry" where
  "edited_entry v u ob e comment now =
     (let comment_versions = (case he_comment_versions e of None \<Rightarrow> [] | Some vs \<Rightarrow> vs)
            @ [\<lparr>cv_date = he_created_at e, cv_comment = he_comment e, cv_comment_html = he_comment_html e,
                cv_user = user_id u\<rparr>]
      in e\<lparr>he_edit_comment_date := Some now, he_comment := comment,
           he_comment_html := hv_mdrender v (pr_id (hv_project v ob)) comment,
           he_comment_versions := Some comment_versions\<rparr>)"

definition edit_comment ::
    "access \<Rightarrow> 'o history_view \<Rightarrow> user \<Rightarrow> int \<Rightarrow> nat option \<Rightarrow> string option \<Rightarrow> ('o hist, int list response) eff" where
  "edit_comment ac v u pk entry_id comment =
     bindE (view_object v u pk) (\<lambda>ob.
     bindE (raise_if_project_blocked_or_archived v (hv_project v ob)) (\<lambda>_.
     bindE (liftE (\<lambda>h. Inr (view_entry v pk entry_id h))) (\<lambda>history_entry.
       case history_entry of
         None \<Rightarrow> retE Response_NotFound
       | Some e \<Rightarrow>
           bindE (liftE (get_instance_from_key (he_key e))) (\<lambda>instance.
           bindE (check_entry ac v u ''edit_comment'' ob e) (\<lambda>_.
             case comment of
               None \<Rightarrow> retE (Response_BadRequest ''comment is required'')
             | Some text \<Rightarrow>
                 if comment_deleted e then retE (Response_BadRequest ''deleted comments can't be edited'')
                 else case instance of
                   None \<Rightarrow> raiseE (AttributeError ''project'')
                 | Some ob \<Rightarrow>
                     bindE (liftE (\<lambda>h. Inr (h_now h))) (\<lambda>now.
                     bindE (save_entry (edited_entry v u ob e text now)) (\<lambda>_.
                     retE (Response_Ok (get_new_mentions v ob (he_comment e) text)))))))))"

definition delete_comment ::
    "access \<Rightarrow> 'o history_view \<Rightarrow> user \<Rightarrow> int \<Rightarrow> nat option \<Rightarrow> ('o hist, unit response) eff" where
  "delete_comment ac v u pk entry_id =
     bindE (view_object v u pk) (\<lambda>ob.
     bindE (raise_if_project_blocked_or_archived v (hv_project v ob)) (\<lambda>_.
     bindE (liftE (\<lambda>h. Inr (view_entry v pk entry_id h))) (\<lambda>history_entry.
       case history_entry of
         None \<Rightarrow> retE Response_NotFound
       | Some e \<Rightarrow>
           bindE (check_entry ac v u ''delete_comment'' ob e) (\<lambda>_.
             if comment_deleted e then retE (Response_BadRequest ''Comment already deleted'')
             else bindE (liftE (\<lambda>_. get_full_name v u)) (\<lambda>name.
                  bindE (liftE (\<lambda>h. Inr (h_now h))) (\<lambda>now.
                  bindE (save_entry (e\<lparr>he_delete_comment_date := Some now,
                                        he_delete_comment_user := Some (user_id u, name)\<rparr>)) (\<lambda>_.
                  retE (Response_Ok ()))))))))"

definition undelete_comment ::
    "access \<Rightarrow> 'o history_view \<Rightarrow> user \<Rightarrow> int \<Rightarrow> nat option \<Rightarrow> ('o hist, unit response) eff" where
  "undelete_comment ac v u pk entry_id =
     bindE (view_object v u pk) (\<lambda>ob.
     bindE (liftE (\<lambda>h. Inr (view_entry v pk entry_id h))) (\<lambda>history_entry.
       case history_entry of
         None \<Rightarrow> retE Response_NotFound
       | Some e \<Rightarrow>
           bindE (check_entry ac v u ''undelete_comment'' ob e) (\<lambda>_.
             if he_delete_comment_date e = None \<and> he_delete_comment_user e = None
             then retE (Response_BadRequest ''Comment not deleted'')
             else bindE (save_entry (e\<lparr>he_delete_comment_date := None, he_delete_comment_user := None\<rparr>)) (\<lambda>_.
                  retE (Response_Ok ())))))"

section \<open>Reading\<close>

text \<open>
  The history of an object, latest first; \<open>exclude(diff__exact='')\<close> excludes nothing, since a
  diff is a dict. Pagination and the prefetched owners are left out.
\<close>

definition retrieve :: "access \<Rightarrow> 'o history_view \<Rightarrow> user \<Rightarrow> int \<Rightarrow> string option \<Rightarrow> ('o hist, entry list response) eff" where
  "retrieve ac v u pk history_type =
     bindE (view_object v u pk) (\<lambda>ob.
     bindE (view_check [hv_permission v] \<lparr>ck_access = ac, ck_user = u, ck_data = [],
              ck_obj = ItemObj (Some (hv_project v ob)) (hv_owner v ob)\<rparr> (Some ''retrieve'')) (\<lambda>_.
     liftE (\<lambda>h.
       (let qs = get_history_queryset_by_model_instance (make_key (hv_content_type v) pk) [Change] False h;
            qs = (if history_type = Some ''activity'' then filter (\<lambda>e. he_comment e = []) qs else qs);
            qs = (if history_type = Some ''comment'' then filter (\<lambda>e. he_comment e \<noteq> []) qs else qs)
        in Inr (Response_Ok (rev (sort_key he_created_at qs)))))))"

definition list_history :: "('o hist, unit response) eff" where
  "list_history = retE Response_NotFound"

end
