(* ===== verification/History_Api_Props.thy ===== *)
theory History_Api_Props
  imports History_Api Permission_Facts
begin

text \<open>
  Who may change a comment, and that no comment and no entry is ever lost.
\<close>

section \<open>Permissions\<close>

definition history_permissions :: "resource_permission list" where
  "history_permissions = [EpicHistoryPermission, UserStoryHistoryPermission, TaskHistoryPermission,
     IssueHistoryPermission, WikiHistoryPermission]"

lemma comment_permissions:
  assumes "R \<in> set history_permissions"
  shows "composed R ''edit_comment'' = Inr (OrPerm [IsSuperUser, OrPerm [IsCommentProjectAdmin, IsCommentOwner]])"
    and "composed R ''delete_comment'' = Inr (OrPerm [IsSuperUser, OrPerm [IsCommentProjectAdmin, IsCommentOwner]])"
    and "composed R ''comment_versions'' = Inr (OrPerm [IsSuperUser, OrPerm [IsCommentProjectAdmin, IsCommentOwner]])"
    and "composed R ''undelete_comment'' = Inr (OrPerm [IsSuperUser, OrPerm [IsCommentProjectAdmin, IsCommentDeleter]])"
  using assms
  by (auto simp: history_permissions_def composed_def permset_def with_enough_def with_global_def
      EpicHistoryPermission_def UserStoryHistoryPermission_def TaskHistoryPermission_def
      IssueHistoryPermission_def WikiHistoryPermission_def TaigaResourcePermission_def ResourcePermission_def)

lemma entry_check_fields [simp]:
  "ck_access (entry_check ac v u ob e) = ac" "ck_user (entry_check ac v u ob e) = u"
  "ck_obj (entry_check ac v u ob e) = HistoryEntryObj (hv_project v ob) (fst (he_user e)) (he_key e)
     (Some (fst (he_user e))) (map_option fst (he_delete_comment_user e))"
  by (simp_all add: entry_check_def)

lemma json_user_is_iff: "json_user_is j u \<longleftrightarrow> j = Some (user_id u)"
  by (auto simp: json_user_is_def split: option.split)

text \<open>
  What the check of the code asks: a superuser, an administrator of the project of the row the
  key of the entry names, or a stored id that equals that of the user. An entry can be stored
  without the id of a user, and an anonymous user has none either: the two are then equal.
\<close>

lemma check_entry_passed:
  assumes R: "hv_permission v \<in> set history_permissions"
    and run: "check_entry ac v u action ob e h = (Inr x, h')" and a: "action \<in> {''edit_comment'', ''delete_comment'', ''undelete_comment''}"
  shows "h' = h \<and> (is_superuser u
     \<or> (\<exists>k po. split_key (he_key e) = Inr k \<and> map_of (ac_instances ac) k = Some po \<and> is_project_admin ac u po)
     \<or> (if action = ''undelete_comment'' then map_option fst (he_delete_comment_user e) else Some (fst (he_user e)))
         = Some (user_id u))"
proof -
  have "h' = h \<and> resource_check (hv_permission v) (entry_check ac v u ob e) action = Inr True"
    using run by (auto simp: check_entry_def view_check_ok split: sum.splits if_splits)
  then show ?thesis using a
    by (auto simp: resource_check_def comment_permissions[OF R] project_admin_perm_def get_object_project_def
        is_comment_project_admin_def is_comment_owner_def is_comment_deleter_def json_user_is_iff
        split: sum.splits option.splits if_splits)
qed

lemma check_entry_unchanged: "snd (check_entry ac v u action ob e h) = h"
  by (simp add: check_entry_def view_check_def bindE_apply retE_apply raiseE_apply split: sum.split)

section \<open>What the endpoints change\<close>

text \<open>A call that changes something found its object and its entry, and passed its guard and check.\<close>

lemma past_lookup:
  assumes "bindE (view_object v u pk) (\<lambda>ob. bindE (guard ob) (\<lambda>_.
      bindE (liftE (\<lambda>h. Inr (view_entry v pk i h))) (\<lambda>history_entry.
        case history_entry of None \<Rightarrow> retE Response_NotFound | Some e \<Rightarrow> body ob e))) h = (r, h')"
    and "\<And>ob. snd (guard ob h) = h" and "h' \<noteq> h"
  obtains ob e where "h_rows h (hv_content_type v) pk = Some ob" "guard ob h = (Inr (), h)"
    "view_entry v pk i h = Some e" "body ob e h = (r, h')"
proof (cases "h_rows h (hv_content_type v) pk")
  case None
  then show ?thesis using assms(1,3) by (auto simp: view_object_def bindE_lift get_object_or_error_def split: if_splits)
next
  case (Some ob)
  obtain g where g: "guard ob h = (g, h)" using assms(2)[of ob] by (cases "guard ob h") simp
  have ok: "g = Inr ()" using assms(1,3) Some g
    by (cases g) (auto simp: view_object_def bindE_lift get_object_or_error_def bindE_apply)
  obtain e where e: "view_entry v pk i h = Some e" using assms(1,3) Some g ok
    by (cases "view_entry v pk i h") (auto simp: view_object_def bindE_lift get_object_or_error_def bindE_apply retE_apply)
  have "body ob e h = (r, h')" using assms(1) Some g ok e
    by (simp add: view_object_def bindE_lift get_object_or_error_def bindE_apply)
  then show ?thesis using that Some g ok e by blast
qed

lemma past_entry_check:
  assumes "bindE (check_entry ac v u action ob e) k h = (r, h')" and "h' \<noteq> h"
  shows "check_entry ac v u action ob e h = (Inr (), h) \<and> k () h = (r, h')"
  using assms check_entry_unchanged[of ac v u action ob e h]
  by (cases "check_entry ac v u action ob e h") (auto simp: bindE_apply split: sum.splits)

lemma past_query_step: "bindE (liftE q) k h = (r, h') \<Longrightarrow> q h = Inr x \<Longrightarrow> k x h = (r, h')"
  by (simp add: bindE_lift)

lemma guard_unchanged: "snd (raise_if_project_blocked_or_archived v p h) = h"
  by (simp add: raise_if_project_blocked_or_archived_def raiseE_apply retE_apply)

lemma guard_passed:
  "raise_if_project_blocked_or_archived v p h = (Inr (), h) \<Longrightarrow> pr_id p \<notin> set (hv_blocked v) \<and> pr_id p \<notin> set (hv_archived v)"
  by (auto simp: raise_if_project_blocked_or_archived_def raiseE_apply split: if_splits)

lemma edited_id [simp]: "he_id (edited_entry v u ob e body now) = he_id e"
  by (simp add: edited_entry_def Let_def)

definition replaced :: "entry \<Rightarrow> 'o hist \<Rightarrow> 'o hist" where
  "replaced e h = annotated (\<lambda>x. if he_id x = he_id e then e else x) h"

lemma save_entry_apply: "save_entry e h = (Inr (), replaced e h)"
  by (simp add: save_entry_def replaced_def)

lemma edit_comment_changes:
  assumes "edit_comment ac v u pk i comment h = (r, h')" and "h' \<noteq> h"
  obtains ob e ob' body where "h_rows h (hv_content_type v) pk = Some ob" "view_entry v pk i h = Some e"
    "pr_id (hv_project v ob) \<notin> set (hv_blocked v)" "pr_id (hv_project v ob) \<notin> set (hv_archived v)"
    "check_entry ac v u ''edit_comment'' ob e h = (Inr (), h)" "\<not> comment_deleted e" "comment = Some body"
    "h' = replaced (edited_entry v u ob' e body (h_now h)) h"
proof -
  obtain ob e where found: "h_rows h (hv_content_type v) pk = Some ob" "view_entry v pk i h = Some e"
    and guard: "raise_if_project_blocked_or_archived v (hv_project v ob) h = (Inr (), h)"
    and rest: "bindE (liftE (get_instance_from_key (he_key e))) (\<lambda>instance1.
           bindE (check_entry ac v u ''edit_comment'' ob e) (\<lambda>_.
             case comment of
               None \<Rightarrow> retE (Response_BadRequest ''comment is required'')
             | Some body \<Rightarrow>
                 if comment_deleted e then retE (Response_BadRequest ''deleted comments can't be edited'')
                 else case instance1 of
                   None \<Rightarrow> raiseE (AttributeError ''project'')
                 | Some ob \<Rightarrow>
                     bindE (liftE (\<lambda>h. Inr (h_now h))) (\<lambda>now.
                     bindE (save_entry (edited_entry v u ob e body now)) (\<lambda>_.
                     retE (Response_Ok (get_new_mentions v ob (he_comment e) body)))))) h = (r, h')"
    by (rule past_lookup[OF assms(1)[unfolded edit_comment_def] guard_unchanged assms(2)])
  obtain instance1 where "get_instance_from_key (he_key e) h = Inr instance1"
    using rest assms(2) by (cases "get_instance_from_key (he_key e) h") (auto simp: bindE_lift)
  from past_entry_check[OF past_query_step[OF rest this] assms(2)] have check: "check_entry ac v u ''edit_comment'' ob e h = (Inr (), h)"
    and rest: "(case comment of
               None \<Rightarrow> retE (Response_BadRequest ''comment is required'')
             | Some body \<Rightarrow>
                 if comment_deleted e then retE (Response_BadRequest ''deleted comments can't be edited'')
                 else case instance1 of
                   None \<Rightarrow> raiseE (AttributeError ''project'')
                 | Some ob \<Rightarrow>
                     bindE (liftE (\<lambda>h. Inr (h_now h))) (\<lambda>now.
                     bindE (save_entry (edited_entry v u ob e body now)) (\<lambda>_.
                     retE (Response_Ok (get_new_mentions v ob (he_comment e) body))))) h = (r, h')" by auto
  obtain body where body: "comment = Some body" using rest assms(2) by (cases comment) (auto simp: retE_apply)
  have open_entry: "\<not> comment_deleted e" using rest assms(2) body by (auto simp: retE_apply split: if_splits)
  obtain ob' where "instance1 = Some ob'" using rest assms(2) body open_entry by (cases instance1) (auto simp: raiseE_apply)
  then have "h' = replaced (edited_entry v u ob' e body (h_now h)) h"
    using rest body open_entry by (simp add: bindE_lift bindE_apply save_entry_apply retE_apply)
  then show ?thesis using that found guard_passed[OF guard] check open_entry body by blast
qed

lemma delete_comment_changes:
  assumes "delete_comment ac v u pk i h = (r, h')" and "h' \<noteq> h"
  obtains ob e name where "h_rows h (hv_content_type v) pk = Some ob" "view_entry v pk i h = Some e"
    "pr_id (hv_project v ob) \<notin> set (hv_blocked v)" "pr_id (hv_project v ob) \<notin> set (hv_archived v)"
    "check_entry ac v u ''delete_comment'' ob e h = (Inr (), h)" "\<not> comment_deleted e" "is_authenticated u"
    "h' = replaced (e\<lparr>he_delete_comment_date := Some (h_now h), he_delete_comment_user := Some (user_id u, name)\<rparr>) h"
proof -
  obtain ob e where found: "h_rows h (hv_content_type v) pk = Some ob" "view_entry v pk i h = Some e"
    and guard: "raise_if_project_blocked_or_archived v (hv_project v ob) h = (Inr (), h)"
    and rest: "bindE (check_entry ac v u ''delete_comment'' ob e) (\<lambda>_.
             if comment_deleted e then retE (Response_BadRequest ''Comment already deleted'')
             else bindE (liftE (\<lambda>_. get_full_name v u)) (\<lambda>name.
                  bindE (liftE (\<lambda>h. Inr (h_now h))) (\<lambda>now.
                  bindE (save_entry (e\<lparr>he_delete_comment_date := Some now,
                                        he_delete_comment_user := Some (user_id u, name)\<rparr>)) (\<lambda>_.
                  retE (Response_Ok ()))))) h = (r, h')"
    by (rule past_lookup[OF assms(1)[unfolded delete_comment_def] guard_unchanged assms(2)])
  from past_entry_check[OF rest assms(2)] have check: "check_entry ac v u ''delete_comment'' ob e h = (Inr (), h)"
    and rest: "(if comment_deleted e then retE (Response_BadRequest ''Comment already deleted'')
             else bindE (liftE (\<lambda>_. get_full_name v u)) (\<lambda>name.
                  bindE (liftE (\<lambda>h. Inr (h_now h))) (\<lambda>now.
                  bindE (save_entry (e\<lparr>he_delete_comment_date := Some now,
                                        he_delete_comment_user := Some (user_id u, name)\<rparr>)) (\<lambda>_.
                  retE (Response_Ok ()))))) h = (r, h')" by auto
  have open_entry: "\<not> comment_deleted e" using rest assms(2) by (auto simp: retE_apply split: if_splits)
  obtain name where name: "get_full_name v u = Inr name"
    using rest assms(2) open_entry by (cases "get_full_name v u") (auto simp: bindE_lift)
  then have "is_authenticated u" by (cases u) (simp_all add: get_full_name_def)
  moreover have "h' = replaced (e\<lparr>he_delete_comment_date := Some (h_now h), he_delete_comment_user := Some (user_id u, name)\<rparr>) h"
    using rest open_entry name by (simp add: bindE_lift bindE_apply save_entry_apply retE_apply)
  ultimately show ?thesis using that found guard_passed[OF guard] check open_entry by blast
qed

lemma undelete_comment_changes:
  assumes "undelete_comment ac v u pk i h = (r, h')" and "h' \<noteq> h"
  obtains ob e where "h_rows h (hv_content_type v) pk = Some ob" "view_entry v pk i h = Some e"
    "check_entry ac v u ''undelete_comment'' ob e h = (Inr (), h)" "comment_deleted e"
    "h' = replaced (e\<lparr>he_delete_comment_date := None, he_delete_comment_user := None\<rparr>) h"
proof -
  have "bindE (view_object v u pk) (\<lambda>ob. bindE (retE ()) (\<lambda>_.
     bindE (liftE (\<lambda>h. Inr (view_entry v pk i h))) (\<lambda>history_entry.
       case history_entry of
         None \<Rightarrow> retE Response_NotFound
       | Some e \<Rightarrow>
           bindE (check_entry ac v u ''undelete_comment'' ob e) (\<lambda>_.
             if he_delete_comment_date e = None \<and> he_delete_comment_user e = None
             then retE (Response_BadRequest ''Comment not deleted'')
             else bindE (save_entry (e\<lparr>he_delete_comment_date := None, he_delete_comment_user := None\<rparr>)) (\<lambda>_.
                  retE (Response_Ok ())))))) h = (r, h')"
    using assms(1) unfolding undelete_comment_def bindE_ret .
  then obtain ob e where found: "h_rows h (hv_content_type v) pk = Some ob" "view_entry v pk i h = Some e"
    and rest: "bindE (check_entry ac v u ''undelete_comment'' ob e) (\<lambda>_.
             if he_delete_comment_date e = None \<and> he_delete_comment_user e = None
             then retE (Response_BadRequest ''Comment not deleted'')
             else bindE (save_entry (e\<lparr>he_delete_comment_date := None, he_delete_comment_user := None\<rparr>)) (\<lambda>_.
                  retE (Response_Ok ()))) h = (r, h')"
    by (rule past_lookup) (simp_all add: retE_apply assms(2))
  from past_entry_check[OF rest assms(2)] have check: "check_entry ac v u ''undelete_comment'' ob e h = (Inr (), h)"
    and rest: "(if he_delete_comment_date e = None \<and> he_delete_comment_user e = None
             then retE (Response_BadRequest ''Comment not deleted'')
             else bindE (save_entry (e\<lparr>he_delete_comment_date := None, he_delete_comment_user := None\<rparr>)) (\<lambda>_.
                  retE (Response_Ok ()))) h = (r, h')" by auto
  have deleted: "comment_deleted e" using rest assms(2) by (auto simp: comment_deleted_def retE_apply split: if_splits)
  then have "h' = replaced (e\<lparr>he_delete_comment_date := None, he_delete_comment_user := None\<rparr>) h"
    using rest by (auto simp: comment_deleted_def bindE_apply save_entry_apply retE_apply)
  then show ?thesis using that found check deleted by blast
qed

end
