(* ===== verification/History_System.thy ===== *)
theory History_System
  imports History_Objects History_Api_Props
begin

text \<open>
  The history under every operation: snapshots and the comment endpoints together. Its
  properties: nothing is ever lost, and only the author or an administrator changes a comment.
\<close>

section \<open>Histories\<close>

inductive history_system :: "'o registry \<Rightarrow> 'o hist \<Rightarrow> 'o hist \<Rightarrow> bool" for rg where
  time: "n \<ge> h_now h \<Longrightarrow> history_system rg h (h\<lparr>h_now := n\<rparr>)"
| change: "history_system rg h (h\<lparr>h_rows := rows, h_names := nm\<rparr>)"
| snapshot: "history_system rg h (snd (take_snapshot rg tn pk project comment user delete h))"
| edit: "history_system rg h (snd (edit_comment ac v u pk i c h))"
| remove: "history_system rg h (snd (delete_comment ac v u pk i h))"
| restore: "history_system rg h (snd (undelete_comment ac v u pk i h))"

text \<open>All texts a comment ever had, the present one last.\<close>

definition comment_texts :: "entry \<Rightarrow> string list" where
  "comment_texts e = (case he_comment_versions e of None \<Rightarrow> [] | Some vs \<Rightarrow> map cv_comment vs) @ [he_comment e]"

definition kept :: "entry \<Rightarrow> entry \<Rightarrow> bool" where
  "kept e e' \<longleftrightarrow> same_record e e' \<and> (\<exists>more. comment_texts e' = comment_texts e @ more)"

definition grows :: "'o hist \<Rightarrow> 'o hist \<Rightarrow> bool" where
  "grows h h' \<longleftrightarrow> length (h_entries h) \<le> length (h_entries h')
     \<and> (\<forall>i < length (h_entries h). kept (h_entries h ! i) (h_entries h' ! i))"

definition ids_ok :: "'o hist \<Rightarrow> bool" where
  "ids_ok h \<longleftrightarrow> map he_id (h_entries h) = [0..<length (h_entries h)]"

lemma kept_refl [simp]: "kept e e"
  by (simp add: kept_def)

lemma kept_trans: "kept a b \<Longrightarrow> kept b c \<Longrightarrow> kept a c"
  by (auto simp: kept_def same_record_def)

lemma grows_same: "h_entries h' = h_entries h \<Longrightarrow> grows h h'"
  by (simp add: grows_def)

lemma grows_trans: "grows a b \<Longrightarrow> grows b c \<Longrightarrow> grows a c"
  unfolding grows_def by (meson kept_trans le_trans less_le_trans)

section \<open>One step\<close>

lemma view_entry_mem:
  assumes "view_entry v pk i h = Some e"
  shows "e \<in> set (h_entries h) \<and> he_key e = make_key (hv_content_type v) pk \<and> he_type e = Change \<and> \<not> he_is_hidden e
    \<and> i = Some (he_id e)"
  using find_Some_mem[OF assms[unfolded view_entry_def]] by (auto simp: get_history_queryset_by_model_instance_def)

lemma replaced_ok:
  assumes ids: "ids_ok h" and e: "e \<in> set (h_entries h)" and kept: "kept e e'"
  shows "grows h (replaced e' h)" and "ids_ok (replaced e' h)" and "history_step rg h (replaced e' h)"
proof -
  have same: "he_id e' = he_id e" using kept by (simp add: kept_def same_record_def)
  have distinct: "distinct (map he_id (h_entries h))" using ids by (simp add: ids_ok_def)
  have only: "x = e" if "x \<in> set (h_entries h)" "he_id x = he_id e'" for x
    using distinct_map_inj[OF distinct that(1) e] that(2) same by simp
  have all: "kept x (if he_id x = he_id e' then e' else x)" if "x \<in> set (h_entries h)" for x
    using only[OF that] kept by auto
  then show "grows h (replaced e' h)" by (simp add: grows_def replaced_def annotated_def)
  have m: "map he_id (map (\<lambda>x. if he_id x = he_id e' then e' else x) xs) = map he_id xs" for xs
    by (induction xs) simp_all
  have "h_entries (replaced e' h) = map (\<lambda>x. if he_id x = he_id e' then e' else x) (h_entries h)"
    by (simp add: replaced_def annotated_def)
  then show "ids_ok (replaced e' h)" using ids unfolding ids_ok_def by (simp only: m length_map)
  show "history_step rg h (replaced e' h)"
    unfolding replaced_def by (rule history_step.annotate) (use all in \<open>simp add: kept_def\<close>)
qed

lemma edited_kept: "kept e (edited_entry v u ob e body now)"
  by (auto simp: kept_def same_record_def comment_texts_def edited_entry_def Let_def split: option.split)

lemma deletion_kept:
  fixes d :: "int option" and w :: "user_json option"
  shows "kept e (e\<lparr>he_delete_comment_date := d, he_delete_comment_user := w\<rparr>)"
  by (simp add: kept_def same_record_def comment_texts_def)

lemma no_step: "history_step rg h h"
  using history_step.time[of h "h_now h" rg] by simp

text \<open>Every step keeps the ids and only adds, and the comment endpoints are steps of \<open>history_step\<close>.\<close>

lemma system_step:
  assumes "history_system rg h h'" and ids: "ids_ok h"
  shows "ids_ok h' \<and> grows h h' \<and> history_step rg h h'"
  using assms(1)
proof cases
  case (time n)
  then show ?thesis using ids by (auto simp: ids_ok_def grows_same intro: history_step.time)
next
  case (change rows nm)
  then show ?thesis using ids by (auto simp: ids_ok_def grows_same intro: history_step.change)
next
  case (snapshot tn pk project comment user delete)
  obtain r where run: "take_snapshot rg tn pk project comment user delete h = (r, h')"
    using snapshot by (cases "take_snapshot rg tn pk project comment user delete h") auto
  have step: "history_step rg h h'" unfolding snapshot by (rule history_step.snapshot)
  show ?thesis
  proof (cases r)
    case (Inl e)
    then have "h' = h" using failed_snapshot run by fast
    then show ?thesis using ids step by (simp add: grows_same)
  next
    case (Inr x)
    obtain ob f where ob: "h_rows h tn pk = Some ob" "rg_freeze rg tn = Some f"
      using snapshot_needs_row[OF run[unfolded Inr]] by blast
    show ?thesis
    proof (rule take_snapshot_cases[OF run[unfolded Inr] ob])
      fix raw need old D
      assume "snapshot_result (make_key tn pk) (f ob) need old D comment delete h x h'"
      then show ?thesis
      proof (cases rule: snapshot_resultE)
        case unchanged
        then show ?thesis using ids step by (simp add: grows_same)
      next
        case (added e)
        have "grows h h'" by (simp add: grows_def added(2) with_entry_def nth_append)
        then show ?thesis using ids step added(2,3) by (simp add: ids_ok_def with_entry_def)
      qed
    qed
  qed
next
  case (edit ac v u pk i c)
  obtain r where run: "edit_comment ac v u pk i c h = (r, h')" using edit by (cases "edit_comment ac v u pk i c h") auto
  show ?thesis
  proof (cases "h' = h")
    case False
    show ?thesis
    proof (rule edit_comment_changes[OF run False])
      fix ob e ob' body assume "view_entry v pk i h = Some e" "h' = replaced (edited_entry v u ob' e body (h_now h)) h"
      moreover from this have "e \<in> set (h_entries h)" using view_entry_mem by blast
      ultimately show ?thesis using replaced_ok[OF ids _ edited_kept[of e v u ob' body "h_now h"]] by simp
    qed
  qed (use ids no_step in \<open>simp add: grows_same\<close>)
next
  case (remove ac v u pk i)
  obtain r where run: "delete_comment ac v u pk i h = (r, h')" using remove by (cases "delete_comment ac v u pk i h") auto
  show ?thesis
  proof (cases "h' = h")
    case False
    show ?thesis
    proof (rule delete_comment_changes[OF run False])
      fix ob e name assume "view_entry v pk i h = Some e"
        "h' = replaced (e\<lparr>he_delete_comment_date := Some (h_now h), he_delete_comment_user := Some (user_id u, name)\<rparr>) h"
      moreover from this have "e \<in> set (h_entries h)" using view_entry_mem by blast
      ultimately show ?thesis using replaced_ok[OF ids _ deletion_kept[where d = "Some (h_now h)" and w = "Some (user_id u, name)"]] by simp
    qed
  qed (use ids no_step in \<open>simp add: grows_same\<close>)
next
  case (restore ac v u pk i)
  obtain r where run: "undelete_comment ac v u pk i h = (r, h')" using restore by (cases "undelete_comment ac v u pk i h") auto
  show ?thesis
  proof (cases "h' = h")
    case False
    show ?thesis
    proof (rule undelete_comment_changes[OF run False])
      fix ob e assume "view_entry v pk i h = Some e"
        "h' = replaced (e\<lparr>he_delete_comment_date := None, he_delete_comment_user := None\<rparr>) h"
      moreover from this have "e \<in> set (h_entries h)" using view_entry_mem by blast
      ultimately show ?thesis using replaced_ok[OF ids _ deletion_kept[where d = None and w = None]] by simp
    qed
  qed (use ids no_step in \<open>simp add: grows_same\<close>)
qed

lemma system_reach:
  assumes "(history_system rg)\<^sup>*\<^sup>* h h'" and "ids_ok h"
  shows "ids_ok h' \<and> grows h h' \<and> (history_step rg)\<^sup>*\<^sup>* h h'"
  using assms(1)
proof (induction rule: rtranclp_induct)
  case base
  then show ?case using assms(2) by (simp add: grows_same)
next
  case (step h1 h2)
  then show ?case using system_step[OF step(2)] grows_trans by (metis rtranclp.rtrancl_into_rtrancl)
qed

lemma empty_ids: "ids_ok empty_history"
  by (simp add: ids_ok_def empty_history_def)

text \<open>The properties of histories hold of the whole system.\<close>

corollary system_is_history:
  "(history_system rg)\<^sup>*\<^sup>* empty_history h \<Longrightarrow> (history_step rg)\<^sup>*\<^sup>* empty_history h"
  using system_reach[OF _ empty_ids] by blast

section \<open>Keys\<close>

lemma digit_of_nat: "n < 10 \<Longrightarrow> digit_value (char_of (48 + n)) = Some (int n)"
proof -
  assume "n < 10"
  have "(of_char c :: int) = int (of_char c :: nat)" for c :: char by (simp add: of_char_def)
  then show ?thesis using \<open>n < 10\<close> by (simp add: digit_value_def)
qed

lemma digit_chars:
  assumes "digit_value c \<noteq> None"
  shows "\<not> is_space c \<and> c \<noteq> CHR ''_'' \<and> c \<noteq> CHR ''-'' \<and> c \<noteq> CHR ''+''"
  using assms by (auto simp: is_space_def digit_value_def)

lemma underscore [simp]: "digit_value (CHR ''_'') = None"
  by (simp add: digit_value_def)

lemma strip_clean: "list_all (\<lambda>c. \<not> is_space c) s \<Longrightarrow> strip s = s"
proof -
  assume clean: "list_all (\<lambda>c. \<not> is_space c) s"
  have same: "dropWhile is_space t = t" if "list_all (\<lambda>c. \<not> is_space c) t" for t using that by (cases t) auto
  have "list_all (\<lambda>c. \<not> is_space c) (rev s)" using clean by (simp add: list_all_iff)
  then show ?thesis using same clean by (simp add: strip_def)
qed

lemma parse_digits_append:
  "list_all (\<lambda>c. digit_value c \<noteq> None) xs \<Longrightarrow>
     parse_digits acc (xs @ ys) = (case parse_digits acc xs of None \<Rightarrow> None | Some a \<Rightarrow> parse_digits a ys)"
proof (induction xs arbitrary: acc)
  case (Cons c xs)
  then obtain v where v: "digit_value c = Some v" by auto
  then have "c \<noteq> CHR ''_''" by auto
  then show ?case using Cons v by simp
qed simp

lemma nat_str_ok: "list_all (\<lambda>c. digit_value c \<noteq> None) (nat_str n)" "nat_str n \<noteq> []"
proof -
  show "list_all (\<lambda>c. digit_value c \<noteq> None) (nat_str n)" using nat_str_digits by (auto simp: list_all_iff)
  show "nat_str n \<noteq> []" by (subst nat_str.simps) simp
qed

lemma parse_nat_str: "parse_digits 0 (nat_str n) = Some (int n)"
proof (induction n rule: nat_str.induct)
  case (1 n)
  have last: "parse_digits a [char_of (48 + m)] = Some (10 * a + int m)" if "m < 10" for a m
    using digit_of_nat[OF that] digit_chars[of "char_of (48 + m)"] by simp
  show ?case
  proof (cases "n < 10")
    case True
    then show ?thesis using last[of n 0] by (simp add: nat_str.simps)
  next
    case False
    have "nat_str n = nat_str (n div 10) @ [char_of (48 + n mod 10)]" using False by (subst nat_str.simps) simp
    moreover have "parse_digits (int (n div 10)) [char_of (48 + n mod 10)] = Some (10 * int (n div 10) + int (n mod 10))"
      by (rule last) simp
    ultimately have "parse_digits 0 (nat_str n) = Some (10 * int (n div 10) + int (n mod 10))"
      by (simp only: parse_digits_append[OF nat_str_ok(1)] 1[OF False] option.case)
    also have "10 * int (n div 10) + int (n mod 10) = int n" by presburger
    finally show ?thesis .
  qed
qed

lemma parse_int_str: "parse_int (int_str i) = Some i"
proof -
  have digits: "\<exists>c cs v. nat_str n = c # cs \<and> digit_value c = Some v \<and> parse_digits v cs = Some (int n)" for n
  proof -
    obtain c cs where c: "nat_str n = c # cs" using nat_str_ok(2)[of n] by (cases "nat_str n") auto
    then obtain v where v: "digit_value c = Some v" using nat_str_ok(1)[of n] by auto
    then show ?thesis using parse_nat_str[of n] digit_chars[of c] c by simp
  qed
  have clean: "list_all (\<lambda>c. \<not> is_space c) (nat_str n)" for n
    using nat_str_ok(1)[of n] digit_chars by (auto simp: list_all_iff)
  have minus: "\<not> is_space (CHR ''-'')" by (simp add: is_space_def)
  show ?thesis
  proof (cases "i < 0")
    case True
    obtain c cs v where "nat_str (nat (- i)) = c # cs" "digit_value c = Some v" "parse_digits v cs = Some (int (nat (- i)))"
      using digits by blast
    moreover have "strip (int_str i) = int_str i"
      by (rule strip_clean) (simp add: int_str_def True clean minus)
    ultimately show ?thesis using True by (simp add: parse_int_def int_str_def)
  next
    case False
    obtain c cs v where d: "nat_str (nat i) = c # cs" "digit_value c = Some v" "parse_digits v cs = Some (int (nat i))"
      using digits by blast
    moreover have "strip (int_str i) = int_str i"
      by (rule strip_clean) (simp add: int_str_def False clean)
    ultimately show ?thesis using False digit_chars[of c] by (simp add: parse_int_def int_str_def)
  qed
qed

text \<open>The key of an object leads back to it.\<close>

lemma instance_of_key:
  assumes "CHR '':'' \<notin> set tn"
  shows "get_instance_from_key (make_key tn pk) h = Inr (h_rows h tn pk)"
  by (simp add: get_instance_from_key_def split_make_key[OF assms] parse_int_str)

section \<open>Who is let in\<close>

lemma edit_comment_runs:
  assumes "h_rows h (hv_content_type v) pk = Some ob" and "view_entry v pk i h = Some e"
    and "check_entry ac v u ''edit_comment'' ob e h = (Inr (), h)" and "\<not> comment_deleted e"
    and "pr_id (hv_project v ob) \<notin> set (hv_blocked v)" and "pr_id (hv_project v ob) \<notin> set (hv_archived v)"
    and "get_instance_from_key (he_key e) h = Inr (Some ob')"
  shows "edit_comment ac v u pk i (Some body) h = (Inr (Response_Ok (get_new_mentions v ob' (he_comment e) body)),
     replaced (edited_entry v u ob' e body (h_now h)) h)"
  using assms by (simp add: edit_comment_def view_object_def bindE_lift get_object_or_error_def
      raise_if_project_blocked_or_archived_def bindE_apply retE_apply save_entry_apply)

text \<open>
  An entry made without a user stores a null author, and so does an anonymous request: the two
  are the same to the check, and anyone may edit the comment.
\<close>

theorem anonymous_edits_unowned_entries:
  assumes R: "hv_permission v \<in> set history_permissions" and ob: "h_rows h (hv_content_type v) pk = Some ob"
    and e: "view_entry v pk i h = Some e" and unowned: "fst (he_user e) = None" and "\<not> comment_deleted e"
    and "pr_id (hv_project v ob) \<notin> set (hv_blocked v)" and "pr_id (hv_project v ob) \<notin> set (hv_archived v)"
    and key: "split_key (he_key e) = Inr k" and "map_of (ac_instances ac) k = Some po"
    and "get_instance_from_key (he_key e) h = Inr (Some ob')"
  shows "edit_comment ac v AnonymousUser pk i (Some body) h
    = (Inr (Response_Ok (get_new_mentions v ob' (he_comment e) body)),
       replaced (edited_entry v AnonymousUser ob' e body (h_now h)) h)"
proof -
  have "check_entry ac v AnonymousUser ''edit_comment'' ob e h = (Inr (), h)"
    using key assms(9) unowned
    by (cases "is_project_admin ac AnonymousUser po") (simp_all add: check_entry_def view_check_ok resource_check_def
        comment_permissions[OF R] is_comment_project_admin_def is_comment_owner_def json_user_is_iff)
  from edit_comment_runs[OF ob e this assms(5-7,10)] show ?thesis .
qed

text \<open>Restoring a comment does not ask whether the project is blocked or archived.\<close>

theorem restores_in_blocked_projects:
  assumes R: "hv_permission v \<in> set history_permissions" and ob: "h_rows h (hv_content_type v) pk = Some ob"
    and e: "view_entry v pk i h = Some e" and deleted: "he_delete_comment_user e = Some (Some n, name)"
    and key: "split_key (he_key e) = Inr k" and "map_of (ac_instances ac) k = Some po"
  shows "undelete_comment ac v (User n False) pk i h
    = (Inr (Response_Ok ()), replaced (e\<lparr>he_delete_comment_date := None, he_delete_comment_user := None\<rparr>) h)"
proof -
  have "check_entry ac v (User n False) ''undelete_comment'' ob e h = (Inr (), h)"
    using key assms(6) deleted
    by (cases "is_project_admin ac (User n False) po") (simp_all add: check_entry_def view_check_ok resource_check_def
        comment_permissions[OF R] is_comment_project_admin_def is_comment_deleter_def json_user_is_iff)
  then show ?thesis using ob e deleted
    by (simp add: undelete_comment_def view_object_def bindE_lift get_object_or_error_def bindE_apply retE_apply save_entry_apply)
qed

section \<open>An example\<close>

definition demo_project :: project where
  "demo_project = \<lparr>pr_id = 1, pr_owner_id = Some 7, pr_is_private = False, pr_anon_permissions = Some [],
     pr_public_permissions = Some [], pr_is_contact_activated = False\<rparr>"

definition demo_view :: "object_row history_view" where
  "demo_view = \<lparr>hv_content_type = ''wiki.wikipage'', hv_permission = WikiHistoryPermission,
     hv_project = (\<lambda>_. demo_project), hv_owner = (\<lambda>_. Some 7), hv_blocked = [], hv_archived = [],
     hv_mdrender = (\<lambda>_ s. s), hv_project_mentions = (\<lambda>_ _. []), hv_object_mentions = (\<lambda>_ _. []),
     hv_full_name = (\<lambda>_. ''Ann'')\<rparr>"

definition demo_access :: access where
  "demo_access = \<lparr>ac_projects = [demo_project], ac_memberships = [], ac_active_users = [7],
     ac_instances = [((''wiki.wikipage'', ''3''), Some demo_project)], ac_private_user_profiles = False\<rparr>"

definition demo_entry :: entry where
  "demo_entry = \<lparr>he_id = 0, he_project_id = 1, he_user = (Some 7, ''Ann''), he_created_at = 5, he_type = Change,
     he_key = make_key ''wiki.wikipage'' 3, he_diff = [], he_snapshot = None, he_values = [], he_comment = ''old'',
     he_comment_html = ''old'', he_delete_comment_date = None, he_delete_comment_user = None,
     he_comment_versions = None, he_edit_comment_date = None, he_is_hidden = False, he_is_snapshot = False\<rparr>"

definition demo_commented :: "object_row hist" where
  "demo_commented = \<lparr>h_entries = [demo_entry], h_rows = (\<lambda>_ _. Some demo_page), h_names = no_names, h_now = 9\<rparr>"

lemma demo_edit: "snd (edit_comment demo_access demo_view (User 7 False) 3 (Some 0) (Some ''new'') demo_commented)
    = demo_commented\<lparr>h_entries := [edited_entry demo_view (User 7 False) demo_page demo_entry ''new'' 9]\<rparr>"
proof -
  have "int_str 3 = ''3''" by code_simp
  then have key: "split_key (make_key ''wiki.wikipage'' 3) = Inr (''wiki.wikipage'', ''3'')"
    using split_make_key[of "''wiki.wikipage''" 3] by simp
  have e: "view_entry demo_view 3 (Some 0) demo_commented = Some demo_entry"
    by (simp add: view_entry_def get_history_queryset_by_model_instance_def demo_commented_def demo_entry_def demo_view_def)
  have R: "hv_permission demo_view \<in> set history_permissions" by (simp add: demo_view_def history_permissions_def)
  have check: "check_entry demo_access demo_view (User 7 False) ''edit_comment'' ob demo_entry h = (Inr (), h)" for ob h
    by (simp add: check_entry_def view_check_ok resource_check_def comment_permissions[OF R] is_comment_project_admin_def
        is_comment_owner_def json_user_is_iff demo_entry_def key demo_access_def)
  have inst: "get_instance_from_key (he_key demo_entry) demo_commented = Inr (Some demo_page)"
    using instance_of_key[of "''wiki.wikipage''" 3 demo_commented] by (simp add: demo_entry_def demo_commented_def)
  have "edit_comment demo_access demo_view (User 7 False) 3 (Some 0) (Some ''new'') demo_commented
    = (Inr (Response_Ok (get_new_mentions demo_view demo_page (he_comment demo_entry) ''new'')),
       replaced (edited_entry demo_view (User 7 False) demo_page demo_entry ''new'' (h_now demo_commented)) demo_commented)"
    by (rule edit_comment_runs[OF _ e check _ _ _ inst])
      (simp_all add: demo_commented_def comment_deleted_def demo_entry_def demo_view_def)
  then show ?thesis by (simp add: replaced_def annotated_def demo_commented_def)
qed

section \<open>Properties\<close>

text \<open>C10: Nothing in the history is ever lost. Whatever snapshots are taken and whatever comments are
  edited, deleted or restored, by anyone, every entry stays where it is with its object, author,
  time, diff, snapshot and values unchanged, and every text its comment ever had stays in its
  versions, in order.\<close>

theorem history_never_lost:
  assumes "(history_system rg)\<^sup>*\<^sup>* empty_history h" and "(history_system rg)\<^sup>*\<^sup>* h h'"
  shows "length (h_entries h) \<le> length (h_entries h')
    \<and> (\<forall>i \<in> {..< length (h_entries h)}. same_record (h_entries h ! i) (h_entries h' ! i)
         \<and> (\<exists>more. comment_texts (h_entries h' ! i) = comment_texts (h_entries h ! i) @ more))"
  using system_reach[OF assms(2)] system_reach[OF assms(1) empty_ids] by (auto simp: grows_def kept_def)

text \<open>
  A superuser or an administrator of the project, or the authenticated user whose id is stored,
  as the author of the entry or the one who deleted its comment.
\<close>

definition entitled :: "access \<Rightarrow> user \<Rightarrow> project \<Rightarrow> int option \<Rightarrow> bool" where
  "entitled ac u p stored \<longleftrightarrow>
     is_superuser u \<or> is_project_admin ac u (Some p) \<or> (\<exists>n super. u = User n super \<and> stored = Some n)"

lemma entitled_cases:
  "is_superuser u \<or> is_project_admin ac u (Some p) \<or> stored = user_id u \<Longrightarrow>
     entitled ac u p stored \<or> (u = AnonymousUser \<and> stored = None)"
  by (cases u) (auto simp: entitled_def)

text \<open>The lookup of the administrator check finds the viewed object.\<close>

lemma passed_entitled:
  assumes R: "hv_permission v \<in> set history_permissions" and type: "CHR '':'' \<notin> set (hv_content_type v)"
    and lookup: "\<And>po. map_of (ac_instances ac) (hv_content_type v, int_str pk) = Some po \<Longrightarrow> po = Some (hv_project v ob)"
    and e: "view_entry v pk i h = Some e"
    and check: "check_entry ac v u action ob e h = (Inr x, h')"
  shows "action \<in> {''edit_comment'', ''delete_comment''} \<Longrightarrow>
      entitled ac u (hv_project v ob) (fst (he_user e)) \<or> (u = AnonymousUser \<and> fst (he_user e) = None)"
    and "action = ''undelete_comment'' \<Longrightarrow>
      is_superuser u \<or> is_project_admin ac u (Some (hv_project v ob))
      \<or> (\<exists>stored name. he_delete_comment_user e = Some (stored, name)
           \<and> (entitled ac u (hv_project v ob) stored \<or> (u = AnonymousUser \<and> stored = None)))"
proof -
  have key: "split_key (he_key e) = Inr (hv_content_type v, int_str pk)"
    using view_entry_mem[OF e] split_make_key[OF type] by simp
  have passed: "is_superuser u \<or> is_project_admin ac u (Some (hv_project v ob))
      \<or> (if action = ''undelete_comment'' then map_option fst (he_delete_comment_user e) else Some (fst (he_user e)))
          = Some (user_id u)"
    if "action \<in> {''edit_comment'', ''delete_comment'', ''undelete_comment''}"
    using check_entry_passed[OF R check that] key lookup by fastforce
  show "entitled ac u (hv_project v ob) (fst (he_user e)) \<or> (u = AnonymousUser \<and> fst (he_user e) = None)"
    if "action \<in> {''edit_comment'', ''delete_comment''}"
    by (rule entitled_cases) (use passed that in auto)
  show "is_superuser u \<or> is_project_admin ac u (Some (hv_project v ob))
      \<or> (\<exists>stored name. he_delete_comment_user e = Some (stored, name)
           \<and> (entitled ac u (hv_project v ob) stored \<or> (u = AnonymousUser \<and> stored = None)))"
    if "action = ''undelete_comment''"
    using passed that entitled_cases[of u ac "hv_project v ob"] by (cases "he_delete_comment_user e") auto
qed

text \<open>C12: Who may change comments. The administrator check looks the object up by the key of the
  entry; it is assumed to find the row of the viewed object, and so its project. Then an edit
  that changes anything was made by a superuser, an administrator of the object's project or
  the authenticated user stored as the author of the entry, or (the one gap, see
  \<open>anonymous_edits_unowned_entries\<close>) by an anonymous user when the entry was stored without an
  author. A deletion was made by one of the first three, never by an anonymous user. A
  restoration was made by a superuser, an administrator or the authenticated user stored as the
  one who deleted the comment (who need not be its author), or by an anonymous user when the
  deletion was stored without a user. Edits and deletions only happen in projects that are
  neither blocked nor archived and to comments that are not deleted, restorations only to
  comments that are.\<close>

theorem comment_changes_authorised:
  assumes R: "hv_permission v \<in> set history_permissions" and type: "CHR '':'' \<notin> set (hv_content_type v)"
    and lookup: "\<And>ob po. h_rows h (hv_content_type v) pk = Some ob \<Longrightarrow>
       map_of (ac_instances ac) (hv_content_type v, int_str pk) = Some po \<Longrightarrow> po = Some (hv_project v ob)"
  shows "(snd (edit_comment ac v u pk i c h) \<noteq> h \<longrightarrow>
      (\<exists>ob e. h_rows h (hv_content_type v) pk = Some ob \<and> view_entry v pk i h = Some e
        \<and> pr_id (hv_project v ob) \<notin> set (hv_blocked v) \<union> set (hv_archived v) \<and> \<not> comment_deleted e
        \<and> (entitled ac u (hv_project v ob) (fst (he_user e)) \<or> (u = AnonymousUser \<and> fst (he_user e) = None))))
    \<and> (snd (delete_comment ac v u pk i h) \<noteq> h \<longrightarrow>
      (\<exists>ob e. h_rows h (hv_content_type v) pk = Some ob \<and> view_entry v pk i h = Some e \<and> is_authenticated u
        \<and> pr_id (hv_project v ob) \<notin> set (hv_blocked v) \<union> set (hv_archived v) \<and> \<not> comment_deleted e
        \<and> entitled ac u (hv_project v ob) (fst (he_user e))))
    \<and> (snd (undelete_comment ac v u pk i h) \<noteq> h \<longrightarrow>
      (\<exists>ob e. h_rows h (hv_content_type v) pk = Some ob \<and> view_entry v pk i h = Some e \<and> comment_deleted e
        \<and> (is_superuser u \<or> is_project_admin ac u (Some (hv_project v ob))
           \<or> (\<exists>stored name. he_delete_comment_user e = Some (stored, name)
                \<and> (entitled ac u (hv_project v ob) stored \<or> (u = AnonymousUser \<and> stored = None))))))"
proof (intro conjI impI)
  note entitled = passed_entitled[OF R type lookup]
  assume c: "snd (edit_comment ac v u pk i c h) \<noteq> h"
  obtain r h' where run: "edit_comment ac v u pk i c h = (r, h')" by (cases "edit_comment ac v u pk i c h")
  from c have "h' \<noteq> h" by (simp add: run)
  from edit_comment_changes[OF run this] obtain ob e where ob: "h_rows h (hv_content_type v) pk = Some ob"
    and e: "view_entry v pk i h = Some e" and check: "check_entry ac v u ''edit_comment'' ob e h = (Inr (), h)"
    and rest: "pr_id (hv_project v ob) \<notin> set (hv_blocked v)" "pr_id (hv_project v ob) \<notin> set (hv_archived v)"
      "\<not> comment_deleted e" by metis
  show "\<exists>ob e. h_rows h (hv_content_type v) pk = Some ob \<and> view_entry v pk i h = Some e
        \<and> pr_id (hv_project v ob) \<notin> set (hv_blocked v) \<union> set (hv_archived v) \<and> \<not> comment_deleted e
        \<and> (entitled ac u (hv_project v ob) (fst (he_user e)) \<or> (u = AnonymousUser \<and> fst (he_user e) = None))"
    using ob e rest entitled(1)[OF ob _ e check] by (intro exI[of _ ob] exI[of _ e]) simp
next
  note entitled = passed_entitled[OF R type lookup]
  assume c: "snd (delete_comment ac v u pk i h) \<noteq> h"
  obtain r h' where run: "delete_comment ac v u pk i h = (r, h')" by (cases "delete_comment ac v u pk i h")
  from c have "h' \<noteq> h" by (simp add: run)
  from delete_comment_changes[OF run this] obtain ob e where ob: "h_rows h (hv_content_type v) pk = Some ob"
    and e: "view_entry v pk i h = Some e" and check: "check_entry ac v u ''delete_comment'' ob e h = (Inr (), h)"
    and rest: "pr_id (hv_project v ob) \<notin> set (hv_blocked v)" "pr_id (hv_project v ob) \<notin> set (hv_archived v)"
      "\<not> comment_deleted e" "is_authenticated u" by metis
  show "\<exists>ob e. h_rows h (hv_content_type v) pk = Some ob \<and> view_entry v pk i h = Some e \<and> is_authenticated u
        \<and> pr_id (hv_project v ob) \<notin> set (hv_blocked v) \<union> set (hv_archived v) \<and> \<not> comment_deleted e
        \<and> entitled ac u (hv_project v ob) (fst (he_user e))"
    using ob e rest entitled(1)[OF ob _ e check] by (intro exI[of _ ob] exI[of _ e]) auto
next
  note entitled = passed_entitled[OF R type lookup]
  assume c: "snd (undelete_comment ac v u pk i h) \<noteq> h"
  obtain r h' where run: "undelete_comment ac v u pk i h = (r, h')" by (cases "undelete_comment ac v u pk i h")
  from c have "h' \<noteq> h" by (simp add: run)
  from undelete_comment_changes[OF run this] obtain ob e where ob: "h_rows h (hv_content_type v) pk = Some ob"
    and e: "view_entry v pk i h = Some e" and check: "check_entry ac v u ''undelete_comment'' ob e h = (Inr (), h)"
    and rest: "comment_deleted e" by metis
  show "\<exists>ob e. h_rows h (hv_content_type v) pk = Some ob \<and> view_entry v pk i h = Some e \<and> comment_deleted e
        \<and> (is_superuser u \<or> is_project_admin ac u (Some (hv_project v ob))
           \<or> (\<exists>stored name. he_delete_comment_user e = Some (stored, name)
                \<and> (entitled ac u (hv_project v ob) stored \<or> (u = AnonymousUser \<and> stored = None))))"
    using ob e rest entitled(2)[OF ob _ e check HOL.refl] by (intro exI[of _ ob] exI[of _ e]) simp
qed

theorem comment_changes_authorised_witness:
  "entitled demo_access (User 7 False) demo_project (fst (he_user demo_entry))"
proof -
  let ?h' = "snd (edit_comment demo_access demo_view (User 7 False) 3 (Some 0) (Some ''new'') demo_commented)"
  have "he_comment (h_entries ?h' ! 0) = ''new''" unfolding demo_edit by (simp add: edited_entry_def Let_def)
  moreover have "he_comment (h_entries demo_commented ! 0) = ''old''" by (simp add: demo_commented_def demo_entry_def)
  ultimately have changed: "?h' \<noteq> demo_commented" by auto
  have R: "hv_permission demo_view \<in> set history_permissions" by (simp add: demo_view_def history_permissions_def)
  have T: "CHR '':'' \<notin> set (hv_content_type demo_view)" by (simp add: demo_view_def)
  have L: "po = Some (hv_project demo_view ob)"
    if "h_rows demo_commented (hv_content_type demo_view) 3 = Some ob"
      "map_of (ac_instances demo_access) (hv_content_type demo_view, int_str 3) = Some po" for ob po
    using that(2) by (simp add: demo_access_def demo_view_def split: if_splits)
  have "view_entry demo_view 3 (Some 0) demo_commented = Some demo_entry"
    by (simp add: view_entry_def get_history_queryset_by_model_instance_def demo_commented_def demo_entry_def demo_view_def)
  then show ?thesis
    using comment_changes_authorised[where h = demo_commented and pk = 3 and ac = demo_access, OF R T L, where u = "User 7 False" and i = "Some 0"
        and c = "Some ''new''"] changed
    by (auto simp: demo_view_def)
qed

theorem history_never_lost_witness:
  "length (h_entries (demo_rows demo_page)) \<le> length (h_entries (demo_taken demo_page))"
proof -
  have a: "(history_system demo_registry)\<^sup>*\<^sup>* empty_history (demo_rows demo_page)"
    unfolding demo_rows_def by (rule r_into_rtranclp, rule history_system.change)
  have b: "(history_system demo_registry)\<^sup>*\<^sup>* (demo_rows demo_page) (demo_taken demo_page)"
    unfolding demo_taken_def by (rule r_into_rtranclp, rule history_system.snapshot)
  from history_never_lost[OF a b] show ?thesis by simp
qed

end
