(* ===== verification/Occ.thy ===== *)
theory Occ
  imports History_Values
begin

text \<open>
  Optimistic concurrency control, \<open>taiga/projects/occ/mixins.py\<close>: an update names the version it
  was made from, and is refused when a field it sets was changed since, as the history shows. With
  it the part of \<open>UpdateModelMixin.update\<close> (\<open>taiga/base/api/mixins.py\<close>) from \<open>pre_save\<close> on.
\<close>

text \<open>The history and the column \<open>version\<close> of the stored objects, by type and key.\<close>

record 'o occ =
  oc_hist :: "'o hist"
  oc_version :: "string \<Rightarrow> int \<Rightarrow> int"

section \<open>The version of a request\<close>

definition extract_param_version :: "(string \<times> pyval) list \<Rightarrow> pyval res" where
  "extract_param_version data =
     (let param_version = (case map_of data ''version'' of None \<Rightarrow> VNone | Some v \<Rightarrow> v) in
      if \<not> py_truth param_version then Inr param_version
      else case py_int param_version of
          Inr i \<Rightarrow> Inr (VInt i)
        | Inl e \<Rightarrow> Inl (WrongArguments ''The version must be an integer''))"

text \<open>
  A false value is not converted, so an empty string or container meets \<open>param_version < 0\<close>, a
  \<open>TypeError\<close>.
\<close>

definition validate_param_version :: "pyval \<Rightarrow> int option \<Rightarrow> bool res" where
  "validate_param_version param_version current_version =
     (let check = (\<lambda>p. if p < 0 then False
          else case current_version of None \<Rightarrow> True | Some c \<Rightarrow> \<not> p > c) in
      case param_version of
        VNone \<Rightarrow> Inr False
      | VInt p \<Rightarrow> Inr (check p)
      | VBool b \<Rightarrow> Inr (check (if b then 1 else 0))
      | VStr _ \<Rightarrow> Inl TypeError
      | VContainer _ \<Rightarrow> Inl TypeError)"

definition version_number :: "pyval \<Rightarrow> int" where
  "version_number v = (case v of VInt p \<Rightarrow> p | VBool b \<Rightarrow> (if b then 1 else 0) | _ \<Rightarrow> 0)"

text \<open>
  The check for a stored object: its key, its current version, and the request. Whether
  \<open>version\<close> is among the modified fields is asked after it was removed from the modifying ones.
\<close>

definition validate_version :: "string \<Rightarrow> int \<Rightarrow> (string \<times> pyval) list \<Rightarrow> ('o hist, unit) qry" where
  "validate_version key current_version data = (\<lambda>h.
     case extract_param_version data of
       Inl e \<Rightarrow> Inl e
     | Inr param_version \<Rightarrow> (case validate_param_version param_version (Some current_version) of
         Inl e \<Rightarrow> Inl e
       | Inr valid \<Rightarrow>
           if \<not> valid then Inl (WrongArguments ''The version parameter is not valid'')
           else if current_version \<noteq> version_number param_version then
             (let diff_versions = current_version - version_number param_version;
                  modifying_fields = set (map fst data) - {''version''};
                  modified_fields = set (get_modified_fields key (nat diff_versions) h);
                  modified_fields = (if ''version'' \<in> modifying_fields then modified_fields - {''version''} else modified_fields);
                  both_modified = modifying_fields \<inter> modified_fields in
              if both_modified \<noteq> {} then Inl (WrongArguments ''The version doesn't match with the current one'')
              else Inr ())
           else Inr ()))"

section \<open>Updates\<close>

text \<open>
  \<open>save\<close> is what the validated request makes of the stored object. The permission checks and the
  validator come before, and are models of their own.
\<close>

definition update_object :: "'o registry \<Rightarrow> string \<Rightarrow> int \<Rightarrow> int \<Rightarrow> (string \<times> pyval) list \<Rightarrow> string \<Rightarrow> user_json \<Rightarrow>
    ('o \<Rightarrow> 'o) \<Rightarrow> ('o occ, entry option) eff" where
  "update_object rg tn pk project data comment user save = atomicE (\<lambda>s.
     case h_rows (oc_hist s) tn pk of
       None \<Rightarrow> (Inl NotFound, s)
     | Some ob \<Rightarrow> (case validate_version (make_key tn pk) (oc_version s tn pk) data (oc_hist s) of
         Inl e \<Rightarrow> (Inl e, s)
       | Inr _ \<Rightarrow>
           (let rows = h_rows (oc_hist s);
                h = (oc_hist s)\<lparr>h_rows := rows(tn := (rows tn)(pk := Some (save ob)))\<rparr>;
                versions = oc_version s;
                versions = versions(tn := (versions tn)(pk := versions tn pk + 1)) in
            case take_snapshot rg tn pk project comment user False h of (r, h) \<Rightarrow>
              (r, s\<lparr>oc_hist := h, oc_version := versions\<rparr>))))"

text \<open>
  A change past the view: a service writes columns of the stored object and takes a snapshot, and
  the version stays. The moves on the backlog and the kanban board are of this kind
  (\<open>userstories/services.py\<close>: \<open>_async_tasks_after_backlog_or_sprint_order_change\<close>,
  \<open>_async_tasks_after_kanban_order_change\<close>), and so are attachments and the hooks of other services.
\<close>

definition unversioned_change :: "'o registry \<Rightarrow> string \<Rightarrow> int \<Rightarrow> int \<Rightarrow> string \<Rightarrow> user_json \<Rightarrow>
    ('o \<Rightarrow> 'o) \<Rightarrow> ('o occ, entry option) eff" where
  "unversioned_change rg tn pk project comment user change = (\<lambda>s.
     case h_rows (oc_hist s) tn pk of
       None \<Rightarrow> (Inl NotFound, s)
     | Some ob \<Rightarrow>
         (let rows = h_rows (oc_hist s);
              h = (oc_hist s)\<lparr>h_rows := rows(tn := (rows tn)(pk := Some (change ob)))\<rparr> in
          case take_snapshot rg tn pk project comment user False h of (r, h) \<Rightarrow> (r, s\<lparr>oc_hist := h\<rparr>)))"

end
