(* ===== verification/Occ_Props.thy ===== *)
theory Occ_Props
  imports Occ History_Objects
begin

text \<open>
  No update is lost: what an accepted update overwrites is what its author had seen. The fields
  the history does not record are the exception.
\<close>

section \<open>The entries of an object\<close>

definition entries_of :: "string \<Rightarrow> 'o hist \<Rightarrow> entry list" where
  "entries_of key h = filter (\<lambda>e. he_key e = key) (h_entries h)"

lemma modified_fields_eq:
  assumes "history_ok h"
  shows "set (get_modified_fields key n h) = (\<Union>e \<in> set (take n (rev (entries_of key h))). fst ` set (he_diff e))"
  using assms by (simp add: get_modified_fields_def history_ok_def times_sorted entries_of_def)

lemma last_full_of:
  assumes "history_ok h"
  shows "last_full key h = (case rev (filter he_is_snapshot (entries_of key h)) of [] \<Rightarrow> None | e # _ \<Rightarrow> Some e)"
    and "partials_since key since h = filter (\<lambda>e. \<not> he_is_snapshot e \<and> he_created_at e \<ge> since) (entries_of key h)"
  by (simp_all add: last_full_eq[OF assms] partials_eq[OF assms] entries_of_def conj_ac)

lemma last_known_same_entries:
  assumes "history_ok h" and "history_ok h'" and "entries_of (make_key tn pk) h' = entries_of (make_key tn pk) h"
  shows "last_known rg tn pk h' = last_known rg tn pk h"
proof -
  have "last_full (make_key tn pk) h' = last_full (make_key tn pk) h"
    "partials_since (make_key tn pk) since h' = partials_since (make_key tn pk) since h" for since
    unfolding last_full_of[OF assms(1)] last_full_of[OF assms(2)] assms(3) by (rule refl)+
  then show ?thesis by (simp only: last_known_def get_last_eq)
qed

lemma rebuild_annotated:
  assumes "\<And>e. e \<in> set es \<Longrightarrow> same_record e (f e)"
  shows "rebuild_snapshot_from_diffs d (map f es) = rebuild_snapshot_from_diffs d es"
  using assms unfolding rebuild_snapshot_from_diffs_def
  by (induction es arbitrary: d) (simp_all add: same_record_def)

lemma last_known_annotated:
  assumes f: "\<And>e. e \<in> set (h_entries h) \<Longrightarrow> same_record e (f e)" and h: "history_ok h"
  shows "last_known rg tn pk (annotated f h) = last_known rg tn pk h"
proof (cases "last_full (make_key tn pk) h")
  case None
  then show ?thesis by (simp add: last_known_def get_last_eq annotated_last[OF f h])
next
  case (Some e)
  have e: "same_record e (f e)" using f last_full_mem[OF h Some] by blast
  have "set (partials_since (make_key tn pk) (he_created_at e) h) \<subseteq> set (h_entries h)"
    by (auto simp: partials_eq[OF h])
  then have "rebuild_snapshot_from_diffs d (map f (partials_since (make_key tn pk) (he_created_at e) h))
      = rebuild_snapshot_from_diffs d (partials_since (make_key tn pk) (he_created_at e) h)" for d
    by (intro rebuild_annotated) (use f in blast)
  then show ?thesis using e
    by (simp add: last_known_def get_last_eq annotated_last[OF f h] Some same_record_def base_of_def)
qed

section \<open>Steps\<close>

text \<open>
  What happens to an object: updates through the view, accepted or refused, that leave it an object
  of its type; changes past the view that take a snapshot but leave the version alone; changes of the
  comments in its history; and anything that concerns other objects. Columns can also be written
  without any snapshot (the orders of the neighbours of a moved story): no check of versions sees
  that, and such writes are not among the steps.
\<close>

inductive occ_step :: "object_row registry \<Rightarrow> string \<Rightarrow> int \<Rightarrow> object_row occ \<Rightarrow> object_row occ \<Rightarrow> bool" for rg tn pk where
  update: "(\<And>row. h_rows (oc_hist s) tn pk = Some row \<Longrightarrow> stored_row (save row) \<and> typename_of (save row) = typename_of row) \<Longrightarrow>
     occ_step rg tn pk s (snd (update_object rg tn pk project data comment user save s))"
| past_the_view: "(\<And>row. h_rows (oc_hist s) tn pk = Some row \<Longrightarrow> stored_row (change row) \<and> typename_of (change row) = typename_of row) \<Longrightarrow>
     unversioned_change rg tn pk project comment user change s = (Inr x, s') \<Longrightarrow> occ_step rg tn pk s s'"
| comments: "(\<And>e. e \<in> set (h_entries (oc_hist s)) \<Longrightarrow> same_record e (f e)) \<Longrightarrow>
     occ_step rg tn pk s (s\<lparr>oc_hist := annotated f (oc_hist s)\<rparr>)"
| elsewhere: "history_ok (oc_hist s') \<Longrightarrow> h_rows (oc_hist s') tn pk = h_rows (oc_hist s) tn pk \<Longrightarrow>
     oc_version s' tn pk = oc_version s tn pk \<Longrightarrow>
     entries_of (make_key tn pk) (oc_hist s') = entries_of (make_key tn pk) (oc_hist s) \<Longrightarrow> occ_step rg tn pk s s'"

text \<open>The object is stored and its history is up to date, as after its creation or any update.\<close>

definition synced :: "object_row registry \<Rightarrow> (int \<Rightarrow> string \<Rightarrow> string) \<Rightarrow> string \<Rightarrow> int \<Rightarrow> object_row \<Rightarrow> object_row occ \<Rightarrow> bool" where
  "synced rg mdrender tn pk row s \<longleftrightarrow> history_ok (oc_hist s) \<and> h_rows (oc_hist s) tn pk = Some row
     \<and> stored_row row \<and> typename_of row = tn \<and> tn \<noteq> ''milestones.milestone''
     \<and> (\<exists>S. last_known rg tn pk (oc_hist s) = Inr (Some S) \<and> distinct (map fst (fo_snapshot S))
          \<and> make_diff (Some S) (Some \<lparr>fo_key = make_key tn pk, fo_snapshot = freeze_row mdrender row\<rparr>)
              (get_excluded_fields tn) = Inr [])"

definition recorded :: "string \<Rightarrow> string \<Rightarrow> bool" where
  "recorded tn k \<longleftrightarrow> k \<notin> get_excluded_fields tn \<and> k \<noteq> ''attachments''"

lemma no_milestone: "typename_of row \<noteq> ''milestones.milestone'' \<Longrightarrow> \<not> is_milestone_row row"
  by (cases row) simp_all

text \<open>What a snapshot of the changed row adds to the history.\<close>

definition changes_recorded :: "(int \<Rightarrow> string \<Rightarrow> string) \<Rightarrow> string \<Rightarrow> object_row \<Rightarrow> object_row \<Rightarrow> entry list \<Rightarrow> bool" where
  "changes_recorded mdrender tn row row' E \<longleftrightarrow>
     (\<forall>k. recorded tn k \<longrightarrow> value_at (freeze_row mdrender row') k \<noteq> value_at (freeze_row mdrender row) k
        \<longrightarrow> (\<exists>e \<in> set E. k \<in> fst ` set (he_diff e)))"

lemma changes_recordedD:
  "changes_recorded mdrender tn row row' E \<Longrightarrow> recorded tn k \<Longrightarrow>
     value_at (freeze_row mdrender row') k \<noteq> value_at (freeze_row mdrender row) k \<Longrightarrow> \<exists>e \<in> set E. k \<in> fst ` set (he_diff e)"
  unfolding changes_recorded_def by blast

lemma changes_recorded_trans:
  assumes "changes_recorded mdrender tn row row' E" and "changes_recorded mdrender tn row' row'' E'"
  shows "changes_recorded mdrender tn row row'' (E @ E')"
  unfolding changes_recorded_def
proof (intro allI impI)
  fix k assume k: "recorded tn k" "value_at (freeze_row mdrender row'') k \<noteq> value_at (freeze_row mdrender row) k"
  show "\<exists>e \<in> set (E @ E'). k \<in> fst ` set (he_diff e)"
  proof (cases "value_at (freeze_row mdrender row') k = value_at (freeze_row mdrender row) k")
    case True
    then have "\<exists>e \<in> set E'. k \<in> fst ` set (he_diff e)" using changes_recordedD[OF assms(2) k(1)] k(2) by simp
    then show ?thesis by auto
  next
    case False
    from changes_recordedD[OF assms(1) k(1) this] show ?thesis by auto
  qed
qed

lemma resnapped:
  assumes synced: "synced (history_registry mdrender m) mdrender tn pk row s"
    and save: "stored_row (save row) \<and> typename_of (save row) = typename_of row"
    and snap: "take_snapshot (history_registry mdrender m) tn pk project comment user False
       ((oc_hist s)\<lparr>h_rows := (h_rows (oc_hist s))(tn := (h_rows (oc_hist s) tn)(pk := Some (save row)))\<rparr>) = (Inr x, h1)"
  shows "synced (history_registry mdrender m) mdrender tn pk (save row) (s\<lparr>oc_hist := h1, oc_version := versions\<rparr>)"
    and "\<exists>E. entries_of (make_key tn pk) h1 = entries_of (make_key tn pk) (oc_hist s) @ E \<and> length E \<le> 1
      \<and> changes_recorded mdrender tn row (save row) E"
proof -
  let ?rg = "history_registry mdrender m" and ?key = "make_key tn pk"
  let ?h = "(oc_hist s)\<lparr>h_rows := (h_rows (oc_hist s))(tn := (h_rows (oc_hist s) tn)(pk := Some (save row)))\<rparr>"
  have row: "h_rows (oc_hist s) tn pk = Some row" and ok: "history_ok (oc_hist s)" and tn: "typename_of row = tn"
    using synced by (simp_all add: synced_def)
  have okh: "history_ok ?h" using ok by (simp add: history_ok_def)
  have ob: "h_rows ?h tn pk = Some (save row)" by simp
  have f: "rg_freeze ?rg tn = Some (freeze_row mdrender)" using registered[of mdrender m "save row"] save tn by simp
  have p: "plain tn (freeze_row mdrender (save row))"
    using frozen_plain[of "save row" mdrender] save tn no_milestone synced by (simp add: synced_def)
  obtain S where S: "last_known ?rg tn pk (oc_hist s) = Inr (Some S)" "distinct (map fst (fo_snapshot S))"
    "make_diff (Some S) (Some \<lparr>fo_key = ?key, fo_snapshot = freeze_row mdrender row\<rparr>) (get_excluded_fields tn) = Inr []"
    using synced by (auto simp: synced_def)
  have S': "last_known ?rg tn pk ?h = Inr (Some S)" using S(1) last_known_same_entries[OF ok okh] by (simp add: entries_of_def)
  from known_after[OF okh snap ob f p]
  have after: "history_ok h1" "\<exists>S. last_known ?rg tn pk h1 = Inr (Some S) \<and> distinct (map fst (fo_snapshot S))
     \<and> make_diff (Some S) (Some \<lparr>fo_key = ?key, fo_snapshot = freeze_row mdrender (save row)\<rparr>) (get_excluded_fields tn) = Inr []" by auto
  have "h_rows h1 tn pk = Some (save row) \<and> (\<exists>E. entries_of ?key h1 = entries_of ?key (oc_hist s) @ E \<and> length E \<le> 1
      \<and> changes_recorded mdrender tn row (save row) E)"
  proof (rule take_snapshot_cases[OF snap ob f])
    fix raw need old D
    assume old: "last_known ?rg tn pk ?h = Inr old"
      and D: "make_diff old (Some \<lparr>fo_key = ?key, fo_snapshot = freeze_row mdrender (save row)\<rparr>) (get_excluded_fields tn) = Inr D"
      and res: "snapshot_result ?key (freeze_row mdrender (save row)) need old D comment False ?h x h1"
    have o: "old = Some S" using old S' by simp
    have changed: "k \<in> fst ` set D"
      if k: "recorded tn k" "value_at (freeze_row mdrender (save row)) k \<noteq> value_at (freeze_row mdrender row) k" for k
    proof -
      have "value_at (fo_snapshot S) k = value_at (freeze_row mdrender row) k"
        using make_diff_spec(2)[OF S(3) S(2), of k] k(1) frozen_distinct by (simp add: recorded_def split: if_splits)
      then have "map_of D k \<noteq> None"
        using make_diff_spec(2)[OF D[unfolded o] S(2), of k] k frozen_distinct by (simp add: recorded_def)
      then show ?thesis by (metis map_of_eq_None_iff)
    qed
    from res show ?thesis
    proof (cases rule: snapshot_resultE)
      case unchanged
      then show ?thesis using changed by (auto simp: changes_recorded_def entries_of_def intro!: exI[of _ "[]"])
    next
      case (added e)
      have "fst ` set (he_diff e) = fst ` set D" unfolding added(6) by (metis keys_stored_diff list.set_map)
      then show ?thesis using changed added(2,4)
        by (auto simp: changes_recorded_def entries_of_def with_entry_def intro!: exI[of _ "[e]"])
    qed
  qed
  then show "synced ?rg mdrender tn pk (save row) (s\<lparr>oc_hist := h1, oc_version := versions\<rparr>)"
    and "\<exists>E. entries_of ?key h1 = entries_of ?key (oc_hist s) @ E \<and> length E \<le> 1
      \<and> changes_recorded mdrender tn row (save row) E"
    using after save tn synced by (simp_all add: synced_def)
qed

lemma updated:
  assumes run: "update_object (history_registry mdrender m) tn pk project data comment user save s = (r, s')"
    and synced: "synced (history_registry mdrender m) mdrender tn pk row s"
    and save: "stored_row (save row) \<and> typename_of (save row) = typename_of row"
  shows "r = Inr x \<Longrightarrow> validate_version (make_key tn pk) (oc_version s tn pk) data (oc_hist s) = Inr ()"
    and "s' = s \<or> synced (history_registry mdrender m) mdrender tn pk (save row) s'
        \<and> oc_version s' tn pk = oc_version s tn pk + 1
        \<and> (\<exists>E. entries_of (make_key tn pk) (oc_hist s') = entries_of (make_key tn pk) (oc_hist s) @ E \<and> length E \<le> 1
            \<and> changes_recorded mdrender tn row (save row) E)"
proof -
  let ?rg = "history_registry mdrender m" and ?key = "make_key tn pk"
  let ?h = "(oc_hist s)\<lparr>h_rows := (h_rows (oc_hist s))(tn := (h_rows (oc_hist s) tn)(pk := Some (save row)))\<rparr>"
  let ?versions = "(oc_version s)(tn := (oc_version s tn)(pk := oc_version s tn pk + 1))"
  have row: "h_rows (oc_hist s) tn pk = Some row" using synced by (simp add: synced_def)
  obtain r1 h1 where snap: "take_snapshot ?rg tn pk project comment user False ?h = (r1, h1)"
    by (cases "take_snapshot ?rg tn pk project comment user False ?h")
  have run': "update_object ?rg tn pk project data comment user save s =
    (case validate_version ?key (oc_version s tn pk) data (oc_hist s) of
       Inl e \<Rightarrow> (Inl e, s)
     | Inr _ \<Rightarrow> (case r1 of Inl e \<Rightarrow> (Inl e, s) | Inr x \<Rightarrow> (Inr x, s\<lparr>oc_hist := h1, oc_version := ?versions\<rparr>)))"
    by (simp add: update_object_def atomicE_apply row Let_def snap split: sum.split)
  show "r = Inr x \<Longrightarrow> validate_version ?key (oc_version s tn pk) data (oc_hist s) = Inr ()"
    using run unfolding run' by (auto split: sum.splits)
  show "s' = s \<or> synced ?rg mdrender tn pk (save row) s' \<and> oc_version s' tn pk = oc_version s tn pk + 1
        \<and> (\<exists>E. entries_of ?key (oc_hist s') = entries_of ?key (oc_hist s) @ E \<and> length E \<le> 1
            \<and> changes_recorded mdrender tn row (save row) E)"
  proof (cases "s' = s")
    case False
    then obtain x where x: "r1 = Inr x" "s' = s\<lparr>oc_hist := h1, oc_version := ?versions\<rparr>"
      using run unfolding run' by (auto split: sum.splits)
    note snapped = resnapped[where save = save, OF synced save snap[unfolded x(1)]]
    show ?thesis using snapped(1)[of ?versions] snapped(2) by (simp add: x(2))
  qed simp
qed

lemma past_the_view_run:
  assumes run: "unversioned_change (history_registry mdrender m) tn pk project comment user change s = (Inr x, s')"
    and synced: "synced (history_registry mdrender m) mdrender tn pk row s"
    and change: "stored_row (change row) \<and> typename_of (change row) = typename_of row"
  shows "synced (history_registry mdrender m) mdrender tn pk (change row) s' \<and> oc_version s' = oc_version s
        \<and> (\<exists>E. entries_of (make_key tn pk) (oc_hist s') = entries_of (make_key tn pk) (oc_hist s) @ E \<and> length E \<le> 1
            \<and> changes_recorded mdrender tn row (change row) E)"
proof -
  let ?rg = "history_registry mdrender m"
  let ?h = "(oc_hist s)\<lparr>h_rows := (h_rows (oc_hist s))(tn := (h_rows (oc_hist s) tn)(pk := Some (change row)))\<rparr>"
  have row: "h_rows (oc_hist s) tn pk = Some row" using synced by (simp add: synced_def)
  obtain h1 where snap: "take_snapshot ?rg tn pk project comment user False ?h = (Inr x, h1)" and s': "s' = s\<lparr>oc_hist := h1\<rparr>"
    using run by (auto simp: unversioned_change_def row Let_def split: prod.splits)
  note snapped = resnapped[where save = change, OF synced change snap]
  show ?thesis using snapped(1)[of "oc_version s"] snapped(2) by (simp add: s')
qed

text \<open>
  After any number of steps: the fields that differ from the start are in the diffs of the entries
  added since, which come after the \<open>n0\<close> entries there were.
\<close>

definition tracked :: "object_row registry \<Rightarrow> (int \<Rightarrow> string \<Rightarrow> string) \<Rightarrow> string \<Rightarrow> int \<Rightarrow> object_row \<Rightarrow> nat \<Rightarrow> object_row occ \<Rightarrow> bool" where
  "tracked rg mdrender tn pk row0 n0 s \<longleftrightarrow> (\<exists>row A E. synced rg mdrender tn pk row s
     \<and> entries_of (make_key tn pk) (oc_hist s) = A @ E \<and> length A = n0 \<and> changes_recorded mdrender tn row0 row E)"

lemma tracked_more:
  assumes "entries_of (make_key tn pk) (oc_hist s) = A @ E" and "length A = n0" and "changes_recorded mdrender tn row0 row E"
    and "synced rg mdrender tn pk row' s'" and "entries_of (make_key tn pk) (oc_hist s') = entries_of (make_key tn pk) (oc_hist s) @ E'"
    and "changes_recorded mdrender tn row row' E'"
  shows "tracked rg mdrender tn pk row0 n0 s'"
  unfolding tracked_def
  by (intro exI[of _ row'] exI[of _ A] exI[of _ "E @ E'"])
    (use assms changes_recorded_trans[OF assms(3,6)] in simp)

lemma tracked_step:
  assumes step: "occ_step (history_registry mdrender m) tn pk s s'"
    and tr: "tracked (history_registry mdrender m) mdrender tn pk row0 n0 s"
  shows "tracked (history_registry mdrender m) mdrender tn pk row0 n0 s'"
proof -
  let ?rg = "history_registry mdrender m" and ?key = "make_key tn pk"
  obtain row A E where sy: "synced ?rg mdrender tn pk row s" and E: "entries_of ?key (oc_hist s) = A @ E"
    and len: "length A = n0" and diff: "changes_recorded mdrender tn row0 row E"
    using tr unfolding tracked_def by blast
  have ok: "history_ok (oc_hist s)" and row: "h_rows (oc_hist s) tn pk = Some row" using sy by (simp_all add: synced_def)
  note more = tracked_more[OF E len diff]
  from step show ?thesis
  proof cases
    case (update save project data comment user)
    obtain r where run: "update_object ?rg tn pk project data comment user save s = (r, s')"
      using update(1) by (cases "update_object ?rg tn pk project data comment user save s") auto
    show ?thesis using updated(2)[OF run sy update(2)[OF row]] more tr by blast
  next
    case (past_the_view change project comment user x)
    show ?thesis using past_the_view_run[OF past_the_view(2) sy past_the_view(1)[OF row]] more by blast
  next
    case (comments f)
    have okf: "history_ok (annotated f (oc_hist s))" by (rule annotated_ok[OF comments(2) ok])
    have "entries_of ?key (annotated f (oc_hist s)) = map f (entries_of ?key (oc_hist s))"
      unfolding entries_of_def annotated_def hist.select_convs(1) hist.update_convs(1)
      by (simp, rule filter_annotated) (use comments(2) in \<open>simp add: same_record_def\<close>)
    then have E': "entries_of ?key (oc_hist s') = map f A @ map f E" using comments(1) E by simp
    have "set E \<subseteq> set (h_entries (oc_hist s))" using E unfolding entries_of_def by (metis Un_upper2 filter_is_subset order_trans set_append)
    then have same: "he_diff (f e) = he_diff e" if "e \<in> set E" for e using that comments(2) by (auto simp: same_record_def)
    have "synced ?rg mdrender tn pk row s'"
      using sy okf last_known_annotated[OF comments(2) ok] comments(1) by (simp add: synced_def annotated_def)
    moreover have "changes_recorded mdrender tn row0 row (map f E)" using diff same by (simp add: changes_recorded_def)
    ultimately show ?thesis unfolding tracked_def using E' len by (intro exI[of _ row] exI[of _ "map f A"] exI[of _ "map f E"]) simp
  next
    case elsewhere
    have "last_known ?rg tn pk (oc_hist s') = last_known ?rg tn pk (oc_hist s)"
      by (rule last_known_same_entries[OF ok elsewhere(1,4)])
    then have "synced ?rg mdrender tn pk row s'" using sy elsewhere(1,2) by (simp add: synced_def)
    then show ?thesis using E len diff elsewhere(4) unfolding tracked_def by auto
  qed
qed

lemma tracked_start:
  "synced rg mdrender tn pk row s \<Longrightarrow> tracked rg mdrender tn pk row (length (entries_of (make_key tn pk) (oc_hist s))) s"
  unfolding tracked_def changes_recorded_def
  by (intro exI[of _ row] exI[of _ "entries_of (make_key tn pk) (oc_hist s)"] exI[of _ "[]"]) simp

lemma tracked_steps:
  assumes "(occ_step (history_registry mdrender m) tn pk)\<^sup>*\<^sup>* s s'"
    and "synced (history_registry mdrender m) mdrender tn pk row s"
  shows "tracked (history_registry mdrender m) mdrender tn pk row (length (entries_of (make_key tn pk) (oc_hist s))) s'"
  using assms(1)
proof (induction rule: rtranclp_induct)
  case base
  show ?case by (rule tracked_start[OF assms(2)])
next
  case (step s1 s2)
  show ?case by (rule tracked_step[OF step(2,3)])
qed

text \<open>What an accepted version check means.\<close>

lemma version_of_request:
  "map_of data ''version'' = Some (VInt v) \<Longrightarrow> extract_param_version data = Inr (VInt v)"
  by (simp add: extract_param_version_def py_truth_def py_int_def Let_def)

lemma version_valid: "validate_param_version (VInt v) (Some c) = Inr (0 \<le> v \<and> v \<le> c)"
  by (auto simp: validate_param_version_def)

lemma version_accepted:
  assumes "validate_version key c data h = Inr ()" and "map_of data ''version'' = Some (VInt v)"
  shows "c = v \<or> v \<le> c \<and> (set (map fst data) - {''version''}) \<inter> set (get_modified_fields key (nat (c - v)) h) = {}"
proof (cases "c = v")
  case False
  define M where "M = set (map fst data) - {''version''}"
  define F where "F = set (get_modified_fields key (nat (c - v)) h)"
  have no: "''version'' \<notin> M" by (simp add: M_def)
  have "validate_version key c data h = (if \<not> (0 \<le> v \<and> v \<le> c) then Inl (WrongArguments ''The version parameter is not valid'')
      else if M \<inter> F \<noteq> {} then Inl (WrongArguments ''The version doesn't match with the current one'') else Inr ())"
    unfolding validate_version_def version_of_request[OF assms(2)] sum.case version_valid version_number_def pyval.case Let_def
      M_def[symmetric] F_def[symmetric] if_not_P[OF no] using False by simp
  then show ?thesis using assms(1) unfolding M_def[symmetric] F_def[symmetric] by (auto split: if_splits)
qed simp

section \<open>What is not recorded\<close>

lemma excluded_not_in_diff: "make_diff old new X = Inr D \<Longrightarrow> k \<in> X \<Longrightarrow> k \<noteq> ''attachments'' \<Longrightarrow> k \<notin> fst ` set D"
  by (force simp: make_diff_def make_diff_from_dicts_def Let_def split: option.splits sum.splits)

lemma make_key_type: "make_key tn pk = make_key tn' pk' \<Longrightarrow> tn = tn'"
  using rsplit_make_key[of tn pk] rsplit_make_key[of tn' pk'] by simp

definition without_excluded :: "'o hist \<Rightarrow> bool" where
  "without_excluded h \<longleftrightarrow> (\<forall>e \<in> set (h_entries h). \<forall>tn pk. he_key e = make_key tn pk \<longrightarrow>
     fst ` set (he_diff e) \<inter> get_excluded_fields tn = {})"

lemma step_without_excluded:
  assumes "history_step rg h h'" and "without_excluded h"
  shows "without_excluded h'"
  using assms(1)
proof cases
  case (annotate f)
  then show ?thesis using assms(2) by (auto simp: without_excluded_def annotated_def same_record_def)
next
  case (snapshot tn pk project comment user delete)
  obtain r where run: "take_snapshot rg tn pk project comment user delete h = (r, h')"
    using snapshot by (cases "take_snapshot rg tn pk project comment user delete h") auto
  show ?thesis
  proof (cases r)
    case (Inl e)
    then show ?thesis using failed_snapshot run assms(2) by fast
  next
    case (Inr x)
    obtain ob f where ob: "h_rows h tn pk = Some ob" "rg_freeze rg tn = Some f"
      using snapshot_needs_row[OF run[unfolded Inr]] by blast
    show ?thesis
    proof (rule take_snapshot_cases[OF run[unfolded Inr] ob])
      fix raw need old D
      assume D: "make_diff old (Some \<lparr>fo_key = make_key tn pk, fo_snapshot = f ob\<rparr>) (get_excluded_fields tn) = Inr D"
        and res: "snapshot_result (make_key tn pk) (f ob) need old D comment delete h x h'"
      from res show ?thesis
      proof (cases rule: snapshot_resultE)
        case (added e)
        have "fst ` set (he_diff e) = fst ` set D" unfolding added(6) by (metis keys_stored_diff list.set_map)
        then have "fst ` set (he_diff e) \<inter> get_excluded_fields tn = {}"
          using excluded_not_in_diff[OF D] by (auto simp: get_excluded_fields_def split: if_splits)
        then have "fst ` set (he_diff e) \<inter> get_excluded_fields tn' = {}" if "he_key e = make_key tn' pk'" for tn' pk'
          using make_key_type[of tn pk tn' pk'] that added(4) by simp
        then have "\<forall>tn pk. he_key e = make_key tn pk \<longrightarrow> fst ` set (he_diff e) \<inter> get_excluded_fields tn = {}" by blast
        then show ?thesis using assms(2) added(2) unfolding without_excluded_def with_entry_def by auto
      qed (use assms(2) in simp)
    qed
  qed
qed (use assms(2) in \<open>simp_all add: without_excluded_def\<close>)

lemma modified_field:
  "k \<in> set (get_modified_fields key n h) \<Longrightarrow> \<exists>e \<in> set (h_entries h). he_key e = key \<and> (\<exists>v w. (k, v, w) \<in> set (he_diff e))"
  by (auto simp: get_modified_fields_def dest!: in_set_takeD, blast)

text \<open>
  The user a story is assigned to is a deprecated field, in no diff: whatever happened to it since,
  an update that sets it from an old version is accepted.
\<close>

theorem story_assignment_unprotected:
  assumes "(history_step rg)\<^sup>*\<^sup>* empty_history h" and "0 \<le> v" and "v \<le> c"
  shows "validate_version (make_key ''userstories.userstory'' pk) c [(''version'', VInt v), (''assigned_to'', VInt u)] h = Inr ()"
proof -
  have inv: "without_excluded h"
    using assms(1)
    by (induction rule: rtranclp_induct) (auto intro: step_without_excluded, simp add: without_excluded_def empty_history_def)
  have no: "''assigned_to'' \<notin> set (get_modified_fields (make_key ''userstories.userstory'' pk) n h)" for n
  proof
    assume "''assigned_to'' \<in> set (get_modified_fields (make_key ''userstories.userstory'' pk) n h)"
    from modified_field[OF this] obtain e where "e \<in> set (h_entries h)" "he_key e = make_key ''userstories.userstory'' pk"
      "''assigned_to'' \<in> fst ` set (he_diff e)" by force
    then show False using inv unfolding without_excluded_def get_excluded_fields_def by fastforce
  qed
  have keys: "set (map fst [(''version'', VInt v), (''assigned_to'', VInt u)]) - {''version''} = {''assigned_to''}" by auto
  have version: "map_of [(''version'', VInt v), (''assigned_to'', VInt u)] ''version'' = Some (VInt v)" by simp
  show ?thesis
    unfolding validate_version_def version_of_request[OF version] sum.case version_valid version_number_def pyval.case Let_def keys
    using assms(2,3) no by simp
qed

text \<open>An empty version is neither converted nor refused: comparing it with 0 raises \<open>TypeError\<close>.\<close>

theorem empty_version_fails: "validate_version key c [(''version'', VStr [])] h = Inl TypeError"
  by (simp add: validate_version_def extract_param_version_def py_truth_def validate_param_version_def)

section \<open>Changes past the view\<close>

text \<open>
  The check reads as many entries as the version has grown. A snapshot that does not bump the
  version pushes an older one out of sight: an update from the version before a change is accepted
  although it sets a field of that change, when the snapshot itself is about other fields.
\<close>

theorem unversioned_snapshot_hides_update:
  assumes "history_ok h" and "entries_of key h = A @ [e1, e2]"
    and "map_of data ''version'' = Some (VInt v)" and "0 \<le> v"
    and "k \<in> fst ` set (he_diff e1)" and "k \<in> set (map fst data) - {''version''}"
    and "(set (map fst data) - {''version''}) \<inter> fst ` set (he_diff e2) = {}"
  shows "validate_version key (v + 1) data h = Inr ()
    \<and> k \<in> (set (map fst data) - {''version''}) \<inter> set (get_modified_fields key 2 h)"
proof -
  have one: "set (get_modified_fields key 1 h) = fst ` set (he_diff e2)"
    and two: "set (get_modified_fields key 2 h) = fst ` set (he_diff e2) \<union> fst ` set (he_diff e1)"
    unfolding modified_fields_eq[OF assms(1)] assms(2) by (simp_all add: numeral_2_eq_2)
  have version: "validate_param_version (VInt v) (Some (v + 1)) = Inr True" using assms(4) by (simp add: version_valid)
  have "''version'' \<notin> set (map fst data) - {''version''}" by simp
  then have "validate_version key (v + 1) data h = Inr ()"
    unfolding validate_version_def version_of_request[OF assms(3)] sum.case version version_number_def pyval.case Let_def
    using assms(7) one by simp
  then show ?thesis using two assms(5,6) by blast
qed

text \<open>A change of the subject, then a kanban move.\<close>

definition hiding_entry :: "nat \<Rightarrow> string \<Rightarrow> entry" where
  "hiding_entry i field = \<lparr>he_id = i, he_project_id = 1, he_user = (Some 7, ''Ann''), he_created_at = int i, he_type = Change,
     he_key = ''userstories.userstory:3'', he_diff = [(field, JNull, JNull)], he_snapshot = None, he_values = [], he_comment = [],
     he_comment_html = [], he_delete_comment_date = None, he_delete_comment_user = None,
     he_comment_versions = None, he_edit_comment_date = None, he_is_hidden = False, he_is_snapshot = False\<rparr>"

theorem unversioned_snapshot_hides_update_witness:
  "validate_version ''userstories.userstory:3'' (4 + 1) [(''version'', VInt 4), (''subject'', VStr ''new'')]
     (\<lparr>h_entries = [hiding_entry 0 ''subject'', hiding_entry 1 ''kanban_order''], h_rows = (\<lambda>_ _. None),
       h_names = no_names, h_now = 9\<rparr> :: object_row hist) = Inr ()"
proof -
  let ?h = "\<lparr>h_entries = [hiding_entry 0 ''subject'', hiding_entry 1 ''kanban_order''], h_rows = (\<lambda>_ _. None),
      h_names = no_names, h_now = 9\<rparr> :: object_row hist"
  have "history_ok ?h" by (simp add: history_ok_def hiding_entry_def)
  moreover have "entries_of ''userstories.userstory:3'' ?h = [] @ [hiding_entry 0 ''subject'', hiding_entry 1 ''kanban_order'']"
    by (simp add: entries_of_def hiding_entry_def)
  moreover have "(set (map fst [(''version'', VInt 4), (''subject'', VStr ''new'')]) - {''version''}) = {''subject''}" by auto
  moreover have "fst ` set (he_diff (hiding_entry i field)) = {field}" for i field by (simp add: hiding_entry_def)
  moreover have "map_of [(''version'', VInt 4), (''subject'', VStr ''new'')] ''version'' = Some (VInt 4)" by simp
  ultimately show ?thesis
    using unversioned_snapshot_hides_update[of ?h "''userstories.userstory:3''" "[]" "hiding_entry 0 ''subject''"
        "hiding_entry 1 ''kanban_order''" "[(''version'', VInt 4), (''subject'', VStr ''new'')]" 4 "''subject''"]
    by (simp del: set_map list.map)
qed

section \<open>An example\<close>

definition demo_occ :: "object_row occ" where
  "demo_occ = \<lparr>oc_hist = demo_taken demo_page, oc_version = (\<lambda>_ _. 1)\<rparr>"

lemma demo_synced: "synced demo_registry (\<lambda>_ s. s) ''wiki.wikipage'' 3 demo_page demo_occ"
proof -
  have t: "typename_of demo_page = ''wiki.wikipage''" by (simp add: demo_page_def)
  obtain e where e: "take_snapshot demo_registry ''wiki.wikipage'' 3 1 [] (Some 7, ''Ann'') False (demo_rows demo_page)
      = (Inr (Some e), demo_taken demo_page)" using demo_run[of demo_page] unfolding t by blast
  have ok: "history_ok (demo_rows demo_page)"
    using reachable_ok[OF demo_reachable(1)] registry_dicts unfolding demo_registry_def by blast
  have row: "h_rows (demo_rows demo_page) ''wiki.wikipage'' 3 = Some demo_page" by (simp add: demo_rows_def t)
  have f: "rg_freeze demo_registry ''wiki.wikipage'' = Some (freeze_row (\<lambda>_ s. s))"
    using registered[of "\<lambda>_ s. s" 60 demo_page] by (simp add: demo_registry_def t)
  have p: "plain ''wiki.wikipage'' (freeze_row (\<lambda>_ s. s) demo_page)"
    using frozen_plain[of demo_page "\<lambda>_ s. s"] by (simp add: demo_page_def)
  have stored: "stored_row demo_page" by (simp add: demo_page_def)
  have rows: "h_rows (demo_taken demo_page) = h_rows (demo_rows demo_page)"
    using snapshot_adds[OF ok e] registry_dicts unfolding demo_registry_def by (auto simp: with_entry_def)
  show ?thesis
    using known_after[OF ok e row f p] row t stored by (simp add: synced_def demo_occ_def rows)
qed

section \<open>Properties\<close>

text \<open>C14: No lost updates, as long as every change bumps the version. Let a client see an object whose
  history is up to date; then any updates are accepted or refused, the object is changed past the
  view with snapshots that leave the version alone, comments are changed, and anything is done to
  other objects. If an update the client makes from the version it saw is accepted, and the object
  got no more history entries since than versions (so when every change since went through the
  view, which adds at most one entry to each version), then every recorded field it sets still has
  the value the client saw. Not recorded are attachments and the deprecated fields. The condition
  on the entries is needed: see \<open>unversioned_snapshot_hides_update\<close>.\<close>

theorem occ_no_lost_updates:
  assumes "synced (history_registry mdrender m) mdrender tn pk row s"
    and "(occ_step (history_registry mdrender m) tn pk)\<^sup>*\<^sup>* s s'"
    and "map_of data ''version'' = Some (VInt (oc_version s tn pk))"
    and "update_object (history_registry mdrender m) tn pk project data comment user save s' = (Inr x, s'')"
    and "stored_row (save row')" and "typename_of (save row') = typename_of row'" and "h_rows (oc_hist s') tn pk = Some row'"
    and "int (length (entries_of (make_key tn pk) (oc_hist s'))) - int (length (entries_of (make_key tn pk) (oc_hist s)))
       \<le> oc_version s' tn pk - oc_version s tn pk"
    and "k \<in> set (map fst data) - {''version''}" and "recorded tn k"
  shows "value_at (freeze_row mdrender row') k = value_at (freeze_row mdrender row) k"
proof (rule ccontr)
  let ?rg = "history_registry mdrender m" and ?key = "make_key tn pk" and ?v = "oc_version s tn pk"
  assume ne: "value_at (freeze_row mdrender row') k \<noteq> value_at (freeze_row mdrender row) k"
  obtain row1 A E where sy: "synced ?rg mdrender tn pk row1 s'" and E: "entries_of ?key (oc_hist s') = A @ E"
    and A: "length A = length (entries_of ?key (oc_hist s))" and diff: "changes_recorded mdrender tn row row1 E"
    using tracked_steps[OF assms(2,1)] unfolding tracked_def by blast
  have len: "int (length E) \<le> oc_version s' tn pk - ?v" using assms(8) E A by simp
  have same: "row1 = row'" and ok: "history_ok (oc_hist s')" using sy assms(7) by (simp_all add: synced_def)
  obtain e where e: "e \<in> set E" "k \<in> fst ` set (he_diff e)"
    using changes_recordedD[OF diff assms(10)] ne same by blast
  have "validate_version ?key (oc_version s' tn pk) data (oc_hist s') = Inr ()"
    using updated(1)[OF assms(4) sy] assms(5,6) same by blast
  note accepted = version_accepted[OF this assms(3)]
  have "length E \<noteq> 0" using e(1) by auto
  then have "oc_version s' tn pk \<noteq> ?v" using len by auto
  then have disjoint: "(set (map fst data) - {''version''}) \<inter> set (get_modified_fields ?key (nat (oc_version s' tn pk - ?v)) (oc_hist s')) = {}"
    using accepted by blast
  have "e \<in> set (take (nat (oc_version s' tn pk - ?v)) (rev (entries_of ?key (oc_hist s'))))"
    using e(1) len by (simp add: E nat_le_iff)
  then have "k \<in> set (get_modified_fields ?key (nat (oc_version s' tn pk - ?v)) (oc_hist s'))"
    using e(2) unfolding modified_fields_eq[OF ok] by blast
  then show False using disjoint assms(9) by blast
qed

theorem occ_no_lost_updates_witness:
  "value_at (freeze_row (\<lambda>_ s. s) demo_page) ''content'' = value_at (freeze_row (\<lambda>_ s. s) demo_page) ''content''
   \<and> fst (update_object demo_registry ''wiki.wikipage'' 3 1 [(''version'', VInt 1), (''content'', VStr ''text'')] []
       (Some 7, ''Ann'') id demo_occ) = Inr None"
proof -
  let ?data = "[(''version'', VInt 1), (''content'', VStr ''text'')]"
  let ?run = "update_object demo_registry ''wiki.wikipage'' 3 1 ?data [] (Some 7, ''Ann'') id demo_occ"
  have t: "typename_of demo_page = ''wiki.wikipage''" by (simp add: demo_page_def)
  have row: "h_rows (oc_hist demo_occ) ''wiki.wikipage'' 3 = Some demo_page" using demo_synced by (simp add: synced_def)
  have same: "(oc_hist demo_occ)\<lparr>h_rows := (h_rows (oc_hist demo_occ))(''wiki.wikipage'' :=
      (h_rows (oc_hist demo_occ) ''wiki.wikipage'')(3 := Some (id demo_page)))\<rparr> = demo_taken demo_page"
    using row by (simp add: fun_upd_idem demo_occ_def)
  obtain e where e: "take_snapshot demo_registry ''wiki.wikipage'' 3 1 [] (Some 7, ''Ann'') False (demo_rows demo_page)
      = (Inr (Some e), demo_taken demo_page)" using demo_run[of demo_page] unfolding t by blast
  have twice: "take_snapshot demo_registry ''wiki.wikipage'' 3 1 [] (Some 7, ''Ann'') False (demo_taken demo_page)
      = (Inr None, demo_taken demo_page)"
  proof (rule plain_twice[where f = "freeze_row (\<lambda>_ s. s)" and ob = demo_page, OF demo_reachable(1) _ e])
    show "freezes_dicts demo_registry" unfolding demo_registry_def by (rule registry_dicts)
    show "plain ''wiki.wikipage'' (freeze_row (\<lambda>_ s. s) demo_page)"
      using frozen_plain[of demo_page "\<lambda>_ s. s"] by (simp add: demo_page_def)
    show "h_rows (demo_rows demo_page) ''wiki.wikipage'' 3 = Some demo_page" by (simp add: demo_rows_def t)
    show "rg_freeze demo_registry ''wiki.wikipage'' = Some (freeze_row (\<lambda>_ s. s))"
      using registered[of "\<lambda>_ s. s" 60 demo_page] by (simp add: demo_registry_def t)
  qed
  have v: "validate_version key 1 ?data h = Inr ()" for key and h :: "object_row hist"
    by (simp add: validate_version_def extract_param_version_def py_truth_def py_int_def validate_param_version_def
        version_number_def)
  obtain s'' where run: "?run = (Inr None, s'')"
    unfolding update_object_def atomicE_apply row option.case Let_def same twice by (simp add: v demo_occ_def)
  have "value_at (freeze_row (\<lambda>_ s. s) demo_page) ''content'' = value_at (freeze_row (\<lambda>_ s. s) demo_page) ''content''"
  proof (rule occ_no_lost_updates[OF demo_synced[unfolded demo_registry_def] rtranclp.rtrancl_refl _ run[unfolded demo_registry_def] _ _ row])
    show "map_of ?data ''version'' = Some (VInt (oc_version demo_occ ''wiki.wikipage'' 3))" by (simp add: demo_occ_def)
    show "stored_row (id demo_page)" by (simp add: demo_page_def)
  qed (simp_all add: recorded_def get_excluded_fields_def)
  then show ?thesis by (simp add: run)
qed

end
